(* ===== verification/Prelude.thy ===== *)
theory Prelude
  imports Main "HOL-Library.Word" "HOL-Library.AList" "HOL-Library.Char_ord" "HOL-Library.List_Lexorder"
begin

text \<open>
  Shared vocabulary of the development: the theorem collections, the model of the Rust standard
  library the sources use (strings as UTF-8 byte strings, \<open>HashMap\<close> as an association list with
  distinct keys, \<open>Vec\<close> positions, decimal and hexadecimal rendering, integer casts), and the
  generic lemmas that the component theories rely on.

  A Rust \<open>String\<close> is a \<open>string\<close>: the list of its UTF-8 bytes, so \<open>length\<close> is Rust's
  \<open>len()\<close>.  A \<open>Result<T, E>\<close> is \<open>'e + 'a\<close> with \<open>Inl\<close> for \<open>Err\<close>.  An \<open>i64\<close> is an \<open>int\<close>;
  where the code can wrap, the wrap-around is written out with \<open>wrap_i64\<close> or a \<open>64 word\<close>.
\<close>

named_theorems session_defs \<open>definitions of the session operations\<close>
named_theorems handler_defs \<open>definitions the tool handlers unfold to\<close>
named_theorems inv_intros \<open>operations that keep the invariant of their component\<close>

section \<open>Integers\<close>

type_synonym i64 = int
type_synonym u64 = "64 word"

definition i64_min :: int where "i64_min = - (2 ^ 63)"

definition i64_max :: int where "i64_max = 2 ^ 63 - 1"

definition in_i64 :: "int \<Rightarrow> bool" where
  "in_i64 i \<longleftrightarrow> i64_min \<le> i \<and> i \<le> i64_max"

text \<open>Two's complement wrap-around, what release builds do on overflow of \<open>+\<close>.\<close>

definition wrap_i64 :: "int \<Rightarrow> int" where
  "wrap_i64 i = (i + 2 ^ 63) mod 2 ^ 64 - 2 ^ 63"

lemma wrap_i64_in_range: "in_i64 (wrap_i64 i)"
proof -
  have "0 \<le> (i + 2 ^ 63) mod 2 ^ 64" "(i + 2 ^ 63) mod 2 ^ 64 < 2 ^ 64" by simp_all
  then show ?thesis by (simp add: in_i64_def wrap_i64_def i64_min_def i64_max_def)
qed

lemma wrap_i64_id: "in_i64 i \<Longrightarrow> wrap_i64 i = i"
  by (simp add: in_i64_def wrap_i64_def i64_min_def i64_max_def)

section \<open>Rendering of numbers\<close>

definition digit_char :: "nat \<Rightarrow> char" where
  "digit_char d = (if d < 10 then char_of (48 + d) else char_of (87 + d))"

definition digit_val :: "char \<Rightarrow> nat option" where
  "digit_val c = (let n = of_char c :: nat in
     if 48 \<le> n \<and> n \<le> 57 then Some (n - 48)
     else if 97 \<le> n \<and> n \<le> 102 then Some (n - 87)
     else if 65 \<le> n \<and> n \<le> 70 then Some (n - 55)
     else None)"

lemma digit_val_char: "d < 16 \<Longrightarrow> digit_val (digit_char d) = Some d"
  by (auto simp: digit_val_def digit_char_def Let_def)

text \<open>The digits of \<open>n\<close> in base \<open>b\<close>, most significant first (\<open>0\<close> is one digit).\<close>

function radix_digits :: "nat \<Rightarrow> nat \<Rightarrow> nat list" where
  "radix_digits b n = (if b < 2 \<or> n < b then [n] else radix_digits b (n div b) @ [n mod b])"
  by pat_completeness auto
termination
  by (relation "measure snd") auto

declare radix_digits.simps [simp del]

definition radix_value :: "nat \<Rightarrow> nat list \<Rightarrow> nat" where
  "radix_value b ds = foldl (\<lambda>acc d. acc * b + d) 0 ds"

lemma radix_value_snoc [simp]: "radix_value b (ds @ [d]) = radix_value b ds * b + d"
  by (simp add: radix_value_def)

lemma radix_value_digits: "radix_value b (radix_digits b n) = n"
proof (induction b n rule: radix_digits.induct)
  case (1 b n)
  then show ?case
    by (subst radix_digits.simps) (auto simp: radix_value_def)
qed

lemma radix_digits_less: "2 \<le> b \<Longrightarrow> d \<in> set (radix_digits b n) \<Longrightarrow> d < b"
proof (induction b n rule: radix_digits.induct)
  case (1 b n)
  show ?case
  proof (cases "n < b")
    case True
    with "1.prems" show ?thesis by (subst (asm) radix_digits.simps) simp
  next
    case False
    then have "radix_digits b n = radix_digits b (n div b) @ [n mod b]"
      using "1.prems"(1) by (subst radix_digits.simps) simp
    with "1.prems" False "1.IH" show ?thesis by auto
  qed
qed

lemma radix_digits_nonempty [simp]: "radix_digits b n \<noteq> []"
  by (subst radix_digits.simps) simp

definition show_nat :: "nat \<Rightarrow> string" where
  "show_nat n = map digit_char (radix_digits 10 n)"

definition show_int :: "int \<Rightarrow> string" where
  "show_int i = (if i < 0 then CHR ''-'' # show_nat (nat (- i)) else show_nat (nat i))"

definition show_hex :: "nat \<Rightarrow> string" where
  "show_hex n = map digit_char (radix_digits 16 n)"

text \<open>\<open>format!("{:0wx}")\<close>: at least \<open>w\<close> columns, padded with zeros on the left.\<close>

definition pad_left :: "nat \<Rightarrow> char \<Rightarrow> string \<Rightarrow> string" where
  "pad_left w c s = replicate (w - length s) c @ s"

definition show_hex_pad :: "nat \<Rightarrow> nat \<Rightarrow> string" where
  "show_hex_pad w n = pad_left w (CHR ''0'') (show_hex n)"

text \<open>
  \<open>u64::from_str_radix\<close> and \<open>str::parse\<close> for the unsigned types: an optional leading \<open>+\<close>, at
  least one digit, and the first offending character decides which error is reported.
\<close>

datatype int_error = EmptyInt | InvalidDigit | PosOverflow

fun int_error_text :: "int_error \<Rightarrow> string" where
  "int_error_text EmptyInt = ''cannot parse integer from empty string''"
| "int_error_text InvalidDigit = ''invalid digit found in string''"
| "int_error_text PosOverflow = ''number too large to fit in target type''"

fun parse_digits :: "nat \<Rightarrow> nat \<Rightarrow> nat \<Rightarrow> string \<Rightarrow> int_error + nat" where
  "parse_digits b mx acc [] = Inr acc"
| "parse_digits b mx acc (c # cs) =
     (case digit_val c of
        None \<Rightarrow> Inl InvalidDigit
      | Some d \<Rightarrow>
          if b \<le> d then Inl InvalidDigit
          else if mx < acc * b + d then Inl PosOverflow
          else parse_digits b mx (acc * b + d) cs)"

fun parse_uint :: "nat \<Rightarrow> nat \<Rightarrow> string \<Rightarrow> int_error + nat" where
  "parse_uint b mx [] = Inl EmptyInt"
| "parse_uint b mx (c # cs) =
     (if (c = CHR ''+'' \<or> c = CHR ''-'') \<and> cs = [] then Inl InvalidDigit
      else if c = CHR ''+'' then parse_digits b mx 0 cs
      else parse_digits b mx 0 (c # cs))"

lemma foldl_digits_ge: "1 \<le> b \<Longrightarrow> acc \<le> foldl (\<lambda>a d. a * b + d) acc ds" for acc b :: nat
proof (induction ds arbitrary: acc)
  case (Cons d ds)
  have "acc \<le> acc * b + d" using Cons.prems by (cases b) auto
  also have "\<dots> \<le> foldl (\<lambda>a d. a * b + d) (acc * b + d) ds" by (rule Cons.IH) fact
  finally show ?case by simp
qed simp

lemma parse_digits_render:
  assumes "1 \<le> b" "b \<le> 16" "\<forall>d \<in> set ds. d < b" "foldl (\<lambda>a d. a * b + d) acc ds \<le> mx"
  shows "parse_digits b mx acc (map digit_char ds) = Inr (foldl (\<lambda>a d. a * b + d) acc ds)"
  using assms(3,4)
proof (induction ds arbitrary: acc)
  case (Cons d ds)
  have "acc * b + d \<le> mx"
    using foldl_digits_ge [OF assms(1), of "acc * b + d" ds] Cons.prems(2) by simp
  with Cons assms(2) show ?case by (simp add: digit_val_char)
qed simp

lemma digit_char_not_sign: "d < 16 \<Longrightarrow> digit_char d \<noteq> CHR ''+'' \<and> digit_char d \<noteq> CHR ''-''"
  using digit_val_char [of d] by (auto simp: digit_val_def Let_def)

lemma parse_uint_render:
  assumes "1 \<le> b" "b \<le> 16" "ds \<noteq> []" "\<forall>d \<in> set ds. d < b" "radix_value b ds \<le> mx"
  shows "parse_uint b mx (map digit_char ds) = Inr (radix_value b ds)"
proof -
  obtain d ds' where ds: "ds = d # ds'" using assms(3) by (cases ds) auto
  with assms(2,4) have "digit_char d \<noteq> CHR ''+''" "digit_char d \<noteq> CHR ''-''"
    using digit_char_not_sign [of d] by auto
  then show ?thesis
    using parse_digits_render [of b ds 0 mx] assms
    by (simp add: ds radix_value_def del: parse_digits.simps)
qed

lemma parse_uint_radix:
  "2 \<le> b \<Longrightarrow> b \<le> 16 \<Longrightarrow> n \<le> mx \<Longrightarrow> parse_uint b mx (map digit_char (radix_digits b n)) = Inr n"
  using parse_uint_render [of b "radix_digits b n" mx] radix_digits_less [of b _ n]
  by (simp add: radix_value_digits)

section \<open>Strings\<close>

definition starts_with :: "string \<Rightarrow> string \<Rightarrow> bool" where
  "starts_with p s \<longleftrightarrow> take (length p) s = p"

definition strip_prefix :: "string \<Rightarrow> string \<Rightarrow> string option" where
  "strip_prefix p s = (if starts_with p s then Some (drop (length p) s) else None)"

lemma starts_with_append [simp]: "starts_with p (p @ s)"
  by (simp add: starts_with_def)

lemma strip_prefix_append [simp]: "strip_prefix p (p @ s) = Some s"
  by (simp add: strip_prefix_def)

lemma strip_prefix_SomeD: "strip_prefix p s = Some r \<Longrightarrow> s = p @ r"
  by (auto simp: strip_prefix_def starts_with_def split: if_splits) (metis append_take_drop_id)

text \<open>\<open>str::find\<close>: the byte index of the first occurrence.\<close>

fun str_find :: "string \<Rightarrow> string \<Rightarrow> nat option" where
  "str_find p [] = (if p = [] then Some 0 else None)"
| "str_find p (c # s) = (if starts_with p (c # s) then Some 0 else map_option Suc (str_find p s))"

definition str_contains :: "string \<Rightarrow> string \<Rightarrow> bool" where
  "str_contains p s \<longleftrightarrow> str_find p s \<noteq> None"

text \<open>The two quote characters, for texts that end in one.\<close>

abbreviation sq :: char where "sq \<equiv> CHR 0x27"
abbreviation dq :: char where "dq \<equiv> CHR 0x22"

text \<open>\<open>split_once(c)\<close> for a one-byte pattern.\<close>

fun split_once :: "char \<Rightarrow> string \<Rightarrow> (string \<times> string) option" where
  "split_once c [] = None"
| "split_once c (d # s) =
     (if d = c then Some ([], s) else map_option (\<lambda>(a, b). (d # a, b)) (split_once c s))"

lemma split_once_append: "c \<notin> set a \<Longrightarrow> split_once c (a @ c # b) = Some (a, b)"
  by (induction a) auto

fun join_with :: "string \<Rightarrow> string list \<Rightarrow> string" where
  "join_with sep [] = []"
| "join_with sep [x] = x"
| "join_with sep (x # y # xs) = x @ sep @ join_with sep (y # xs)"

lemma snd_eqD: "f = (a, b) \<Longrightarrow> b = snd f"
  by simp

section \<open>Vectors\<close>

text \<open>\<open>iter().position(p)\<close> and \<open>Vec::remove\<close>; removing at the first match is \<open>remove_first\<close>.\<close>

fun position :: "('a \<Rightarrow> bool) \<Rightarrow> 'a list \<Rightarrow> nat option" where
  "position p [] = None"
| "position p (x # xs) = (if p x then Some 0 else map_option Suc (position p xs))"

definition vec_remove :: "nat \<Rightarrow> 'a list \<Rightarrow> 'a list" where
  "vec_remove i xs = take i xs @ drop (Suc i) xs"

fun remove_first :: "('a \<Rightarrow> bool) \<Rightarrow> 'a list \<Rightarrow> 'a list" where
  "remove_first p [] = []"
| "remove_first p (x # xs) = (if p x then xs else x # remove_first p xs)"

definition remove_position :: "('a \<Rightarrow> bool) \<Rightarrow> 'a list \<Rightarrow> 'a list" where
  "remove_position p xs = (case position p xs of None \<Rightarrow> xs | Some i \<Rightarrow> vec_remove i xs)"

lemma remove_position_eq: "remove_position p xs = remove_first p xs"
proof (induction xs)
  case (Cons x xs)
  then show ?case
    by (cases "position p xs") (auto simp: remove_position_def vec_remove_def)
qed (simp add: remove_position_def)

lemma remove_first_none: "\<forall>x \<in> set xs. \<not> p x \<Longrightarrow> remove_first p xs = xs"
  by (induction xs) auto

lemma length_remove_first:
  "length (remove_first p xs) = (if \<exists>x \<in> set xs. p x then length xs - 1 else length xs)"
proof (induction xs)
  case (Cons x xs)
  then show ?case by (cases xs) auto
qed simp

lemma remove_first_snoc_new: "\<forall>x \<in> set xs. \<not> p x \<Longrightarrow> p y \<Longrightarrow> remove_first p (xs @ [y]) = xs"
  by (induction xs) auto

lemma set_remove_first_subset: "set (remove_first p xs) \<subseteq> set xs"
  by (induction xs) auto

lemma find_append: "find p (xs @ ys) = (case find p xs of None \<Rightarrow> find p ys | Some x \<Rightarrow> Some x)"
  by (induction xs) auto

section \<open>Hash maps\<close>

text \<open>
  A \<open>HashMap\<close> is an association list with distinct keys.  Its order stands for the iteration
  order of the map, which Rust leaves unspecified: a property that holds for every list with
  distinct keys holds for every iteration order.
\<close>

type_synonym ('k, 'v) hashmap = "('k \<times> 'v) list"

definition hm_ok :: "('k, 'v) hashmap \<Rightarrow> bool" where
  "hm_ok m \<longleftrightarrow> distinct (map fst m)"

definition hm_get :: "('k, 'v) hashmap \<Rightarrow> 'k \<Rightarrow> 'v option" where
  "hm_get m k = map_of m k"

definition hm_insert :: "'k \<Rightarrow> 'v \<Rightarrow> ('k, 'v) hashmap \<Rightarrow> ('k, 'v) hashmap" where
  "hm_insert k v m = AList.update k v m"

definition hm_remove :: "'k \<Rightarrow> ('k, 'v) hashmap \<Rightarrow> ('k, 'v) hashmap" where
  "hm_remove k m = AList.delete k m"

definition hm_values :: "('k, 'v) hashmap \<Rightarrow> 'v list" where
  "hm_values m = map snd m"

definition hm_keys :: "('k, 'v) hashmap \<Rightarrow> 'k list" where
  "hm_keys m = map fst m"

text \<open>\<open>m.get(k).cloned().unwrap_or_default()\<close> for a list-valued map, and
  \<open>m.entry(k).or_default().extend(xs)\<close> (\<open>push\<close> is the case of one element).\<close>

definition hm_list :: "('k, 'v list) hashmap \<Rightarrow> 'k \<Rightarrow> 'v list" where
  "hm_list m k = (case hm_get m k of None \<Rightarrow> [] | Some xs \<Rightarrow> xs)"

definition hm_extend :: "'k \<Rightarrow> 'v list \<Rightarrow> ('k, 'v list) hashmap \<Rightarrow> ('k, 'v list) hashmap" where
  "hm_extend k xs m = hm_insert k (hm_list m k @ xs) m"

lemma hm_get_Nil [simp]: "hm_get [] k = None"
  by (simp add: hm_get_def)

lemma hm_get_insert [simp]: "hm_get (hm_insert k v m) k' = (if k' = k then Some v else hm_get m k')"
  by (simp add: hm_get_def hm_insert_def update_conv')

lemma hm_get_remove [simp]: "hm_get (hm_remove k m) k' = (if k' = k then None else hm_get m k')"
  by (simp add: hm_get_def hm_remove_def delete_conv')

lemma hm_ok_Nil [simp]: "hm_ok []"
  by (simp add: hm_ok_def)

lemma hm_ok_insert [simp]: "hm_ok m \<Longrightarrow> hm_ok (hm_insert k v m)"
  by (simp add: hm_ok_def hm_insert_def distinct_update)

lemma hm_ok_remove [simp]: "hm_ok m \<Longrightarrow> hm_ok (hm_remove k m)"
  by (simp add: hm_ok_def hm_remove_def distinct_delete)

lemma hm_ok_extend [simp]: "hm_ok m \<Longrightarrow> hm_ok (hm_extend k xs m)"
  by (simp add: hm_extend_def)

lemma hm_list_Nil [simp]: "hm_list [] k = []"
  by (simp add: hm_list_def)

lemma hm_list_insert [simp]: "hm_list (hm_insert k v m) k' = (if k' = k then v else hm_list m k')"
  by (simp add: hm_list_def)

lemma hm_list_extend [simp]:
  "hm_list (hm_extend k xs m) k' = (if k' = k then hm_list m k @ xs else hm_list m k')"
  by (simp add: hm_extend_def)

lemma hm_get_in_values: "hm_get m k = Some v \<Longrightarrow> v \<in> set (hm_values m)"
  by (force simp: hm_get_def hm_values_def dest: map_of_SomeD)

lemma hm_get_iff: "hm_ok m \<Longrightarrow> hm_get m k = Some v \<longleftrightarrow> (k, v) \<in> set m"
  by (simp add: hm_ok_def hm_get_def)

lemma hm_get_None_iff: "hm_get m k = None \<longleftrightarrow> k \<notin> set (hm_keys m)"
  by (auto simp: hm_get_def hm_keys_def map_of_eq_None_iff)

lemma set_hm_keys_insert [simp]: "set (hm_keys (hm_insert k v m)) = insert k (set (hm_keys m))"
  by (simp add: hm_keys_def hm_insert_def dom_update)

lemma set_hm_keys_remove [simp]: "set (hm_keys (hm_remove k m)) = set (hm_keys m) - {k}"
  by (auto simp: hm_keys_def hm_remove_def AList.delete_eq)

text \<open>
  The contract of a finite map: what a lookup returns after an insertion and a removal, and that
  both keep the invariant.  Every component below that keys its state by an id relies on it.
\<close>

locale map_store =
  fixes get :: "'m \<Rightarrow> 'k \<Rightarrow> 'v option"
    and insert_at :: "'k \<Rightarrow> 'v \<Rightarrow> 'm \<Rightarrow> 'm"
    and remove_at :: "'k \<Rightarrow> 'm \<Rightarrow> 'm"
    and ok :: "'m \<Rightarrow> bool"
  assumes get_insert: "get (insert_at k v m) k' = (if k' = k then Some v else get m k')"
    and get_remove: "get (remove_at k m) k' = (if k' = k then None else get m k')"
    and ok_insert: "ok m \<Longrightarrow> ok (insert_at k v m)"
    and ok_remove: "ok m \<Longrightarrow> ok (remove_at k m)"
begin

lemma insert_remove_get: "get (remove_at k (insert_at k v m)) k' = get (remove_at k m) k'"
  by (simp add: get_insert get_remove)

lemma remove_fresh: "get m k = None \<Longrightarrow> get (remove_at k (insert_at k v m)) = get m"
  by (rule ext) (simp add: get_insert get_remove)

lemma foldr_insert_get:
  "get (foldr (\<lambda>(k, v) m. insert_at k v m) kvs m) k =
     (case map_of kvs k of None \<Rightarrow> get m k | Some v \<Rightarrow> Some v)"
  by (induction kvs) (auto simp: get_insert)

lemma foldr_remove_get:
  "get (foldr remove_at ks m) k = (if k \<in> set ks then None else get m k)"
  by (induction ks) (auto simp: get_remove)

end

interpretation hm: map_store hm_get hm_insert hm_remove hm_ok
  by unfold_locales simp_all

section \<open>Step relations\<close>

text \<open>The reachable states of a labelled step relation, and the contract of an invariant.\<close>

inductive reach :: "('s \<Rightarrow> bool) \<Rightarrow> ('s \<Rightarrow> 'e \<Rightarrow> 's \<Rightarrow> bool) \<Rightarrow> 's \<Rightarrow> bool" for ini stp where
  reach_init: "ini s \<Longrightarrow> reach ini stp s"
| reach_step: "reach ini stp s \<Longrightarrow> stp s e t \<Longrightarrow> reach ini stp t"

locale step_invariant =
  fixes ini :: "'s \<Rightarrow> bool"
    and stp :: "'s \<Rightarrow> 'e \<Rightarrow> 's \<Rightarrow> bool"
    and inv :: "'s \<Rightarrow> bool"
  assumes inv_init: "ini s \<Longrightarrow> inv s"
    and inv_step: "inv s \<Longrightarrow> stp s e t \<Longrightarrow> inv t"
begin

lemma reach_inv: "reach ini stp s \<Longrightarrow> inv s"
  by (induction rule: reach.induct) (auto intro: inv_init inv_step)

end

end
