(* ===== verification/Json.thy ===== *)
theory Json
  imports Complex_Main Prelude
begin

text \<open>
  JSON values as \<open>serde_json\<close> has them, the coercions the argument accessor relies on
  (\<open>Value::as_f64\<close>, \<open>f64 as i64\<close>), and the response builder of
  \<open>mcp-tools/src/response.rs\<close>.

  A number is a \<open>u64\<close>, a negative \<open>i64\<close> or a finite double.  Doubles are the rational they
  denote; converting an integer to a double rounds it to 53 significant bits, ties to even.
  A \<open>serde_json::Map\<close> is a B-tree: an association list sorted by key.
\<close>

section \<open>Values\<close>

datatype json_number = PosInt nat | NegInt int | Float rat

datatype json =
    JNull
  | JBool bool
  | JNum json_number
  | JStr string
  | JArr "json list"
  | JObj "(string \<times> json) list"

definition json_int :: "int \<Rightarrow> json" where
  "json_int i = JNum (if 0 \<le> i then PosInt (nat i) else NegInt i)"

definition json_nat :: "nat \<Rightarrow> json" where
  "json_nat n = JNum (PosInt n)"

fun bit_len :: "nat \<Rightarrow> nat" where
  "bit_len n = (if n = 0 then 0 else Suc (bit_len (n div 2)))"

declare bit_len.simps [simp del]

text \<open>\<open>n as f64\<close> for an unsigned integer.\<close>

definition round_f64 :: "nat \<Rightarrow> nat" where
  "round_f64 n =
     (if n < 2 ^ 53 then n
      else let e = bit_len n - 53; q = n div 2 ^ e; r = n mod 2 ^ e; half = 2 ^ (e - 1)
           in (if half < r \<or> r = half \<and> odd q then Suc q else q) * 2 ^ e)"

fun number_as_f64 :: "json_number \<Rightarrow> rat" where
  "number_as_f64 (PosInt n) = of_nat (round_f64 n)"
| "number_as_f64 (NegInt i) = - of_nat (round_f64 (nat (- i)))"
| "number_as_f64 (Float f) = f"

fun as_f64 :: "json \<Rightarrow> rat option" where
  "as_f64 (JNum n) = Some (number_as_f64 n)"
| "as_f64 _ = None"

fun as_str :: "json \<Rightarrow> string option" where
  "as_str (JStr s) = Some s"
| "as_str _ = None"

text \<open>\<open>f as i64\<close>: truncation towards zero, saturating at the bounds of the type.\<close>

definition trunc_rat :: "rat \<Rightarrow> int" where
  "trunc_rat r = (if 0 \<le> r then \<lfloor>r\<rfloor> else \<lceil>r\<rceil>)"

definition f64_as_i64 :: "rat \<Rightarrow> i64" where
  "f64_as_i64 r = max i64_min (min i64_max (trunc_rat r))"

lemma f64_as_i64_in_range: "in_i64 (f64_as_i64 r)"
  by (simp add: in_i64_def f64_as_i64_def i64_min_def i64_max_def)

lemma trunc_rat_of_int [simp]: "trunc_rat (of_int i) = i"
  by (simp add: trunc_rat_def)

lemma trunc_rat_of_nat [simp]: "trunc_rat (of_nat n) = int n"
  by (simp add: trunc_rat_def)

lemma trunc_rat_minus_of_nat [simp]: "trunc_rat (- of_nat n) = - int n"
  using trunc_rat_of_int [of "- int n"] by simp

text \<open>Integers of at most 53 bits survive the round trip through a double.\<close>

lemma f64_as_i64_exact:
  assumes "\<bar>i\<bar> < 2 ^ 53" "json_int i = JNum n"
  shows "f64_as_i64 (number_as_f64 n) = i"
proof (cases "0 \<le> i")
  case True
  with assms have "n = PosInt (nat i)" "nat i < 2 ^ 53"
    by (auto simp: json_int_def nat_less_iff)
  with True assms(1) show ?thesis
    by (simp add: round_f64_def f64_as_i64_def i64_min_def i64_max_def)
next
  case False
  with assms have "n = NegInt i" "nat (- i) < 2 ^ 53"
    by (auto simp: json_int_def nat_less_iff)
  with False assms(1) show ?thesis
    by (simp add: round_f64_def f64_as_i64_def i64_min_def i64_max_def)
qed

section \<open>Objects\<close>

fun obj_insert :: "string \<Rightarrow> 'v \<Rightarrow> (string \<times> 'v) list \<Rightarrow> (string \<times> 'v) list" where
  "obj_insert k v [] = [(k, v)]"
| "obj_insert k v ((k', v') # m) =
     (if k = k' then (k, v) # m
      else if k < k' then (k, v) # (k', v') # m
      else (k', v') # obj_insert k v m)"

definition obj_ok :: "(string \<times> 'v) list \<Rightarrow> bool" where
  "obj_ok m \<longleftrightarrow> sorted_wrt (<) (map fst m)"

lemma map_of_obj_insert [simp]: "map_of (obj_insert k v m) = (map_of m)(k \<mapsto> v)"
  by (induction m) (auto simp: fun_eq_iff)

lemma fst_obj_insert: "fst ` set (obj_insert k v m) = insert k (fst ` set m)"
  by (induction k v m rule: obj_insert.induct) auto

lemma obj_ok_insert: "obj_ok m \<Longrightarrow> obj_ok (obj_insert k v m)"
proof (induction k v m rule: obj_insert.induct)
  case (2 k v k' v' m)
  have "\<forall>x \<in> fst ` set (obj_insert k v m). k' < x" if "k' < k" "\<forall>x \<in> fst ` set m. k' < x"
    using that by (simp add: fst_obj_insert)
  with 2 show ?case by (auto simp: obj_ok_def)
qed (simp add: obj_ok_def)

text \<open>A canonical object is determined by its lookups.\<close>

lemma obj_ok_head_least:
  assumes "obj_ok ((k, v) # m)" "map_of ((k, v) # m) k' = Some v'"
  shows "k \<le> k'"
  using assms by (auto simp: obj_ok_def split: if_splits dest!: map_of_SomeD)

lemma obj_ok_ext:
  assumes "obj_ok m" "obj_ok n" "map_of m = map_of n"
  shows "m = n"
  using assms
proof (induction m arbitrary: n)
  case Nil
  then show ?case by simp
next
  case (Cons a m)
  obtain k v where a: "a = (k, v)" by force
  have mk: "map_of n k = Some v" using fun_cong [OF Cons.prems(3), of k] by (simp add: a)
  then obtain b n' where n: "n = b # n'" by (cases n) auto
  obtain k' v' where b: "b = (k', v')" by force
  have nk: "map_of (a # m) k' = Some v'" using fun_cong [OF Cons.prems(3), of k'] by (simp add: b n)
  have "k' \<le> k" using obj_ok_head_least [of k' v' n' k v] Cons.prems(2) mk by (simp add: n b)
  moreover have "k \<le> k'" using obj_ok_head_least [of k v m k' v'] Cons.prems(1) nk by (simp add: a)
  ultimately have k: "k = k'" by simp
  with mk have v: "v = v'" by (simp add: n b)
  have tails: "obj_ok m" "obj_ok n'" "map_of m k = None" "map_of n' k = None"
    using Cons.prems by (auto simp: obj_ok_def a b n k map_of_eq_None_iff)
  have "map_of m = map_of n'"
  proof
    fix x
    show "map_of m x = map_of n' x"
      using fun_cong [OF Cons.prems(3), of x] tails by (cases "x = k") (auto simp: a b n k)
  qed
  with Cons.IH tails show ?case by (simp add: a b n k v)
qed

lemma obj_insert_commute:
  "obj_ok m \<Longrightarrow> k \<noteq> k' \<Longrightarrow> obj_insert k v (obj_insert k' v' m) = obj_insert k' v' (obj_insert k v m)"
  by (rule obj_ok_ext) (auto simp: obj_ok_insert fun_eq_iff)

fun jget :: "json \<Rightarrow> string \<Rightarrow> json option" where
  "jget (JObj m) k = map_of m k"
| "jget _ k = None"

section \<open>Tool outcomes and the response builder (response.rs)\<close>

datatype tool_outcome = Json json | Text string | Error string

fun is_error :: "tool_outcome \<Rightarrow> bool" where
  "is_error (Error _) = True"
| "is_error _ = False"

type_synonym resp_builder = "(string \<times> json) list"

definition rb_new :: resp_builder where
  "rb_new = []"

definition rb_set :: "string \<Rightarrow> json \<Rightarrow> resp_builder \<Rightarrow> resp_builder" where
  "rb_set k v b = obj_insert k v b"

definition rb_set_opt :: "string \<Rightarrow> json option \<Rightarrow> resp_builder \<Rightarrow> resp_builder" where
  "rb_set_opt k v b = (case v of Some x \<Rightarrow> obj_insert k x b | None \<Rightarrow> b)"

definition rb_set_if :: "bool \<Rightarrow> string \<Rightarrow> json \<Rightarrow> resp_builder \<Rightarrow> resp_builder" where
  "rb_set_if c k v b = (if c then obj_insert k v b else b)"

definition rb_contains_key :: "string \<Rightarrow> resp_builder \<Rightarrow> bool" where
  "rb_contains_key k b \<longleftrightarrow> map_of b k \<noteq> None"

definition rb_build :: "resp_builder \<Rightarrow> json" where
  "rb_build b = JObj b"

definition rb_into_outcome :: "resp_builder \<Rightarrow> tool_outcome" where
  "rb_into_outcome b = Json (rb_build b)"

text \<open>A chain of unconditional \<open>set\<close> calls, in the order the source writes them.\<close>

definition rb_sets :: "(string \<times> json) list \<Rightarrow> resp_builder \<Rightarrow> resp_builder" where
  "rb_sets kvs b = fold (\<lambda>(k, v). rb_set k v) kvs b"

definition resp :: "(string \<times> json) list \<Rightarrow> tool_outcome" where
  "resp kvs = rb_into_outcome (rb_sets kvs rb_new)"

lemmas rb_defs = rb_new_def rb_set_def rb_set_opt_def rb_set_if_def rb_build_def
  rb_into_outcome_def rb_sets_def resp_def

lemma rb_ok_new [simp]: "obj_ok rb_new"
  by (simp add: rb_new_def obj_ok_def)

lemma rb_ok_set [simp]: "obj_ok b \<Longrightarrow> obj_ok (rb_set k v b)"
  by (simp add: rb_set_def obj_ok_insert)

lemma rb_ok_set_opt [simp]: "obj_ok b \<Longrightarrow> obj_ok (rb_set_opt k v b)"
  by (simp add: rb_set_opt_def obj_ok_insert split: option.split)

lemma rb_ok_set_if [simp]: "obj_ok b \<Longrightarrow> obj_ok (rb_set_if c k v b)"
  by (simp add: rb_set_if_def obj_ok_insert)

lemma rb_ok_sets [simp]: "obj_ok b \<Longrightarrow> obj_ok (rb_sets kvs b)"
  unfolding rb_sets_def by (induction kvs arbitrary: b) auto

lemma rb_sets_get: "map_of (rb_sets kvs b) k = (case map_of (rev kvs) k of None \<Rightarrow> map_of b k | Some v \<Rightarrow> Some v)"
  unfolding rb_sets_def
  by (induction kvs arbitrary: b) (auto simp: rb_set_def map_add_def split: option.splits)

lemma resp_not_error [simp]: "\<not> is_error (resp kvs)" "resp kvs \<noteq> Error e" "resp kvs \<noteq> Text e"
  by (simp_all add: resp_def rb_into_outcome_def)

end
