(* ===== verification/Core_Types.thy ===== *)
theory Core_Types
  imports Json
begin

text \<open>
  The contract crate \<open>debugger-core\<close>: the neutral data types, the backend error and event types,
  the capability descriptor, and the \<open>DebuggerBackend\<close> / \<open>BackendFactory\<close> traits.

  A trait object is a handle \<open>'h\<close>; its methods are the fields of \<open>backend_ops\<close>, functions on a
  world \<open>'w\<close> that holds whatever state the debuggers and the operating system have.  The handlers
  are proved correct for every such record of operations.
\<close>

section \<open>Neutral data types (types.rs)\<close>

datatype granularity = GranLine | GranInstruction

datatype eval_mode = EvalExpression | EvalRepl

datatype step_kind = Over | Into | Out

record stop_info =
  si_reason :: string
  si_thread_id :: i64
  si_description :: string
  si_hit_breakpoint_ids :: "i64 list"

datatype stop_outcome = SO_Stopped stop_info | SO_Exited "i64 option" | SO_Terminated

record source_bp =
  sb_line :: i64
  sb_condition :: string

record function_bp =
  fb_name :: string
  fb_condition :: string

record launch_spec =
  ls_program :: string
  ls_args :: "string list"
  ls_cwd :: "string option"
  ls_env :: "(string \<times> string) list"
  ls_stop_on_entry :: bool
  ls_source_breakpoints :: "(string \<times> source_bp list) list"
  ls_function_breakpoints :: "function_bp list"

datatype launch_outcome = LO_Stopped stop_info | LO_Running | LO_Exited "i64 option"

record attach_spec =
  as_pid :: "i64 option"
  as_wait_for :: "string option"

datatype attach_outcome = AO_Stopped stop_info | AO_Exited "i64 option" | AO_Terminated

record frame =
  fr_index :: i64
  fr_id :: i64
  fr_name :: string
  fr_source_path :: "string option"
  fr_line :: i64
  fr_instruction_pointer :: "string option"

record thread_info =
  th_id :: i64
  th_name :: string

record scope =
  sc_name :: string
  sc_variables_reference :: i64

record variable =
  va_name :: string
  va_value :: string
  va_ty :: string
  va_variables_reference :: i64
  va_named :: i64
  va_indexed :: i64

record breakpoint_result =
  br_id :: i64
  br_verified :: bool
  br_line :: i64
  br_message :: string
  br_rejected :: bool

record eval_result =
  er_result :: string
  er_ty :: string
  er_variables_reference :: i64

record memory_read =
  mr_address :: string
  mr_data :: "8 word list"

record module_info =
  mi_name :: string
  mi_base :: string
  mi_size :: string
  mi_symbol_status :: string

record dump_outcome =
  do_stop :: "stop_info option"
  do_crash_location :: "string option"

record instruction =
  in_address :: string
  in_instruction :: string
  in_bytes :: string
  in_symbol :: string
  in_source_path :: "string option"
  in_line :: i64

section \<open>Errors and events (error.rs, event.rs)\<close>

datatype backend_error =
    Detect string
  | Spawn string
  | Send string
  | Protocol string
  | Dap string
  | Closed
  | Timeout
  | Unsupported string

text \<open>The \<open>Display\<close> text \<open>thiserror\<close> derives from the attributes of each variant.\<close>

fun error_text :: "backend_error \<Rightarrow> string" where
  "error_text (Detect m) = ''failed to detect debugger: '' @ m"
| "error_text (Spawn m) = ''failed to spawn debugger: '' @ m"
| "error_text (Send m) = ''failed to send request: '' @ m"
| "error_text (Protocol ty) = ''unexpected response type: '' @ ty"
| "error_text (Dap m) = ''debugger error: '' @ m"
| "error_text Closed = ''connection closed''"
| "error_text Timeout = ''operation timed out''"
| "error_text (Unsupported tool) = tool @ '' is not supported by the active backend''"

datatype backend_event = Ev_Output string string | Ev_Terminated "i64 option"

section \<open>Capabilities (capabilities.rs)\<close>

datatype capabilities =
  Capabilities (cap_crash_dump: bool) (cap_kernel: bool) (cap_analyze: bool) (cap_modules: bool)

text \<open>Capabilities are ordered by implication; the union the registry caches is their join.\<close>

instantiation capabilities :: bounded_semilattice_sup_bot
begin

definition less_eq_capabilities :: "capabilities \<Rightarrow> capabilities \<Rightarrow> bool" where
  "less_eq_capabilities a b \<longleftrightarrow>
     cap_crash_dump a \<le> cap_crash_dump b \<and> cap_kernel a \<le> cap_kernel b \<and>
     cap_analyze a \<le> cap_analyze b \<and> cap_modules a \<le> cap_modules b"

definition less_capabilities :: "capabilities \<Rightarrow> capabilities \<Rightarrow> bool" where
  "less_capabilities a b \<longleftrightarrow> a \<le> b \<and> \<not> b \<le> (a :: capabilities)"

definition sup_capabilities :: "capabilities \<Rightarrow> capabilities \<Rightarrow> capabilities" where
  "sup_capabilities a b =
     Capabilities (cap_crash_dump a \<or> cap_crash_dump b) (cap_kernel a \<or> cap_kernel b)
       (cap_analyze a \<or> cap_analyze b) (cap_modules a \<or> cap_modules b)"

definition bot_capabilities :: capabilities where
  "bot_capabilities = Capabilities False False False False"

instance
  by standard
    (auto simp: less_eq_capabilities_def less_capabilities_def sup_capabilities_def
      bot_capabilities_def le_bool_def intro: capabilities.expand)

end

section \<open>The backend and factory traits (backend.rs)\<close>

type_synonym ('w, 'a) call = "'w \<Rightarrow> (backend_error + 'a) \<times> 'w"

record ('h, 'w) backend_ops =
  b_launch :: "'h \<Rightarrow> launch_spec \<Rightarrow> ('w, launch_outcome) call"
  b_attach :: "'h \<Rightarrow> attach_spec \<Rightarrow> ('w, attach_outcome) call"
  b_disconnect :: "'h \<Rightarrow> bool \<Rightarrow> 'w \<Rightarrow> 'w"
  b_set_source_breakpoints :: "'h \<Rightarrow> string \<Rightarrow> source_bp list \<Rightarrow> ('w, breakpoint_result list) call"
  b_set_function_breakpoints :: "'h \<Rightarrow> function_bp list \<Rightarrow> ('w, breakpoint_result list) call"
  b_cont :: "'h \<Rightarrow> i64 \<Rightarrow> ('w, stop_outcome) call"
  b_step :: "'h \<Rightarrow> step_kind \<Rightarrow> i64 \<Rightarrow> granularity option \<Rightarrow> ('w, stop_outcome) call"
  b_pause :: "'h \<Rightarrow> ('w, unit) call"
  b_threads :: "'h \<Rightarrow> ('w, thread_info list) call"
  b_stack_trace :: "'h \<Rightarrow> i64 \<Rightarrow> i64 \<Rightarrow> i64 \<Rightarrow> ('w, frame list \<times> i64) call"
  b_scopes :: "'h \<Rightarrow> i64 \<Rightarrow> ('w, scope list) call"
  b_variables :: "'h \<Rightarrow> i64 \<Rightarrow> ('w, variable list) call"
  b_evaluate :: "'h \<Rightarrow> string \<Rightarrow> i64 option \<Rightarrow> eval_mode \<Rightarrow> ('w, eval_result) call"
  b_read_memory :: "'h \<Rightarrow> string \<Rightarrow> i64 \<Rightarrow> ('w, memory_read) call"
  b_disassemble :: "'h \<Rightarrow> string \<Rightarrow> i64 \<Rightarrow> ('w, instruction list) call"
  b_supports_command_repl_mode :: "'h \<Rightarrow> bool"
  b_debugger_pid :: "'h \<Rightarrow> 'w \<Rightarrow> i64 option"
  b_open_dump :: "'h \<Rightarrow> string \<Rightarrow> ('w, dump_outcome) call"
  b_attach_kernel :: "'h \<Rightarrow> string \<Rightarrow> ('w, attach_outcome) call"
  b_analyze :: "'h \<Rightarrow> ('w, string) call"
  b_modules :: "'h \<Rightarrow> ('w, module_info list) call"

text \<open>The default bodies of the trait: what a backend that does not override them does.\<close>

definition default_debugger_pid :: "'h \<Rightarrow> 'w \<Rightarrow> i64 option" where
  "default_debugger_pid h w = None"

definition default_open_dump :: "'h \<Rightarrow> string \<Rightarrow> ('w, dump_outcome) call" where
  "default_open_dump h path w = (Inl (Unsupported ''open_crash_dump''), w)"

definition default_attach_kernel :: "'h \<Rightarrow> string \<Rightarrow> ('w, attach_outcome) call" where
  "default_attach_kernel h connection w = (Inl (Unsupported ''attach_kernel''), w)"

definition default_analyze :: "'h \<Rightarrow> ('w, string) call" where
  "default_analyze h w = (Inl (Unsupported ''analyze_crash''), w)"

definition default_modules :: "'h \<Rightarrow> ('w, module_info list) call" where
  "default_modules h w = (Inl (Unsupported ''get_modules''), w)"

definition default_capabilities :: capabilities where
  "default_capabilities = bot"

record ('h, 'w) factory =
  fac_name :: string
  fac_capabilities :: capabilities
  fac_connect :: "('w, 'h) call"

end
