(* ===== verification/Output_Buffer.thy ===== *)
theory Output_Buffer
  imports Core_Types
begin

text \<open>
  The session's output buffer, \<open>mcp-session/src/output_buffer.rs\<close>: entries in arrival order with
  a byte count, evicted oldest first once the count exceeds 1 MiB, and drained as a whole.

  The abstract specification is a lg of everything appended since the last drain: the buffer
  holds the longest suffix of the lg that fits the cap (\<open>fit\<close>), and the truncation flag says
  that the suffix is proper.
\<close>

definition max_size :: nat where
  "max_size = 1048576"

record output_entry =
  oe_category :: string
  oe_text :: string

record buffered =
  bf_entries :: "output_entry list"
  bf_size :: nat
  bf_truncated :: bool

definition entry_size :: "output_entry \<Rightarrow> nat" where
  "entry_size e = length (oe_category e) + length (oe_text e)"

lemma entry_eta [simp]: "\<lparr>oe_category = oe_category e, oe_text = oe_text e\<rparr> = e" for e :: output_entry
  by (cases e) simp

definition buffer_new :: buffered where
  "buffer_new = \<lparr>bf_entries = [], bf_size = 0, bf_truncated = False\<rparr>"

text \<open>\<open>while b.size > MAX_SIZE && !b.entries.is_empty()\<close>: remove the oldest entry.\<close>

function evict :: "buffered \<Rightarrow> buffered" where
  "evict b =
     (if max_size < bf_size b \<and> bf_entries b \<noteq> [] then
        evict (b\<lparr>bf_entries := tl (bf_entries b),
                 bf_size := bf_size b - entry_size (hd (bf_entries b)),
                 bf_truncated := True\<rparr>)
      else b)"
  by pat_completeness auto
termination
  by (relation "measure (\<lambda>b. length (bf_entries b))") auto

declare evict.simps [simp del]

definition append_output :: "string \<Rightarrow> string \<Rightarrow> buffered \<Rightarrow> buffered" where
  "append_output category text b =
     (let e = \<lparr>oe_category = category, oe_text = text\<rparr>
      in evict (b\<lparr>bf_entries := bf_entries b @ [e], bf_size := bf_size b + entry_size e\<rparr>))"

definition truncation_marker :: output_entry where
  "truncation_marker = \<lparr>oe_category = ''console'', oe_text = ''[output truncated]''\<rparr>"

definition drain :: "buffered \<Rightarrow> output_entry list \<times> buffered" where
  "drain b =
     (if bf_entries b = [] \<and> \<not> bf_truncated b then ([], b)
      else ((if bf_truncated b then [truncation_marker] else []) @ bf_entries b,
            b\<lparr>bf_entries := [], bf_size := 0, bf_truncated := False\<rparr>))"

section \<open>Invariant: the byte count is the sum of the entries\<close>

definition total_size :: "output_entry list \<Rightarrow> nat" where
  "total_size es = sum_list (map entry_size es)"

lemma total_size_simps [simp]:
  "total_size [] = 0"
  "total_size (e # es) = entry_size e + total_size es"
  "total_size (es @ fs) = total_size es + total_size fs"
  by (simp_all add: total_size_def)

definition buffer_inv :: "buffered \<Rightarrow> bool" where
  "buffer_inv b \<longleftrightarrow> bf_size b = total_size (bf_entries b) \<and> bf_size b \<le> max_size"

lemma buffer_new_inv [inv_intros]: "buffer_inv buffer_new"
  by (simp add: buffer_inv_def buffer_new_def)

section \<open>The longest fitting suffix\<close>

fun fit :: "output_entry list \<Rightarrow> output_entry list" where
  "fit [] = []"
| "fit (e # es) = (if max_size < total_size (e # es) then fit es else e # es)"

lemma fit_small: "total_size es \<le> max_size \<Longrightarrow> fit es = es"
  by (cases es) auto

lemma fit_total: "total_size (fit es) \<le> max_size"
  by (induction es) auto

lemma fit_suffix: "\<exists>ds. es = ds @ fit es"
  by (induction es) (auto intro: exI [of _ "[]"] exI [of _ "_ # _"])

lemma fit_length: "length (fit es) \<le> length es"
  by (induction es) auto

text \<open>No longer suffix fits: \<open>fit\<close> drops as little as it can.\<close>

lemma fit_maximal:
  assumes "es = ds @ fs" "total_size fs \<le> max_size"
  shows "length fs \<le> length (fit es)"
  using assms
proof (induction es arbitrary: ds)
  case (Cons e es)
  show ?case
  proof (cases ds)
    case Nil
    with Cons.prems show ?thesis by (simp add: fit_small)
  next
    case (Cons d ds')
    with Cons.prems Cons.IH [of ds'] show ?thesis by (auto intro: le_SucI)
  qed
qed simp

lemma fit_append: "fit (fit es @ fs) = fit (es @ fs)"
proof (induction es)
  case (Cons e es)
  show ?case
  proof (cases "max_size < total_size (e # es)")
    case True
    then have "max_size < total_size (e # es @ fs)" by simp
    with True Cons.IH show ?thesis by simp
  qed simp
qed simp

lemma fit_proper_iff: "length (fit es) < length es \<longleftrightarrow> max_size < total_size es"
proof (cases es)
  case (Cons e es')
  then show ?thesis using fit_length [of es'] fit_small [of es] by auto
qed simp

lemma evict_fit:
  assumes "bf_size b = total_size (bf_entries b)"
  shows "evict b =
    b\<lparr>bf_entries := fit (bf_entries b), bf_size := total_size (fit (bf_entries b)),
      bf_truncated := (bf_truncated b \<or> max_size < bf_size b)\<rparr>"
  using assms
proof (induction b rule: evict.induct)
  case (1 b)
  show ?case
  proof (cases "max_size < bf_size b \<and> bf_entries b \<noteq> []")
    case True
    then obtain e es where b: "bf_entries b = e # es" by (cases "bf_entries b") auto
    with True 1 show ?thesis by (subst evict.simps) (simp add: b)
  next
    case False
    then have "fit (bf_entries b) = bf_entries b"
      using "1.prems" by (cases "bf_entries b") (auto intro: fit_small)
    moreover have "\<not> max_size < bf_size b"
      using False "1.prems" by (cases "bf_entries b") auto
    ultimately show ?thesis using False "1.prems" by (subst evict.simps) auto
  qed
qed

lemma append_output_eq:
  assumes "bf_size b = total_size (bf_entries b)"
  shows "append_output c t b =
    (let es = bf_entries b @ [\<lparr>oe_category = c, oe_text = t\<rparr>]
     in b\<lparr>bf_entries := fit es, bf_size := total_size (fit es),
          bf_truncated := (bf_truncated b \<or> max_size < total_size es)\<rparr>)"
  using assms by (simp add: append_output_def Let_def evict_fit)

lemma append_output_inv [inv_intros]: "buffer_inv b \<Longrightarrow> buffer_inv (append_output c t b)"
  by (simp add: buffer_inv_def append_output_eq Let_def fit_total)

lemma drain_inv [inv_intros]: "buffer_inv b \<Longrightarrow> buffer_inv (snd (drain b))"
  by (simp add: buffer_inv_def drain_def)

lemma drain_idempotent: "fst (drain (snd (drain b))) = []"
  by (simp add: drain_def)

lemma drain_empty: "buffer_inv b \<Longrightarrow> snd (drain b) = buffer_new"
  by (cases b) (auto simp: buffer_inv_def drain_def buffer_new_def)

section \<open>Refinement of the lg\<close>

text \<open>
  The contract of an output buffer: a client appends and drains; what a drain returns is
  determined by the lg of appends since the last drain.
\<close>

locale output_log =
  fixes new_buf :: 'b
    and app :: "string \<Rightarrow> string \<Rightarrow> 'b \<Rightarrow> 'b"
    and drn :: "'b \<Rightarrow> output_entry list \<times> 'b"
    and rel :: "output_entry list \<Rightarrow> 'b \<Rightarrow> bool"
  assumes rel_new: "rel [] new_buf"
    and rel_app: "rel lg b \<Longrightarrow> rel (lg @ [\<lparr>oe_category = c, oe_text = t\<rparr>]) (app c t b)"
    and rel_drain: "rel lg b \<Longrightarrow> rel [] (snd (drn b))"
    and drain_out: "rel lg b \<Longrightarrow>
      fst (drn b) = (if fit lg = lg then [] else [truncation_marker]) @ fit lg"
begin

definition app_all :: "output_entry list \<Rightarrow> 'b \<Rightarrow> 'b" where
  "app_all es b = fold (\<lambda>e. app (oe_category e) (oe_text e)) es b"

lemma rel_app_all: "rel lg b \<Longrightarrow> rel (lg @ es) (app_all es b)"
  unfolding app_all_def
proof (induction es arbitrary: lg b)
  case (Cons e es)
  have "rel (lg @ [e]) (app (oe_category e) (oe_text e) b)"
    using rel_app [OF Cons.prems, of "oe_category e" "oe_text e"] by simp
  from Cons.IH [OF this] show ?case by simp
qed simp

text \<open>A drain after any burst of output returns the longest suffix that fits.\<close>

lemma drain_after_burst:
  "fst (drn (app_all es new_buf)) = (if fit es = es then [] else [truncation_marker]) @ fit es"
  using drain_out [OF rel_app_all [OF rel_new, of es]] by simp

text \<open>Small output is returned verbatim and exactly once.\<close>

lemma small_burst_verbatim:
  "total_size es \<le> max_size \<Longrightarrow> fst (drn (app_all es new_buf)) = es"
  by (simp add: drain_after_burst fit_small)

lemma burst_drained_once: "fst (drn (snd (drn (app_all es new_buf)))) = []"
  using drain_out [OF rel_drain [OF rel_app_all [OF rel_new]]] by simp

end

definition log_rel :: "output_entry list \<Rightarrow> buffered \<Rightarrow> bool" where
  "log_rel lg b \<longleftrightarrow> bf_entries b = fit lg \<and> bf_size b = total_size (fit lg) \<and>
     (bf_truncated b \<longleftrightarrow> fit lg \<noteq> lg)"

lemma fit_changed_iff: "fit es \<noteq> es \<longleftrightarrow> max_size < total_size es"
  using fit_proper_iff [of es] fit_small [of es] by (metis linorder_not_less order_less_irrefl)

lemma log_rel_append:
  assumes "log_rel lg b"
  shows "log_rel (lg @ [\<lparr>oe_category = c, oe_text = t\<rparr>]) (append_output c t b)"
proof -
  let ?e = "\<lparr>oe_category = c, oe_text = t\<rparr>"
  from assms have b: "bf_entries b = fit lg" "bf_size b = total_size (bf_entries b)"
    and tr: "bf_truncated b \<longleftrightarrow> max_size < total_size lg"
    by (auto simp: log_rel_def fit_changed_iff)
  have "max_size < total_size (lg @ [?e]) \<longleftrightarrow>
      max_size < total_size lg \<or> max_size < total_size (fit lg @ [?e])"
    by (cases "max_size < total_size lg") (auto simp: fit_small)
  then show ?thesis
    using b(2) by (simp add: log_rel_def append_output_eq Let_def b(1) fit_append fit_changed_iff tr)
qed

interpretation buf: output_log buffer_new append_output drain log_rel
proof unfold_locales
  show "log_rel [] buffer_new" by (simp add: log_rel_def buffer_new_def)
next
  fix lg b c t
  assume "log_rel lg b"
  then show "log_rel (lg @ [\<lparr>oe_category = c, oe_text = t\<rparr>]) (append_output c t b)"
    by (rule log_rel_append)
next
  fix lg b
  assume "log_rel lg b"
  then show "log_rel [] (snd (drain b))"
    by (auto simp: log_rel_def drain_def)
next
  fix lg b
  assume "log_rel lg b"
  then show "fst (drain b) = (if fit lg = lg then [] else [truncation_marker]) @ fit lg"
    by (auto simp: log_rel_def drain_def)
qed

end
