(* ===== verification/Session.thy ===== *)
theory Session
  imports Output_Buffer
begin

text \<open>
  The neutral session, crate \<open>mcp-session\<close>: the five-state machine (\<open>state.rs\<close>), the resolved
  breakpoint metadata (\<open>breakpoint.rs\<close>) and the \<open>SessionManager\<close> (\<open>manager.rs\<close>).  A method
  that takes the lock, updates the state and returns is one function on the session record; each
  is atomic, as the \<open>RwLock\<close> makes it.
\<close>

section \<open>The state machine (state.rs)\<close>

datatype state = Idle | Configuring | Stopped | Running | Terminated

fun state_text :: "state \<Rightarrow> string" where
  "state_text Idle = ''idle''"
| "state_text Configuring = ''configuring''"
| "state_text Stopped = ''stopped''"
| "state_text Running = ''running''"
| "state_text Terminated = ''terminated''"

section \<open>Breakpoint metadata (breakpoint.rs)\<close>

record breakpoint_info =
  bi_id :: i64
  bi_ty :: string
  bi_file :: string
  bi_line :: i64
  bi_function :: string
  bi_condition :: string
  bi_verified :: bool

section \<open>The session manager (manager.rs)\<close>

record session =
  s_state :: state
  s_generation :: u64
  s_program :: string
  s_pid :: i64
  s_exit_code :: "i64 option"
  s_last_stopped :: "stop_info option"
  s_is_dump :: bool
  s_frame_mapping :: "(i64, i64) hashmap"
  s_source_bps :: "(string, source_bp list) hashmap"
  s_function_bps :: "function_bp list"
  s_bp_responses :: "(i64, breakpoint_info) hashmap"
  s_pending_source_bps :: "(string, source_bp list) hashmap"
  s_pending_function_bps :: "function_bp list"
  s_output :: buffered

definition session_new :: session where
  "session_new =
     \<lparr>s_state = Idle, s_generation = 0, s_program = [], s_pid = 0, s_exit_code = None,
      s_last_stopped = None, s_is_dump = False, s_frame_mapping = [], s_source_bps = [],
      s_function_bps = [], s_bp_responses = [], s_pending_source_bps = [],
      s_pending_function_bps = [], s_output = buffer_new\<rparr>"

definition set_state :: "state \<Rightarrow> session \<Rightarrow> session" where
  "set_state st s = s\<lparr>s_state := st\<rparr>"

definition set_state_if_generation :: "u64 \<Rightarrow> state \<Rightarrow> session \<Rightarrow> bool \<times> session" where
  "set_state_if_generation g st s =
     (if s_generation s \<noteq> g then (False, s) else (True, s\<lparr>s_state := st\<rparr>))"

definition check_state :: "state list \<Rightarrow> session \<Rightarrow> string + unit" where
  "check_state allowed s =
     (if s_state s \<in> set allowed then Inr ()
      else case s_state s of
        Idle \<Rightarrow> Inl ''no debug session active. Use 'launch' or 'attach' first.''
      | Running \<Rightarrow> Inl ''process is running. Use 'pause' first.''
      | current \<Rightarrow> Inl (''invalid state: '' @ state_text current @ '', expected one of: '' @
                          join_with '', '' (map state_text allowed)))"

text \<open>\<open>reset\<close>: the part under the session lock, then the drain under the buffer's own lock.\<close>

definition reset_inner :: "session \<Rightarrow> session" where
  "reset_inner s =
     s\<lparr>s_state := Idle, s_generation := s_generation s + 1, s_program := [], s_pid := 0,
       s_exit_code := None, s_last_stopped := None, s_is_dump := False, s_frame_mapping := [],
       s_source_bps := [], s_function_bps := [], s_bp_responses := [],
       s_pending_source_bps := [], s_pending_function_bps := []\<rparr>"

definition drain_output :: "session \<Rightarrow> output_entry list \<times> session" where
  "drain_output s = (let (es, b) = drain (s_output s) in (es, s\<lparr>s_output := b\<rparr>))"

definition reset :: "session \<Rightarrow> session" where
  "reset s = snd (drain_output (reset_inner s))"

definition set_program :: "string \<Rightarrow> session \<Rightarrow> session" where
  "set_program p s = s\<lparr>s_program := p\<rparr>"

definition set_pid :: "i64 \<Rightarrow> session \<Rightarrow> session" where
  "set_pid p s = s\<lparr>s_pid := p\<rparr>"

definition set_exit_code :: "i64 \<Rightarrow> session \<Rightarrow> session" where
  "set_exit_code c s = s\<lparr>s_exit_code := Some c\<rparr>"

definition set_dump :: "bool \<Rightarrow> session \<Rightarrow> session" where
  "set_dump d s = s\<lparr>s_is_dump := d\<rparr>"

definition terminate_if_generation :: "u64 \<Rightarrow> i64 option \<Rightarrow> session \<Rightarrow> bool \<times> session" where
  "terminate_if_generation g code s =
     (if s_generation s \<noteq> g then (False, s)
      else (True, (case code of Some c \<Rightarrow> s\<lparr>s_exit_code := Some c\<rparr> | None \<Rightarrow> s)
                    \<lparr>s_state := Terminated\<rparr>))"

definition set_last_stopped :: "stop_info \<Rightarrow> session \<Rightarrow> session" where
  "set_last_stopped info s = s\<lparr>s_last_stopped := Some info\<rparr>"

definition set_frame_mapping :: "(i64, i64) hashmap \<Rightarrow> session \<Rightarrow> session" where
  "set_frame_mapping m s = s\<lparr>s_frame_mapping := m\<rparr>"

definition append_session_output :: "string \<Rightarrow> string \<Rightarrow> session \<Rightarrow> session" where
  "append_session_output c t s = s\<lparr>s_output := append_output c t (s_output s)\<rparr>"

subsection \<open>Breakpoint tracking\<close>

definition add_source_breakpoint :: "string \<Rightarrow> i64 \<Rightarrow> string \<Rightarrow> session \<Rightarrow> source_bp \<times> session" where
  "add_source_breakpoint file line cond s =
     (let bp = \<lparr>sb_line = line, sb_condition = cond\<rparr>
      in (bp, s\<lparr>s_source_bps := hm_extend file [bp] (s_source_bps s)\<rparr>))"

definition add_function_breakpoint :: "string \<Rightarrow> string \<Rightarrow> session \<Rightarrow> function_bp \<times> session" where
  "add_function_breakpoint name cond s =
     (let bp = \<lparr>fb_name = name, fb_condition = cond\<rparr>
      in (bp, s\<lparr>s_function_bps := s_function_bps s @ [bp]\<rparr>))"

definition add_breakpoint_response :: "breakpoint_info \<Rightarrow> session \<Rightarrow> session" where
  "add_breakpoint_response info s =
     s\<lparr>s_bp_responses := hm_insert (bi_id info) info (s_bp_responses s)\<rparr>"

definition breakpoint_info_of :: "i64 \<Rightarrow> session \<Rightarrow> breakpoint_info option" where
  "breakpoint_info_of i s = hm_get (s_bp_responses s) i"

definition remove_breakpoint_by_id :: "i64 \<Rightarrow> session \<Rightarrow> (string + string \<times> bool) \<times> session" where
  "remove_breakpoint_by_id i s =
     (case hm_get (s_bp_responses s) i of
        None \<Rightarrow> (Inl (''breakpoint ID '' @ show_int i @ '' not found''), s)
      | Some info \<Rightarrow>
          (if bi_ty info = ''source'' then
             let file = bi_file info;
                 s' = (case hm_get (s_source_bps s) file of
                         None \<Rightarrow> s
                       | Some bps \<Rightarrow>
                           s\<lparr>s_source_bps := hm_insert file
                               (remove_position (\<lambda>bp. sb_line bp = bi_line info) bps)
                               (s_source_bps s)\<rparr>)
             in (Inr (file, False), s'\<lparr>s_bp_responses := hm_remove i (s_bp_responses s')\<rparr>)
           else if bi_ty info = ''function'' then
             let s' = s\<lparr>s_function_bps :=
                          remove_position (\<lambda>bp. fb_name bp = bi_function info) (s_function_bps s)\<rparr>
             in (Inr ([], True), s'\<lparr>s_bp_responses := hm_remove i (s_bp_responses s')\<rparr>)
           else (Inr ([], False), s\<lparr>s_bp_responses := hm_remove i (s_bp_responses s)\<rparr>)))"

definition list_breakpoints :: "session \<Rightarrow> breakpoint_info list" where
  "list_breakpoints s = sort_key bi_id (hm_values (s_bp_responses s))"

definition source_breakpoints_for_file :: "string \<Rightarrow> session \<Rightarrow> source_bp list" where
  "source_breakpoints_for_file file s = hm_list (s_source_bps s) file"

definition add_pending_source_breakpoint :: "string \<Rightarrow> i64 \<Rightarrow> string \<Rightarrow> session \<Rightarrow> session" where
  "add_pending_source_breakpoint file line cond s =
     s\<lparr>s_pending_source_bps :=
         hm_extend file [\<lparr>sb_line = line, sb_condition = cond\<rparr>] (s_pending_source_bps s)\<rparr>"

definition add_pending_function_breakpoint :: "string \<Rightarrow> string \<Rightarrow> session \<Rightarrow> session" where
  "add_pending_function_breakpoint name cond s =
     s\<lparr>s_pending_function_bps :=
         s_pending_function_bps s @ [\<lparr>fb_name = name, fb_condition = cond\<rparr>]\<rparr>"

definition flush_pending_breakpoints ::
  "session \<Rightarrow> ((string, source_bp list) hashmap \<times> function_bp list) \<times> session" where
  "flush_pending_breakpoints s =
     (let source_files = s_pending_source_bps s;
          func_bps = s_pending_function_bps s;
          s' = s\<lparr>s_pending_source_bps := [], s_pending_function_bps := []\<rparr>
      in ((source_files, func_bps),
          s'\<lparr>s_source_bps :=
               fold (\<lambda>(file, bps) m. hm_extend file bps m) source_files (s_source_bps s'),
             s_function_bps := s_function_bps s' @ func_bps\<rparr>))"

lemmas session_op_defs [session_defs] =
  set_state_def set_state_if_generation_def reset_inner_def drain_output_def reset_def
  set_program_def set_pid_def set_exit_code_def set_dump_def terminate_if_generation_def
  set_last_stopped_def set_frame_mapping_def append_session_output_def
  add_source_breakpoint_def add_function_breakpoint_def add_breakpoint_response_def
  breakpoint_info_of_def remove_breakpoint_by_id_def source_breakpoints_for_file_def
  add_pending_source_breakpoint_def add_pending_function_breakpoint_def
  flush_pending_breakpoints_def

section \<open>The state guard\<close>

lemma check_state_ok_iff: "check_state allowed s = Inr () \<longleftrightarrow> s_state s \<in> set allowed"
  by (simp add: check_state_def split: state.split)

lemma check_state_cases:
  "check_state allowed s = Inr () \<and> s_state s \<in> set allowed \<or>
   (\<exists>e. check_state allowed s = Inl e \<and> s_state s \<notin> set allowed)"
  by (simp add: check_state_def split: state.split)

lemma check_state_Inr: "s_state s \<in> set allowed \<Longrightarrow> check_state allowed s = Inr ()"
  by (simp add: check_state_def)

lemma check_state_InlD: "check_state allowed s = Inl e \<Longrightarrow> s_state s \<notin> set allowed"
  by (auto simp: check_state_def split: if_splits)

lemma check_state_InrD: "check_state allowed s = Inr u \<Longrightarrow> s_state s \<in> set allowed"
  by (auto simp: check_state_def split: if_splits state.splits)

end
