(* ===== verification/Session_Facts.thy ===== *)
theory Session_Facts
  imports Session
begin

text \<open>
  What the session promises: its invariant, the frame of every operation, the generation epoch as
  a contract, and the breakpoint bookkeeping.
\<close>

section \<open>The session invariant\<close>

text \<open>
  Every map has distinct keys, every tracked breakpoint is filed under its own id, and the output
  buffer's byte count is right.
\<close>

definition session_inv :: "session \<Rightarrow> bool" where
  "session_inv s \<longleftrightarrow>
     hm_ok (s_frame_mapping s) \<and> hm_ok (s_source_bps s) \<and> hm_ok (s_bp_responses s) \<and>
     hm_ok (s_pending_source_bps s) \<and>
     (\<forall>i info. hm_get (s_bp_responses s) i = Some info \<longrightarrow> bi_id info = i) \<and>
     buffer_inv (s_output s)"

lemma session_new_inv [inv_intros]: "session_inv session_new"
  by (simp add: session_inv_def session_new_def buffer_new_inv)

lemma set_state_inv [inv_intros]: "session_inv s \<Longrightarrow> session_inv (set_state st s)"
  by (simp add: session_inv_def set_state_def)

lemma set_state_if_generation_inv [inv_intros]:
  "session_inv s \<Longrightarrow> session_inv (snd (set_state_if_generation g st s))"
  by (simp add: session_inv_def set_state_if_generation_def)

lemma drain_output_inv [inv_intros]: "session_inv s \<Longrightarrow> session_inv (snd (drain_output s))"
  using drain_inv [of "s_output s"]
  by (simp add: session_inv_def drain_output_def split: prod.split) (metis snd_conv)

lemma reset_inner_inv: "session_inv s \<Longrightarrow> session_inv (reset_inner s)"
  by (simp add: session_inv_def reset_inner_def)

lemma reset_inv [inv_intros]: "session_inv s \<Longrightarrow> session_inv (reset s)"
  by (simp add: reset_def drain_output_inv reset_inner_inv)

lemma set_fields_inv [inv_intros]:
  "session_inv s \<Longrightarrow> session_inv (set_program p s)"
  "session_inv s \<Longrightarrow> session_inv (set_pid i s)"
  "session_inv s \<Longrightarrow> session_inv (set_exit_code i s)"
  "session_inv s \<Longrightarrow> session_inv (set_dump d s)"
  "session_inv s \<Longrightarrow> session_inv (set_last_stopped info s)"
  by (simp_all add: session_inv_def session_defs)

lemma terminate_if_generation_inv [inv_intros]:
  "session_inv s \<Longrightarrow> session_inv (snd (terminate_if_generation g c s))"
  by (simp add: session_inv_def terminate_if_generation_def split: option.split)

lemma set_frame_mapping_inv [inv_intros]:
  "session_inv s \<Longrightarrow> hm_ok m \<Longrightarrow> session_inv (set_frame_mapping m s)"
  by (simp add: session_inv_def set_frame_mapping_def)

lemma append_session_output_inv [inv_intros]:
  "session_inv s \<Longrightarrow> session_inv (append_session_output c t s)"
  by (simp add: session_inv_def append_session_output_def append_output_inv)

lemma add_breakpoints_inv [inv_intros]:
  "session_inv s \<Longrightarrow> session_inv (snd (add_source_breakpoint f l c s))"
  "session_inv s \<Longrightarrow> session_inv (snd (add_function_breakpoint n c s))"
  "session_inv s \<Longrightarrow> session_inv (add_pending_source_breakpoint f l c s)"
  "session_inv s \<Longrightarrow> session_inv (add_pending_function_breakpoint n c s)"
  by (simp_all add: session_inv_def session_defs Let_def)

lemma add_breakpoint_response_inv [inv_intros]:
  "session_inv s \<Longrightarrow> session_inv (add_breakpoint_response info s)"
  by (simp add: session_inv_def add_breakpoint_response_def)

lemma remove_breakpoint_by_id_inv [inv_intros]:
  "session_inv s \<Longrightarrow> session_inv (snd (remove_breakpoint_by_id i s))"
  by (auto simp: session_inv_def remove_breakpoint_by_id_def Let_def split: option.split)

lemma hm_ok_fold_extend: "hm_ok m \<Longrightarrow> hm_ok (fold (\<lambda>(f, bps) m. hm_extend f bps m) fs m)"
  by (induction fs arbitrary: m) auto

lemma flush_pending_inv [inv_intros]:
  "session_inv s \<Longrightarrow> session_inv (snd (flush_pending_breakpoints s))"
  by (simp add: session_inv_def flush_pending_breakpoints_def Let_def hm_ok_fold_extend)

section \<open>Reset\<close>

lemma reset_eq_buffer:
  "buffer_inv (s_output s) \<Longrightarrow> reset s = session_new\<lparr>s_generation := s_generation s + 1\<rparr>"
  using drain_empty [of "s_output s"]
  by (cases s) (auto simp: reset_def reset_inner_def drain_output_def session_new_def
      split: prod.split)

lemma reset_eq: "session_inv s \<Longrightarrow> reset s = session_new\<lparr>s_generation := s_generation s + 1\<rparr>"
  by (simp add: reset_eq_buffer session_inv_def)

lemma reset_simps [simp]:
  "s_state (reset s) = Idle" "s_generation (reset s) = s_generation s + 1"
  "s_is_dump (reset s) = False" "s_last_stopped (reset s) = None" "s_program (reset s) = []"
  "s_pid (reset s) = 0" "s_exit_code (reset s) = None" "s_frame_mapping (reset s) = []"
  "s_bp_responses (reset s) = []" "s_source_bps (reset s) = []" "s_function_bps (reset s) = []"
  by (simp_all add: reset_def reset_inner_def drain_output_def split: prod.split)

lemma drain_output_simps [simp]:
  "s_state (snd (drain_output s)) = s_state s" "s_generation (snd (drain_output s)) = s_generation s"
  "s_is_dump (snd (drain_output s)) = s_is_dump s" "s_pid (snd (drain_output s)) = s_pid s"
  "s_last_stopped (snd (drain_output s)) = s_last_stopped s"
  "s_exit_code (snd (drain_output s)) = s_exit_code s"
  by (simp_all add: drain_output_def split: prod.split)

section \<open>The generation epoch\<close>

text \<open>
  A guarded operation carries the epoch its caller read before it blocked.  It applies only while
  that epoch is current, and it never moves the epoch; \<open>bump\<close> does.
\<close>

locale epoch_guard =
  fixes epoch :: "'s \<Rightarrow> u64"
    and bump :: "'s \<Rightarrow> 's"
    and guarded :: "u64 \<Rightarrow> 'a \<Rightarrow> 's \<Rightarrow> bool \<times> 's"
  assumes bump_epoch: "epoch (bump s) = epoch s + 1"
    and stale: "epoch s \<noteq> g \<Longrightarrow> guarded g a s = (False, s)"
    and current: "epoch s = g \<Longrightarrow> fst (guarded g a s)"
    and keeps_epoch: "epoch (snd (guarded g a s)) = epoch s"
begin

lemma epoch_bumps: "epoch ((bump ^^ n) s) = epoch s + of_nat n"
  by (induction n) (simp_all add: bump_epoch)

lemma applied_iff: "fst (guarded g a s) \<longleftrightarrow> epoch s = g"
  using stale [of s g a] current [of s g a] by (cases "epoch s = g") auto

text \<open>A call that started before one of the next \<open>2 ^ 64 - 1\<close> bumps never takes effect after it.\<close>

lemma stale_after_bumps:
  assumes "0 < n" "n < 2 ^ 64"
  shows "guarded (epoch s) a ((bump ^^ n) s) = (False, (bump ^^ n) s)"
proof (rule stale)
  have "(of_nat n :: u64) \<noteq> 0"
    using assms by (simp add: word_of_nat_eq_0_iff nat_dvd_not_less)
  then show "epoch ((bump ^^ n) s) \<noteq> epoch s"
    by (simp add: epoch_bumps)
qed

lemma stale_sequence:
  "epoch s \<noteq> g \<Longrightarrow> fold (\<lambda>a s. snd (guarded g a s)) acts s = s"
  by (induction acts) (simp_all add: stale)

lemma epoch_sequence: "epoch (fold (\<lambda>a s. snd (guarded g a s)) acts s) = epoch s"
  by (induction acts arbitrary: s) (simp_all add: keeps_epoch)

end

interpretation set_epoch: epoch_guard s_generation reset set_state_if_generation
  by unfold_locales (auto simp: set_state_if_generation_def)

interpretation term_epoch: epoch_guard s_generation reset terminate_if_generation
  by unfold_locales (auto simp: terminate_if_generation_def split: option.splits)

section \<open>Breakpoint bookkeeping\<close>

lemma list_breakpoints_sorted: "sorted (map bi_id (list_breakpoints s))"
  by (simp add: list_breakpoints_def)

lemma set_list_breakpoints: "set (list_breakpoints s) = set (hm_values (s_bp_responses s))"
  by (simp add: list_breakpoints_def)

lemma in_list_breakpoints:
  assumes "session_inv s"
  shows "info \<in> set (list_breakpoints s) \<longleftrightarrow> breakpoint_info_of (bi_id info) s = Some info"
proof -
  let ?m = "s_bp_responses s"
  from assms have ok: "hm_ok ?m" by (simp add: session_inv_def)
  have ids: "bi_id v = i" if "(i, v) \<in> set ?m" for i v
    using that assms hm_get_iff [OF ok, of i v] unfolding session_inv_def by blast
  have "info \<in> set (hm_values ?m) \<longleftrightarrow> (bi_id info, info) \<in> set ?m"
  proof
    assume "info \<in> set (hm_values ?m)"
    then obtain i where "(i, info) \<in> set ?m" by (auto simp: hm_values_def)
    then show "(bi_id info, info) \<in> set ?m" using ids by blast
  qed (auto simp: hm_values_def intro!: image_eqI [of _ snd "(bi_id info, info)"])
  then show ?thesis
    by (simp add: set_list_breakpoints breakpoint_info_of_def hm_get_iff [OF ok])
qed

lemma distinct_ids:
  assumes "session_inv s"
  shows "distinct (map bi_id (list_breakpoints s))"
proof -
  let ?m = "s_bp_responses s"
  from assms have ok: "distinct (map fst ?m)" by (simp add: session_inv_def hm_ok_def)
  have "map bi_id (hm_values ?m) = map fst ?m"
  proof -
    have "bi_id v = k" if "(k, v) \<in> set ?m" for k v
      using that assms hm_get_iff [of ?m k v] unfolding session_inv_def by blast
    then show ?thesis by (auto simp: hm_values_def)
  qed
  with ok have "distinct (map bi_id (hm_values ?m))" by simp
  then show ?thesis
    by (simp add: list_breakpoints_def distinct_map)
qed

text \<open>The listing does not depend on the iteration order of the map.\<close>

lemma list_breakpoints_order_independent:
  assumes "session_inv s" "session_inv t"
    and "\<And>i. breakpoint_info_of i s = breakpoint_info_of i t"
  shows "list_breakpoints s = list_breakpoints t"
proof -
  let ?xs = "list_breakpoints s" and ?ys = "list_breakpoints t"
  have sets: "set ?xs = set ?ys"
    using assms by (auto simp: in_list_breakpoints)
  have "inj_on bi_id (set ?xs \<union> set ?ys)"
    using distinct_ids [OF assms(1)] sets by (simp add: distinct_map)
  then show ?thesis
    using sets list_breakpoints_sorted distinct_ids assms(1,2)
    by (intro map_sorted_distinct_set_unique [of bi_id]) auto
qed

lemma remove_breakpoint_tracks:
  "breakpoint_info_of j (snd (remove_breakpoint_by_id i s)) =
     (if j = i then None else breakpoint_info_of j s)"
  by (auto simp: breakpoint_info_of_def remove_breakpoint_by_id_def Let_def split: option.split)

lemma remove_breakpoint_unknown:
  "breakpoint_info_of i s = None \<Longrightarrow> snd (remove_breakpoint_by_id i s) = s"
  by (simp add: breakpoint_info_of_def remove_breakpoint_by_id_def)

lemma fold_extend_list:
  "hm_ok fs \<Longrightarrow> hm_list (fold (\<lambda>(f, bps) m. hm_extend f bps m) fs m) file = hm_list m file @ hm_list fs file"
proof (induction fs arbitrary: m)
  case Nil
  then show ?case by simp
next
  case (Cons a fs)
  obtain f bps where a: "a = (f, bps)" by force
  have tail: "hm_ok fs" "f \<notin> fst ` set fs" using Cons.prems by (auto simp: hm_ok_def a)
  have "hm_list fs f = []"
    using tail(2) hm_get_None_iff [of fs f] by (simp add: hm_list_def hm_keys_def)
  moreover have "hm_list (a # fs) file = (if file = f then bps else hm_list fs file)"
    by (simp add: a hm_list_def hm_get_def)
  ultimately show ?case using Cons.IH [OF tail(1)] by (simp add: a)
qed

lemma flush_active_source:
  "hm_ok (s_pending_source_bps s) \<Longrightarrow>
   hm_list (s_source_bps (snd (flush_pending_breakpoints s))) file =
     hm_list (s_source_bps s) file @ hm_list (s_pending_source_bps s) file"
  by (simp add: flush_pending_breakpoints_def Let_def fold_extend_list)

lemma flush_simps [simp]:
  "s_state (snd (flush_pending_breakpoints s)) = s_state s"
  "s_generation (snd (flush_pending_breakpoints s)) = s_generation s"
  "s_is_dump (snd (flush_pending_breakpoints s)) = s_is_dump s"
  "s_last_stopped (snd (flush_pending_breakpoints s)) = s_last_stopped s"
  "s_output (snd (flush_pending_breakpoints s)) = s_output s"
  "s_pid (snd (flush_pending_breakpoints s)) = s_pid s"
  "s_bp_responses (snd (flush_pending_breakpoints s)) = s_bp_responses s"
  "s_function_bps (snd (flush_pending_breakpoints s)) = s_function_bps s @ s_pending_function_bps s"
  "s_pending_source_bps (snd (flush_pending_breakpoints s)) = []"
  "s_pending_function_bps (snd (flush_pending_breakpoints s)) = []"
  by (simp_all add: flush_pending_breakpoints_def Let_def)

lemma breakpoint_op_simps [simp]:
  "s_state (snd (add_source_breakpoint f l c s)) = s_state s"
  "s_generation (snd (add_source_breakpoint f l c s)) = s_generation s"
  "s_state (snd (add_function_breakpoint nm c s)) = s_state s"
  "s_generation (snd (add_function_breakpoint nm c s)) = s_generation s"
  "s_state (add_breakpoint_response info s) = s_state s"
  "s_generation (add_breakpoint_response info s) = s_generation s"
  "s_state (add_pending_source_breakpoint f l c s) = s_state s"
  "s_generation (add_pending_source_breakpoint f l c s) = s_generation s"
  "s_state (add_pending_function_breakpoint nm c s) = s_state s"
  "s_generation (add_pending_function_breakpoint nm c s) = s_generation s"
  "s_state (snd (remove_breakpoint_by_id i s)) = s_state s"
  "s_generation (snd (remove_breakpoint_by_id i s)) = s_generation s"
  by (simp_all add: add_source_breakpoint_def add_function_breakpoint_def add_breakpoint_response_def
      add_pending_source_breakpoint_def add_pending_function_breakpoint_def remove_breakpoint_by_id_def
      Let_def split: option.split)

lemma flush_keepsD:
  "flush_pending_breakpoints s = (r, s') \<Longrightarrow> s_generation s' = s_generation s \<and> s_output s' = s_output s"
  using flush_simps(2,5) [of s] by simp

end
