(* ===== verification/Event_Pump.thy ===== *)
theory Event_Pump
  imports Session_Facts
begin

text \<open>
  The event pump, \<open>mcp-session/src/pump.rs\<close>: a task that drains one backend's event stream into
  the session.  It carries the generation that was current when it was spawned.  The stream is the
  list of events it delivers before it ends.
\<close>

fun pump_event :: "u64 \<Rightarrow> backend_event \<Rightarrow> session \<Rightarrow> session" where
  "pump_event g (Ev_Output category text) s = append_session_output category text s"
| "pump_event g (Ev_Terminated code) s = snd (terminate_if_generation g code s)"

definition spawn_event_pump :: "u64 \<Rightarrow> backend_event list \<Rightarrow> session \<Rightarrow> session" where
  "spawn_event_pump g events s = fold (pump_event g) events s"

lemma pump_event_inv [inv_intros]: "session_inv s \<Longrightarrow> session_inv (pump_event g e s)"
  by (cases e) (simp_all add: inv_intros)

lemma pump_event_generation [simp]: "s_generation (pump_event g e s) = s_generation s"
  by (cases e) (simp_all add: append_session_output_def term_epoch.keeps_epoch)

text \<open>Everything of the session but the output buffer.\<close>

definition control_part :: "session \<Rightarrow> session" where
  "control_part s = s\<lparr>s_output := buffer_new\<rparr>"

lemma control_part_append [simp]: "control_part (append_session_output c t s) = control_part s"
  by (simp add: control_part_def append_session_output_def)

lemma pump_event_stale: "s_generation s \<noteq> g \<Longrightarrow> control_part (pump_event g e s) = control_part s"
  by (cases e) (simp_all add: term_epoch.stale)

lemma pump_stale: "s_generation s \<noteq> g \<Longrightarrow> control_part (spawn_event_pump g evs s) = control_part s"
  unfolding spawn_event_pump_def
  by (induction evs arbitrary: s) (simp_all add: pump_event_stale)

fun outputs_of :: "backend_event list \<Rightarrow> output_entry list" where
  "outputs_of [] = []"
| "outputs_of (Ev_Output c t # evs) = \<lparr>oe_category = c, oe_text = t\<rparr> # outputs_of evs"
| "outputs_of (Ev_Terminated code # evs) = outputs_of evs"

lemma pump_output: "s_output (spawn_event_pump g evs s) = buf.app_all (outputs_of evs) (s_output s)"
  unfolding spawn_event_pump_def buf.app_all_def
  by (induction evs arbitrary: s rule: outputs_of.induct)
    (auto simp: append_session_output_def terminate_if_generation_def split: option.splits)

lemma pump_state:
  "s_generation s = g \<Longrightarrow>
   s_state (spawn_event_pump g evs s) =
     (if \<exists>code. Ev_Terminated code \<in> set evs then Terminated else s_state s)"
  unfolding spawn_event_pump_def
proof (induction evs arbitrary: s)
  case (Cons e evs)
  have gen: "s_generation (pump_event g e s) = g" using Cons.prems by simp
  have step: "s_state (pump_event g e s) = (case e of Ev_Terminated _ \<Rightarrow> Terminated | _ \<Rightarrow> s_state s)"
    using Cons.prems by (cases e)
      (auto simp: append_session_output_def terminate_if_generation_def split: option.splits)
  show ?case using Cons.IH [OF gen] step by (cases e) auto
qed simp

end
