(* ===== verification/Session_Properties.thy ===== *)
theory Session_Properties
  imports Event_Pump
begin

text \<open>The properties of the neutral session, its output buffer and its event pump.\<close>

section \<open>The state machine and the generation\<close>

text \<open>\<open>check_state\<close> accepts exactly the states it is given.  Otherwise an idle session is told
  to launch or attach, a running one to pause, and any other state is named beside the expected
  ones.\<close>

theorem check_state_table:
  "check_state allowed s =
     (if s_state s \<in> set allowed then Inr ()
      else Inl (case s_state s of
                  Idle \<Rightarrow> ''no debug session active. Use 'launch' or 'attach' first.''
                | Running \<Rightarrow> ''process is running. Use 'pause' first.''
                | Configuring \<Rightarrow> ''invalid state: configuring, expected one of: ''
                    @ join_with '', '' (map state_text allowed)
                | Stopped \<Rightarrow> ''invalid state: stopped, expected one of: ''
                    @ join_with '', '' (map state_text allowed)
                | Terminated \<Rightarrow> ''invalid state: terminated, expected one of: ''
                    @ join_with '', '' (map state_text allowed)))"
  by (simp add: check_state_def split: state.split)

text \<open>\<open>reset\<close> brings any well-formed session back to a new one, output buffer included, and
  moves the generation on by one.\<close>

theorem reset_is_new:
  "session_inv s \<Longrightarrow> reset s = session_new\<lparr>s_generation := s_generation s + 1\<rparr>"
  by (rule reset_eq)

definition busy_session :: session where
  "busy_session =
     append_session_output ''stdout'' ''hello''
       (add_breakpoint_response
          \<lparr>bi_id = 4, bi_ty = ''source'', bi_file = ''a.c'', bi_line = 9, bi_function = [],
           bi_condition = [], bi_verified = True\<rparr>
          (snd (add_source_breakpoint ''a.c'' 9 [] (set_state Stopped session_new))))"

lemma busy_session_inv: "session_inv busy_session"
  by (simp add: busy_session_def inv_intros)

theorem reset_is_new_witness:
  "reset busy_session = session_new\<lparr>s_generation := s_generation busy_session + 1\<rparr>"
  by (rule reset_is_new [OF busy_session_inv])

text \<open>An operation that carries the generation it read before it blocked changes nothing once
  the session has been reset in between: neither the guarded state write nor the guarded
  termination applies after 1 to \<open>2^64 - 1\<close> resets.\<close>

theorem stale_generation_never_applies:
  assumes "0 < n" "n < 2 ^ 64"
  shows "set_state_if_generation (s_generation s) st ((reset ^^ n) s) = (False, (reset ^^ n) s) \<and>
    terminate_if_generation (s_generation s) code ((reset ^^ n) s) = (False, (reset ^^ n) s)"
  using set_epoch.stale_after_bumps [OF assms] term_epoch.stale_after_bumps [OF assms] by blast

theorem stale_generation_never_applies_witness:
  "set_state_if_generation (s_generation busy_session) Running ((reset ^^ 3) busy_session)
     = (False, (reset ^^ 3) busy_session)"
  using stale_generation_never_applies [of 3 busy_session Running] by simp

section \<open>The event pump\<close>

text \<open>A pump whose generation is no longer current leaves state, exit code, stop information
  and breakpoints alone, whatever events its backend still sends; it only appends output.\<close>

theorem stale_pump_only_appends_output:
  assumes "s_generation s \<noteq> g"
  shows "spawn_event_pump g evs s =
    s\<lparr>s_output := fold (\<lambda>e. append_output (oe_category e) (oe_text e)) (outputs_of evs) (s_output s)\<rparr>"
proof -
  have "control_part (spawn_event_pump g evs s) = control_part s"
    by (rule pump_stale [OF assms])
  moreover have "s_output (spawn_event_pump g evs s) =
      fold (\<lambda>e. append_output (oe_category e) (oe_text e)) (outputs_of evs) (s_output s)"
    by (simp add: pump_output buf.app_all_def)
  ultimately show ?thesis
    by (cases "spawn_event_pump g evs s"; cases s) (simp add: control_part_def)
qed

theorem stale_pump_only_appends_output_witness:
  "spawn_event_pump 5 [Ev_Terminated (Some 1), Ev_Output ''stdout'' ''late''] busy_session =
     busy_session\<lparr>s_output := append_output ''stdout'' ''late'' (s_output busy_session)\<rparr>"
proof -
  have "s_generation busy_session \<noteq> 5"
    by (simp add: busy_session_def append_session_output_def add_source_breakpoint_def
        add_breakpoint_response_def set_state_def session_new_def Let_def)
  from stale_pump_only_appends_output [OF this] show ?thesis by simp
qed

text \<open>A pump of the current generation terminates the session exactly when a \<open>Terminated\<close>
  event is among those it drains, and leaves the state alone otherwise.\<close>

theorem current_pump_terminates:
  "s_generation s = g \<Longrightarrow>
   s_state (spawn_event_pump g evs s) =
     (if \<exists>code. Ev_Terminated code \<in> set evs then Terminated else s_state s)"
  by (rule pump_state)

theorem current_pump_terminates_witness:
  "s_state (spawn_event_pump 0 [Ev_Output ''stdout'' ''x'', Ev_Terminated None] session_new) = Terminated"
  using current_pump_terminates [of session_new 0 "[Ev_Output ''stdout'' ''x'', Ev_Terminated None]"]
  by (simp add: session_new_def)

section \<open>Captured output\<close>

text \<open>C9: after any burst of output the drain returns the longest suffix of the entries whose size
  is at most 1 MiB, in order, behind one truncation marker exactly when something was dropped;
  a second drain returns nothing.\<close>

theorem output_keeps_longest_suffix:
  "let b = fold (\<lambda>e. append_output (oe_category e) (oe_text e)) es buffer_new
   in fst (drain b) = (if max_size < total_size es then [truncation_marker] else []) @ fit es \<and>
      (\<exists>dropped. es = dropped @ fit es) \<and> total_size (fit es) \<le> max_size \<and>
      (\<forall>n. total_size (drop n es) \<le> max_size \<longrightarrow> length (drop n es) \<le> length (fit es)) \<and>
      fst (drain (snd (drain b))) = []"
  using buf.drain_after_burst [of es] fit_changed_iff [of es] fit_suffix [of es] fit_total [of es]
    fit_maximal [OF append_take_drop_id [symmetric]] drain_idempotent
  by (auto simp: buf.app_all_def Let_def)

theorem output_keeps_longest_suffix_witness:
  "fst (drain (append_output ''stdout'' ''hi'' buffer_new)) =
     [\<lparr>oe_category = ''stdout'', oe_text = ''hi''\<rparr>]"
  using output_keeps_longest_suffix [of "[\<lparr>oe_category = ''stdout'', oe_text = ''hi''\<rparr>]"]
  by (simp add: Let_def max_size_def entry_size_def)

section \<open>Breakpoint bookkeeping\<close>

text \<open>The listing is sorted by id without duplicates and holds exactly the recorded
  breakpoints.\<close>

theorem breakpoint_listing:
  assumes "session_inv s"
  shows "sorted_wrt (<) (map bi_id (list_breakpoints s)) \<and>
    (info \<in> set (list_breakpoints s) \<longleftrightarrow> breakpoint_info_of (bi_id info) s = Some info)"
  using assms list_breakpoints_sorted [of s] distinct_ids [of s] in_list_breakpoints [of s]
  by (auto simp: strict_sorted_iff)

lemma busy_info:
  "breakpoint_info_of 4 busy_session =
     Some \<lparr>bi_id = 4, bi_ty = ''source'', bi_file = ''a.c'', bi_line = 9, bi_function = [],
       bi_condition = [], bi_verified = True\<rparr>"
  by (simp add: busy_session_def breakpoint_info_of_def append_session_output_def
      add_source_breakpoint_def add_breakpoint_response_def Let_def)

theorem breakpoint_listing_witness:
  "\<lparr>bi_id = 4, bi_ty = ''source'', bi_file = ''a.c'', bi_line = 9, bi_function = [],
     bi_condition = [], bi_verified = True\<rparr> \<in> set (list_breakpoints busy_session)"
  using breakpoint_listing [OF busy_session_inv] busy_info by simp

text \<open>Two sessions that record the same breakpoints list them the same way, whatever order
  their hash maps iterate in.\<close>

theorem breakpoint_listing_order_independent:
  assumes "session_inv s" "session_inv t" "\<And>i. breakpoint_info_of i s = breakpoint_info_of i t"
  shows "list_breakpoints s = list_breakpoints t"
  using assms by (rule list_breakpoints_order_independent)

definition swapped_session :: "(i64 \<times> breakpoint_info) list \<Rightarrow> session" where
  "swapped_session m = session_new\<lparr>s_bp_responses := m\<rparr>"

theorem breakpoint_listing_order_independent_witness:
  "let f = (\<lambda>i. \<lparr>bi_id = i, bi_ty = ''function'', bi_file = [], bi_line = 0, bi_function = ''f'',
              bi_condition = [], bi_verified = True\<rparr>)
   in list_breakpoints (swapped_session [(1, f 1), (2, f 2)]) =
      list_breakpoints (swapped_session [(2, f 2), (1, f 1)])"
  unfolding Let_def
  by (rule breakpoint_listing_order_independent)
    (auto simp: swapped_session_def session_inv_def session_new_def hm_ok_def hm_get_def
      breakpoint_info_of_def buffer_new_inv split: if_splits)

text \<open>Removing a source breakpoint takes the first entry on its recorded line out of its file's
  list and its record out of the index, and touches no other file, no function breakpoint and no
  other record.\<close>

theorem remove_source_breakpoint:
  assumes "breakpoint_info_of i s = Some info" "bi_ty info = ''source''"
  shows "fst (remove_breakpoint_by_id i s) = Inr (bi_file info, False) \<and>
    source_breakpoints_for_file f (snd (remove_breakpoint_by_id i s)) =
      (if f = bi_file info
       then remove_first (\<lambda>bp. sb_line bp = bi_line info) (source_breakpoints_for_file f s)
       else source_breakpoints_for_file f s) \<and>
    s_function_bps (snd (remove_breakpoint_by_id i s)) = s_function_bps s \<and>
    breakpoint_info_of j (snd (remove_breakpoint_by_id i s)) =
      (if j = i then None else breakpoint_info_of j s)"
  using assms
  by (auto simp: remove_breakpoint_by_id_def breakpoint_info_of_def source_breakpoints_for_file_def
      remove_position_eq hm_list_def Let_def split: option.split)

theorem remove_source_breakpoint_witness:
  "source_breakpoints_for_file ''a.c'' (snd (remove_breakpoint_by_id 4 busy_session)) = []"
proof -
  have "source_breakpoints_for_file ''a.c'' busy_session = [\<lparr>sb_line = 9, sb_condition = []\<rparr>]"
    by (simp add: busy_session_def source_breakpoints_for_file_def append_session_output_def
        add_source_breakpoint_def add_breakpoint_response_def set_state_def session_new_def Let_def)
  with remove_source_breakpoint [OF busy_info, of "''a.c''"] show ?thesis by simp
qed

text \<open>Flushing moves every pending breakpoint behind the active ones of its file and leaves
  none pending, so a second flush hands out nothing.\<close>

theorem flush_moves_pending:
  assumes "session_inv s" "flush_pending_breakpoints s = ((files, funs), s')"
  shows "files = s_pending_source_bps s \<and> funs = s_pending_function_bps s \<and>
    source_breakpoints_for_file f s' =
      source_breakpoints_for_file f s @ hm_list (s_pending_source_bps s) f \<and>
    s_function_bps s' = s_function_bps s @ s_pending_function_bps s \<and>
    fst (flush_pending_breakpoints s') = ([], [])"
proof -
  have "s' = snd (flush_pending_breakpoints s)" using assms(2) by simp
  with assms flush_active_source [of s f] show ?thesis
    by (auto simp: source_breakpoints_for_file_def flush_pending_breakpoints_def Let_def session_inv_def)
qed

theorem flush_moves_pending_witness:
  "s_function_bps (snd (flush_pending_breakpoints
      (add_pending_function_breakpoint ''main'' [] session_new))) = [\<lparr>fb_name = ''main'', fb_condition = []\<rparr>]"
proof -
  let ?s = "add_pending_function_breakpoint ''main'' [] session_new"
  obtain files funs s' where e: "flush_pending_breakpoints ?s = ((files, funs), s')"
    by (metis surj_pair)
  have "session_inv ?s" by (simp add: inv_intros)
  from flush_moves_pending [OF this e, of "[]"] e show ?thesis
    by (simp add: add_pending_function_breakpoint_def session_new_def)
qed

end
