(* ===== verification/Tool_Args.thy ===== *)
theory Tool_Args
  imports Core_Types
begin

text \<open>
  The argument accessor, \<open>mcp-tools/src/args.rs\<close>: permissive reading of a tool call's argument
  object, with the exact error texts of the original server.  Parsing a JSON text is
  \<open>serde_json\<close>, code outside the repository: the two entry points the accessor calls are the
  fields of \<open>serde\<close>, a parameter of the functions that use them.
\<close>

type_synonym args = "(string \<times> json) list"

record serde =
  sd_string_array :: "string \<Rightarrow> string + string list"
  sd_object :: "string \<Rightarrow> string + (string \<times> json) list"

definition missing_required :: "string \<Rightarrow> string" where
  "missing_required detail = ''missing required parameter: '' @ detail"

definition not_found :: "string \<Rightarrow> string" where
  "not_found key = ''required argument '' @ dq # key @ dq # '' not found''"

definition not_of_type :: "string \<Rightarrow> string \<Rightarrow> string" where
  "not_of_type key ty = ''argument '' @ dq # key @ dq # '' is not of type '' @ ty"

fun json_type_name :: "json \<Rightarrow> string" where
  "json_type_name JNull = ''null''"
| "json_type_name (JBool _) = ''bool''"
| "json_type_name (JNum _) = ''number''"
| "json_type_name (JStr _) = ''string''"
| "json_type_name (JArr _) = ''array''"
| "json_type_name (JObj _) = ''object''"

definition get_raw :: "args \<Rightarrow> string \<Rightarrow> json option" where
  "get_raw a key = map_of a key"

definition require_string :: "args \<Rightarrow> string \<Rightarrow> string + string" where
  "require_string a key =
     (case map_of a key of
        None \<Rightarrow> Inl (missing_required (not_found key))
      | Some (JStr s) \<Rightarrow> Inr s
      | Some _ \<Rightarrow> Inl (missing_required (not_of_type key ''string'')))"

definition require_int :: "args \<Rightarrow> string \<Rightarrow> string + i64" where
  "require_int a key =
     (case map_of a key of
        None \<Rightarrow> Inl (missing_required (not_found key))
      | Some v \<Rightarrow>
          (case as_f64 v of
             Some f \<Rightarrow> Inr (f64_as_i64 f)
           | None \<Rightarrow> Inl (missing_required (not_of_type key ''int''))))"

definition get_string :: "args \<Rightarrow> string \<Rightarrow> string \<Rightarrow> string" where
  "get_string a key d = (case map_of a key of Some (JStr s) \<Rightarrow> s | _ \<Rightarrow> d)"

definition get_bool :: "args \<Rightarrow> string \<Rightarrow> bool \<Rightarrow> bool" where
  "get_bool a key d = (case map_of a key of Some (JBool b) \<Rightarrow> b | _ \<Rightarrow> d)"

definition get_f64 :: "args \<Rightarrow> string \<Rightarrow> rat option" where
  "get_f64 a key = Option.bind (map_of a key) as_f64"

definition explicit_positive_thread_id :: "args \<Rightarrow> string + i64 option" where
  "explicit_positive_thread_id a =
     (case get_raw a ''thread_id'' of
        None \<Rightarrow> Inr None
      | Some raw \<Rightarrow>
          if raw = JNull then Inr None
          else case as_f64 raw of
            Some f \<Rightarrow>
              (let tid = f64_as_i64 f
               in if tid \<le> 0 then Inl (sq # ''thread_id'' @ sq # '' must be a positive integer'')
                  else Inr (Some tid))
          | None \<Rightarrow> Inr None)"

definition require_positive_int :: "args \<Rightarrow> string \<Rightarrow> string + i64" where
  "require_positive_int a key =
     (case require_int a key of
        Inl e \<Rightarrow> Inl e
      | Inr v \<Rightarrow>
          if v \<le> 0 then Inl (sq # key @ sq # '' must be a positive integer'') else Inr v)"

definition parse_json_array :: "serde \<Rightarrow> args \<Rightarrow> string \<Rightarrow> string + string list" where
  "parse_json_array sd a key =
     (case map_of a key of
        None \<Rightarrow> Inr []
      | Some JNull \<Rightarrow> Inr []
      | Some (JStr s) \<Rightarrow>
          (case sd_string_array sd s of
             Inr xs \<Rightarrow> Inr xs
           | Inl e \<Rightarrow> Inl (''failed to parse '' @ sq # key @ sq # '' as JSON array: '' @ e))
      | Some _ \<Rightarrow>
          Inl (sq # key @ sq # '' must be a JSON array string, e.g. '' @ sq # ''['' @ dq # ''--flag''
               @ dq # '', '' @ dq # ''value'' @ dq # '']'' @ [sq]))"

fun collect_env :: "string \<Rightarrow> (string \<times> json) list \<Rightarrow> string + (string \<times> string) list" where
  "collect_env key [] = Inr []"
| "collect_env key ((k, v) # kvs) =
     (case v of
        JStr s \<Rightarrow>
          (case collect_env key kvs of Inl e \<Rightarrow> Inl e | Inr out \<Rightarrow> Inr ((k, s) # out))
      | other \<Rightarrow>
          Inl (''failed to parse '' @ sq # key @ sq # '' as JSON object: cannot unmarshal ''
               @ json_type_name other @ '' into Go value of type string''))"

definition parse_json_object :: "serde \<Rightarrow> args \<Rightarrow> string \<Rightarrow> string + (string \<times> string) list" where
  "parse_json_object sd a key =
     (case map_of a key of
        None \<Rightarrow> Inr []
      | Some JNull \<Rightarrow> Inr []
      | Some (JStr s) \<Rightarrow>
          (case sd_object sd s of
             Inl e \<Rightarrow> Inl (''failed to parse '' @ sq # key @ sq # '' as JSON object: '' @ e)
           | Inr parsed \<Rightarrow> collect_env key parsed)
      | Some _ \<Rightarrow>
          Inl (sq # key @ sq # '' must be a JSON object string, e.g. '' @ sq # ''{'' @ dq # ''KEY''
               @ dq # '': '' @ dq # ''value'' @ dq # ''}'' @ [sq]))"

section \<open>What the accessors guarantee\<close>

lemma require_int_in_range: "require_int a key = Inr i \<Longrightarrow> in_i64 i"
  by (auto simp: require_int_def f64_as_i64_in_range split: option.splits)

lemma require_positive_int_bounds:
  "require_positive_int a key = Inr i \<Longrightarrow> 0 < i \<and> i \<le> i64_max"
  using require_int_in_range [of a key]
  by (auto simp: require_positive_int_def in_i64_def split: sum.splits if_splits)

lemma explicit_thread_id_bounds:
  "explicit_positive_thread_id a = Inr (Some tid) \<Longrightarrow> 0 < tid \<and> tid \<le> i64_max"
  by (auto simp: explicit_positive_thread_id_def Let_def f64_as_i64_def i64_max_def i64_min_def
      split: option.splits if_splits)

lemma collect_env_Inr:
  "collect_env key kvs = Inr out \<Longrightarrow> kvs = map (\<lambda>(k, s). (k, JStr s)) out"
proof (induction kvs arbitrary: out)
  case (Cons kv kvs)
  then show ?case by (cases kv; cases "snd kv") (auto split: sum.splits)
qed simp

lemma collect_env_complete:
  "\<forall>(k, v) \<in> set kvs. \<exists>s. v = JStr s \<Longrightarrow> \<exists>out. collect_env key kvs = Inr out"
proof (induction kvs)
  case (Cons kv kvs)
  then show ?case by (cases kv) auto
qed simp

text \<open>A required integer of at most 53 bits is read exactly, whichever JSON form it has.\<close>

lemma require_int_exact:
  "\<bar>i\<bar> < 2 ^ 53 \<Longrightarrow> map_of a key = Some (json_int i) \<Longrightarrow> require_int a key = Inr i"
  using f64_as_i64_exact [of i] by (auto simp: require_int_def json_int_def)

end
