(* ===== verification/Tool_Errors.thy ===== *)
theory Tool_Errors
  imports Core_Types
begin

text \<open>
  From a neutral backend error to the tool's error text: \<open>mcp-tools/src/errors.rs\<close>, the implicit
  stack trace's variant of it in \<open>frame.rs\<close>, and the two connect/handshake texts of
  \<open>handlers/lifecycle.rs\<close>.
\<close>

record op_error =
  oe_request_failed :: string
  oe_unexpected :: string
  oe_failed :: string

definition strip_after :: "string \<Rightarrow> string \<Rightarrow> string option" where
  "strip_after s sep = map_option (\<lambda>i. drop (i + length sep) s) (str_find sep s)"

definition render_dap :: "op_error \<Rightarrow> string \<Rightarrow> string" where
  "render_dap op message =
     (case strip_after message '' request failed: '' of
        Some inner \<Rightarrow> oe_request_failed op @ inner
      | None \<Rightarrow>
          (case strip_after message '' failed: '' of
             Some inner \<Rightarrow> oe_failed op @ inner
           | None \<Rightarrow> message))"

definition protocol_label :: "string \<Rightarrow> string" where
  "protocol_label ty = (case split_once (CHR '':'') ty of Some (_, rest) \<Rightarrow> rest | None \<Rightarrow> ty)"

fun op_render :: "op_error \<Rightarrow> backend_error \<Rightarrow> string" where
  "op_render op (Send inner) = oe_request_failed op @ inner"
| "op_render op Closed = oe_request_failed op @ ''connection closed''"
| "op_render op Timeout = oe_request_failed op @ ''operation timed out''"
| "op_render op (Detect m) = oe_request_failed op @ m"
| "op_render op (Spawn m) = oe_request_failed op @ m"
| "op_render op (Dap message) = render_dap op message"
| "op_render op (Protocol ty) = oe_unexpected op @ protocol_label ty"
| "op_render op (Unsupported t) = oe_request_failed op @ error_text (Unsupported t)"

section \<open>The call sites' templates\<close>

definition CONTINUE :: op_error where
  "CONTINUE = \<lparr>oe_request_failed = ''continue request failed: '',
     oe_unexpected = ''unexpected continue response type: '', oe_failed = ''continue failed: ''\<rparr>"

definition STEP_OVER :: op_error where
  "STEP_OVER = \<lparr>oe_request_failed = ''step over request failed: '',
     oe_unexpected = ''unexpected step over response type: '', oe_failed = ''step over failed: ''\<rparr>"

definition STEP_INTO :: op_error where
  "STEP_INTO = \<lparr>oe_request_failed = ''step into request failed: '',
     oe_unexpected = ''unexpected step into response type: '', oe_failed = ''step into failed: ''\<rparr>"

definition STEP_OUT :: op_error where
  "STEP_OUT = \<lparr>oe_request_failed = ''step out request failed: '',
     oe_unexpected = ''unexpected step out response type: '', oe_failed = ''step out failed: ''\<rparr>"

definition PAUSE :: op_error where
  "PAUSE = \<lparr>oe_request_failed = ''pause request failed: '',
     oe_unexpected = ''unexpected pause response type: '', oe_failed = ''pause failed: ''\<rparr>"

definition SET_BREAKPOINTS :: op_error where
  "SET_BREAKPOINTS = \<lparr>oe_request_failed = ''setBreakpoints request failed: '',
     oe_unexpected = ''unexpected setBreakpoints response type: '',
     oe_failed = ''setBreakpoints failed: ''\<rparr>"

definition SET_FUNCTION_BREAKPOINTS :: op_error where
  "SET_FUNCTION_BREAKPOINTS = \<lparr>oe_request_failed = ''setFunctionBreakpoints request failed: '',
     oe_unexpected = ''unexpected response type: '',
     oe_failed = ''setFunctionBreakpoints failed: ''\<rparr>"

definition STACK_TRACE :: op_error where
  "STACK_TRACE = \<lparr>oe_request_failed = ''stackTrace request failed: '',
     oe_unexpected = ''unexpected stackTrace response type: '',
     oe_failed = ''stackTrace failed: ''\<rparr>"

definition THREADS :: op_error where
  "THREADS = \<lparr>oe_request_failed = ''threads request failed: '',
     oe_unexpected = ''unexpected threads response type: '', oe_failed = ''threads failed: ''\<rparr>"

definition SCOPES :: op_error where
  "SCOPES = \<lparr>oe_request_failed = ''scopes request failed: '',
     oe_unexpected = ''unexpected scopes response type: '', oe_failed = ''scopes failed: ''\<rparr>"

definition EVALUATE :: op_error where
  "EVALUATE = \<lparr>oe_request_failed = ''evaluate request failed: '',
     oe_unexpected = ''unexpected evaluate response type: '', oe_failed = ''evaluate failed: ''\<rparr>"

definition READ_MEMORY :: op_error where
  "READ_MEMORY = \<lparr>oe_request_failed = ''readMemory request failed: '',
     oe_unexpected = ''unexpected readMemory response type: '',
     oe_failed = ''readMemory failed: ''\<rparr>"

definition DISASSEMBLE :: op_error where
  "DISASSEMBLE = \<lparr>oe_request_failed = ''disassemble request failed: '',
     oe_unexpected = ''unexpected disassemble response type: '',
     oe_failed = ''disassemble failed: ''\<rparr>"

definition RUN_COMMAND :: op_error where
  "RUN_COMMAND = \<lparr>oe_request_failed = ''run_command request failed: '',
     oe_unexpected = ''unexpected evaluate response type: '', oe_failed = ''command failed: ''\<rparr>"

definition VARIABLES :: op_error where
  "VARIABLES = \<lparr>oe_request_failed = ''variables request failed: '',
     oe_unexpected = ''unexpected variables response type: '',
     oe_failed = ''variables request failed: ''\<rparr>"

section \<open>The implicit stack trace (frame.rs)\<close>

fun map_implicit_error :: "backend_error \<Rightarrow> string" where
  "map_implicit_error (Send inner) = ''implicit stackTrace request failed: '' @ inner"
| "map_implicit_error Closed = ''implicit stackTrace request failed: connection closed''"
| "map_implicit_error Timeout = ''implicit stackTrace request failed: operation timed out''"
| "map_implicit_error (Detect m) = ''implicit stackTrace request failed: '' @ m"
| "map_implicit_error (Spawn m) = ''implicit stackTrace request failed: '' @ m"
| "map_implicit_error (Protocol ty) = ''unexpected stackTrace response type: '' @ protocol_label ty"
| "map_implicit_error (Dap message) =
     (case map_option (\<lambda>i. drop (i + length '' request failed: '') message)
             (str_find '' request failed: '' message) of
        Some inner \<Rightarrow> ''implicit stackTrace request failed: '' @ inner
      | None \<Rightarrow>
          (case map_option (\<lambda>i. drop (i + length '' failed: '') message)
                  (str_find '' failed: '' message) of
             Some inner \<Rightarrow> ''implicit stackTrace failed: '' @ inner
           | None \<Rightarrow> message))"
| "map_implicit_error (Unsupported t) =
     ''implicit stackTrace request failed: '' @ error_text (Unsupported t)"

text \<open>It is the rendering of one more call site.\<close>

definition IMPLICIT_STACK_TRACE :: op_error where
  "IMPLICIT_STACK_TRACE = \<lparr>oe_request_failed = ''implicit stackTrace request failed: '',
     oe_unexpected = ''unexpected stackTrace response type: '',
     oe_failed = ''implicit stackTrace failed: ''\<rparr>"

lemma map_implicit_error_eq: "map_implicit_error e = op_render IMPLICIT_STACK_TRACE e"
  by (cases e) (simp_all add: IMPLICIT_STACK_TRACE_def render_dap_def strip_after_def split: option.split)

section \<open>The first occurrence\<close>

lemma starts_with_iff: "starts_with p s \<longleftrightarrow> (\<exists>r. s = p @ r)"
  by (auto simp: starts_with_def) (metis append_take_drop_id)

lemma str_find_Some_split: "str_find p s = Some i \<Longrightarrow> \<exists>r. s = take i s @ p @ r \<and> i \<le> length s"
proof (induction s arbitrary: i)
  case Nil
  then show ?case by (simp split: if_splits)
next
  case (Cons c s)
  show ?case
  proof (cases "starts_with p (c # s)")
    case True
    with Cons.prems show ?thesis by (auto simp: starts_with_iff)
  next
    case False
    with Cons.prems obtain j where "str_find p s = Some j" "i = Suc j" by auto
    with Cons.IH [of j] show ?thesis by auto
  qed
qed

lemma str_find_None_iff: "p \<noteq> [] \<Longrightarrow> str_find p s = None \<longleftrightarrow> (\<forall>a b. s \<noteq> a @ p @ b)"
proof (induction s)
  case Nil
  then show ?case by simp
next
  case (Cons c s)
  have "(\<exists>a b. c # s = a @ p @ b) \<longleftrightarrow> starts_with p (c # s) \<or> (\<exists>a b. s = a @ p @ b)"
    by (auto simp: starts_with_iff Cons_eq_append_conv)
  with Cons show ?case by (auto simp del: append_assoc)
qed

text \<open>
  An operation name with no blank in it, followed by one of the two separators, is found at the
  length of the name: both separators start with a blank.
\<close>

lemma str_find_no_blank:
  "c \<notin> set a \<Longrightarrow> str_find (c # p) (a @ c # p @ r) = Some (length a)"
proof (induction a)
  case Nil
  have "starts_with (c # p) (c # p @ r)" by (simp add: starts_with_def)
  then show ?case by simp
next
  case (Cons x a)
  then have "\<not> starts_with (c # p) (x # a @ c # p @ r)" by (auto simp: starts_with_def)
  with Cons show ?case by simp
qed

lemma strip_after_no_blank: "c \<notin> set a \<Longrightarrow> strip_after (a @ c # p @ r) (c # p) = Some r"
  by (simp add: strip_after_def str_find_no_blank)

text \<open>
  The messages \<open>send_checked\<close> builds for an operation whose name has no blank keep their detail
  under the call site's own verb.  For the \<open>failed\<close> shape the detail itself must not contain the
  text \<open> request failed: \<close>, which the rendering looks for first.
\<close>

lemma render_dap_request_failed:
  assumes "CHR '' '' \<notin> set opn"
  shows "render_dap op (opn @ '' request failed: '' @ inner) = oe_request_failed op @ inner"
  using strip_after_no_blank [OF assms, of "''request failed: ''" inner]
  by (simp add: render_dap_def)

lemma render_dap_failed:
  assumes "CHR '' '' \<notin> set opn"
    and "str_find '' request failed: '' (opn @ '' failed: '' @ inner) = None"
  shows "render_dap op (opn @ '' failed: '' @ inner) = oe_failed op @ inner"
proof -
  have none: "strip_after (opn @ '' failed: '' @ inner) '' request failed: '' = None"
    by (simp only: strip_after_def assms(2) option.map)
  show ?thesis
    unfolding render_dap_def none using strip_after_no_blank [OF assms(1), of "''failed: ''" inner]
    by simp
qed

text \<open>Without that side condition the rendering drops part of the debugger's message.\<close>

lemma render_dap_loses_detail:
  "render_dap EVALUATE ''evaluate failed: expression: host request failed: timeout'' =
     ''evaluate request failed: timeout''"
  by code_simp

end
