(* ===== verification/Registry.thy ===== *)
theory Registry
  imports Core_Types
begin

text \<open>
  The backend registry, \<open>mcp-tools/src/registry.rs\<close>: name to factory, the per-OS default and the
  cached union of the registered capabilities.  The value of \<open>DEBUG_BACKEND\<close> is an argument, as
  it is of the source's \<open>select_with_env\<close>.
\<close>

record ('h, 'w) registry =
  reg_factories :: "(string, ('h, 'w) factory) hashmap"
  reg_default_name :: string
  reg_capabilities :: capabilities

definition default_backend_for_os :: "bool \<Rightarrow> string" where
  "default_backend_for_os windows = (if windows then ''windbg'' else ''lldb'')"

definition registry_new :: "string \<Rightarrow> ('h, 'w) registry" where
  "registry_new default_name =
     \<lparr>reg_factories = [], reg_default_name = default_name, reg_capabilities = bot\<rparr>"

text \<open>The debug assertion against a second registration is compiled out of a release build.\<close>

definition register :: "('h, 'w) factory \<Rightarrow> ('h, 'w) registry \<Rightarrow> ('h, 'w) registry" where
  "register f reg =
     (let caps = fac_capabilities f; u = reg_capabilities reg in
      reg\<lparr>reg_capabilities :=
            Capabilities (cap_crash_dump u \<or> cap_crash_dump caps) (cap_kernel u \<or> cap_kernel caps)
              (cap_analyze u \<or> cap_analyze caps) (cap_modules u \<or> cap_modules caps),
          reg_factories := hm_insert (fac_name f) f (reg_factories reg)\<rparr>)"

definition available_names :: "('h, 'w) registry \<Rightarrow> string list" where
  "available_names reg = sort (hm_keys (reg_factories reg))"

definition comma_list :: "('h, 'w) registry \<Rightarrow> string" where
  "comma_list reg = join_with '', '' (available_names reg)"

fun nonempty :: "string option \<Rightarrow> string option" where
  "nonempty (Some s) = (if s = [] then None else Some s)"
| "nonempty None = None"

definition select_name :: "('h, 'w) registry \<Rightarrow> string option \<Rightarrow> string option \<Rightarrow> string" where
  "select_name reg requested env_value =
     (case nonempty requested of
        Some n \<Rightarrow> n
      | None \<Rightarrow> (case nonempty env_value of Some n \<Rightarrow> n | None \<Rightarrow> reg_default_name reg))"

definition select_with_env ::
  "('h, 'w) registry \<Rightarrow> string option \<Rightarrow> string option \<Rightarrow> string + ('h, 'w) factory" where
  "select_with_env reg requested env_value =
     (let name = select_name reg requested env_value
      in case hm_get (reg_factories reg) name of
           Some f \<Rightarrow> Inr f
         | None \<Rightarrow> Inl (''unknown backend '' @ sq # name @ sq # ''; available: '' @ comma_list reg))"

section \<open>Correctness\<close>

definition registry_inv :: "('h, 'w) registry \<Rightarrow> bool" where
  "registry_inv reg \<longleftrightarrow>
     hm_ok (reg_factories reg) \<and>
     (\<forall>n f. hm_get (reg_factories reg) n = Some f \<longrightarrow>
        fac_name f = n \<and> fac_capabilities f \<le> reg_capabilities reg)"

lemma registry_new_inv [inv_intros]: "registry_inv (registry_new d)"
  by (simp add: registry_inv_def registry_new_def)

lemma register_capabilities:
  "reg_capabilities (register f reg) = sup (reg_capabilities reg) (fac_capabilities f)"
  by (simp add: register_def sup_capabilities_def Let_def)

lemma register_get:
  "hm_get (reg_factories (register f reg)) n =
     (if n = fac_name f then Some f else hm_get (reg_factories reg) n)"
  by (simp add: register_def Let_def)

lemma register_inv [inv_intros]:
  assumes "registry_inv reg"
  shows "registry_inv (register f reg)"
proof -
  have ok: "hm_ok (reg_factories reg)" using assms by (simp add: registry_inv_def)
  have old: "fac_name g = n \<and> fac_capabilities g \<le> sup (reg_capabilities reg) (fac_capabilities f)"
    if "hm_get (reg_factories reg) n = Some g" for n g
    using that assms le_supI1 unfolding registry_inv_def by blast
  have "hm_ok (reg_factories (register f reg))"
    using ok by (simp add: register_def Let_def)
  with old show ?thesis
    by (simp add: registry_inv_def register_capabilities register_get)
qed

text \<open>
  After any sequence of registrations the cached value is the union, whatever the order; every
  tool a registered backend supports is advertised and no other.
\<close>

lemma registrations_capabilities:
  "reg_capabilities (fold register fs reg) = sup (reg_capabilities reg) (foldr sup (map fac_capabilities fs) bot)"
  by (induction fs arbitrary: reg) (simp_all add: register_capabilities sup_assoc)

lemma registrations_inv: "registry_inv reg \<Longrightarrow> registry_inv (fold register fs reg)"
  by (induction fs arbitrary: reg) (simp_all add: register_inv)

lemma foldr_sup_iff:
  "cap_kernel (foldr sup cs bot) \<longleftrightarrow> (\<exists>c \<in> set cs. cap_kernel c)"
  "cap_crash_dump (foldr sup cs bot) \<longleftrightarrow> (\<exists>c \<in> set cs. cap_crash_dump c)"
  "cap_analyze (foldr sup cs bot) \<longleftrightarrow> (\<exists>c \<in> set cs. cap_analyze c)"
  "cap_modules (foldr sup cs bot) \<longleftrightarrow> (\<exists>c \<in> set cs. cap_modules c)"
  by (induction cs) (auto simp: sup_capabilities_def bot_capabilities_def)

lemma registrations_lookup:
  "hm_get (reg_factories (fold register fs reg)) n =
     (case find (\<lambda>f. fac_name f = n) (rev fs) of None \<Rightarrow> hm_get (reg_factories reg) n | Some f \<Rightarrow> Some f)"
proof (induction fs arbitrary: reg)
  case (Cons f fs)
  show ?case
    by (auto simp: Cons.IH find_append register_get split: option.split)
qed simp

lemma set_available_names: "set (available_names reg) = set (hm_keys (reg_factories reg))"
  by (simp add: available_names_def)

lemma available_names_sorted: "registry_inv reg \<Longrightarrow> sorted_wrt (<) (available_names reg)"
  by (simp add: available_names_def registry_inv_def hm_ok_def hm_keys_def
      strict_sorted_iff)

text \<open>Selection succeeds exactly on the registered names, and gives the factory of that name.\<close>

lemma select_some_iff:
  "registry_inv reg \<Longrightarrow>
   (\<exists>f. select_with_env reg r e = Inr f) \<longleftrightarrow> select_name reg r e \<in> set (available_names reg)"
proof -
  have "n \<in> set (hm_keys m) \<longleftrightarrow> hm_get m n \<noteq> None" for n and m :: "(string, ('a, 'b) factory) hashmap"
    by (simp add: hm_get_None_iff)
  then show ?thesis
    by (auto simp: select_with_env_def Let_def set_available_names split: option.splits)
qed

lemma select_name_is:
  "registry_inv reg \<Longrightarrow> select_with_env reg r e = Inr f \<Longrightarrow> fac_name f = select_name reg r e"
  unfolding registry_inv_def
  by (auto simp: select_with_env_def Let_def split: option.splits)

end
