(* ===== verification/Server.thy ===== *)
theory Server
  imports Event_Pump Tool_Args Tool_Errors Registry
begin

text \<open>
  The shared state of the tool server, \<open>mcp-tools/src/server.rs\<close>, and what several handlers use of
  it: the backend slot, the connect points' error texts, the thread resolution and the frame map
  of \<open>frame.rs\<close>.

  \<open>sv_pumps\<close> lists the event pump tasks the server has spawned: the backend whose events each
  drains and the generation it was given.  A handler is a function of the server and the world;
  \<open>host\<close> is what the process is given from outside (the JSON parser, the environment variable,
  the Unicode case table).
\<close>

record host =
  ho_serde :: serde
  ho_debug_backend :: "string option"
  ho_lower :: "string \<Rightarrow> string"

record ('h, 'w) server =
  sv_session :: session
  sv_registry :: "('h, 'w) registry"
  sv_backend :: "'h option"
  sv_active_name :: "string option"
  sv_pumps :: "('h \<times> u64) list"

type_synonym ('h, 'w) handler =
  "args \<Rightarrow> ('h, 'w) server \<Rightarrow> 'w \<Rightarrow> tool_outcome \<times> ('h, 'w) server \<times> 'w"

text \<open>
  \<open>tokio::select!\<close> against the cancellation token: either the call completes, or the token fires
  first and the dropped future leaves the world as the function says.
\<close>

type_synonym 'w cancel = "('w \<Rightarrow> 'w) option"

definition select_call :: "'w cancel \<Rightarrow> ('w, 'a) call \<Rightarrow> 'w \<Rightarrow> (backend_error + 'a) option \<times> 'w" where
  "select_call ct call w =
     (case ct of None \<Rightarrow> (let (r, w) = call w in (Some r, w)) | Some f \<Rightarrow> (None, f w))"

definition server_new :: "session \<Rightarrow> ('h, 'w) registry \<Rightarrow> ('h, 'w) server" where
  "server_new s reg =
     \<lparr>sv_session = s, sv_registry = reg, sv_backend = None, sv_active_name = None, sv_pumps = []\<rparr>"

definition on_session :: "(session \<Rightarrow> session) \<Rightarrow> ('h, 'w) server \<Rightarrow> ('h, 'w) server" where
  "on_session f sv = sv\<lparr>sv_session := f (sv_session sv)\<rparr>"

definition set_backend :: "'h \<Rightarrow> string \<Rightarrow> ('h, 'w) server \<Rightarrow> ('h, 'w) server" where
  "set_backend h name sv = sv\<lparr>sv_backend := Some h, sv_active_name := Some name\<rparr>"

definition clear_backend :: "('h, 'w) server \<Rightarrow> ('h, 'w) server" where
  "clear_backend sv = sv\<lparr>sv_backend := None, sv_active_name := None\<rparr>"

definition spawn_pump :: "'h \<Rightarrow> ('h, 'w) server \<Rightarrow> ('h, 'w) server" where
  "spawn_pump h sv = sv\<lparr>sv_pumps := sv_pumps sv @ [(h, s_generation (sv_session sv))]\<rparr>"

definition cleanup_after_cancel :: "('h, 'w) server \<Rightarrow> ('h, 'w) server" where
  "cleanup_after_cancel sv = on_session reset (clear_backend sv)"

definition select_backend :: "host \<Rightarrow> string option \<Rightarrow> ('h, 'w) server \<Rightarrow> string + ('h, 'w) factory" where
  "select_backend ho requested sv = select_with_env (sv_registry sv) requested (ho_debug_backend ho)"

section \<open>Error texts of the connect points (handlers/lifecycle.rs)\<close>

definition backend_select :: "string \<Rightarrow> string option" where
  "backend_select b = (if b = [] then None else Some b)"

fun connect_error :: "string \<Rightarrow> backend_error \<Rightarrow> string" where
  "connect_error backend (Detect m) =
     (if backend = ''lldb'' then ''failed to find lldb-dap: '' @ m
      else if backend = ''windbg'' then ''Debugging Tools for Windows not found: '' @ m
      else ''failed to find '' @ backend @ '': '' @ m)"
| "connect_error backend (Spawn m) =
     (if backend = ''lldb'' then ''failed to spawn lldb-dap: '' @ m
      else if backend = ''windbg'' then ''failed to initialize DbgEng: '' @ m
      else ''failed to spawn '' @ backend @ '': '' @ m)"
| "connect_error backend other = error_text other"

fun handshake_error :: "backend_error \<Rightarrow> string" where
  "handshake_error (Dap message) = message"
| "handshake_error (Protocol ty) =
     (case split_once (CHR '':'') ty of
        Some (op, label) \<Rightarrow> ''unexpected '' @ op @ '' response type: '' @ label
      | None \<Rightarrow> ''unexpected response type: '' @ ty)"
| "handshake_error Closed = ''connection closed''"
| "handshake_error other = error_text other"

section \<open>Threads and frames\<close>

definition last_thread :: "session \<Rightarrow> i64" where
  "last_thread s = (case s_last_stopped s of Some e \<Rightarrow> si_thread_id e | None \<Rightarrow> 1)"

definition resolve_thread_id :: "args \<Rightarrow> session \<Rightarrow> string + i64" where
  "resolve_thread_id a s =
     (case explicit_positive_thread_id a of
        Inl e \<Rightarrow> Inl e
      | Inr (Some tid) \<Rightarrow> Inr tid
      | Inr None \<Rightarrow> Inr (last_thread s))"

definition frames_mapping :: "frame list \<Rightarrow> (i64, i64) hashmap" where
  "frames_mapping frames = fold (\<lambda>f m. hm_insert (fr_index f) (fr_id f) m) frames []"

definition resolve_frame_id ::
  "('h, 'w) backend_ops \<Rightarrow> 'h \<Rightarrow> i64 \<Rightarrow> session \<Rightarrow> 'w \<Rightarrow> (string + i64) \<times> session \<times> 'w" where
  "resolve_frame_id ops h frame_index s w =
     (case hm_get (s_frame_mapping s) frame_index of
        Some frame_id \<Rightarrow> (Inr frame_id, s, w)
      | None \<Rightarrow>
          (case b_stack_trace ops h (last_thread s) 0 20 w of
             (Inl e, w) \<Rightarrow> (Inl (map_implicit_error e), s, w)
           | (Inr (frames, _), w) \<Rightarrow>
               (let new_mapping = frames_mapping frames; s = set_frame_mapping new_mapping s
                in case hm_get new_mapping frame_index of
                     Some frame_id \<Rightarrow> (Inr frame_id, s, w)
                   | None \<Rightarrow>
                       (Inl (''frame index '' @ show_int frame_index @ '' out of range (stack has ''
                             @ show_nat (length frames) @ '' frames)''), s, w))))"

section \<open>Facts\<close>

definition server_inv :: "('h, 'w) server \<Rightarrow> bool" where
  "server_inv sv \<longleftrightarrow> session_inv (sv_session sv) \<and> registry_inv (sv_registry sv) \<and>
     (sv_backend sv = None \<longleftrightarrow> sv_active_name sv = None)"

lemma server_simps [simp]:
  "sv_session (on_session f sv) = f (sv_session sv)"
  "sv_registry (on_session f sv) = sv_registry sv"
  "sv_backend (on_session f sv) = sv_backend sv"
  "sv_active_name (on_session f sv) = sv_active_name sv"
  "sv_pumps (on_session f sv) = sv_pumps sv"
  "sv_session (set_backend h n sv) = sv_session sv"
  "sv_registry (set_backend h n sv) = sv_registry sv"
  "sv_backend (set_backend h n sv) = Some h"
  "sv_active_name (set_backend h n sv) = Some n"
  "sv_pumps (set_backend h n sv) = sv_pumps sv"
  "sv_session (clear_backend sv) = sv_session sv"
  "sv_registry (clear_backend sv) = sv_registry sv"
  "sv_backend (clear_backend sv) = None"
  "sv_active_name (clear_backend sv) = None"
  "sv_pumps (clear_backend sv) = sv_pumps sv"
  "sv_session (spawn_pump h sv) = sv_session sv"
  "sv_registry (spawn_pump h sv) = sv_registry sv"
  "sv_backend (spawn_pump h sv) = sv_backend sv"
  "sv_active_name (spawn_pump h sv) = sv_active_name sv"
  "sv_pumps (spawn_pump h sv) = sv_pumps sv @ [(h, s_generation (sv_session sv))]"
  "sv_session (cleanup_after_cancel sv) = reset (sv_session sv)"
  "sv_registry (cleanup_after_cancel sv) = sv_registry sv"
  "sv_backend (cleanup_after_cancel sv) = None"
  "sv_active_name (cleanup_after_cancel sv) = None"
  "sv_pumps (cleanup_after_cancel sv) = sv_pumps sv"
  by (simp_all add: on_session_def set_backend_def clear_backend_def spawn_pump_def
      cleanup_after_cancel_def)

lemma server_inv_ops [inv_intros]:
  "server_inv sv \<Longrightarrow> (session_inv (sv_session sv) \<Longrightarrow> session_inv (f (sv_session sv))) \<Longrightarrow>
     server_inv (on_session f sv)"
  "server_inv sv \<Longrightarrow> server_inv (set_backend h n sv)"
  "server_inv sv \<Longrightarrow> server_inv (clear_backend sv)"
  "server_inv sv \<Longrightarrow> server_inv (spawn_pump h sv)"
  "server_inv sv \<Longrightarrow> server_inv (cleanup_after_cancel sv)"
  by (simp_all add: server_inv_def reset_inv)

lemma server_new_inv [inv_intros]:
  "registry_inv reg \<Longrightarrow> server_inv (server_new session_new reg)"
  by (simp add: server_inv_def server_new_def session_new_inv)

lemma server_inv_session: "server_inv sv \<Longrightarrow> session_inv (sv_session sv)"
  by (simp add: server_inv_def)

lemma hm_ok_frames_mapping [simp]: "hm_ok (frames_mapping frames)"
proof -
  have "hm_ok m \<Longrightarrow> hm_ok (fold (\<lambda>f m. hm_insert (fr_index f) (fr_id f) m) frames m)" for m
    by (induction frames arbitrary: m) auto
  then show ?thesis by (simp add: frames_mapping_def)
qed

text \<open>The map holds the id of the last frame that has the index.\<close>

lemma frames_mapping_get:
  "hm_get (frames_mapping frames) i = map_option fr_id (find (\<lambda>f. fr_index f = i) (rev frames))"
proof -
  have "hm_get (fold (\<lambda>f m. hm_insert (fr_index f) (fr_id f) m) fs m) i =
      (case find (\<lambda>f. fr_index f = i) (rev fs) of None \<Rightarrow> hm_get m i | Some f \<Rightarrow> Some (fr_id f))"
    for fs :: "frame list" and m
  proof (induction fs arbitrary: m)
    case (Cons f fs)
    show ?case by (auto simp: Cons.IH find_append split: option.split)
  qed simp
  then show ?thesis by (auto simp: frames_mapping_def split: option.split)
qed

lemma resolve_frame_id_inv:
  "session_inv s \<Longrightarrow> resolve_frame_id ops h i s w = (r, s', w') \<Longrightarrow> session_inv s'"
  by (auto simp: resolve_frame_id_def Let_def set_frame_mapping_inv
      split: option.splits prod.splits sum.splits)

text \<open>Resolving a frame touches nothing of the session but the frame map.\<close>

lemma resolve_frame_id_frame:
  "resolve_frame_id ops h i s w = (r, s', w') \<Longrightarrow> s' = s\<lparr>s_frame_mapping := s_frame_mapping s'\<rparr>"
  by (auto simp: resolve_frame_id_def Let_def set_frame_mapping_def
      split: option.splits prod.splits sum.splits)

text \<open>A resolved frame is cached: asking again answers without the debugger.\<close>

lemma resolve_frame_id_cached:
  "resolve_frame_id ops h i s w = (Inr fid, s', w') \<Longrightarrow>
   resolve_frame_id ops h i s' w'' = (Inr fid, s', w'')"
  by (auto simp: resolve_frame_id_def Let_def set_frame_mapping_def
      split: option.splits prod.splits sum.splits)

lemma on_session_update: "on_session f sv = sv\<lparr>sv_session := f (sv_session sv)\<rparr>"
  by (simp add: on_session_def)

end
