(* ===== verification/Tool_Contract.thy ===== *)
theory Tool_Contract
  imports Server
begin

text \<open>
  The contract every tool handler keeps: its state guard and the server's invariant; and the
  stronger one of the tools that only read.  The handler theories interpret it for each handler.
\<close>

lemmas tool_splits = sum.splits option.splits prod.splits if_splits backend_error.splits

lemma server_id [simp]: "on_session (\<lambda>s. s\<lparr>s_frame_mapping := s_frame_mapping (sv_session sv)\<rparr>) sv = sv"
  by (simp add: on_session_def)

lemma server_update_frame:
  "resolve_frame_id ops h i (sv_session sv) w = (r, s', w') \<Longrightarrow>
   sv\<lparr>sv_session := s'\<rparr> = on_session (\<lambda>s. s\<lparr>s_frame_mapping := s_frame_mapping s'\<rparr>) sv"
  using resolve_frame_id_frame [of ops h i "sv_session sv" w r s' w'] by (simp add: on_session_def)

lemma server_inv_update:
  "server_inv sv \<Longrightarrow> (session_inv (sv_session sv) \<Longrightarrow> session_inv s) \<Longrightarrow> server_inv (sv\<lparr>sv_session := s\<rparr>)"
  by (simp add: server_inv_def)

lemma server_inv_frame:
  "server_inv sv \<Longrightarrow> resolve_frame_id ops h i (sv_session sv) w = (r, s', w') \<Longrightarrow>
   server_inv (on_session (\<lambda>s. s\<lparr>s_frame_mapping := s_frame_mapping s'\<rparr>) sv)"
  using server_update_frame [of ops h i sv w r s' w'] server_inv_update [of sv s']
    resolve_frame_id_inv server_inv_session by metis

text \<open>
  The contract of a guarded tool: outside its states it answers with the state error and does
  nothing, and it always keeps the server's invariant and never touches the registry.
\<close>

locale guarded_tool =
  fixes handler :: "('h, 'w) handler"
    and allowed :: "state list"
  assumes rejects: "check_state allowed (sv_session sv) = Inl e \<Longrightarrow> handler a sv w = (Error e, sv, w)"
    and keeps_inv: "handler a sv w = (out, sv', w') \<Longrightarrow> server_inv sv \<Longrightarrow> server_inv sv'"
    and keeps_registry: "handler a sv w = (out, sv', w') \<Longrightarrow> sv_registry sv' = sv_registry sv"
begin

lemma rejects_iff_state:
  assumes "s_state (sv_session sv) \<notin> set allowed"
  obtains e where "handler a sv w = (Error e, sv, w)" "check_state allowed (sv_session sv) = Inl e"
  using check_state_cases [of allowed "sv_session sv"] assms rejects by blast

lemma effect_needs_state:
  "handler a sv w = (out, sv', w') \<Longrightarrow> (sv', w') \<noteq> (sv, w) \<or> \<not> is_error out \<Longrightarrow>
   s_state (sv_session sv) \<in> set allowed"
  by (rule ccontr, erule rejects_iff_state [where a = a and w = w]) auto

lemma inv_sequence:
  "server_inv sv \<Longrightarrow> server_inv (fst (fold (\<lambda>a (sv, w). snd (handler a sv w)) calls (sv, w)))"
proof (induction calls arbitrary: sv w)
  case (Cons a calls)
  obtain out sv' w' where r: "handler a sv w = (out, sv', w')" by (rule prod_cases3)
  then show ?case using Cons.IH [of sv' w'] keeps_inv [OF r Cons.prems] by simp
qed simp

end

text \<open>A tool that reads: of the whole server it changes at most the frame map.\<close>

locale reading_tool = guarded_tool handler allowed
  for handler :: "('h, 'w) handler" and allowed +
  assumes reads: "handler a sv w = (out, sv', w') \<Longrightarrow>
    sv' = on_session (\<lambda>s. s\<lparr>s_frame_mapping := s_frame_mapping (sv_session sv')\<rparr>) sv"
begin

lemma keeps_state: "handler a sv w = (out, sv', w') \<Longrightarrow> s_state (sv_session sv') = s_state (sv_session sv)"
  by (drule reads) (metis server_simps(1) session.select_convs(1) session.surjective session.update_convs(8))

end

end
