(* ===== verification/Formatting.thy ===== *)
theory Formatting
  imports Output_Buffer Json
begin

text \<open>
  The pure formatters, \<open>mcp-tools/src/format.rs\<close>: the hex dump of a memory block and the grouping
  of drained output by category.
\<close>

section \<open>The hex dump\<close>

definition byte_hex :: "8 word \<Rightarrow> string" where
  "byte_hex b = show_hex_pad 2 (unat b)"

definition gutter_char :: "8 word \<Rightarrow> char" where
  "gutter_char b = (if 0x20 \<le> b \<and> b \<le> 0x7e then char_of (unat b) else CHR ''.'')"

definition hex_column :: "8 word list \<Rightarrow> nat \<Rightarrow> string" where
  "hex_column row i =
     (if i = 8 then '' '' else []) @ (if i < length row then byte_hex (row ! i) @ '' '' else ''   '')"

definition gutter_column :: "8 word list \<Rightarrow> nat \<Rightarrow> string" where
  "gutter_column row i = (if i < length row then [gutter_char (row ! i)] else '' '')"

text \<open>One turn of the loop: the row that starts at \<open>offset\<close>, without the newline.\<close>

definition hex_row :: "8 word list \<Rightarrow> u64 \<Rightarrow> nat \<Rightarrow> string" where
  "hex_row data start_addr offset =
     (let row_end = min (offset + 16) (length data);
          row = take (row_end - offset) (drop offset data)
      in ''0x'' @ show_hex_pad 8 (unat (start_addr + of_nat offset)) @ '': '' @
         concat (map (hex_column row) [0..<16]) @ '' |'' @
         concat (map (gutter_column row) [0..<16]) @ ''|'')"

function hex_rows :: "8 word list \<Rightarrow> u64 \<Rightarrow> nat \<Rightarrow> string" where
  "hex_rows data start_addr offset =
     (if offset < length data then
        hex_row data start_addr offset @
        (if offset + 16 < length data then [CHR 0x0A] else []) @
        hex_rows data start_addr (offset + 16)
      else [])"
  by pat_completeness auto
termination
  by (relation "measure (\<lambda>(data, _, offset). length data - offset)") auto

declare hex_rows.simps [simp del]

definition format_hex_dump :: "8 word list \<Rightarrow> u64 \<Rightarrow> string" where
  "format_hex_dump data start_addr = hex_rows data start_addr 0"

subsection \<open>The layout of a dump\<close>

lemma length_show_hex_pad: "n < 16 ^ w \<Longrightarrow> 0 < w \<Longrightarrow> length (show_hex_pad w n) = w"
proof -
  have len: "0 < w \<Longrightarrow> n < 16 ^ w \<Longrightarrow> length (radix_digits 16 n) \<le> w" for n w
  proof (induction w arbitrary: n)
    case (Suc w)
    show ?case
    proof (cases "n < 16")
      case False
      then have eq: "radix_digits 16 n = radix_digits 16 (n div 16) @ [n mod 16]"
        by (subst radix_digits.simps) simp
      from False Suc.prems(2) have "0 < w" by (cases w) auto
      moreover have "n div 16 < 16 ^ w" using Suc.prems(2) by (simp add: less_mult_imp_div_less mult.commute)
      ultimately show ?thesis using Suc.IH [of "n div 16"] by (simp add: eq)
    qed (subst radix_digits.simps, simp)
  qed simp
  show "n < 16 ^ w \<Longrightarrow> 0 < w \<Longrightarrow> length (show_hex_pad w n) = w"
    using len [of w n] by (simp add: show_hex_pad_def pad_left_def show_hex_def)
qed

lemma unat_byte: "unat b < 256" for b :: "8 word"
  using unsigned_less [of b, where ?'a = nat] by simp

lemma length_byte_hex [simp]: "length (byte_hex b) = 2"
proof -
  have "unat b < 16 ^ 2" using unat_byte [of b] by simp
  then show ?thesis unfolding byte_hex_def by (intro length_show_hex_pad) auto
qed

lemma length_hex_column [simp]: "length (hex_column row i) = (if i = 8 then 4 else 3)"
  by (simp add: hex_column_def)

lemma length_gutter_column [simp]: "length (gutter_column row i) = 1"
  by (simp add: gutter_column_def)

text \<open>Every row has the same width right of its address: 16 byte columns, the gap, the gutter.\<close>

lemma hex_row_shape:
  "\<exists>addr bytes gutter. hex_row data a off = ''0x'' @ addr @ '': '' @ bytes @ '' |'' @ gutter @ ''|'' \<and>
     addr = show_hex_pad 8 (unat (a + of_nat off)) \<and> length bytes = 49 \<and> length gutter = 16"
proof -
  let ?row = "take (min (off + 16) (length data) - off) (drop off data)"
  have "length (concat (map (hex_column ?row) [0..<16])) = 49"
    by (simp add: length_concat comp_def upt_rec)
  moreover have "length (concat (map (gutter_column ?row) [0..<16])) = 16"
    by (simp add: length_concat comp_def upt_rec)
  ultimately show ?thesis unfolding hex_row_def Let_def by blast
qed

definition row_offsets :: "nat \<Rightarrow> nat list" where
  "row_offsets n = map (\<lambda>k. 16 * k) [0..<(n + 15) div 16]"

text \<open>The dump is its rows, joined by newlines, at the offsets \<open>0, 16, 32, ...\<close>.\<close>

lemma hex_rows_join:
  "hex_rows data a (16 * k) =
     join_with [CHR 0x0A] (map (\<lambda>k. hex_row data a (16 * k)) [k..<(length data + 15) div 16])"
proof (induction "length data - 16 * k" arbitrary: k rule: less_induct)
  case less
  let ?n = "(length data + 15) div 16"
  show ?case
  proof (cases "16 * k < length data")
    case True
    then have upt: "[k..<?n] = k # [Suc k..<?n]" by (simp add: upt_rec)
    have nxt: "16 * k + 16 = 16 * Suc k" by simp
    have IH: "hex_rows data a (16 * Suc k) =
        join_with [CHR 0x0A] (map (\<lambda>k. hex_row data a (16 * k)) [Suc k..<?n])"
      using less(1) [of "Suc k"] True by simp
    have unfold: "hex_rows data a (16 * k) = hex_row data a (16 * k) @
        (if 16 * Suc k < length data then [CHR 0x0A] else []) @ hex_rows data a (16 * Suc k)"
      using True by (subst hex_rows.simps) (simp add: nxt)
    show ?thesis
    proof (cases "16 * Suc k < length data")
      case more: True
      then have "[Suc k..<?n] = Suc k # [Suc (Suc k)..<?n]" by (simp add: upt_rec)
      with more show ?thesis unfolding unfold IH upt by simp
    next
      case False
      then have "[Suc k..<?n] = []" by simp
      with False show ?thesis unfolding unfold IH upt by simp
    qed
  next
    case False
    then show ?thesis by (subst hex_rows.simps) simp
  qed
qed

lemma format_hex_dump_rows:
  "format_hex_dump data a = join_with [CHR 0x0A] (map (hex_row data a) (row_offsets (length data)))"
  using hex_rows_join [of data a 0] by (simp add: format_hex_dump_def row_offsets_def comp_def)

text \<open>The two digits of a byte column determine the byte.\<close>

lemma radix_value_replicate: "radix_value b (replicate k 0 @ ds) = radix_value b ds"
  by (induction k) (simp_all add: radix_value_def)

lemma digit_char_zero: "digit_char 0 = CHR ''0''"
  by code_simp

lemma parse_byte_hex: "parse_uint 16 255 (byte_hex b) = Inr (unat b)"
proof -
  let ?ds = "replicate (2 - length (radix_digits 16 (unat b))) 0 @ radix_digits 16 (unat b)"
  have eq: "byte_hex b = map digit_char ?ds"
    using digit_char_zero by (simp add: byte_hex_def show_hex_pad_def pad_left_def show_hex_def)
  have "unat b \<le> 255" using unat_byte [of b] by simp
  moreover have "\<forall>d \<in> set ?ds. d < 16" using radix_digits_less [of 16] by auto
  ultimately show ?thesis
    unfolding eq using parse_uint_render [of 16 ?ds 255]
    by (simp add: radix_value_replicate radix_value_digits)
qed

section \<open>Output grouped by category\<close>

definition of_category :: "(string \<Rightarrow> bool) \<Rightarrow> output_entry list \<Rightarrow> string" where
  "of_category p es = concat (map oe_text (filter (\<lambda>e. p (oe_category e)) es))"

fun group_step :: "output_entry \<Rightarrow> string \<times> string \<times> string \<Rightarrow> string \<times> string \<times> string" where
  "group_step e (out, err, con) =
     (if oe_category e = ''stdout'' then (out @ oe_text e, err, con)
      else if oe_category e = ''stderr'' then (out, err @ oe_text e, con)
      else (out, err, con @ oe_text e))"

definition format_output_entries :: "output_entry list \<Rightarrow> json" where
  "format_output_entries es =
     (if es = [] then rb_build (rb_sets [(''output'', JStr []), (''count'', json_nat 0)] rb_new)
      else
        let (out, err, con) = fold group_step es ([], [], []);
            m = obj_insert ''count'' (json_nat (length es)) [];
            m = (if out \<noteq> [] then obj_insert ''stdout'' (JStr out) m else m);
            m = (if err \<noteq> [] then obj_insert ''stderr'' (JStr err) m else m);
            m = (if con \<noteq> [] then obj_insert ''console'' (JStr con) m else m)
        in JObj m)"

lemma group_fold:
  "fold group_step es (out, err, con) =
     (out @ of_category (\<lambda>c. c = ''stdout'') es, err @ of_category (\<lambda>c. c = ''stderr'') es,
      con @ of_category (\<lambda>c. c \<noteq> ''stdout'' \<and> c \<noteq> ''stderr'') es)"
  by (induction es arbitrary: out err con) (auto simp: of_category_def)

text \<open>What a client finds under each key: the texts of the category in order, or no key.\<close>

lemma format_output_lookup:
  assumes "es \<noteq> []"
  shows "jget (format_output_entries es) ''count'' = Some (json_nat (length es))"
    and "jget (format_output_entries es) ''stdout'' =
           (let t = of_category (\<lambda>c. c = ''stdout'') es in if t = [] then None else Some (JStr t))"
    and "jget (format_output_entries es) ''stderr'' =
           (let t = of_category (\<lambda>c. c = ''stderr'') es in if t = [] then None else Some (JStr t))"
    and "jget (format_output_entries es) ''console'' =
           (let t = of_category (\<lambda>c. c \<noteq> ''stdout'' \<and> c \<noteq> ''stderr'') es
            in if t = [] then None else Some (JStr t))"
  using assms by (simp_all add: format_output_entries_def group_fold Let_def)

end
