(* ===== verification/Handlers_Execution.thy ===== *)
theory Handlers_Execution
  imports Tool_Contract Formatting
begin

text \<open>
  \<open>continue\<close>, \<open>step_over\<close>, \<open>step_into\<close>, \<open>step_out\<close> and \<open>pause\<close>:
  \<open>mcp-tools/src/handlers/execution.rs\<close>, and \<open>read_output\<close> (\<open>handlers/output.rs\<close>).

  The resume path waits for the debugger between two accesses to the session, and other calls run
  meanwhile.  It is cut there: \<open>resume_begin\<close> is the part up to the wait, \<open>resume_finish\<close> the part
  after it, and \<open>resume\<close> composes them with nothing in between.
\<close>

datatype resume_kind = Rs_Continue | Rs_Step step_kind

definition DUMP_NO_CONTINUE :: string where
  "DUMP_NO_CONTINUE = ''cannot continue a crash-dump session''"

definition CONTINUE_TIMEOUT :: string where
  "CONTINUE_TIMEOUT = ''continue timed out; process still running, use 'pause' to stop it''"

definition STEP_OVER_TIMEOUT :: string where
  "STEP_OVER_TIMEOUT = ''step over timed out; process still running, use 'pause' to stop it''"

definition STEP_INTO_TIMEOUT :: string where
  "STEP_INTO_TIMEOUT = ''step into timed out; process still running, use 'pause' to stop it''"

definition STEP_OUT_TIMEOUT :: string where
  "STEP_OUT_TIMEOUT = ''step out timed out; process still running, use 'pause' to stop it''"

definition parse_granularity :: "args \<Rightarrow> granularity option" where
  "parse_granularity a =
     (let g = get_string a ''granularity'' []
      in if g = ''line'' then Some GranLine
         else if g = ''instruction'' then Some GranInstruction else None)"

fun run_backend ::
  "('h, 'w) backend_ops \<Rightarrow> 'h \<Rightarrow> resume_kind \<Rightarrow> i64 \<Rightarrow> granularity option \<Rightarrow> ('w, stop_outcome) call" where
  "run_backend ops h Rs_Continue thread_id g = b_cont ops h thread_id"
| "run_backend ops h (Rs_Step kind) thread_id g = b_step ops h kind thread_id g"

definition int_array :: "i64 list \<Rightarrow> json" where
  "int_array xs = JArr (map json_int xs)"

definition stopped_response :: "stop_info \<Rightarrow> resp_builder" where
  "stopped_response info =
     rb_set_if (si_hit_breakpoint_ids info \<noteq> []) ''hit_breakpoint_ids''
       (int_array (si_hit_breakpoint_ids info))
       (rb_sets [(''status'', JStr ''stopped''), (''reason'', JStr (si_reason info)),
          (''thread_id'', json_int (si_thread_id info)),
          (''description'', JStr (si_description info))] rb_new)"

definition merge_output :: "resp_builder \<Rightarrow> output_entry list \<Rightarrow> resp_builder" where
  "merge_output b entries =
     (case format_output_entries entries of JObj m \<Rightarrow> fold (\<lambda>(k, v) b. rb_set k v b) m b | _ \<Rightarrow> b)"

fun handle_stop_result ::
  "stop_outcome \<Rightarrow> u64 \<Rightarrow> ('h, 'w) server \<Rightarrow> tool_outcome \<times> ('h, 'w) server" where
  "handle_stop_result (SO_Stopped info) generation sv =
     (let (applied, s) = set_state_if_generation generation Stopped (sv_session sv);
          s = (if applied then set_last_stopped info s else s);
          (entries, s) = drain_output s
      in (rb_into_outcome (merge_output (stopped_response info) entries), sv\<lparr>sv_session := s\<rparr>))"
| "handle_stop_result (SO_Exited code) generation sv =
     (let (_, s) = terminate_if_generation generation code (sv_session sv);
          (entries, s) = drain_output s;
          b = rb_set ''status'' (JStr ''exited'') rb_new;
          b = (case code of Some c \<Rightarrow> rb_set ''exit_code'' (json_int c) b | None \<Rightarrow> b)
      in (rb_into_outcome (merge_output b entries), sv\<lparr>sv_session := s\<rparr>))"
| "handle_stop_result SO_Terminated generation sv =
     (resp [(''status'', JStr ''terminated''), (''message'', JStr ''Debug session ended'')],
      on_session (\<lambda>s. snd (set_state_if_generation generation Terminated s)) sv)"

text \<open>What the blocked call remembers.\<close>

record 'h resume_call =
  rc_backend :: 'h
  rc_kind :: resume_kind
  rc_thread :: i64
  rc_granularity :: "granularity option"
  rc_generation :: u64

definition resume_begin ::
  "op_error \<Rightarrow> resume_kind \<Rightarrow> args \<Rightarrow> ('h, 'w) server \<Rightarrow>
   (tool_outcome + 'h resume_call) \<times> ('h, 'w) server" where
  "resume_begin op_err kind a sv =
     (case check_state [Stopped] (sv_session sv) of
        Inl e \<Rightarrow> (Inl (Error e), sv)
      | Inr _ \<Rightarrow>
          if s_is_dump (sv_session sv) then (Inl (Error DUMP_NO_CONTINUE), sv)
          else case resolve_thread_id a (sv_session sv) of
            Inl e \<Rightarrow> (Inl (Error e), sv)
          | Inr thread_id \<Rightarrow>
              (case sv_backend sv of
                 None \<Rightarrow> (Inl (Error (oe_request_failed op_err)), sv)
               | Some backend \<Rightarrow>
                   (Inr \<lparr>rc_backend = backend, rc_kind = kind, rc_thread = thread_id,
                         rc_granularity =
                           (case kind of Rs_Continue \<Rightarrow> None | Rs_Step _ \<Rightarrow> parse_granularity a),
                         rc_generation = s_generation (sv_session sv)\<rparr>,
                    on_session (set_state Running) sv)))"

definition resume_finish ::
  "op_error \<Rightarrow> string \<Rightarrow> u64 \<Rightarrow> (backend_error + stop_outcome) option \<Rightarrow> ('h, 'w) server \<Rightarrow>
   tool_outcome \<times> ('h, 'w) server" where
  "resume_finish op_err timeout_msg generation r sv =
     (case r of
        None \<Rightarrow> (Error timeout_msg, sv)
      | Some (Inr out) \<Rightarrow> handle_stop_result out generation sv
      | Some (Inl e) \<Rightarrow> (Error (op_render op_err e), on_session (set_state Stopped) sv))"

definition resume ::
  "op_error \<Rightarrow> string \<Rightarrow> resume_kind \<Rightarrow> ('h, 'w) backend_ops \<Rightarrow> 'w cancel \<Rightarrow> ('h, 'w) handler" where
  "resume op_err timeout_msg kind ops ct a sv w =
     (case resume_begin op_err kind a sv of
        (Inl out, sv) \<Rightarrow> (out, sv, w)
      | (Inr rc, sv) \<Rightarrow>
          (let (r, w) = select_call ct
                 (run_backend ops (rc_backend rc) (rc_kind rc) (rc_thread rc) (rc_granularity rc)) w;
               (out, sv) = resume_finish op_err timeout_msg (rc_generation rc) r sv
           in (out, sv, w)))"

definition handle_continue :: "('h, 'w) backend_ops \<Rightarrow> 'w cancel \<Rightarrow> ('h, 'w) handler" where
  "handle_continue = resume CONTINUE CONTINUE_TIMEOUT Rs_Continue"

definition handle_step_over :: "('h, 'w) backend_ops \<Rightarrow> 'w cancel \<Rightarrow> ('h, 'w) handler" where
  "handle_step_over = resume STEP_OVER STEP_OVER_TIMEOUT (Rs_Step Over)"

definition handle_step_into :: "('h, 'w) backend_ops \<Rightarrow> 'w cancel \<Rightarrow> ('h, 'w) handler" where
  "handle_step_into = resume STEP_INTO STEP_INTO_TIMEOUT (Rs_Step Into)"

definition handle_step_out :: "('h, 'w) backend_ops \<Rightarrow> 'w cancel \<Rightarrow> ('h, 'w) handler" where
  "handle_step_out = resume STEP_OUT STEP_OUT_TIMEOUT (Rs_Step Out)"

definition handle_pause :: "('h, 'w) backend_ops \<Rightarrow> ('h, 'w) handler" where
  "handle_pause ops a sv w =
     (case check_state [Running] (sv_session sv) of
        Inl e \<Rightarrow> (Error e, sv, w)
      | Inr _ \<Rightarrow>
          (case sv_backend sv of
             None \<Rightarrow> (Error (oe_request_failed PAUSE), sv, w)
           | Some backend \<Rightarrow>
               (case b_pause ops backend w of
                  (Inl e, w) \<Rightarrow> (Error (op_render PAUSE e), sv, w)
                | (Inr _, w) \<Rightarrow>
                    (resp [(''status'', JStr ''pause_requested''),
                       (''message'', JStr ''Pause request sent. The running continue/step operation will return when the process stops.'')],
                     sv, w))))"

definition handle_read_output :: "('h, 'w) handler" where
  "handle_read_output a sv w =
     (case check_state [Configuring, Stopped, Running, Terminated] (sv_session sv) of
        Inl e \<Rightarrow> (Error e, sv, w)
      | Inr _ \<Rightarrow>
          (let (entries, s) = drain_output (sv_session sv)
           in (Json (format_output_entries entries), sv\<lparr>sv_session := s\<rparr>, w)))"

section \<open>The contract\<close>

text \<open>What the end of a resume does to the session, each branch as one session operation.\<close>

lemma drain_output_invD: "drain_output s = (es, s') \<Longrightarrow> session_inv s \<Longrightarrow> session_inv s'"
  using drain_output_inv [of s] by simp

definition stop_effect :: "stop_outcome \<Rightarrow> u64 \<Rightarrow> session \<Rightarrow> session" where
  "stop_effect r g s =
     (case r of
        SO_Stopped info \<Rightarrow>
          snd (drain_output (if s_generation s = g then set_last_stopped info (set_state Stopped s) else s))
      | SO_Exited c \<Rightarrow> snd (drain_output (snd (terminate_if_generation g c s)))
      | SO_Terminated \<Rightarrow> (if s_generation s = g then set_state Terminated s else s))"

lemma stop_result_effect: "snd (handle_stop_result r g sv) = on_session (stop_effect r g) sv"
  by (cases r) (auto simp: stop_effect_def on_session_def Let_def split_beta
      set_state_if_generation_def set_state_def)

lemma stop_result_server: "handle_stop_result r g sv = (out, sv') \<Longrightarrow> sv' = on_session (stop_effect r g) sv"
  using stop_result_effect [of r g sv] by simp

lemma stop_effect_inv [inv_intros]: "session_inv s \<Longrightarrow> session_inv (stop_effect r g s)"
  by (simp add: stop_effect_def inv_intros split: stop_outcome.split)

lemma resume_guarded: "guarded_tool (resume op_err msg kind ops ct) [Stopped]"
  by unfold_locales
    (auto simp: resume_def resume_begin_def resume_finish_def select_call_def Let_def
       dest!: stop_result_server intro!: inv_intros split: tool_splits)

interpretation continue_tool: guarded_tool "handle_continue ops ct" "[Stopped]"
  by (simp add: handle_continue_def resume_guarded)

interpretation step_over_tool: guarded_tool "handle_step_over ops ct" "[Stopped]"
  by (simp add: handle_step_over_def resume_guarded)

interpretation step_into_tool: guarded_tool "handle_step_into ops ct" "[Stopped]"
  by (simp add: handle_step_into_def resume_guarded)

interpretation step_out_tool: guarded_tool "handle_step_out ops ct" "[Stopped]"
  by (simp add: handle_step_out_def resume_guarded)

interpretation pause_tool: reading_tool "handle_pause ops" "[Running]"
  by unfold_locales (auto simp: handle_pause_def split: tool_splits)

interpretation output_tool: guarded_tool handle_read_output "[Configuring, Stopped, Running, Terminated]"
  by unfold_locales
    (auto simp: handle_read_output_def Let_def split: tool_splits intro!: server_inv_update elim: drain_output_invD)

lemma resume_effect:
  assumes "resume op_err msg kind ops ct a sv w = (out, sv', w')"
  shows "sv' = sv \<or> s_state (sv_session sv) = Stopped \<and>
    (\<exists>s. sv' = sv\<lparr>sv_session := s\<rparr> \<and> s_generation s = s_generation (sv_session sv) \<and>
         s_state s \<in> {Stopped, Running, Terminated})"
proof -
  have eff: "s_generation (stop_effect r (s_generation s) (s\<lparr>s_state := Running\<rparr>)) = s_generation s"
      "s_state (stop_effect r (s_generation s) (s\<lparr>s_state := Running\<rparr>)) \<noteq> Stopped \<Longrightarrow>
       s_state (stop_effect r (s_generation s) (s\<lparr>s_state := Running\<rparr>)) = Terminated"
    for r s
    by (auto simp: stop_effect_def set_state_def set_last_stopped_def
      terminate_if_generation_def split: stop_outcome.split option.split)
  show ?thesis using assms
    by (auto simp: resume_def resume_begin_def resume_finish_def Let_def on_session_def set_state_def
        dest!: check_state_InrD stop_result_server split: tool_splits intro!: exI eff)
qed

end
