(* ===== verification/Flatten.thy ===== *)
theory Flatten
  imports Core_Types
begin

text \<open>
  The variable tree flattener, \<open>mcp-tools/src/flatten.rs\<close>.  \<open>fetch\<close> is the \<open>VariableFetcher\<close>, a
  call on the world; \<open>lower\<close> is \<open>str::to_lowercase\<close>, whose Unicode tables are a parameter.  The
  recursion descends on \<open>depth\<close>, so it ends even when the debugger's references form a cycle.
\<close>

record flat_variable =
  fv_name :: string
  fv_value :: string
  fv_ty :: string
  fv_has_children :: bool
  fv_children_count :: i64

type_synonym 'w fetcher = "i64 \<Rightarrow> ('w, variable list) call"

definition flat_new :: "string \<Rightarrow> variable \<Rightarrow> flat_variable" where
  "flat_new name v =
     \<lparr>fv_name = name, fv_value = va_value v, fv_ty = va_ty v, fv_has_children = False,
      fv_children_count = 0\<rparr>"

definition flat_collapsed :: "string \<Rightarrow> variable \<Rightarrow> flat_variable" where
  "flat_collapsed name v =
     (flat_new name v)\<lparr>fv_has_children := True,
        fv_children_count := wrap_i64 (va_named v + va_indexed v)\<rparr>"

text \<open>The loop of \<open>flatten_recursive\<close>, with the recursive call's fetch at its call site.\<close>

function flatten_loop ::
  "'w fetcher \<Rightarrow> nat \<Rightarrow> string \<Rightarrow> i64 \<Rightarrow> variable list \<Rightarrow> flat_variable list \<Rightarrow>
   ('w, bool \<times> flat_variable list) call" where
  "flatten_loop fetch max_count prefix depth [] result w = (Inr (False, result), w)"
| "flatten_loop fetch max_count prefix depth (v # vs) result w =
     (let child_name = prefix @ ''.'' @ va_name v; flat = flat_new child_name v
      in if va_variables_reference v > 0 then
           if depth > 0 then
             let result = result @ [flat]
             in if length result \<ge> max_count then (Inr (True, result), w)
                else case fetch (va_variables_reference v) w of
                  (Inl e, w) \<Rightarrow> (Inl e, w)
                | (Inr vars, w) \<Rightarrow>
                    (case flatten_loop fetch max_count child_name (depth - 1) vars result w of
                       (Inl e, w) \<Rightarrow> (Inl e, w)
                     | (Inr (truncated, result), w) \<Rightarrow>
                         if truncated then (Inr (True, result), w)
                         else flatten_loop fetch max_count prefix depth vs result w)
           else
             let result = result @ [flat_collapsed child_name v]
             in if length result \<ge> max_count then (Inr (True, result), w)
                else flatten_loop fetch max_count prefix depth vs result w
         else
           let result = result @ [flat]
           in if length result \<ge> max_count then (Inr (True, result), w)
              else flatten_loop fetch max_count prefix depth vs result w)"
  by pat_completeness auto
termination
  by (relation "measures [\<lambda>(_, _, _, depth, _, _, _). nat depth,
        \<lambda>(_, _, _, _, vs, _, _). length vs]") auto

definition flatten_recursive ::
  "'w fetcher \<Rightarrow> i64 \<Rightarrow> string \<Rightarrow> i64 \<Rightarrow> flat_variable list \<Rightarrow> nat \<Rightarrow>
   ('w, bool \<times> flat_variable list) call" where
  "flatten_recursive fetch var_ref prefix depth result max_count w =
     (case fetch var_ref w of
        (Inl e, w) \<Rightarrow> (Inl e, w)
      | (Inr vars, w) \<Rightarrow> flatten_loop fetch max_count prefix depth vars result w)"

text \<open>The loop of \<open>flatten_variables\<close>: the filter applies here only, and names are bare.\<close>

definition filter_matches :: "(string \<Rightarrow> string) \<Rightarrow> string \<Rightarrow> variable \<Rightarrow> bool" where
  "filter_matches lower flt v \<longleftrightarrow> flt = [] \<or> str_contains (lower flt) (lower (va_name v))"

fun flatten_top ::
  "(string \<Rightarrow> string) \<Rightarrow> 'w fetcher \<Rightarrow> i64 \<Rightarrow> nat \<Rightarrow> string \<Rightarrow> variable list \<Rightarrow>
   flat_variable list \<Rightarrow> ('w, flat_variable list \<times> bool) call" where
  "flatten_top lower fetch depth max_count flt [] result w = (Inr (result, False), w)"
| "flatten_top lower fetch depth max_count flt (v # vs) result w =
     (if \<not> filter_matches lower flt v then flatten_top lower fetch depth max_count flt vs result w
      else if va_variables_reference v > 0 then
        if depth > 0 then
          let result = result @ [flat_new (va_name v) v]
          in if length result \<ge> max_count then (Inr (result, True), w)
             else case flatten_recursive fetch (va_variables_reference v) (va_name v) (depth - 1)
                         result max_count w of
               (Inl e, w) \<Rightarrow> (Inl e, w)
             | (Inr (truncated, result), w) \<Rightarrow>
                 if truncated then (Inr (result, True), w)
                 else flatten_top lower fetch depth max_count flt vs result w
        else
          let result = result @ [flat_collapsed (va_name v) v]
          in if length result \<ge> max_count then (Inr (result, True), w)
             else flatten_top lower fetch depth max_count flt vs result w
      else
        let result = result @ [flat_new (va_name v) v]
        in if length result \<ge> max_count then (Inr (result, True), w)
           else flatten_top lower fetch depth max_count flt vs result w)"

definition flatten_variables ::
  "(string \<Rightarrow> string) \<Rightarrow> 'w fetcher \<Rightarrow> i64 \<Rightarrow> i64 \<Rightarrow> nat \<Rightarrow> string \<Rightarrow>
   ('w, flat_variable list \<times> bool) call" where
  "flatten_variables lower fetch variables_reference depth max_count flt w =
     (case fetch variables_reference w of
        (Inl e, w) \<Rightarrow> (Inl e, w)
      | (Inr vars, w) \<Rightarrow> flatten_top lower fetch depth max_count flt vars [] w)"

section \<open>The number of entries and of requests\<close>

text \<open>
  A counter \<open>cnt\<close> on the world that one fetch raises by at most one.  Every nested fetch follows
  an emitted entry, so entries and fetches are bounded together.
\<close>

definition flat_bound :: "nat \<Rightarrow> nat \<Rightarrow> nat \<Rightarrow> nat \<Rightarrow> (backend_error + bool \<times> flat_variable list) \<Rightarrow> bool" where
  "flat_bound max_count start c c' r \<longleftrightarrow>
     c' + start < c + max_count \<and>
     (case r of
        Inl e \<Rightarrow> True
      | Inr (truncated, result) \<Rightarrow>
          (if truncated then length result = max_count
           else length result < max_count \<and> c' + start \<le> c + length result))"

lemma flatten_loop_bound:
  "\<forall>r w. cnt (snd (fetch r w)) \<le> Suc (cnt w) \<Longrightarrow> length result < max_count \<Longrightarrow>
    flat_bound max_count (length result) (cnt w)
      (cnt (snd (flatten_loop fetch max_count prefix depth vs result w)))
      (fst (flatten_loop fetch max_count prefix depth vs result w))"
proof (induction fetch max_count prefix depth vs result w rule: flatten_loop.induct)
  case (1 fetch max_count prefix depth result w)
  then show ?case by (simp add: flat_bound_def)
next
  case (2 fetch max_count prefix depth v vs result w)
  let ?name = "prefix @ ''.'' @ va_name v"
  show ?case
  proof (cases "va_variables_reference v > 0 \<and> depth > 0 \<and> Suc (length result) < max_count")
    case False
    then show ?thesis
      using "2.IH"(3) [of ?name "flat_new ?name v" "result @ [flat_collapsed ?name v]"]
        "2.IH"(4) [of ?name "flat_new ?name v" "result @ [flat_new ?name v]"] "2.prems"
      by (auto simp: Let_def flat_bound_def split: sum.splits if_splits)
  next
    case True
    let ?acc = "result @ [flat_new ?name v]"
    obtain q w1 where q: "fetch (va_variables_reference v) w = (q, w1)" by force
    have c1: "cnt w1 \<le> Suc (cnt w)" using "2.prems"(1) q by (metis snd_conv)
    show ?thesis
    proof (cases q)
      case (Inl e)
      with True q c1 show ?thesis by (simp add: Let_def flat_bound_def)
    next
      case (Inr vars)
      obtain p w2 where p: "flatten_loop fetch max_count ?name (depth - 1) vars ?acc w1 = (p, w2)"
        by force
      have IH: "flat_bound max_count (Suc (length result)) (cnt w1) (cnt w2) p"
        using "2.IH"(1) [of ?name "flat_new ?name v" ?acc q w1 vars] True q Inr p "2.prems" by simp
      show ?thesis
      proof (cases p)
        case (Inl e)
        with True q \<open>q = Inr vars\<close> p IH c1 show ?thesis by (simp add: Let_def flat_bound_def)
      next
        case inr: (Inr tr)
        obtain tr' acc' where tr: "tr = (tr', acc')" by force
        show ?thesis
        proof (cases tr')
          case True
          with \<open>_ \<and> _ \<and> _\<close> q \<open>q = Inr vars\<close> p inr tr IH c1 show ?thesis
            by (simp add: Let_def flat_bound_def)
        next
          case False
          then have "flat_bound max_count (length acc') (cnt w2)
              (cnt (snd (flatten_loop fetch max_count prefix depth vs acc' w2)))
              (fst (flatten_loop fetch max_count prefix depth vs acc' w2))"
            using "2.IH"(2) [of ?name "flat_new ?name v" ?acc q w1 vars p w2 tr tr' acc']
              True q Inr p inr tr IH "2.prems" by (simp add: flat_bound_def)
          with False True q Inr p inr tr IH c1 show ?thesis
            by (auto simp add: Let_def flat_bound_def split: sum.splits if_splits)
        qed
      qed
    qed
  qed
qed

lemma flatten_top_bound:
  "\<forall>r w. cnt (snd (fetch r w)) \<le> Suc (cnt w) \<Longrightarrow> length result < max_count \<Longrightarrow>
    flat_bound max_count (length result) (cnt w)
      (cnt (snd (flatten_top lower fetch depth max_count flt vs result w)))
      (map_sum id prod.swap (fst (flatten_top lower fetch depth max_count flt vs result w)))"
proof (induction vs arbitrary: result w)
  case Nil
  then show ?case by (simp add: flat_bound_def)
next
  case (Cons v vs)
  let ?name = "va_name v"
  show ?case
  proof (cases "filter_matches lower flt v \<and> va_variables_reference v > 0 \<and> depth > 0 \<and>
      Suc (length result) < max_count")
    case False
    note IH = Cons.IH [OF Cons.prems(1), of _ w]
    consider "\<not> filter_matches lower flt v"
      | "filter_matches lower flt v" "max_count \<le> Suc (length result)"
      | "filter_matches lower flt v" "Suc (length result) < max_count"
      by linarith
    then show ?thesis
    proof cases
      case 1
      then show ?thesis using IH [of result] Cons.prems(2) by simp
    next
      case 2
      then show ?thesis using Cons.prems(2) by (simp add: Let_def flat_bound_def)
    next
      case 3
      obtain x where emit: "flatten_top lower fetch depth max_count flt (v # vs) result w =
          flatten_top lower fetch depth max_count flt vs (result @ [x]) w"
      proof (cases "va_variables_reference v > 0")
        case True
        with False 3 that [of "flat_collapsed ?name v"] show ?thesis by (simp add: Let_def)
      next
        case leaf: False
        with 3 that [of "flat_new ?name v"] show ?thesis by (simp add: Let_def)
      qed
      have "flat_bound max_count (Suc (length result)) c c' r \<Longrightarrow> flat_bound max_count (length result) c c' r"
        for c c' r by (auto simp: flat_bound_def split: sum.splits if_splits)
      then show ?thesis using IH [of "result @ [x]"] 3(2) by (simp add: emit del: flatten_top.simps)
    qed
  next
    case True
    let ?acc = "result @ [flat_new ?name v]"
    obtain p w2 where p: "flatten_recursive fetch (va_variables_reference v) ?name (depth - 1)
        ?acc max_count w = (p, w2)" by force
    have rec: "flat_bound max_count (length result) (cnt w) (cnt w2) p"
    proof -
      obtain q w1 where q: "fetch (va_variables_reference v) w = (q, w1)" by force
      have c1: "cnt w1 \<le> Suc (cnt w)" using Cons.prems(1) q by (metis snd_conv)
      show ?thesis
      proof (cases q)
        case (Inl e)
        with p q c1 True show ?thesis by (auto simp: flatten_recursive_def flat_bound_def)
      next
        case (Inr vars)
        with p q have "flatten_loop fetch max_count ?name (depth - 1) vars ?acc w1 = (p, w2)"
          by (simp add: flatten_recursive_def)
        with flatten_loop_bound [of cnt fetch ?acc max_count w1 ?name "depth - 1" vars] c1 True
          Cons.prems(1)
        show ?thesis by (auto simp: flat_bound_def split: sum.splits)
      qed
    qed
    show ?thesis
    proof (cases "\<exists>acc'. p = Inr (False, acc')")
      case True
      then obtain acc' where acc': "p = Inr (False, acc')" by blast
      with rec have "length acc' < max_count" by (simp add: flat_bound_def)
      from Cons.IH [OF Cons.prems(1) this, of w2] acc' rec p
        \<open>filter_matches lower flt v \<and> _\<close>
      show ?thesis by (auto simp: Let_def flat_bound_def split: sum.splits if_splits)
    next
      case False
      with rec p \<open>filter_matches lower flt v \<and> _\<close> show ?thesis
        by (auto simp: Let_def flat_bound_def split: sum.splits if_splits)
    qed
  qed
qed

lemma flatten_variables_bound:
  assumes cnt: "\<forall>r w. cnt (snd (fetch r w)) \<le> Suc (cnt w)" and pos: "0 < max_count"
  shows "cnt (snd (flatten_variables lower fetch ref depth max_count flt w)) \<le> cnt w + max_count"
    and "fst (flatten_variables lower fetch ref depth max_count flt w) = Inr (result, truncated) \<Longrightarrow>
           length result \<le> max_count \<and> (truncated \<longleftrightarrow> length result = max_count)"
proof -
  obtain q w1 where q: "fetch ref w = (q, w1)" by force
  have c1: "cnt w1 \<le> Suc (cnt w)" using cnt q by (metis snd_conv)
  note bound = flatten_top_bound [OF cnt, of "[]" max_count w1 lower depth flt]
  show "cnt (snd (flatten_variables lower fetch ref depth max_count flt w)) \<le> cnt w + max_count"
  proof (cases q)
    case (Inr vars)
    with q bound [of vars] c1 pos show ?thesis by (auto simp: flatten_variables_def flat_bound_def)
  qed (use q c1 pos in \<open>simp add: flatten_variables_def\<close>)
  assume res: "fst (flatten_variables lower fetch ref depth max_count flt w) = Inr (result, truncated)"
  then obtain vars where vars: "q = Inr vars"
    using q by (cases q) (auto simp: flatten_variables_def)
  with res q have "fst (flatten_top lower fetch depth max_count flt vars [] w1) = Inr (result, truncated)"
    by (simp add: flatten_variables_def)
  with bound [of vars] pos show "length result \<le> max_count \<and> (truncated \<longleftrightarrow> length result = max_count)"
    by (simp add: flat_bound_def split: if_splits)
qed

section \<open>The reference tree\<close>

text \<open>
  What the flattener computes when the debugger answers every reference and answers it the same
  way each time: the first \<open>max_count\<close> nodes of the tree in preorder.
\<close>

function flat_tree ::
  "(i64 \<Rightarrow> variable list) \<Rightarrow> (string \<Rightarrow> string) \<Rightarrow> i64 \<Rightarrow> variable list \<Rightarrow> flat_variable list" where
  "flat_tree kids name depth [] = []"
| "flat_tree kids name depth (v # vs) =
     (if va_variables_reference v > 0 \<and> depth > 0 then
        flat_new (name (va_name v)) v #
        flat_tree kids (\<lambda>n. name (va_name v) @ ''.'' @ n) (depth - 1) (kids (va_variables_reference v))
      else if va_variables_reference v > 0 then [flat_collapsed (name (va_name v)) v]
      else [flat_new (name (va_name v)) v]) @ flat_tree kids name depth vs"
  by pat_completeness auto
termination
  by (relation "measures [\<lambda>(_, _, depth, _). nat depth, \<lambda>(_, _, _, vs). length vs]") auto

lemma take_diff_Cons: "m < n \<Longrightarrow> take (n - m) (x # xs) = x # take (n - Suc m) xs"
  by (simp add: take_Cons')

lemma flatten_loop_tree:
  "length result < max_count \<Longrightarrow>
   flatten_loop (\<lambda>r w. (Inr (kids r), w)) max_count prefix depth vs result w =
     (let all = result @ flat_tree kids (\<lambda>n. prefix @ ''.'' @ n) depth vs
      in (Inr (max_count \<le> length all, take max_count all), w))"
proof (induction kids "\<lambda>n. prefix @ ''.'' @ n" depth vs arbitrary: prefix result
    rule: flat_tree.induct)
  case (1 kids depth)
  then show ?case by simp
next
  case (2 kids depth v vs)
  let ?name = "prefix @ ''.'' @ va_name v"
  show ?case
  proof (cases "va_variables_reference v > 0 \<and> depth > 0 \<and> Suc (length result) < max_count")
    case True
    let ?sub = "flat_tree kids (\<lambda>n. ?name @ ''.'' @ n) (depth - 1) (kids (va_variables_reference v))"
    have fun_eq: "(\<lambda>n. (prefix @ ''.'' @ va_name v) @ ''.'' @ n) = (\<lambda>n. ?name @ ''.'' @ n)" ..
    note sub = "2.hyps"(1) [of ?name "result @ [flat_new ?name v]"]
    note rest = "2.hyps"(2) [OF refl, of "result @ flat_new ?name v # ?sub"]
    show ?thesis using True sub rest by (auto simp: Let_def take_diff_Cons)
  next
    case False
    note rest = "2.hyps"(2) [OF refl, of "result @ [flat_new ?name v]"]
      "2.hyps"(2) [OF refl, of "result @ [flat_collapsed ?name v]"]
    show ?thesis using False rest "2.prems" by (auto simp: Let_def take_diff_Cons)
  qed
qed

lemma flatten_top_tree:
  "length result < max_count \<Longrightarrow>
   flatten_top lower (\<lambda>r w. (Inr (kids r), w)) depth max_count flt vs result w =
     (let all = result @ flat_tree kids (\<lambda>n. n) depth (filter (filter_matches lower flt) vs)
      in (Inr (take max_count all, max_count \<le> length all), w))"
proof (induction vs arbitrary: result)
  case Nil
  then show ?case by simp
next
  case (Cons v vs)
  let ?name = "va_name v"
  let ?rest = "flat_tree kids (\<lambda>n. n) depth (filter (filter_matches lower flt) vs)"
  show ?case
  proof (cases "filter_matches lower flt v \<and> va_variables_reference v > 0 \<and> depth > 0 \<and>
      Suc (length result) < max_count")
    case True
    let ?sub = "flat_tree kids (\<lambda>n. ?name @ ''.'' @ n) (depth - 1) (kids (va_variables_reference v))"
    have sub: "flatten_recursive (\<lambda>r w. (Inr (kids r), w)) (va_variables_reference v) ?name (depth - 1)
        (result @ [flat_new ?name v]) max_count w =
        (Inr (max_count \<le> Suc (length result + length ?sub),
              take max_count (result @ flat_new ?name v # ?sub)), w)"
      using True by (simp add: flatten_recursive_def flatten_loop_tree Let_def)
    show ?thesis
      using True Cons.IH [of "result @ flat_new ?name v # ?sub"]
      by (auto simp: sub Let_def take_diff_Cons)
  next
    case False
    show ?thesis
      using False Cons.prems Cons.IH [of result] Cons.IH [of "result @ [flat_new ?name v]"]
        Cons.IH [of "result @ [flat_collapsed ?name v]"]
      by (auto simp: Let_def take_diff_Cons)
  qed
qed

lemma flatten_variables_tree:
  "0 < max_count \<Longrightarrow>
   flatten_variables lower (\<lambda>r w. (Inr (kids r), w)) ref depth max_count flt w =
     (let all = flat_tree kids (\<lambda>n. n) depth (filter (filter_matches lower flt) (kids ref))
      in (Inr (take max_count all, max_count \<le> length all), w))"
  using flatten_top_tree [of "[]" max_count] by (simp add: flatten_variables_def Let_def)

text \<open>A cap of zero does not give an empty list: the cap is looked at after the first entry.\<close>

lemma flatten_variables_zero_cap:
  "flatten_variables lower (\<lambda>r w. (Inr (kids r), w)) ref depth 0 [] w =
     (case kids ref of
        [] \<Rightarrow> (Inr ([], False), w)
      | v # vs \<Rightarrow> (Inr ([if va_variables_reference v > 0 \<and> depth \<le> 0 then flat_collapsed (va_name v) v
                     else flat_new (va_name v) v], True), w))"
  by (auto simp: flatten_variables_def Let_def filter_matches_def split: list.split)

end
