(* ===== verification/Handlers_Lifecycle.thy ===== *)
theory Handlers_Lifecycle
  imports Tool_Contract
begin

text \<open>
  \<open>launch\<close>, \<open>attach\<close>, \<open>disconnect\<close> (\<open>mcp-tools/src/handlers/lifecycle.rs\<close>) and the two WinDbg
  connect points \<open>open_crash_dump\<close> and \<open>attach_kernel\<close> (\<open>handlers/windbg.rs\<close>).

  A connect point waits twice, for \<open>connect()\<close> and for the backend's own call.  It is cut at both
  waits: \<open>_begin\<close> up to the first, \<open>connect_stage\<close> between them, \<open>_finish\<close> after the second; the
  handler composes the three.
\<close>

section \<open>The shared connect stage\<close>

text \<open>The failure path of \<open>registry.select\<close> and of \<open>connect()\<close>: reset, then drop the backend.\<close>

definition abort_connect :: "('h, 'w) server \<Rightarrow> ('h, 'w) server" where
  "abort_connect sv = clear_backend (on_session reset sv)"

definition connect_stage ::
  "('h, 'w) factory \<Rightarrow> backend_error + 'h \<Rightarrow> ('h, 'w) server \<Rightarrow> (tool_outcome + 'h) \<times> ('h, 'w) server" where
  "connect_stage f r sv =
     (case r of
        Inl e \<Rightarrow> (Inl (Error (connect_error (fac_name f) e)), abort_connect sv)
      | Inr h \<Rightarrow> (Inr h, spawn_pump h (set_backend h (fac_name f) sv)))"

section \<open>launch\<close>

record launch_plan =
  lp_spec :: launch_spec
  lp_program :: string
  lp_stop_on_entry :: bool

definition launch_begin ::
  "host \<Rightarrow> args \<Rightarrow> ('h, 'w) server \<Rightarrow> (tool_outcome + launch_plan \<times> ('h, 'w) factory) \<times> ('h, 'w) server" where
  "launch_begin ho a sv =
     (case check_state [Idle] (sv_session sv) of
        Inl e \<Rightarrow> (Inl (Error e), sv)
      | Inr _ \<Rightarrow>
     (case require_string a ''program'' of
        Inl e \<Rightarrow> (Inl (Error e), sv)
      | Inr program \<Rightarrow>
     (case parse_json_array (ho_serde ho) a ''args'' of
        Inl e \<Rightarrow> (Inl (Error e), sv)
      | Inr program_args \<Rightarrow>
     (case parse_json_object (ho_serde ho) a ''env'' of
        Inl e \<Rightarrow> (Inl (Error e), sv)
      | Inr env \<Rightarrow>
     (let cwd = get_string a ''cwd'' [];
          stop_on_entry = get_bool a ''stop_on_entry'' True;
          backend = get_string a ''backend'' [];
          s = set_state Configuring (sv_session sv);
          ((source_map, function_bps), s) = flush_pending_breakpoints s;
          sv = sv\<lparr>sv_session := s\<rparr>;
          spec = \<lparr>ls_program = program, ls_args = program_args,
                  ls_cwd = (if cwd = [] then None else Some cwd), ls_env = env,
                  ls_stop_on_entry = stop_on_entry, ls_source_breakpoints = source_map,
                  ls_function_breakpoints = function_bps\<rparr>
      in case select_backend ho (backend_select backend) sv of
           Inl e \<Rightarrow> (Inl (Error e), abort_connect sv)
         | Inr factory \<Rightarrow>
             (Inr (\<lparr>lp_spec = spec, lp_program = program, lp_stop_on_entry = stop_on_entry\<rparr>, factory),
              sv))))))"

text \<open>\<open>r\<close> is the answer to \<open>backend.launch\<close>, \<open>None\<close> when the token fired; \<open>dpid\<close> is \<open>debugger_pid()\<close>.\<close>

definition record_launch :: "string \<Rightarrow> i64 option \<Rightarrow> session \<Rightarrow> session" where
  "record_launch program dpid s =
     (let s = set_program program s in case dpid of Some pid \<Rightarrow> set_pid pid s | None \<Rightarrow> s)"

definition launch_finish ::
  "launch_plan \<Rightarrow> i64 option \<Rightarrow> (backend_error + launch_outcome) option \<Rightarrow> ('h, 'w) server \<Rightarrow>
   tool_outcome \<times> ('h, 'w) server" where
  "launch_finish lp dpid r sv =
     (case r of
        None \<Rightarrow>
          (Error (if lp_stop_on_entry lp then ''timed out waiting for stop on entry: context canceled''
                  else ''launch timed out: context canceled''), cleanup_after_cancel sv)
      | Some (Inl e) \<Rightarrow> (Error (handshake_error e), cleanup_after_cancel sv)
      | Some (Inr out) \<Rightarrow>
          (let s = record_launch (lp_program lp) dpid (sv_session sv); pid = s_pid s
           in case out of
                LO_Stopped info \<Rightarrow>
                  (resp [(''status'', JStr ''launched''), (''program'', JStr (lp_program lp)),
                     (''pid'', json_int pid), (''state'', JStr ''stopped''),
                     (''stop_reason'', JStr (si_reason info)),
                     (''stopped_thread_id'', json_int (si_thread_id info))],
                   sv\<lparr>sv_session := set_last_stopped info (set_state Stopped s)\<rparr>)
              | LO_Running \<Rightarrow>
                  (resp [(''status'', JStr ''launched''), (''program'', JStr (lp_program lp)),
                     (''pid'', json_int pid), (''state'', JStr ''running'')],
                   sv\<lparr>sv_session := set_state Running s\<rparr>)
              | LO_Exited _ \<Rightarrow>
                  (Text ''Program exited during launch'', sv\<lparr>sv_session := set_state Terminated s\<rparr>)))"

definition handle_launch :: "host \<Rightarrow> ('h, 'w) backend_ops \<Rightarrow> 'w cancel \<Rightarrow> ('h, 'w) handler" where
  "handle_launch ho ops ct a sv w =
     (case launch_begin ho a sv of
        (Inl out, sv) \<Rightarrow> (out, sv, w)
      | (Inr (lp, factory), sv) \<Rightarrow>
          (let (c, w) = fac_connect factory w
           in case connect_stage factory c sv of
                (Inl out, sv) \<Rightarrow> (out, sv, w)
              | (Inr h, sv) \<Rightarrow>
                  (let (r, w) = select_call ct (b_launch ops h (lp_spec lp)) w;
                       (out, sv) = launch_finish lp (b_debugger_pid ops h w) r sv
                   in (out, sv, w))))"

section \<open>attach\<close>

record attach_plan =
  ap_spec :: attach_spec
  ap_label :: string

definition attach_target :: "args \<Rightarrow> string + attach_plan" where
  "attach_target a =
     (let pid_present = (case get_raw a ''pid'' of Some v \<Rightarrow> v \<noteq> JNull | None \<Rightarrow> False)
      in if pid_present then
           (case Option.bind (get_raw a ''pid'') as_f64 of
              None \<Rightarrow> Inl (sq # ''pid'' @ sq # '' must be a number'')
            | Some f \<Rightarrow>
                (let pid = f64_as_i64 f
                 in if pid \<le> 0 then Inl (sq # ''pid'' @ sq # '' must be a positive integer'')
                    else Inr \<lparr>ap_spec = \<lparr>as_pid = Some pid, as_wait_for = None\<rparr>,
                              ap_label = ''pid:'' @ show_int pid\<rparr>))
         else
           (case get_raw a ''wait_for'' of
              None \<Rightarrow> Inl (''either '' @ sq # ''pid'' @ sq # '' or '' @ sq # ''wait_for'' @ sq # '' must be provided'')
            | Some raw \<Rightarrow>
                if raw = JNull then
                  Inl (''either '' @ sq # ''pid'' @ sq # '' or '' @ sq # ''wait_for'' @ sq # '' must be provided'')
                else
                  (let name = (case as_str raw of Some s \<Rightarrow> s | None \<Rightarrow> [])
                   in if name = [] then Inl (sq # ''wait_for'' @ sq # '' must be a non-empty string'')
                      else Inr \<lparr>ap_spec = \<lparr>as_pid = None, as_wait_for = Some name\<rparr>,
                                ap_label = name\<rparr>)))"

definition attach_begin ::
  "host \<Rightarrow> args \<Rightarrow> ('h, 'w) server \<Rightarrow> (tool_outcome + attach_plan \<times> ('h, 'w) factory) \<times> ('h, 'w) server" where
  "attach_begin ho a sv =
     (case check_state [Idle] (sv_session sv) of
        Inl e \<Rightarrow> (Inl (Error e), sv)
      | Inr _ \<Rightarrow>
     (case attach_target a of
        Inl e \<Rightarrow> (Inl (Error e), sv)
      | Inr ap \<Rightarrow>
     (let sv = on_session (set_state Configuring) sv;
          backend = get_string a ''backend'' []
      in case select_backend ho (backend_select backend) sv of
           Inl e \<Rightarrow> (Inl (Error e), abort_connect sv)
         | Inr factory \<Rightarrow> (Inr (ap, factory), sv))))"

definition attach_finish ::
  "attach_plan \<Rightarrow> i64 option \<Rightarrow> (backend_error + attach_outcome) option \<Rightarrow> ('h, 'w) server \<Rightarrow>
   tool_outcome \<times> ('h, 'w) server" where
  "attach_finish ap dpid r sv =
     (case r of
        None \<Rightarrow>
          (Error ''timed out waiting for stop on entry: context canceled'', cleanup_after_cancel sv)
      | Some (Inl e) \<Rightarrow> (Error (handshake_error e), cleanup_after_cancel sv)
      | Some (Inr out) \<Rightarrow>
          (let s = set_program (ap_label ap) (sv_session sv);
               s = (case as_pid (ap_spec ap) of
                      Some pid \<Rightarrow> set_pid pid s
                    | None \<Rightarrow> (case dpid of Some pid \<Rightarrow> set_pid pid s | None \<Rightarrow> s));
               pid = s_pid s
           in case out of
                AO_Stopped info \<Rightarrow>
                  (resp [(''status'', JStr ''attached''), (''program'', JStr (ap_label ap)),
                     (''pid'', json_int pid), (''state'', JStr ''stopped''),
                     (''stop_reason'', JStr (si_reason info)),
                     (''stopped_thread_id'', json_int (si_thread_id info))],
                   sv\<lparr>sv_session := set_last_stopped info (set_state Stopped s)\<rparr>)
              | _ \<Rightarrow> (Text ''Process exited during attach'', sv\<lparr>sv_session := set_state Terminated s\<rparr>)))"

definition handle_attach :: "host \<Rightarrow> ('h, 'w) backend_ops \<Rightarrow> 'w cancel \<Rightarrow> ('h, 'w) handler" where
  "handle_attach ho ops ct a sv w =
     (case attach_begin ho a sv of
        (Inl out, sv) \<Rightarrow> (out, sv, w)
      | (Inr (ap, factory), sv) \<Rightarrow>
          (let (c, w) = fac_connect factory w
           in case connect_stage factory c sv of
                (Inl out, sv) \<Rightarrow> (out, sv, w)
              | (Inr h, sv) \<Rightarrow>
                  (let (r, w) = select_call ct (b_attach ops h (ap_spec ap)) w;
                       (out, sv) = attach_finish ap (b_debugger_pid ops h w) r sv
                   in (out, sv, w))))"

section \<open>open_crash_dump\<close>

definition not_available :: "string \<Rightarrow> string" where
  "not_available tool =
     tool @ '' is not available: the windbg backend is not registered on this platform''"

definition unsupported :: "string \<Rightarrow> string \<Rightarrow> string" where
  "unsupported tool backend = tool @ '' is not supported by the '' @ backend @ '' backend''"

definition dump_begin ::
  "host \<Rightarrow> args \<Rightarrow> ('h, 'w) server \<Rightarrow> (tool_outcome + string \<times> ('h, 'w) factory) \<times> ('h, 'w) server" where
  "dump_begin ho a sv =
     (case check_state [Idle] (sv_session sv) of
        Inl e \<Rightarrow> (Inl (Error e), sv)
      | Inr _ \<Rightarrow>
     (case require_string a ''dump_path'' of
        Inl e \<Rightarrow> (Inl (Error e), sv)
      | Inr dump_path \<Rightarrow>
     (let sv = on_session (set_state Configuring) sv
      in case select_backend ho (Some ''windbg'') sv of
           Inl e \<Rightarrow> (Inl (Error (not_available ''open_crash_dump'')), abort_connect sv)
         | Inr factory \<Rightarrow> (Inr (dump_path, factory), sv))))"

text \<open>The error of the backend's call, for both WinDbg connect points.\<close>

fun windbg_error :: "string \<Rightarrow> string \<Rightarrow> backend_error \<Rightarrow> string" where
  "windbg_error tool factory (Unsupported t) = unsupported t factory"
| "windbg_error tool factory e = tool @ '' request failed: '' @ error_text e"

definition dump_finish ::
  "string \<Rightarrow> string \<Rightarrow> (backend_error + dump_outcome) option \<Rightarrow> ('h, 'w) server \<Rightarrow>
   tool_outcome \<times> ('h, 'w) server" where
  "dump_finish dump_path factory r sv =
     (case r of
        None \<Rightarrow> (Error ''open_crash_dump timed out: context canceled'', cleanup_after_cancel sv)
      | Some (Inl e) \<Rightarrow> (Error (windbg_error ''open_crash_dump'' factory e), cleanup_after_cancel sv)
      | Some (Inr out) \<Rightarrow>
          (let s = set_dump True (set_state Stopped (sv_session sv));
               b = rb_sets [(''status'', JStr ''dump_loaded''), (''program'', JStr dump_path)] rb_new;
               s' = (case do_stop out of Some info \<Rightarrow> set_last_stopped info s | None \<Rightarrow> s);
               b = (case do_stop out of
                      Some info \<Rightarrow> rb_sets [(''stop_reason'', JStr (si_reason info)),
                                     (''stopped_thread_id'', json_int (si_thread_id info))] b
                    | None \<Rightarrow> b)
           in (rb_into_outcome (rb_set_opt ''crash_location'' (map_option JStr (do_crash_location out)) b),
               sv\<lparr>sv_session := s'\<rparr>)))"

definition handle_open_crash_dump ::
  "host \<Rightarrow> ('h, 'w) backend_ops \<Rightarrow> 'w cancel \<Rightarrow> ('h, 'w) handler" where
  "handle_open_crash_dump ho ops ct a sv w =
     (case dump_begin ho a sv of
        (Inl out, sv) \<Rightarrow> (out, sv, w)
      | (Inr (dump_path, factory), sv) \<Rightarrow>
          (let (c, w) = fac_connect factory w
           in case connect_stage factory c sv of
                (Inl out, sv) \<Rightarrow> (out, sv, w)
              | (Inr h, sv) \<Rightarrow>
                  (let (r, w) = select_call ct (b_open_dump ops h dump_path) w;
                       (out, sv) = dump_finish dump_path (fac_name factory) r sv
                   in (out, sv, w))))"

section \<open>attach_kernel\<close>

definition kernel_begin ::
  "host \<Rightarrow> args \<Rightarrow> ('h, 'w) server \<Rightarrow> (tool_outcome + string \<times> ('h, 'w) factory) \<times> ('h, 'w) server" where
  "kernel_begin ho a sv =
     (case check_state [Idle] (sv_session sv) of
        Inl e \<Rightarrow> (Inl (Error e), sv)
      | Inr _ \<Rightarrow>
     (case require_string a ''connection'' of
        Inl e \<Rightarrow> (Inl (Error e), sv)
      | Inr connection \<Rightarrow>
     (if \<not> starts_with ''net:'' connection then
        (Inl (Error (sq # ''connection'' @ sq # '' must be a KDNET connection string starting with '' @
                     sq # ''net:'' @ [sq])), sv)
      else
     (let sv = on_session (set_state Configuring) sv
      in case select_backend ho (Some ''windbg'') sv of
           Inl e \<Rightarrow> (Inl (Error (not_available ''attach_kernel'')), abort_connect sv)
         | Inr factory \<Rightarrow> (Inr (connection, factory), sv)))))"

definition kernel_finish ::
  "string \<Rightarrow> string \<Rightarrow> (backend_error + attach_outcome) option \<Rightarrow> ('h, 'w) server \<Rightarrow>
   tool_outcome \<times> ('h, 'w) server" where
  "kernel_finish connection factory r sv =
     (case r of
        None \<Rightarrow> (Error ''attach_kernel timed out: context canceled'', cleanup_after_cancel sv)
      | Some (Inl e) \<Rightarrow> (Error (windbg_error ''attach_kernel'' factory e), cleanup_after_cancel sv)
      | Some (Inr (AO_Stopped info)) \<Rightarrow>
          (resp [(''status'', JStr ''kernel_attached''), (''connection'', JStr connection),
             (''state'', JStr ''stopped''), (''stop_reason'', JStr (si_reason info)),
             (''stopped_thread_id'', json_int (si_thread_id info))],
           on_session (\<lambda>s. set_last_stopped info (set_state Stopped s)) sv)
      | Some (Inr _) \<Rightarrow>
          (Text ''Kernel session ended during attach'', on_session (set_state Terminated) sv))"

definition handle_attach_kernel ::
  "host \<Rightarrow> ('h, 'w) backend_ops \<Rightarrow> 'w cancel \<Rightarrow> ('h, 'w) handler" where
  "handle_attach_kernel ho ops ct a sv w =
     (case kernel_begin ho a sv of
        (Inl out, sv) \<Rightarrow> (out, sv, w)
      | (Inr (connection, factory), sv) \<Rightarrow>
          (let (c, w) = fac_connect factory w
           in case connect_stage factory c sv of
                (Inl out, sv) \<Rightarrow> (out, sv, w)
              | (Inr h, sv) \<Rightarrow>
                  (let (r, w) = select_call ct (b_attach_kernel ops h connection) w;
                       (out, sv) = kernel_finish connection (fac_name factory) r sv
                   in (out, sv, w))))"

section \<open>disconnect\<close>

text \<open>
  Both 5-second bounds are the world's business: \<open>b_disconnect\<close> is what the world is after the
  best-effort request has been answered, refused or abandoned.
\<close>

definition drop_backend_bounded :: "('h, 'w) server \<Rightarrow> ('h, 'w) server" where
  "drop_backend_bounded sv = sv\<lparr>sv_backend := None, sv_active_name := None\<rparr>"

definition disconnect_begin :: "args \<Rightarrow> ('h, 'w) server \<Rightarrow> tool_outcome + 'h option \<times> bool" where
  "disconnect_begin a sv =
     (case check_state [Configuring, Stopped, Running, Terminated] (sv_session sv) of
        Inl e \<Rightarrow> Inl (Error e)
      | Inr _ \<Rightarrow> Inr (sv_backend sv, get_bool a ''terminate'' True))"

definition disconnect_finish :: "('h, 'w) server \<Rightarrow> tool_outcome \<times> ('h, 'w) server" where
  "disconnect_finish sv =
     (resp [(''status'', JStr ''disconnected'')], on_session reset (drop_backend_bounded sv))"

definition handle_disconnect :: "('h, 'w) backend_ops \<Rightarrow> ('h, 'w) handler" where
  "handle_disconnect ops a sv w =
     (case disconnect_begin a sv of
        Inl out \<Rightarrow> (out, sv, w)
      | Inr (backend, terminate) \<Rightarrow>
          (let w = (case backend of Some h \<Rightarrow> b_disconnect ops h terminate w | None \<Rightarrow> w);
               (out, sv) = disconnect_finish sv
           in (out, sv, w)))"

section \<open>The contract\<close>

lemma abort_connect_simps [simp]:
  "sv_session (abort_connect sv) = reset (sv_session sv)" "sv_registry (abort_connect sv) = sv_registry sv"
  "sv_backend (abort_connect sv) = None" "sv_active_name (abort_connect sv) = None"
  "sv_pumps (abort_connect sv) = sv_pumps sv"
  by (simp_all add: abort_connect_def)

lemma abort_connect_inv [inv_intros]: "server_inv sv \<Longrightarrow> server_inv (abort_connect sv)"
  by (simp add: server_inv_def reset_inv)

lemma flush_invD: "flush_pending_breakpoints s = (r, s') \<Longrightarrow> session_inv s \<Longrightarrow> session_inv s'"
  using flush_pending_inv [of s] by simp

lemma connect_stage_inv:
  "connect_stage f r sv = (x, sv') \<Longrightarrow> server_inv sv \<Longrightarrow> server_inv sv'"
  "connect_stage f r sv = (x, sv') \<Longrightarrow> sv_registry sv' = sv_registry sv"
  by (auto simp: connect_stage_def intro!: inv_intros split: tool_splits)

lemma begin_inv:
  "launch_begin ho a sv = (x, sv') \<Longrightarrow> server_inv sv \<Longrightarrow> server_inv sv'"
  "launch_begin ho a sv = (x, sv') \<Longrightarrow> sv_registry sv' = sv_registry sv"
  "attach_begin ho a sv = (y, sv') \<Longrightarrow> server_inv sv \<Longrightarrow> server_inv sv'"
  "attach_begin ho a sv = (y, sv') \<Longrightarrow> sv_registry sv' = sv_registry sv"
  "dump_begin ho a sv = (z, sv') \<Longrightarrow> server_inv sv \<Longrightarrow> server_inv sv'"
  "dump_begin ho a sv = (z, sv') \<Longrightarrow> sv_registry sv' = sv_registry sv"
  "kernel_begin ho a sv = (z, sv') \<Longrightarrow> server_inv sv \<Longrightarrow> server_inv sv'"
  "kernel_begin ho a sv = (z, sv') \<Longrightarrow> sv_registry sv' = sv_registry sv"
  by (auto simp: launch_begin_def attach_begin_def dump_begin_def kernel_begin_def Let_def
      intro!: inv_intros server_inv_update elim!: flush_invD split: tool_splits)

lemma finish_inv:
  "launch_finish lp p r sv = (x, sv') \<Longrightarrow> server_inv sv \<Longrightarrow> server_inv sv'"
  "launch_finish lp p r sv = (x, sv') \<Longrightarrow> sv_registry sv' = sv_registry sv"
  "attach_finish ap p ra sv = (x, sv') \<Longrightarrow> server_inv sv \<Longrightarrow> server_inv sv'"
  "attach_finish ap p ra sv = (x, sv') \<Longrightarrow> sv_registry sv' = sv_registry sv"
  "dump_finish d f rd sv = (x, sv') \<Longrightarrow> server_inv sv \<Longrightarrow> server_inv sv'"
  "dump_finish d f rd sv = (x, sv') \<Longrightarrow> sv_registry sv' = sv_registry sv"
  "kernel_finish d f ra sv = (x, sv') \<Longrightarrow> server_inv sv \<Longrightarrow> server_inv sv'"
  "kernel_finish d f ra sv = (x, sv') \<Longrightarrow> sv_registry sv' = sv_registry sv"
  by (auto simp: launch_finish_def record_launch_def attach_finish_def dump_finish_def
      kernel_finish_def Let_def intro!: inv_intros server_inv_update
      split: tool_splits launch_outcome.splits attach_outcome.splits)

lemma begin_rejects:
  "check_state [Idle] (sv_session sv) = Inl e \<Longrightarrow> launch_begin ho a sv = (Inl (Error e), sv)"
  "check_state [Idle] (sv_session sv) = Inl e \<Longrightarrow> attach_begin ho a sv = (Inl (Error e), sv)"
  "check_state [Idle] (sv_session sv) = Inl e \<Longrightarrow> dump_begin ho a sv = (Inl (Error e), sv)"
  "check_state [Idle] (sv_session sv) = Inl e \<Longrightarrow> kernel_begin ho a sv = (Inl (Error e), sv)"
  by (simp_all add: launch_begin_def attach_begin_def dump_begin_def kernel_begin_def)

lemmas connect_point_invs = begin_inv(1,3,5,7) connect_stage_inv(1) finish_inv(1,3,5,7)

lemmas connect_point_registry = begin_inv(2,4,6,8) connect_stage_inv(2) finish_inv(2,4,6,8)

interpretation launch_tool: guarded_tool "handle_launch ho ops ct" "[Idle]"
  by unfold_locales
    (auto simp: handle_launch_def Let_def begin_rejects connect_point_registry dest: connect_point_invs split: tool_splits)

interpretation attach_tool: guarded_tool "handle_attach ho ops ct" "[Idle]"
  by unfold_locales
    (auto simp: handle_attach_def Let_def begin_rejects connect_point_registry dest: connect_point_invs split: tool_splits)

interpretation open_crash_dump_tool: guarded_tool "handle_open_crash_dump ho ops ct" "[Idle]"
  by unfold_locales
    (auto simp: handle_open_crash_dump_def Let_def begin_rejects connect_point_registry dest: connect_point_invs split: tool_splits)

interpretation attach_kernel_tool: guarded_tool "handle_attach_kernel ho ops ct" "[Idle]"
  by unfold_locales
    (auto simp: handle_attach_kernel_def Let_def begin_rejects connect_point_registry dest: connect_point_invs split: tool_splits)

interpretation disconnect_tool: guarded_tool "handle_disconnect ops" "[Configuring, Stopped, Running, Terminated]"
  by unfold_locales
    (auto simp: handle_disconnect_def disconnect_begin_def disconnect_finish_def drop_backend_bounded_def
      on_session_def server_inv_def reset_inv Let_def split: tool_splits)

text \<open>What the first and the last part of a connect point do to the server, for all four.\<close>

definition begin_shape :: "('h, 'w) server \<Rightarrow> (tool_outcome + 'p) \<Rightarrow> ('h, 'w) server \<Rightarrow> bool" where
  "begin_shape sv r sv' \<longleftrightarrow>
     (\<exists>out. r = Inl out \<and> sv' = sv) \<or>
     s_state (sv_session sv) = Idle \<and>
     (\<exists>s. s_generation s = s_generation (sv_session sv) \<and>
        s_output s = s_output (sv_session sv) \<and>
        ((\<exists>out. r = Inl out \<and> sv' = abort_connect (sv\<lparr>sv_session := s\<rparr>)) \<or>
         (\<exists>p. r = Inr p \<and> sv' = sv\<lparr>sv_session := s\<rparr>)))"

definition finish_shape :: "('h, 'w) server \<Rightarrow> ('h, 'w) server \<Rightarrow> bool" where
  "finish_shape sv sv' \<longleftrightarrow>
     sv' = cleanup_after_cancel sv \<or>
     (\<exists>s. sv' = sv\<lparr>sv_session := s\<rparr> \<and> s_generation s = s_generation (sv_session sv) \<and>
          s_state s \<in> {Stopped, Running, Terminated})"

lemma begin_shapeI:
  "begin_shape sv (Inl out) sv"
  "s_state (sv_session sv) = Idle \<Longrightarrow> s_generation s = s_generation (sv_session sv) \<Longrightarrow>
   s_output s = s_output (sv_session sv) \<Longrightarrow> begin_shape sv (Inl out) (abort_connect (sv\<lparr>sv_session := s\<rparr>))"
  "s_state (sv_session sv) = Idle \<Longrightarrow> s_generation s = s_generation (sv_session sv) \<Longrightarrow>
   s_output s = s_output (sv_session sv) \<Longrightarrow> begin_shape sv (Inr p) (sv\<lparr>sv_session := s\<rparr>)"
  by (auto simp: begin_shape_def)

lemma finish_shapeI:
  "finish_shape sv (cleanup_after_cancel sv)"
  "s_generation s = s_generation (sv_session sv) \<Longrightarrow> s_state s \<in> {Stopped, Running, Terminated} \<Longrightarrow>
     finish_shape sv (sv\<lparr>sv_session := s\<rparr>)"
  by (auto simp: finish_shape_def)

lemma begin_shapes:
  "launch_begin ho a sv = (r1, sv') \<Longrightarrow> begin_shape sv r1 sv'"
  "attach_begin ho a sv = (r2, sv') \<Longrightarrow> begin_shape sv r2 sv'"
  "dump_begin ho a sv = (r3, sv') \<Longrightarrow> begin_shape sv r3 sv'"
  "kernel_begin ho a sv = (r4, sv') \<Longrightarrow> begin_shape sv r4 sv'"
  by (auto simp: launch_begin_def attach_begin_def dump_begin_def kernel_begin_def
      Let_def on_session_update set_state_def 
      dest!: check_state_InrD flush_keepsD intro!: begin_shapeI split: tool_splits)

lemma finish_shapes:
  "launch_finish lp p r1 sv = (x, sv') \<Longrightarrow> finish_shape sv sv'"
  "attach_finish ap p r2 sv = (x, sv') \<Longrightarrow> finish_shape sv sv'"
  "dump_finish d f r3 sv = (x, sv') \<Longrightarrow> finish_shape sv sv'"
  "kernel_finish d f r2 sv = (x, sv') \<Longrightarrow> finish_shape sv sv'"
  by (auto simp: launch_finish_def attach_finish_def dump_finish_def kernel_finish_def
      record_launch_def on_session_update set_state_def set_program_def set_pid_def set_last_stopped_def
      set_dump_def Let_def intro!: finish_shapeI split: tool_splits launch_outcome.splits attach_outcome.splits)

lemma finish_error:
  "launch_finish lp p r1 sv = (Error e, sv') \<Longrightarrow> sv' = cleanup_after_cancel sv"
  "attach_finish ap p r2 sv = (Error e, sv') \<Longrightarrow> sv' = cleanup_after_cancel sv"
  "dump_finish d f r3 sv = (Error e, sv') \<Longrightarrow> sv' = cleanup_after_cancel sv"
  "kernel_finish d f r2 sv = (Error e, sv') \<Longrightarrow> sv' = cleanup_after_cancel sv"
  by (auto simp: launch_finish_def attach_finish_def dump_finish_def kernel_finish_def
      rb_into_outcome_def Let_def split: tool_splits launch_outcome.splits attach_outcome.splits)

text \<open>A server with nothing left of the session before it.\<close>

definition fresh_after :: "('h, 'w) server \<Rightarrow> ('h, 'w) server \<Rightarrow> bool" where
  "fresh_after sv sv' \<longleftrightarrow>
     sv_session sv' = session_new\<lparr>s_generation := s_generation (sv_session sv) + 1\<rparr> \<and>
     sv_backend sv' = None \<and> sv_active_name sv' = None"

lemma connect_fail_fresh:
  "begin_shape sv (Inr p) sv1 \<Longrightarrow> connect_stage f c sv1 = (Inl out, sv') \<Longrightarrow> server_inv sv \<Longrightarrow>
   fresh_after sv sv'"
  by (auto simp: begin_shape_def connect_stage_def fresh_after_def server_inv_def session_inv_def
      reset_eq_buffer split: sum.splits)

lemma finish_fail_fresh:
  "begin_shape sv (Inr p) sv1 \<Longrightarrow> connect_stage f c sv1 = (Inr h, sv2) \<Longrightarrow> server_inv sv \<Longrightarrow>
   fresh_after sv (cleanup_after_cancel sv2)"
  by (auto simp: begin_shape_def connect_stage_def fresh_after_def server_inv_def session_inv_def
      reset_eq_buffer split: sum.splits)

end
