(* ===== verification/Handlers_Inspection.thy ===== *)
theory Handlers_Inspection
  imports Handlers_Execution Flatten Handlers_Lifecycle
begin

text \<open>
  The tools that read the debuggee: \<open>status\<close>, \<open>backtrace\<close>, \<open>threads\<close>, \<open>variables\<close>, \<open>evaluate\<close>
  (\<open>mcp-tools/src/handlers/inspection.rs\<close>), \<open>read_memory\<close> and \<open>disassemble\<close> (\<open>memory.rs\<close>),
  \<open>run_command\<close> (\<open>run_command.rs\<close>), \<open>analyze_crash\<close> and \<open>get_modules\<close> (\<open>windbg.rs\<close>).
\<close>

section \<open>status\<close>

definition status_backend :: "('h, 'w) server \<Rightarrow> string" where
  "status_backend sv =
     (case sv_active_name sv of Some n \<Rightarrow> n | None \<Rightarrow> reg_default_name (sv_registry sv))"

fun status_fields :: "state \<Rightarrow> session \<Rightarrow> resp_builder \<Rightarrow> resp_builder" where
  "status_fields Idle s b = rb_set ''message'' (JStr ''No active debug session'') b"
| "status_fields Configuring s b = rb_set ''message'' (JStr ''Debug session is being configured'') b"
| "status_fields Stopped s b =
     (let b = rb_sets [(''program'', JStr (s_program s)), (''pid'', json_int (s_pid s))] b
      in case s_last_stopped s of
           None \<Rightarrow> b
         | Some event \<Rightarrow>
             rb_set_if (si_hit_breakpoint_ids event \<noteq> []) ''hit_breakpoint_ids''
               (int_array (si_hit_breakpoint_ids event))
             (rb_set_if (si_description event \<noteq> []) ''stop_description'' (JStr (si_description event))
             (rb_sets [(''stop_reason'', JStr (si_reason event)),
                (''stopped_thread_id'', json_int (si_thread_id event))] b)))"
| "status_fields Running s b =
     rb_sets [(''program'', JStr (s_program s)), (''pid'', json_int (s_pid s))] b"
| "status_fields Terminated s b =
     rb_set_opt ''exit_code'' (map_option json_int (s_exit_code s))
       (rb_set ''program'' (JStr (s_program s)) b)"

definition handle_status :: "('h, 'w) handler" where
  "handle_status a sv w =
     (let s = sv_session sv;
          b = rb_sets [(''state'', JStr (state_text (s_state s))),
                (''backend'', JStr (status_backend sv)),
                (''available_backends'', JArr (map JStr (available_names (sv_registry sv))))] rb_new
      in (rb_into_outcome (status_fields (s_state s) s b), sv, w))"

section \<open>backtrace and threads\<close>

definition nonempty_path :: "string option \<Rightarrow> bool" where
  "nonempty_path p = (case p of Some s \<Rightarrow> s \<noteq> [] | None \<Rightarrow> False)"

definition frame_entry :: "frame \<Rightarrow> json" where
  "frame_entry f =
     (let b = rb_sets [(''index'', json_int (fr_index f)), (''name'', JStr (fr_name f)),
                 (''id'', json_int (fr_id f))] rb_new;
          b = (case fr_source_path f of
                 Some path \<Rightarrow> (if path \<noteq> [] then
                    rb_sets [(''file'', JStr path), (''line'', json_int (fr_line f))] b else b)
               | None \<Rightarrow> b);
          b = (case fr_instruction_pointer f of
                 Some ip \<Rightarrow> rb_set_if (ip \<noteq> []) ''address'' (JStr ip) b
               | None \<Rightarrow> b)
      in rb_build b)"

definition positive_or :: "rat option \<Rightarrow> i64 \<Rightarrow> i64" where
  "positive_or v d = (case v of Some f \<Rightarrow> (if 0 < f then f64_as_i64 f else d) | None \<Rightarrow> d)"

definition handle_backtrace :: "('h, 'w) backend_ops \<Rightarrow> ('h, 'w) handler" where
  "handle_backtrace ops a sv w =
     (case check_state [Stopped] (sv_session sv) of
        Inl e \<Rightarrow> (Error e, sv, w)
      | Inr _ \<Rightarrow>
     (case resolve_thread_id a (sv_session sv) of
        Inl e \<Rightarrow> (Error e, sv, w)
      | Inr thread_id \<Rightarrow>
     (let levels = positive_or (get_f64 a ''levels'') 20
      in case sv_backend sv of
           None \<Rightarrow> (Error (oe_request_failed STACK_TRACE), sv, w)
         | Some backend \<Rightarrow>
     (case b_stack_trace ops backend thread_id 0 levels w of
        (Inl e, w) \<Rightarrow> (Error (op_render STACK_TRACE e), sv, w)
      | (Inr (frames, total_frames), w) \<Rightarrow>
          (resp [(''frames'', JArr (map frame_entry frames)), (''total_frames'', json_int total_frames),
             (''thread_id'', json_int thread_id)],
           on_session (set_frame_mapping (frames_mapping frames)) sv, w)))))"

definition thread_entry :: "i64 option \<Rightarrow> thread_info \<Rightarrow> json" where
  "thread_entry stopped th =
     (let b = rb_sets [(''id'', json_int (th_id th)), (''name'', JStr (th_name th))] rb_new
      in rb_build (if Some (th_id th) = stopped
                   then rb_sets [(''is_stopped'', JBool True), (''is_current'', JBool True)] b else b))"

definition handle_threads :: "('h, 'w) backend_ops \<Rightarrow> ('h, 'w) handler" where
  "handle_threads ops a sv w =
     (case check_state [Stopped] (sv_session sv) of
        Inl e \<Rightarrow> (Error e, sv, w)
      | Inr _ \<Rightarrow>
     (case sv_backend sv of
        None \<Rightarrow> (Error (oe_request_failed THREADS), sv, w)
      | Some backend \<Rightarrow>
     (case b_threads ops backend w of
        (Inl e, w) \<Rightarrow> (Error (op_render THREADS e), sv, w)
      | (Inr threads, w) \<Rightarrow>
          (let last_tid = map_option si_thread_id (s_last_stopped (sv_session sv));
               stopped = (if \<exists>th \<in> set threads. Some (th_id th) = last_tid then last_tid else None)
           in (rb_into_outcome (rb_set_opt ''stopped_thread_id'' (map_option json_int stopped)
                 (rb_sets [(''threads'', JArr (map (thread_entry last_tid) threads)),
                    (''count'', json_nat (length threads))] rb_new)), sv, w)))))"

section \<open>variables and evaluate\<close>

definition scope_matches :: "(string \<Rightarrow> string) \<Rightarrow> string \<Rightarrow> string \<Rightarrow> bool" where
  "scope_matches lower requested name =
     (let l = lower name
      in if requested = ''local'' then l = ''locals'' \<or> l = ''local''
         else if requested = ''global'' then l = ''globals'' \<or> l = ''global''
         else if requested = ''register'' then l = ''registers'' \<or> l = ''register''
         else False)"

definition VARIABLE_CAP :: nat where "VARIABLE_CAP = 100"

text \<open>\<open>serde_json::to_value\<close> of a flat variable, with its \<open>skip_serializing_if\<close> attributes.\<close>

definition flat_json :: "flat_variable \<Rightarrow> json" where
  "flat_json v =
     rb_build (rb_set_if (fv_children_count v \<noteq> 0) ''children_count'' (json_int (fv_children_count v))
       (rb_set_if (fv_has_children v) ''has_children'' (JBool True)
       (rb_set_if (fv_ty v \<noteq> []) ''type'' (JStr (fv_ty v))
       (rb_sets [(''name'', JStr (fv_name v)), (''value'', JStr (fv_value v))] rb_new))))"

definition frame_index_arg :: "args \<Rightarrow> i64" where
  "frame_index_arg a = (case get_f64 a ''frame_index'' of Some f \<Rightarrow> f64_as_i64 f | None \<Rightarrow> 0)"

definition scope_arg :: "args \<Rightarrow> string" where
  "scope_arg a = (let s = get_string a ''scope'' [] in if s = [] then ''local'' else s)"

definition depth_arg :: "args \<Rightarrow> i64" where
  "depth_arg a =
     (let depth = (if scope_arg a = ''global'' then 1 else 2)
      in case get_f64 a ''depth'' of Some d \<Rightarrow> (if 0 \<le> d then f64_as_i64 d else depth) | None \<Rightarrow> depth)"

definition handle_variables :: "host \<Rightarrow> ('h, 'w) backend_ops \<Rightarrow> ('h, 'w) handler" where
  "handle_variables ho ops a sv w =
     (case check_state [Stopped] (sv_session sv) of
        Inl e \<Rightarrow> (Error e, sv, w)
      | Inr _ \<Rightarrow>
     (let frame_index = frame_index_arg a; scope = scope_arg a
      in case sv_backend sv of
           None \<Rightarrow> (Error ''failed to resolve frame: connection closed'', sv, w)
         | Some backend \<Rightarrow>
     (case resolve_frame_id ops backend frame_index (sv_session sv) w of
        (Inl e, s, w) \<Rightarrow> (Error (''failed to resolve frame: '' @ e), sv\<lparr>sv_session := s\<rparr>, w)
      | (Inr frame_id, s, w) \<Rightarrow>
     (let sv = sv\<lparr>sv_session := s\<rparr>
      in case b_scopes ops backend frame_id w of
           (Inl e, w) \<Rightarrow> (Error (op_render SCOPES e), sv, w)
         | (Inr scopes, w) \<Rightarrow>
     (case find (\<lambda>sc. scope_matches (ho_lower ho) scope (sc_name sc)) scopes of
        None \<Rightarrow>
          (Error (''scope '' @ sq # scope @ sq # '' not found in frame '' @ show_int frame_index), sv, w)
      | Some target \<Rightarrow>
     (case flatten_variables (ho_lower ho) (b_variables ops backend) (sc_variables_reference target)
             (depth_arg a) VARIABLE_CAP (get_string a ''filter'' []) w of
        (Inl e, w) \<Rightarrow> (Error (''failed to fetch variables: '' @ op_render VARIABLES e), sv, w)
      | (Inr (vars, truncated), w) \<Rightarrow>
          (resp [(''variables'', JArr (map flat_json vars)), (''count'', json_nat (length vars)),
             (''scope'', JStr scope), (''truncated'', JBool truncated)], sv, w)))))))"

definition handle_evaluate :: "('h, 'w) backend_ops \<Rightarrow> ('h, 'w) handler" where
  "handle_evaluate ops a sv w =
     (case check_state [Stopped] (sv_session sv) of
        Inl e \<Rightarrow> (Error e, sv, w)
      | Inr _ \<Rightarrow>
     (case require_string a ''expression'' of
        Inl e \<Rightarrow> (Error e, sv, w)
      | Inr expression \<Rightarrow>
     (case sv_backend sv of
        None \<Rightarrow> (Error ''failed to resolve frame: connection closed'', sv, w)
      | Some backend \<Rightarrow>
     (case resolve_frame_id ops backend (frame_index_arg a) (sv_session sv) w of
        (Inl e, s, w) \<Rightarrow> (Error (''failed to resolve frame: '' @ e), sv\<lparr>sv_session := s\<rparr>, w)
      | (Inr frame_id, s, w) \<Rightarrow>
     (let sv = sv\<lparr>sv_session := s\<rparr>
      in case b_evaluate ops backend expression (Some frame_id) EvalExpression w of
           (Inl e, w) \<Rightarrow> (Error (op_render EVALUATE e), sv, w)
         | (Inr r, w) \<Rightarrow>
             (let b = rb_sets [(''result'', JStr (er_result r)), (''type'', JStr (er_ty r))] rb_new;
                  b = (if 0 < er_variables_reference r then
                         rb_sets [(''has_children'', JBool True),
                           (''variables_reference'', json_int (er_variables_reference r))] b
                       else b)
              in (rb_into_outcome b, sv, w)))))))"

definition handle_run_command :: "('h, 'w) backend_ops \<Rightarrow> ('h, 'w) handler" where
  "handle_run_command ops a sv w =
     (case check_state [Stopped] (sv_session sv) of
        Inl e \<Rightarrow> (Error e, sv, w)
      | Inr _ \<Rightarrow>
     (case require_string a ''command'' of
        Inl e \<Rightarrow> (Error e, sv, w)
      | Inr command \<Rightarrow>
     (case sv_backend sv of
        None \<Rightarrow> (Error (oe_request_failed RUN_COMMAND), sv, w)
      | Some backend \<Rightarrow>
     (case b_evaluate ops backend command None EvalRepl w of
        (Inl e, w) \<Rightarrow> (Error (op_render RUN_COMMAND e), sv, w)
      | (Inr r, w) \<Rightarrow>
          (resp [(''result'', JStr (er_result r)), (''type'', JStr (er_ty r))], sv, w)))))"

section \<open>read_memory and disassemble\<close>

definition DEFAULT_DISASSEMBLE_COUNT :: i64 where "DEFAULT_DISASSEMBLE_COUNT = 20"

definition normalize_hex :: "string \<Rightarrow> string" where
  "normalize_hex address =
     (if starts_with ''0x'' address \<or> starts_with ''0X'' address then address else ''0x'' @ address)"

definition hex_digits_of :: "string \<Rightarrow> string" where
  "hex_digits_of address =
     (case strip_prefix ''0x'' address of
        Some r \<Rightarrow> r
      | None \<Rightarrow> (case strip_prefix ''0X'' address of Some r \<Rightarrow> r | None \<Rightarrow> address))"

definition handle_read_memory :: "('h, 'w) backend_ops \<Rightarrow> ('h, 'w) handler" where
  "handle_read_memory ops a sv w =
     (case check_state [Stopped] (sv_session sv) of
        Inl e \<Rightarrow> (Error e, sv, w)
      | Inr _ \<Rightarrow>
     (case require_string a ''address'' of
        Inl e \<Rightarrow> (Error e, sv, w)
      | Inr address \<Rightarrow>
     (case require_positive_int a ''count'' of
        Inl e \<Rightarrow> (Error e, sv, w)
      | Inr count \<Rightarrow>
     (let address = normalize_hex address
      in case sv_backend sv of
           None \<Rightarrow> (Error (oe_request_failed READ_MEMORY), sv, w)
         | Some backend \<Rightarrow>
     (case b_read_memory ops backend address count w of
        (Inl e, w) \<Rightarrow> (Error (op_render READ_MEMORY e), sv, w)
      | (Inr r, w) \<Rightarrow>
          (if mr_data r = [] then
             (resp [(''address'', JStr (mr_address r)), (''bytes_read'', json_nat 0)], sv, w)
           else
             (case parse_uint 16 (2 ^ 64 - 1) (hex_digits_of address) of
                Inl e \<Rightarrow> (Error (''failed to parse address: '' @ int_error_text e), sv, w)
              | Inr start_addr \<Rightarrow>
                  (resp [(''address'', JStr (mr_address r)),
                     (''bytes_read'', json_nat (length (mr_data r))),
                     (''hex_dump'', JStr (format_hex_dump (mr_data r) (of_nat start_addr)))],
                   sv, w))))))))"

definition instruction_entry :: "string \<Rightarrow> instruction \<Rightarrow> json" where
  "instruction_entry current_pc inst =
     (let b = rb_sets [(''address'', JStr (in_address inst)),
                 (''instruction'', JStr (in_instruction inst))] rb_new;
          b = rb_set_if (in_bytes inst \<noteq> []) ''bytes'' (JStr (in_bytes inst)) b;
          b = rb_set_if (in_symbol inst \<noteq> []) ''symbol'' (JStr (in_symbol inst)) b;
          b = (case in_source_path inst of
                 Some path \<Rightarrow> (if path \<noteq> [] then
                    rb_sets [(''file'', JStr path), (''line'', json_int (in_line inst))] b else b)
               | None \<Rightarrow> b);
          b = rb_set_if (current_pc \<noteq> [] \<and> in_address inst = current_pc) ''is_current_pc'' (JBool True) b
      in rb_build b)"

text \<open>The address argument, or else the top frame's instruction pointer: \<open>(address, current_pc)\<close>.\<close>

definition disassemble_target ::
  "('h, 'w) backend_ops \<Rightarrow> 'h \<Rightarrow> string \<Rightarrow> session \<Rightarrow> 'w \<Rightarrow> (string + string \<times> string) \<times> 'w" where
  "disassemble_target ops backend address s w =
     (if address \<noteq> [] then (Inr (address, []), w)
      else case b_stack_trace ops backend (last_thread s) 0 1 w of
        (Inl e, w) \<Rightarrow> (Inl (op_render STACK_TRACE e), w)
      | (Inr (frames, _), w) \<Rightarrow>
          (case (case frames of [] \<Rightarrow> None | f # _ \<Rightarrow> nonempty (fr_instruction_pointer f)) of
             Some ip \<Rightarrow> (Inr (ip, ip), w)
           | None \<Rightarrow> (Inl ''no instruction pointer available for current frame'', w)))"

definition handle_disassemble :: "('h, 'w) backend_ops \<Rightarrow> ('h, 'w) handler" where
  "handle_disassemble ops a sv w =
     (case check_state [Stopped] (sv_session sv) of
        Inl e \<Rightarrow> (Error e, sv, w)
      | Inr _ \<Rightarrow>
     (let instruction_count = positive_or (get_f64 a ''instruction_count'') DEFAULT_DISASSEMBLE_COUNT
      in case sv_backend sv of
           None \<Rightarrow> (Error (oe_request_failed DISASSEMBLE), sv, w)
         | Some backend \<Rightarrow>
     (case disassemble_target ops backend (get_string a ''address'' []) (sv_session sv) w of
        (Inl e, w) \<Rightarrow> (Error e, sv, w)
      | (Inr (address, current_pc), w) \<Rightarrow>
     (let address = normalize_hex address;
          current_pc = (if current_pc = [] then [] else normalize_hex current_pc)
      in case b_disassemble ops backend address instruction_count w of
           (Inl e, w) \<Rightarrow> (Error (op_render DISASSEMBLE e), sv, w)
         | (Inr instructions, w) \<Rightarrow>
             (resp [(''instructions'', JArr (map (instruction_entry current_pc) instructions)),
                (''count'', json_nat (length instructions)), (''start_address'', JStr address)],
              sv, w)))))"

section \<open>analyze_crash and get_modules\<close>

definition unsupported_active :: "string \<Rightarrow> ('h, 'w) server \<Rightarrow> string" where
  "unsupported_active tool sv = unsupported tool (status_backend sv)"

definition handle_analyze_crash :: "('h, 'w) backend_ops \<Rightarrow> ('h, 'w) handler" where
  "handle_analyze_crash ops a sv w =
     (case check_state [Stopped] (sv_session sv) of
        Inl e \<Rightarrow> (Error e, sv, w)
      | Inr _ \<Rightarrow>
     (case sv_backend sv of
        None \<Rightarrow> (Error ''analyze_crash request failed: connection closed'', sv, w)
      | Some backend \<Rightarrow>
     (case b_analyze ops backend w of
        (Inr text, w) \<Rightarrow> (resp [(''analysis'', JStr text)], sv, w)
      | (Inl (Unsupported tool), w) \<Rightarrow> (Error (unsupported_active tool sv), sv, w)
      | (Inl e, w) \<Rightarrow> (Error (''analyze_crash request failed: '' @ error_text e), sv, w))))"

text \<open>\<open>serde_json::to_value\<close> of a module record (\<open>types.rs\<close>).\<close>

definition module_json :: "module_info \<Rightarrow> json" where
  "module_json m =
     rb_build (rb_sets [(''name'', JStr (mi_name m)), (''base'', JStr (mi_base m)),
       (''size'', JStr (mi_size m)), (''symbol_status'', JStr (mi_symbol_status m))] rb_new)"

definition handle_get_modules :: "('h, 'w) backend_ops \<Rightarrow> ('h, 'w) handler" where
  "handle_get_modules ops a sv w =
     (case check_state [Stopped] (sv_session sv) of
        Inl e \<Rightarrow> (Error e, sv, w)
      | Inr _ \<Rightarrow>
     (case sv_backend sv of
        None \<Rightarrow> (Error ''get_modules request failed: connection closed'', sv, w)
      | Some backend \<Rightarrow>
     (case b_modules ops backend w of
        (Inr modules, w) \<Rightarrow> (resp [(''modules'', JArr (map module_json modules))], sv, w)
      | (Inl (Unsupported tool), w) \<Rightarrow> (Error (unsupported_active tool sv), sv, w)
      | (Inl e, w) \<Rightarrow> (Error (''get_modules request failed: '' @ error_text e), sv, w))))"

section \<open>The contract\<close>

interpretation status_tool: reading_tool "handle_status" "[Idle, Configuring, Stopped, Running, Terminated]"
  by unfold_locales (auto simp: handle_status_def Let_def check_state_def split: tool_splits state.splits)

interpretation threads_tool: reading_tool "handle_threads ops" "[Stopped]"
  by unfold_locales (auto simp: handle_threads_def Let_def split: tool_splits)

interpretation backtrace_tool: reading_tool "handle_backtrace ops" "[Stopped]"
  by unfold_locales (auto simp: handle_backtrace_def Let_def set_frame_mapping_def on_session_def
     server_inv_def session_inv_def split: tool_splits)

interpretation run_command_tool: reading_tool "handle_run_command ops" "[Stopped]"
  by unfold_locales (auto simp: handle_run_command_def split: tool_splits)

interpretation analyze_tool: reading_tool "handle_analyze_crash ops" "[Stopped]"
  by unfold_locales (auto simp: handle_analyze_crash_def split: tool_splits)

interpretation modules_tool: reading_tool "handle_get_modules ops" "[Stopped]"
  by unfold_locales (auto simp: handle_get_modules_def split: tool_splits)

interpretation memory_tool: reading_tool "handle_read_memory ops" "[Stopped]"
  by unfold_locales (auto simp: handle_read_memory_def Let_def split: tool_splits)

interpretation disassemble_tool: reading_tool "handle_disassemble ops" "[Stopped]"
  by unfold_locales (auto simp: handle_disassemble_def Let_def split: tool_splits)

interpretation evaluate_tool: reading_tool "handle_evaluate ops" "[Stopped]"
  by unfold_locales (auto simp: handle_evaluate_def Let_def server_update_frame server_inv_frame split: tool_splits)

interpretation variables_tool: reading_tool "handle_variables ho ops" "[Stopped]"
  by unfold_locales (auto simp: handle_variables_def Let_def server_update_frame server_inv_frame split: tool_splits)

end
