(* ===== verification/Handlers_Breakpoints.thy ===== *)
theory Handlers_Breakpoints
  imports Tool_Contract
begin

text \<open>
  \<open>set_breakpoint\<close>, \<open>set_function_breakpoint\<close>, \<open>remove_breakpoint\<close> and \<open>list_breakpoints\<close>:
  \<open>mcp-tools/src/handlers/breakpoints.rs\<close>.
\<close>

definition pending_source_response :: "string \<Rightarrow> i64 \<Rightarrow> string \<Rightarrow> tool_outcome" where
  "pending_source_response file line cond =
     resp [(''status'', JStr ''pending''), (''file'', JStr file), (''line'', json_int line),
       (''condition'', JStr cond),
       (''message'', JStr ''Breakpoint will be set when program is launched'')]"

text \<open>The answered breakpoint the request is matched with: the first on the line, else the last.\<close>

definition match_breakpoint :: "i64 \<Rightarrow> breakpoint_result list \<Rightarrow> breakpoint_result option" where
  "match_breakpoint line results =
     (case find (\<lambda>bp. br_line bp = line) results of
        Some bp \<Rightarrow> Some bp
      | None \<Rightarrow> (if results = [] then None else Some (last results)))"

definition handle_set_breakpoint :: "('h, 'w) backend_ops \<Rightarrow> ('h, 'w) handler" where
  "handle_set_breakpoint ops a sv w =
     (case check_state [Idle, Stopped] (sv_session sv) of
        Inl e \<Rightarrow> (Error e, sv, w)
      | Inr _ \<Rightarrow>
     (case require_string a ''file'' of
        Inl e \<Rightarrow> (Error e, sv, w)
      | Inr file \<Rightarrow>
     (case require_positive_int a ''line'' of
        Inl e \<Rightarrow> (Error e, sv, w)
      | Inr line \<Rightarrow>
     (let cond = get_string a ''condition'' []
      in if s_state (sv_session sv) = Idle then
           (pending_source_response file line cond,
            on_session (add_pending_source_breakpoint file line cond) sv, w)
         else
     (case sv_backend sv of
        None \<Rightarrow> (Error (oe_request_failed SET_BREAKPOINTS), sv, w)
      | Some backend \<Rightarrow>
     (let bps = source_breakpoints_for_file file (sv_session sv) @
                [\<lparr>sb_line = line, sb_condition = cond\<rparr>]
      in case b_set_source_breakpoints ops backend file bps w of
           (Inl e, w) \<Rightarrow> (Error (op_render SET_BREAKPOINTS e), sv, w)
         | (Inr results, w) \<Rightarrow>
             (case match_breakpoint line results of
                None \<Rightarrow> (Error ''setBreakpoints response contained no breakpoints'', sv, w)
              | Some m \<Rightarrow>
                  (let s = snd (add_source_breakpoint file line cond (sv_session sv));
                       s = add_breakpoint_response
                             \<lparr>bi_id = br_id m, bi_ty = ''source'', bi_file = file,
                              bi_line = br_line m, bi_function = [], bi_condition = cond,
                              bi_verified = br_verified m\<rparr> s
                   in (rb_into_outcome
                         (rb_set_if (br_message m \<noteq> []) ''message'' (JStr (br_message m))
                           (rb_sets [(''breakpoint_id'', json_int (br_id m)),
                              (''verified'', JBool (br_verified m)), (''file'', JStr file),
                              (''line'', json_int (br_line m))] rb_new)),
                       sv\<lparr>sv_session := s\<rparr>, w)))))))))"

definition handle_set_function_breakpoint :: "('h, 'w) backend_ops \<Rightarrow> ('h, 'w) handler" where
  "handle_set_function_breakpoint ops a sv w =
     (case check_state [Idle, Stopped] (sv_session sv) of
        Inl e \<Rightarrow> (Error e, sv, w)
      | Inr _ \<Rightarrow>
     (case require_string a ''name'' of
        Inl e \<Rightarrow> (Error e, sv, w)
      | Inr name \<Rightarrow>
     (let cond = get_string a ''condition'' []
      in if s_state (sv_session sv) = Idle then
           (resp [(''status'', JStr ''pending''), (''function'', JStr name),
              (''condition'', JStr cond),
              (''message'', JStr ''Function breakpoint will be set when program is launched'')],
            on_session (add_pending_function_breakpoint name cond) sv, w)
         else
     (case sv_backend sv of
        None \<Rightarrow> (Error (oe_request_failed SET_FUNCTION_BREAKPOINTS), sv, w)
      | Some backend \<Rightarrow>
     (let bps = s_function_bps (sv_session sv) @ [\<lparr>fb_name = name, fb_condition = cond\<rparr>]
      in case b_set_function_breakpoints ops backend bps w of
           (Inl e, w) \<Rightarrow> (Error (op_render SET_FUNCTION_BREAKPOINTS e), sv, w)
         | (Inr results, w) \<Rightarrow>
             (if results \<noteq> [] \<and> br_rejected (last results) then
                (Error (br_message (last results)), sv, w)
              else
                (let s = snd (add_function_breakpoint name cond (sv_session sv));
                     (i, verified, message, s) =
                       (if results = [] then (0, False, [], s)
                        else let bp = last results
                             in (br_id bp, br_verified bp, br_message bp,
                                 add_breakpoint_response
                                   \<lparr>bi_id = br_id bp, bi_ty = ''function'', bi_file = [],
                                    bi_line = 0, bi_function = name, bi_condition = cond,
                                    bi_verified = br_verified bp\<rparr> s));
                     message =
                       (if message = [] then
                          (if verified then ''Breakpoint set on function '' @ sq # name @ [sq]
                           else ''Breakpoint on function '' @ sq # name @ sq # '' pending verification'')
                        else message)
                 in (resp [(''breakpoint_id'', json_int i), (''verified'', JBool verified),
                       (''function'', JStr name), (''message'', JStr message)],
                     sv\<lparr>sv_session := s\<rparr>, w))))))))"

definition remove_send_error :: "bool \<Rightarrow> string" where
  "remove_send_error was_function =
     (if was_function then oe_request_failed SET_FUNCTION_BREAKPOINTS
      else oe_request_failed SET_BREAKPOINTS)"

definition remaining_source_breakpoints :: "source_bp list \<Rightarrow> breakpoint_info \<Rightarrow> source_bp list" where
  "remaining_source_breakpoints current info =
     remove_position (\<lambda>bp. sb_line bp = bi_line info) current"

definition remaining_function_breakpoints ::
  "function_bp list \<Rightarrow> breakpoint_info \<Rightarrow> function_bp list" where
  "remaining_function_breakpoints current info =
     remove_position (\<lambda>bp. fb_name bp = bi_function info) current"

text \<open>Resend the list that remains; the answer is looked at only for an error.\<close>

definition send_remaining ::
  "('h, 'w) backend_ops \<Rightarrow> 'h \<Rightarrow> breakpoint_info \<Rightarrow> session \<Rightarrow> 'w \<Rightarrow> string option \<times> 'w" where
  "send_remaining ops backend info s w =
     (if bi_ty info = ''function'' then
        (case b_set_function_breakpoints ops backend
                (remaining_function_breakpoints (s_function_bps s) info) w of
           (Inl e, w) \<Rightarrow> (Some (op_render SET_FUNCTION_BREAKPOINTS e), w)
         | (Inr _, w) \<Rightarrow> (None, w))
      else
        (case b_set_source_breakpoints ops backend (bi_file info)
                (remaining_source_breakpoints (source_breakpoints_for_file (bi_file info) s) info) w of
           (Inl e, w) \<Rightarrow> (Some (op_render SET_BREAKPOINTS e), w)
         | (Inr _, w) \<Rightarrow> (None, w)))"

definition handle_remove_breakpoint :: "('h, 'w) backend_ops \<Rightarrow> ('h, 'w) handler" where
  "handle_remove_breakpoint ops a sv w =
     (case check_state [Stopped] (sv_session sv) of
        Inl e \<Rightarrow> (Error e, sv, w)
      | Inr _ \<Rightarrow>
     (case require_int a ''breakpoint_id'' of
        Inl e \<Rightarrow> (Error e, sv, w)
      | Inr i \<Rightarrow>
     (case breakpoint_info_of i (sv_session sv) of
        None \<Rightarrow>
          (Error (''failed to remove breakpoint: breakpoint ID '' @ show_int i @ '' not found''), sv, w)
      | Some info \<Rightarrow>
     (case sv_backend sv of
        None \<Rightarrow> (Error (remove_send_error (bi_ty info = ''function'')), sv, w)
      | Some backend \<Rightarrow>
     (case send_remaining ops backend info (sv_session sv) w of
        (Some e, w) \<Rightarrow> (Error e, sv, w)
      | (None, w) \<Rightarrow>
     (case remove_breakpoint_by_id i (sv_session sv) of
        (Inl e, s) \<Rightarrow> (Error (''failed to remove breakpoint: '' @ e), sv\<lparr>sv_session := s\<rparr>, w)
      | (Inr _, s) \<Rightarrow>
          (resp [(''removed'', JBool True), (''breakpoint_id'', json_int i)],
           sv\<lparr>sv_session := s\<rparr>, w)))))))"

definition breakpoint_entry :: "breakpoint_info \<Rightarrow> json" where
  "breakpoint_entry bp =
     rb_build (rb_set_if (bi_condition bp \<noteq> []) ''condition'' (JStr (bi_condition bp))
       (rb_set_if (bi_function bp \<noteq> []) ''function'' (JStr (bi_function bp))
       (rb_set_if (0 < bi_line bp) ''line'' (json_int (bi_line bp))
       (rb_set_if (bi_file bp \<noteq> []) ''file'' (JStr (bi_file bp))
       (rb_sets [(''id'', json_int (bi_id bp)), (''type'', JStr (bi_ty bp)),
          (''verified'', JBool (bi_verified bp))] rb_new)))))"

definition handle_list_breakpoints :: "('h, 'w) handler" where
  "handle_list_breakpoints a sv w =
     (let items = map breakpoint_entry (list_breakpoints (sv_session sv))
      in (resp [(''breakpoints'', JArr items), (''count'', json_nat (length items))], sv, w))"

section \<open>The contract\<close>

interpretation set_breakpoint_tool: guarded_tool "handle_set_breakpoint ops" "[Idle, Stopped]"
  by unfold_locales
    (auto simp: handle_set_breakpoint_def Let_def intro!: inv_intros server_inv_update split: tool_splits)

interpretation set_function_breakpoint_tool: guarded_tool "handle_set_function_breakpoint ops" "[Idle, Stopped]"
  by unfold_locales
    (auto simp: handle_set_function_breakpoint_def Let_def intro!: inv_intros server_inv_update split: tool_splits)

lemma remove_invD: "remove_breakpoint_by_id i s = (r, s') \<Longrightarrow> session_inv s \<Longrightarrow> session_inv s'"
  using remove_breakpoint_by_id_inv [of s i] by simp

interpretation remove_breakpoint_tool: guarded_tool "handle_remove_breakpoint ops" "[Stopped]"
  by unfold_locales
    (auto simp: handle_remove_breakpoint_def Let_def intro!: server_inv_update elim: remove_invD split: tool_splits)

interpretation list_tool: reading_tool "handle_list_breakpoints" "[Idle, Configuring, Stopped, Running, Terminated]"
  by unfold_locales (auto simp: handle_list_breakpoints_def Let_def check_state_def split: tool_splits state.splits)

end
