(* ===== verification/Dispatch.thy ===== *)
theory Dispatch
  imports Handlers_Inspection Handlers_Breakpoints
begin

text \<open>
  The tool dispatch, \<open>mcp-tools/src/server.rs\<close>, the tools advertised (\<open>schema.rs\<close>, names only), and
  the contract every handler keeps: its state guard, and the server's invariant.
\<close>

definition dispatch ::
  "host \<Rightarrow> ('h, 'w) backend_ops \<Rightarrow> 'w cancel \<Rightarrow> string \<Rightarrow> ('h, 'w) handler" where
  "dispatch ho ops ct name =
     (if name = ''launch'' then handle_launch ho ops ct
      else if name = ''attach'' then handle_attach ho ops ct
      else if name = ''disconnect'' then handle_disconnect ops
      else if name = ''set_breakpoint'' then handle_set_breakpoint ops
      else if name = ''set_function_breakpoint'' then handle_set_function_breakpoint ops
      else if name = ''remove_breakpoint'' then handle_remove_breakpoint ops
      else if name = ''list_breakpoints'' then handle_list_breakpoints
      else if name = ''continue'' then handle_continue ops ct
      else if name = ''step_over'' then handle_step_over ops ct
      else if name = ''step_into'' then handle_step_into ops ct
      else if name = ''step_out'' then handle_step_out ops ct
      else if name = ''pause'' then handle_pause ops
      else if name = ''status'' then handle_status
      else if name = ''backtrace'' then handle_backtrace ops
      else if name = ''threads'' then handle_threads ops
      else if name = ''variables'' then handle_variables ho ops
      else if name = ''evaluate'' then handle_evaluate ops
      else if name = ''read_output'' then handle_read_output
      else if name = ''read_memory'' then handle_read_memory ops
      else if name = ''disassemble'' then handle_disassemble ops
      else if name = ''run_command'' then handle_run_command ops
      else if name = ''open_crash_dump'' then handle_open_crash_dump ho ops ct
      else if name = ''attach_kernel'' then handle_attach_kernel ho ops ct
      else if name = ''analyze_crash'' then handle_analyze_crash ops
      else if name = ''get_modules'' then handle_get_modules ops
      else (\<lambda>a sv w. (Error (''unknown tool: '' @ name), sv, w)))"

record call_result =
  cr_text :: string
  cr_is_error :: bool

text \<open>\<open>serde_json::to_string\<close> is the parameter \<open>to_string\<close>.\<close>

fun outcome_to_result :: "(json \<Rightarrow> string) \<Rightarrow> tool_outcome \<Rightarrow> call_result" where
  "outcome_to_result to_string (Json v) = \<lparr>cr_text = to_string v, cr_is_error = False\<rparr>"
| "outcome_to_result to_string (Text t) = \<lparr>cr_text = t, cr_is_error = False\<rparr>"
| "outcome_to_result to_string (Error m) = \<lparr>cr_text = m, cr_is_error = True\<rparr>"

definition call_tool ::
  "(json \<Rightarrow> string) \<Rightarrow> host \<Rightarrow> ('h, 'w) backend_ops \<Rightarrow> 'w cancel \<Rightarrow> string \<Rightarrow> args option \<Rightarrow>
   ('h, 'w) server \<Rightarrow> 'w \<Rightarrow> call_result \<times> ('h, 'w) server \<times> 'w" where
  "call_tool to_string ho ops ct name arguments sv w =
     (let a = (case arguments of Some m \<Rightarrow> m | None \<Rightarrow> []);
          (out, sv, w) = dispatch ho ops ct name a sv w
      in (outcome_to_result to_string out, sv, w))"

section \<open>The state guard of each tool\<close>

text \<open>\<open>None\<close>: the tool has no guard.\<close>

definition guard_states :: "string \<Rightarrow> state list option" where
  "guard_states name =
     (if name \<in> {''launch'', ''attach'', ''open_crash_dump'', ''attach_kernel''} then Some [Idle]
      else if name \<in> {''disconnect'', ''read_output''} then
        Some [Configuring, Stopped, Running, Terminated]
      else if name \<in> {''set_breakpoint'', ''set_function_breakpoint''} then Some [Idle, Stopped]
      else if name = ''pause'' then Some [Running]
      else if name \<in> {''remove_breakpoint'', ''continue'', ''step_over'', ''step_into'', ''step_out'',
                ''backtrace'', ''threads'', ''variables'', ''evaluate'', ''read_memory'',
                ''disassemble'', ''run_command'', ''analyze_crash'', ''get_modules''} then Some [Stopped]
      else None)"

definition allowed_states :: "string \<Rightarrow> state list" where
  "allowed_states name =
     (case guard_states name of
        Some l \<Rightarrow> l
      | None \<Rightarrow> [Idle, Configuring, Stopped, Running, Terminated])"

lemmas tool_axioms =
  launch_tool.guarded_tool_axioms attach_tool.guarded_tool_axioms
  open_crash_dump_tool.guarded_tool_axioms attach_kernel_tool.guarded_tool_axioms
  disconnect_tool.guarded_tool_axioms output_tool.guarded_tool_axioms
  set_breakpoint_tool.guarded_tool_axioms set_function_breakpoint_tool.guarded_tool_axioms
  remove_breakpoint_tool.guarded_tool_axioms list_tool.guarded_tool_axioms
  continue_tool.guarded_tool_axioms step_over_tool.guarded_tool_axioms
  step_into_tool.guarded_tool_axioms step_out_tool.guarded_tool_axioms
  pause_tool.guarded_tool_axioms status_tool.guarded_tool_axioms
  threads_tool.guarded_tool_axioms backtrace_tool.guarded_tool_axioms
  run_command_tool.guarded_tool_axioms analyze_tool.guarded_tool_axioms
  modules_tool.guarded_tool_axioms memory_tool.guarded_tool_axioms
  disassemble_tool.guarded_tool_axioms evaluate_tool.guarded_tool_axioms
  variables_tool.guarded_tool_axioms

lemma unknown_tool:
  "guarded_tool (\<lambda>a sv w. (Error m, sv, w)) [Idle, Configuring, Stopped, Running, Terminated]"
  by unfold_locales (auto simp: check_state_def split: if_splits state.splits)

lemma dispatch_guarded: "guarded_tool (dispatch ho ops ct name) (allowed_states name)"
  unfolding dispatch_def
  by (auto simp: allowed_states_def guard_states_def unknown_tool intro!: tool_axioms)

interpretation dispatched: guarded_tool "dispatch ho ops ct name" "allowed_states name"
  by (rule dispatch_guarded)

end
