(* ===== verification/Schema.thy ===== *)
theory Schema
  imports Dispatch
begin

text \<open>
  The advertised tools, \<open>mcp-tools/src/schema.rs\<close>: names, descriptions and input schemas, and the
  list a registry's capabilities give.
\<close>

record prop_schema =
  ps_name :: string
  ps_schema :: json
  ps_required :: bool

record tool =
  tl_name :: string
  tl_description :: string
  tl_schema :: json

definition string_prop :: "string \<Rightarrow> string \<Rightarrow> bool \<Rightarrow> prop_schema" where
  "string_prop name description required =
     \<lparr>ps_name = name,
      ps_schema = JObj [(''description'', JStr description), (''type'', JStr ''string'')],
      ps_required = required\<rparr>"

definition string_enum_prop :: "string \<Rightarrow> string \<Rightarrow> string list \<Rightarrow> bool \<Rightarrow> prop_schema" where
  "string_enum_prop name description enum_values required =
     \<lparr>ps_name = name,
      ps_schema = JObj [(''description'', JStr description),
        (''enum'', JArr (map JStr enum_values)), (''type'', JStr ''string'')],
      ps_required = required\<rparr>"

definition number_prop :: "string \<Rightarrow> string \<Rightarrow> bool \<Rightarrow> prop_schema" where
  "number_prop name description required =
     \<lparr>ps_name = name,
      ps_schema = JObj [(''description'', JStr description), (''type'', JStr ''number'')],
      ps_required = required\<rparr>"

definition boolean_prop :: "string \<Rightarrow> string \<Rightarrow> prop_schema" where
  "boolean_prop name description =
     \<lparr>ps_name = name,
      ps_schema = JObj [(''description'', JStr description), (''type'', JStr ''boolean'')],
      ps_required = False\<rparr>"

definition backend_prop :: prop_schema where
  "backend_prop =
     string_enum_prop ''backend''
       ''Which debugger backend to use; defaults per-OS (windbg on Windows, lldb on macOS/Linux)''
       [''lldb'', ''windbg''] False"

definition object_schema :: "prop_schema list \<Rightarrow> json" where
  "object_schema props =
     (let properties = fold (\<lambda>p m. obj_insert (ps_name p) (ps_schema p) m) props [];
          required = map (\<lambda>p. JStr (ps_name p)) (filter ps_required props);
          schema = obj_insert ''type'' (JStr ''object'') [];
          schema = obj_insert ''properties'' (JObj properties) schema
      in JObj (if required \<noteq> [] then obj_insert ''required'' (JArr required) schema else schema))"

definition mk_tool :: "string \<Rightarrow> string \<Rightarrow> prop_schema list \<Rightarrow> tool" where
  "mk_tool name description props =
     \<lparr>tl_name = name, tl_description = description, tl_schema = object_schema props\<rparr>"

definition base_tools :: "tool list" where
  "base_tools =
    [mk_tool ''launch'' ''Launch a program under the debugger''
       [string_prop ''program'' ''Path to the executable to debug'' True,
        string_prop ''args'' ''JSON array of command-line arguments'' False,
        string_prop ''cwd'' ''Working directory for the launched program'' False,
        string_prop ''env'' ''JSON object of environment variables'' False,
        boolean_prop ''stop_on_entry'' ''Stop at program entry point (default true)'',
        backend_prop],
     mk_tool ''attach'' ''Attach the debugger to a running process''
       [number_prop ''pid'' ''Process ID to attach to'' False,
        string_prop ''wait_for'' ''Process name to wait for'' False,
        backend_prop],
     mk_tool ''disconnect'' ''Disconnect from the debug session''
       [boolean_prop ''terminate'' ''Terminate the debuggee (default true)''],
     mk_tool ''set_breakpoint'' ''Set a source-line breakpoint''
       [string_prop ''file'' ''Source file path'' True,
        number_prop ''line'' ''Line number'' True,
        string_prop ''condition'' ''Conditional expression for the breakpoint'' False],
     mk_tool ''set_function_breakpoint'' ''Set a breakpoint on a function by name''
       [string_prop ''name'' ''Function name'' True,
        string_prop ''condition'' ''Conditional expression for the breakpoint'' False],
     mk_tool ''remove_breakpoint'' ''Remove a breakpoint by ID''
       [number_prop ''breakpoint_id'' ''Breakpoint ID to remove'' True],
     mk_tool ''list_breakpoints'' ''List all current breakpoints'' [],
     mk_tool ''continue'' ''Continue execution of the paused program''
       [number_prop ''thread_id'' ''Thread ID to continue (optional)'' False],
     mk_tool ''step_over'' ''Step over the current line or instruction''
       [number_prop ''thread_id'' ''Thread ID to step (optional)'' False,
        string_enum_prop ''granularity'' ''Step granularity'' [''line'', ''instruction''] False],
     mk_tool ''step_into'' ''Step into the current line or instruction''
       [number_prop ''thread_id'' ''Thread ID to step (optional)'' False,
        string_enum_prop ''granularity'' ''Step granularity'' [''line'', ''instruction''] False],
     mk_tool ''step_out'' ''Step out of the current function''
       [number_prop ''thread_id'' ''Thread ID to step out (optional)'' False],
     mk_tool ''pause'' ''Pause all threads in the running program'' [],
     mk_tool ''status'' ''Get the current debug session status'' [],
     mk_tool ''backtrace'' ''Get the call stack for a thread''
       [number_prop ''thread_id'' ''Thread ID (uses stopped thread if omitted)'' False,
        number_prop ''levels'' ''Maximum number of stack frames to return'' False],
     mk_tool ''threads'' ''List all threads in the debugged process'' [],
     mk_tool ''variables'' ''List variables in the current scope''
       [number_prop ''frame_index'' ''Stack frame index (default 0)'' False,
        string_enum_prop ''scope'' ''Variable scope'' [''local'', ''global'', ''register''] False,
        number_prop ''depth'' ''Maximum depth for nested structures'' False,
        string_prop ''filter'' ''Filter variables by name pattern'' False],
     mk_tool ''evaluate'' ''Evaluate an expression in the debugger''
       [string_prop ''expression'' ''Expression to evaluate'' True,
        number_prop ''frame_index'' ''Stack frame index for evaluation context'' False],
     mk_tool ''read_output'' ''Read captured program output (stdout, stderr, console)'' [],
     mk_tool ''read_memory'' ''Read raw memory at a given address''
       [string_prop ''address'' ''Memory address (hex string, e.g. 0x1000)'' True,
        number_prop ''count'' ''Number of bytes to read'' True],
     mk_tool ''disassemble'' ''Disassemble instructions at an address or the current PC''
       [string_prop ''address'' ''Start address (hex string, uses current PC if omitted)'' False,
        number_prop ''instruction_count'' ''Number of instructions to disassemble'' False],
     mk_tool ''run_command'' ''Run an LLDB command directly via the debug console''
       [string_prop ''command'' ''LLDB command string to execute'' True]]"

definition open_crash_dump_tool :: tool where
  "open_crash_dump_tool =
     mk_tool ''open_crash_dump'' ''Open a crash/minidump for postmortem analysis''
       [string_prop ''dump_path'' ''Path to the crash/minidump file'' True,
        backend_prop]"

definition attach_kernel_tool :: tool where
  "attach_kernel_tool =
     mk_tool ''attach_kernel'' ''Attach to a kernel target over KDNET''
       [string_prop ''connection'' ''Kernel connection string, e.g. net:port=...,key=...'' True,
        backend_prop]"

definition analyze_crash_tool :: tool where
  "analyze_crash_tool =
     mk_tool ''analyze_crash'' ''Run automated crash analysis (!analyze -v)'' []"

definition get_modules_tool :: tool where
  "get_modules_tool =
     mk_tool ''get_modules'' ''List loaded modules with base/size/symbol status'' []"

definition all_tools :: "capabilities \<Rightarrow> tool list" where
  "all_tools caps =
     base_tools
     @ (if cap_crash_dump caps then [open_crash_dump_tool] else [])
     @ (if cap_kernel caps then [attach_kernel_tool] else [])
     @ (if cap_analyze caps then [analyze_crash_tool] else [])
     @ (if cap_modules caps then [get_modules_tool] else [])"

definition server_tools :: "('h, 'w) server \<Rightarrow> tool list" where
  "server_tools sv = all_tools (reg_capabilities (sv_registry sv))"

definition get_tool :: "('h, 'w) server \<Rightarrow> string \<Rightarrow> tool option" where
  "get_tool sv name = find (\<lambda>t. tl_name t = name) (server_tools sv)"

section \<open>Advertised and dispatched tools\<close>

definition base_tool_names :: "string list" where
  "base_tool_names = map tl_name base_tools"

lemma base_tool_names_eq:
  "base_tool_names =
    [''launch'', ''attach'', ''disconnect'', ''set_breakpoint'', ''set_function_breakpoint'',
     ''remove_breakpoint'', ''list_breakpoints'', ''continue'', ''step_over'', ''step_into'',
     ''step_out'', ''pause'', ''status'', ''backtrace'', ''threads'', ''variables'', ''evaluate'',
     ''read_output'', ''read_memory'', ''disassemble'', ''run_command'']"
  by (simp add: base_tool_names_def base_tools_def mk_tool_def)

lemma gated_tool_names:
  "tl_name open_crash_dump_tool = ''open_crash_dump''" "tl_name attach_kernel_tool = ''attach_kernel''"
  "tl_name analyze_crash_tool = ''analyze_crash''" "tl_name get_modules_tool = ''get_modules''"
  by (simp_all add: open_crash_dump_tool_def attach_kernel_tool_def analyze_crash_tool_def
      get_modules_tool_def mk_tool_def)

lemma all_tool_names:
  "map tl_name (all_tools caps) = base_tool_names
     @ (if cap_crash_dump caps then [''open_crash_dump''] else [])
     @ (if cap_kernel caps then [''attach_kernel''] else [])
     @ (if cap_analyze caps then [''analyze_crash''] else [])
     @ (if cap_modules caps then [''get_modules''] else [])"
  by (simp add: all_tools_def base_tool_names_def gated_tool_names)

lemma distinct_tool_names: "distinct (map tl_name (all_tools caps))"
  by (simp add: all_tool_names base_tool_names_eq)

end
