(* ===== verification/Examples.thy ===== *)
theory Examples
  imports Server
begin

text \<open>
  A small debugger for concrete runs.  Its world says whether the debugger is gone: while it is
  there it stops at once, answers every request and places every breakpoint where it was asked
  to; once it is disconnected every request fails.
\<close>

definition demo_stop :: stop_info where
  "demo_stop = \<lparr>si_reason = ''breakpoint'', si_thread_id = 7, si_description = [],
     si_hit_breakpoint_ids = [1]\<rparr>"

definition demo_answer :: "'a \<Rightarrow> (bool, 'a) call" where
  "demo_answer x gone = ((if gone then Inl (Send ''broken pipe'') else Inr x), gone)"

definition demo_frame :: frame where
  "demo_frame = \<lparr>fr_index = 0, fr_id = 1000, fr_name = ''main'', fr_source_path = Some ''main.c'',
     fr_line = 3, fr_instruction_pointer = Some ''0x401000''\<rparr>"

definition demo_place :: "int \<Rightarrow> i64 \<Rightarrow> breakpoint_result" where
  "demo_place i line = \<lparr>br_id = i, br_verified = True, br_line = line, br_message = [], br_rejected = False\<rparr>"

definition demo_variables :: "i64 \<Rightarrow> variable list" where
  "demo_variables r =
     (if r = 1 then
        [\<lparr>va_name = ''x'', va_value = ''1'', va_ty = ''int'', va_variables_reference = 0,
          va_named = 0, va_indexed = 0\<rparr>,
         \<lparr>va_name = ''node'', va_value = [], va_ty = ''Node'', va_variables_reference = 1,
          va_named = 2, va_indexed = 0\<rparr>]
      else [])"

definition demo_ops :: "(unit, bool) backend_ops" where
  "demo_ops =
     \<lparr>b_launch = (\<lambda>h spec. demo_answer (LO_Stopped demo_stop)),
      b_attach = (\<lambda>h spec. demo_answer (AO_Stopped demo_stop)),
      b_disconnect = (\<lambda>h terminate w. True),
      b_set_source_breakpoints =
        (\<lambda>h file bps. demo_answer (map (\<lambda>(i, b). demo_place (int i) (sb_line b)) (enumerate 1 bps))),
      b_set_function_breakpoints =
        (\<lambda>h bps. demo_answer (map (\<lambda>(i, b). demo_place (int i) 0) (enumerate 101 bps))),
      b_cont = (\<lambda>h t. demo_answer (SO_Stopped demo_stop)),
      b_step = (\<lambda>h k t g. demo_answer (SO_Stopped demo_stop)),
      b_pause = (\<lambda>h. demo_answer ()),
      b_threads = (\<lambda>h. demo_answer [\<lparr>th_id = 7, th_name = ''main''\<rparr>]),
      b_stack_trace = (\<lambda>h t s l. demo_answer ([demo_frame], 1)),
      b_scopes = (\<lambda>h f. demo_answer [\<lparr>sc_name = ''Locals'', sc_variables_reference = 1\<rparr>]),
      b_variables = (\<lambda>h r. demo_answer (demo_variables r)),
      b_evaluate = (\<lambda>h e f m. demo_answer \<lparr>er_result = ''1'', er_ty = ''int'', er_variables_reference = 0\<rparr>),
      b_read_memory = (\<lambda>h a n. demo_answer \<lparr>mr_address = a, mr_data = [1, 2]\<rparr>),
      b_disassemble = (\<lambda>h a n. demo_answer []),
      b_supports_command_repl_mode = (\<lambda>h. True),
      b_debugger_pid = (\<lambda>h w. Some 42),
      b_open_dump = default_open_dump,
      b_attach_kernel = default_attach_kernel,
      b_analyze = default_analyze,
      b_modules = default_modules\<rparr>"

definition demo_factory :: "(unit, bool) factory" where
  "demo_factory = \<lparr>fac_name = ''lldb'', fac_capabilities = bot, fac_connect = (\<lambda>w. (Inr (), False))\<rparr>"

definition demo_registry :: "(unit, bool) registry" where
  "demo_registry = register demo_factory (registry_new ''lldb'')"

definition demo_host :: host where
  "demo_host =
     \<lparr>ho_serde = \<lparr>sd_string_array = (\<lambda>s. Inr []), sd_object = (\<lambda>s. Inr [])\<rparr>,
      ho_debug_backend = None, ho_lower = (\<lambda>s. s)\<rparr>"

definition demo_server :: "(unit, bool) server" where
  "demo_server = server_new session_new demo_registry"

text \<open>A session stopped with a debugger connected.\<close>

definition demo_stopped :: "(unit, bool) server" where
  "demo_stopped =
     spawn_pump () (set_backend () ''lldb''
       (on_session (\<lambda>s. set_last_stopped demo_stop (set_state Stopped s)) demo_server))"

lemmas demo_defs =
  demo_stopped_def demo_server_def demo_host_def demo_registry_def demo_factory_def demo_ops_def
  demo_answer_def demo_stop_def demo_frame_def demo_place_def demo_variables_def

lemma demo_registry_inv: "registry_inv demo_registry"
  by (simp add: demo_registry_def register_inv registry_new_inv)

lemma demo_server_inv: "server_inv demo_server" "server_inv demo_stopped"
  by (simp_all add: demo_server_def demo_stopped_def demo_registry_inv inv_intros)

end
