(* ===== verification/Server_Steps.thy ===== *)
theory Server_Steps
  imports Schema Examples
begin

text \<open>
  Runs of the server.  \<open>seq_step\<close> interleaves whole tool calls with the events the pumps deliver.
  \<open>conc_step\<close> also lets a \<open>continue\<close> or \<open>step\<close> stay blocked in the backend while other calls run
  and pumps deliver: the call is entered by \<open>resume_begin\<close>, and \<open>resume_finish\<close> (an answer, an
  error or a cancellation) is a later step.

  A configuration counts the steps taken, because the generation is a 64-bit counter.
\<close>

section \<open>Sequential runs\<close>

record ('h, 'w) config =
  cf_server :: "('h, 'w) server"
  cf_world :: 'w
  cf_steps :: nat

datatype event =
    Call string args
  | Pump nat backend_event
  | Begin string args
  | Finish nat
  | Cancel nat

definition pump_server :: "nat \<Rightarrow> backend_event \<Rightarrow> ('h, 'w) server \<Rightarrow> ('h, 'w) server" where
  "pump_server i e sv = on_session (pump_event (snd (sv_pumps sv ! i)) e) sv"

inductive seq_step ::
  "host \<Rightarrow> ('h, 'w) backend_ops \<Rightarrow> ('h, 'w) config \<Rightarrow> event \<Rightarrow> ('h, 'w) config \<Rightarrow> bool"
  for ho ops where
  seq_call:
    "dispatch ho ops ct name a (cf_server c) (cf_world c) = (out, sv', w') \<Longrightarrow>
     seq_step ho ops c (Call name a) \<lparr>cf_server = sv', cf_world = w', cf_steps = Suc (cf_steps c)\<rparr>"
| seq_pump:
    "i < length (sv_pumps (cf_server c)) \<Longrightarrow>
     seq_step ho ops c (Pump i e)
       \<lparr>cf_server = pump_server i e (cf_server c), cf_world = w', cf_steps = Suc (cf_steps c)\<rparr>"

inductive_cases seq_callE: "seq_step ho ops c (Call name a) c'"

inductive_cases seq_pumpE: "seq_step ho ops c (Pump i e) c'"

definition initial :: "('h, 'w) config \<Rightarrow> bool" where
  "initial c \<longleftrightarrow> (\<exists>reg. registry_inv reg \<and> cf_server c = server_new session_new reg) \<and> cf_steps c = 0"

text \<open>
  Between calls: idle exactly when no backend is connected, never configuring, and a pump that
  still carries the current generation drains the connected backend.
\<close>

definition gens_ok :: "nat \<Rightarrow> ('h, 'w) server \<Rightarrow> bool" where
  "gens_ok n sv \<longleftrightarrow>
     unat (s_generation (sv_session sv)) \<le> n \<and>
     (\<forall>(h, g) \<in> set (sv_pumps sv). unat g \<le> unat (s_generation (sv_session sv)))"

definition lifecycle :: "nat \<Rightarrow> ('h, 'w) server \<Rightarrow> bool" where
  "lifecycle n sv \<longleftrightarrow>
     gens_ok n sv \<and>
     (s_state (sv_session sv) = Idle \<longleftrightarrow> sv_backend sv = None) \<and>
     s_state (sv_session sv) \<noteq> Configuring \<and>
     (\<forall>(h, g) \<in> set (sv_pumps sv). g = s_generation (sv_session sv) \<longrightarrow> sv_backend sv = Some h)"

lemma lifecycle_new: "lifecycle 0 (server_new session_new reg)"
  by (simp add: lifecycle_def gens_ok_def server_new_def session_new_def)

lemma unat_bump:
  assumes "unat g \<le> n" "Suc n < 2 ^ 64"
  shows "unat (g + 1 :: u64) = Suc (unat g)"
proof -
  have "Suc (unat g) < 2 ^ 64" using assms by linarith
  then show ?thesis by (simp add: unat_plus_if')
qed

text \<open>Every reset leads back to a sound idle server, whatever state it interrupts.\<close>

lemma lifecycle_reset:
  assumes "gens_ok n sv" "Suc n < 2 ^ 64"
    and "sv_session sv' = reset s" "s_generation s = s_generation (sv_session sv)"
    and "set (sv_pumps sv') \<subseteq> set (sv_pumps sv) \<union> {(h, s_generation s)}" "sv_backend sv' = None"
  shows "lifecycle (Suc n) sv'"
proof -
  have g: "unat (s_generation (sv_session sv')) = Suc (unat (s_generation s))"
    using assms unat_bump [of "s_generation s" n] by (simp add: gens_ok_def)
  have "unat gp \<le> unat (s_generation s)" if "(hp, gp) \<in> set (sv_pumps sv')" for hp gp
    using that assms by (auto simp: gens_ok_def)
  then have "\<forall>(hp, gp) \<in> set (sv_pumps sv'). unat gp < unat (s_generation (sv_session sv'))"
    using g by fastforce
  with assms g show ?thesis
    by (fastforce simp: lifecycle_def gens_ok_def)
qed

text \<open>A call that changes neither the generation, the backend nor the pumps.\<close>

lemma lifecycle_same:
  "lifecycle n sv \<Longrightarrow> sv_pumps sv' = sv_pumps sv \<Longrightarrow> sv_backend sv' = sv_backend sv \<Longrightarrow>
   s_generation (sv_session sv') = s_generation (sv_session sv) \<Longrightarrow>
   s_state (sv_session sv') \<noteq> Configuring \<Longrightarrow>
   (s_state (sv_session sv') = Idle \<longleftrightarrow> s_state (sv_session sv) = Idle) \<Longrightarrow> lifecycle (Suc n) sv'"
  by (auto simp: lifecycle_def gens_ok_def)

text \<open>A connect point that ends with a live session.\<close>

lemma lifecycle_connect:
  "lifecycle n sv \<Longrightarrow> s_state (sv_session sv) = Idle \<Longrightarrow>
   sv_pumps sv' = sv_pumps sv @ [(h, s_generation (sv_session sv))] \<Longrightarrow> sv_backend sv' = Some h \<Longrightarrow>
   s_generation (sv_session sv') = s_generation (sv_session sv) \<Longrightarrow>
   s_state (sv_session sv') \<in> {Stopped, Running, Terminated} \<Longrightarrow> lifecycle (Suc n) sv'"
  by (auto simp: lifecycle_def gens_ok_def)

lemma lifecycle_pump:
  assumes "lifecycle n sv" "i < length (sv_pumps sv)"
  shows "lifecycle (Suc n) (pump_server i e sv)"
proof -
  obtain h g where hg: "sv_pumps sv ! i = (h, g)" by force
  then have mem: "(h, g) \<in> set (sv_pumps sv)" using assms(2) nth_mem by metis
  let ?s = "sv_session sv"
  have st: "s_state (pump_event g e ?s) = s_state ?s \<or>
      g = s_generation ?s \<and> s_state (pump_event g e ?s) = Terminated"
    by (cases e) (auto simp: append_session_output_def terminate_if_generation_def split: option.split)
  have "g = s_generation ?s \<longrightarrow> s_state ?s \<noteq> Idle"
    using assms(1) mem by (force simp: lifecycle_def)
  with st assms(1) show ?thesis
    by (intro lifecycle_same [of n sv]) (auto simp: pump_server_def hg lifecycle_def)
qed

lemma lifecycle_frames: "lifecycle n sv \<Longrightarrow> lifecycle (Suc n) (on_session (\<lambda>s. s\<lparr>s_frame_mapping := m\<rparr>) sv)"
  by (rule lifecycle_same [of n sv]) (auto simp: lifecycle_def)

lemma lifecycle_mono: "lifecycle n sv \<Longrightarrow> lifecycle (Suc n) sv"
  by (auto simp: lifecycle_def gens_ok_def)

context reading_tool
begin

lemma lifecycle_read:
  "handler a sv w = (out, sv', w') \<Longrightarrow> lifecycle n sv \<Longrightarrow> lifecycle (Suc n) sv'"
  using reads lifecycle_frames by metis

end

lemma resume_lifecycle:
  "resume op_err msg kind ops ct a sv w = (out, sv', w') \<Longrightarrow> lifecycle n sv \<Longrightarrow> lifecycle (Suc n) sv'"
  by (drule resume_effect) (auto intro: lifecycle_mono lifecycle_same [of n sv])

lemma lifecycle_gens: "lifecycle n sv \<Longrightarrow> gens_ok n sv"
  by (simp add: lifecycle_def)

lemma abort_lifecycle:
  "lifecycle n sv \<Longrightarrow> Suc n < 2 ^ 64 \<Longrightarrow> s_generation s = s_generation (sv_session sv) \<Longrightarrow>
   lifecycle (Suc n) (abort_connect (sv\<lparr>sv_session := s\<rparr>))"
  by (rule lifecycle_reset [OF lifecycle_gens, where s = s]) auto

lemma begin_lifecycle:
  "begin_shape sv (Inl out) sv' \<Longrightarrow> lifecycle n sv \<Longrightarrow> Suc n < 2 ^ 64 \<Longrightarrow> lifecycle (Suc n) sv'"
  by (auto simp: begin_shape_def intro: lifecycle_mono abort_lifecycle)

lemma connect_fail_lifecycle:
  "begin_shape sv (Inr p) sv1 \<Longrightarrow> connect_stage f c sv1 = (Inl out, sv') \<Longrightarrow>
   lifecycle n sv \<Longrightarrow> Suc n < 2 ^ 64 \<Longrightarrow> lifecycle (Suc n) sv'"
  by (auto simp: begin_shape_def connect_stage_def intro: abort_lifecycle split: sum.splits)

lemma connect_lifecycle:
  assumes "begin_shape sv (Inr p) sv1" "connect_stage f c sv1 = (Inr h, sv2)" "finish_shape sv2 sv'"
    and "lifecycle n sv" "Suc n < 2 ^ 64"
  shows "lifecycle (Suc n) sv'"
proof -
  obtain s where s: "s_state (sv_session sv) = Idle" "s_generation s = s_generation (sv_session sv)"
      "sv1 = sv\<lparr>sv_session := s\<rparr>"
    using assms(1) by (auto simp: begin_shape_def)
  have sv2: "sv_session sv2 = s" "sv_pumps sv2 = sv_pumps sv @ [(h, s_generation s)]" "sv_backend sv2 = Some h"
    using assms(2) by (auto simp: connect_stage_def s split: sum.splits)
  from assms(3) consider "sv' = cleanup_after_cancel sv2"
    | s' where "sv' = sv2\<lparr>sv_session := s'\<rparr>" "s_generation s' = s_generation s"
        "s_state s' \<in> {Stopped, Running, Terminated}"
    by (auto simp: finish_shape_def sv2)
  then show ?thesis
  proof cases
    case 1
    show ?thesis
      by (rule lifecycle_reset [OF lifecycle_gens [OF assms(4)] assms(5), where s = s and h = h])
        (simp_all add: 1 sv2 s)
  next
    case 2
    show ?thesis
      by (rule lifecycle_connect [OF assms(4) s(1), where h = h]) (use 2 sv2 s in simp_all)
  qed
qed

lemma connect_points_lifecycle:
  "handle_launch ho ops ct a sv w = (out, sv', w') \<Longrightarrow> lifecycle n sv \<Longrightarrow> Suc n < 2 ^ 64 \<Longrightarrow>
     lifecycle (Suc n) sv'"
  "handle_attach ho ops ct a sv w = (out, sv', w') \<Longrightarrow> lifecycle n sv \<Longrightarrow> Suc n < 2 ^ 64 \<Longrightarrow>
     lifecycle (Suc n) sv'"
  "handle_open_crash_dump ho ops ct a sv w = (out, sv', w') \<Longrightarrow> lifecycle n sv \<Longrightarrow> Suc n < 2 ^ 64 \<Longrightarrow>
     lifecycle (Suc n) sv'"
  "handle_attach_kernel ho ops ct a sv w = (out, sv', w') \<Longrightarrow> lifecycle n sv \<Longrightarrow> Suc n < 2 ^ 64 \<Longrightarrow>
     lifecycle (Suc n) sv'"
  unfolding handle_launch_def handle_attach_def handle_open_crash_dump_def handle_attach_kernel_def
  by (auto simp: Let_def dest!: begin_shapes finish_shapes split: tool_splits
      intro: begin_lifecycle connect_fail_lifecycle connect_lifecycle)

lemma disconnect_lifecycle:
  "handle_disconnect ops a sv w = (out, sv', w') \<Longrightarrow> lifecycle n sv \<Longrightarrow> Suc n < 2 ^ 64 \<Longrightarrow>
   lifecycle (Suc n) sv'"
  by (auto simp: handle_disconnect_def disconnect_begin_def disconnect_finish_def drop_backend_bounded_def Let_def
      intro: lifecycle_mono lifecycle_reset [OF lifecycle_gens, where s = "sv_session sv"] split: tool_splits)

lemma lifecycle_update:
  "lifecycle n sv \<Longrightarrow> s_generation s = s_generation (sv_session sv) \<Longrightarrow>
   s_state s = s_state (sv_session sv) \<Longrightarrow> lifecycle (Suc n) (sv\<lparr>sv_session := s\<rparr>)"
  by (rule lifecycle_same [of n sv]) (auto simp: lifecycle_def)

lemma breakpoint_tools_lifecycle:
  "handle_set_breakpoint ops a sv w = (out, sv', w') \<Longrightarrow> lifecycle n sv \<Longrightarrow> lifecycle (Suc n) sv'"
  "handle_set_function_breakpoint ops a sv w = (out, sv', w') \<Longrightarrow> lifecycle n sv \<Longrightarrow> lifecycle (Suc n) sv'"
  "handle_remove_breakpoint ops a sv w = (out, sv', w') \<Longrightarrow> lifecycle n sv \<Longrightarrow> lifecycle (Suc n) sv'"
  "handle_read_output a sv w = (out, sv', w') \<Longrightarrow> lifecycle n sv \<Longrightarrow> lifecycle (Suc n) sv'"
  by (auto simp: handle_set_breakpoint_def handle_set_function_breakpoint_def handle_remove_breakpoint_def
      handle_read_output_def Let_def on_session_update lifecycle_mono
      dest!: snd_eqD [of "remove_breakpoint_by_id _ _"] snd_eqD [of "drain_output _"]
      intro!: lifecycle_update split: tool_splits)

lemmas resume_tools_lifecycle =
  resume_lifecycle [of CONTINUE CONTINUE_TIMEOUT Rs_Continue, folded handle_continue_def]
  resume_lifecycle [of STEP_OVER STEP_OVER_TIMEOUT "Rs_Step Over", folded handle_step_over_def]
  resume_lifecycle [of STEP_INTO STEP_INTO_TIMEOUT "Rs_Step Into", folded handle_step_into_def]
  resume_lifecycle [of STEP_OUT STEP_OUT_TIMEOUT "Rs_Step Out", folded handle_step_out_def]

lemmas reading_tools_lifecycle =
  pause_tool.lifecycle_read status_tool.lifecycle_read list_tool.lifecycle_read
  threads_tool.lifecycle_read backtrace_tool.lifecycle_read run_command_tool.lifecycle_read
  analyze_tool.lifecycle_read modules_tool.lifecycle_read memory_tool.lifecycle_read
  disassemble_tool.lifecycle_read evaluate_tool.lifecycle_read variables_tool.lifecycle_read

definition lifecycle_tool :: "('h, 'w) handler \<Rightarrow> bool" where
  "lifecycle_tool handler \<longleftrightarrow>
     (\<forall>a sv w out sv' w' n. handler a sv w = (out, sv', w') \<longrightarrow> lifecycle n sv \<longrightarrow> Suc n < 2 ^ 64 \<longrightarrow>
        lifecycle (Suc n) sv')"

lemma lifecycle_toolI:
  "(\<And>a sv w out sv' w' n. handler a sv w = (out, sv', w') \<Longrightarrow> lifecycle n sv \<Longrightarrow> Suc n < 2 ^ 64 \<Longrightarrow>
      lifecycle (Suc n) sv') \<Longrightarrow> lifecycle_tool handler"
  by (simp add: lifecycle_tool_def)

lemma connect_tools_lifecycle:
  "lifecycle_tool (handle_launch ho ops ct)" "lifecycle_tool (handle_attach ho ops ct)"
  "lifecycle_tool (handle_open_crash_dump ho ops ct)" "lifecycle_tool (handle_attach_kernel ho ops ct)"
  "lifecycle_tool (handle_disconnect ops)"
  by (blast intro: lifecycle_toolI connect_points_lifecycle disconnect_lifecycle)+

lemma other_tools_lifecycle:
  "(\<And>a sv w out sv' w' n. handler a sv w = (out, sv', w') \<Longrightarrow> lifecycle n sv \<Longrightarrow> lifecycle (Suc n) sv') \<Longrightarrow>
     lifecycle_tool handler"
  by (simp add: lifecycle_tool_def)

lemma lifecycle_tool_if: "lifecycle_tool f \<Longrightarrow> lifecycle_tool g \<Longrightarrow> lifecycle_tool (if b then f else g)"
  by simp

lemma unknown_lifecycle: "lifecycle_tool (\<lambda>a sv w. (Error m, sv, w))"
  by (simp add: lifecycle_tool_def lifecycle_mono)

lemma dispatch_lifecycle: "lifecycle_tool (dispatch ho ops ct name)"
  unfolding dispatch_def
  by (intro lifecycle_tool_if connect_tools_lifecycle unknown_lifecycle;
      rule other_tools_lifecycle, erule (1) breakpoint_tools_lifecycle resume_tools_lifecycle reading_tools_lifecycle)

section \<open>Runs with blocked calls\<close>

text \<open>A resume that waits in the backend.\<close>

record 'h blocked_call =
  bc_op :: op_error
  bc_timeout :: string
  bc_call :: "'h resume_call"

record ('h, 'w) conc =
  cc_server :: "('h, 'w) server"
  cc_world :: 'w
  cc_blocked :: "'h blocked_call list"

definition resume_tool :: "string \<Rightarrow> (op_error \<times> string \<times> resume_kind) option" where
  "resume_tool name =
     (if name = ''continue'' then Some (CONTINUE, CONTINUE_TIMEOUT, Rs_Continue)
      else if name = ''step_over'' then Some (STEP_OVER, STEP_OVER_TIMEOUT, Rs_Step Over)
      else if name = ''step_into'' then Some (STEP_INTO, STEP_INTO_TIMEOUT, Rs_Step Into)
      else if name = ''step_out'' then Some (STEP_OUT, STEP_OUT_TIMEOUT, Rs_Step Out)
      else None)"

inductive conc_step ::
  "host \<Rightarrow> ('h, 'w) backend_ops \<Rightarrow> ('h, 'w) conc \<Rightarrow> event \<Rightarrow> ('h, 'w) conc \<Rightarrow> bool"
  for ho ops where
  conc_call:
    "resume_tool name = None \<Longrightarrow>
     dispatch ho ops ct name a (cc_server c) (cc_world c) = (out, sv', w') \<Longrightarrow>
     conc_step ho ops c (Call name a) (c\<lparr>cc_server := sv', cc_world := w'\<rparr>)"
| conc_refuse:
    "resume_tool name = Some (op, msg, kind) \<Longrightarrow>
     resume_begin op kind a (cc_server c) = (Inl out, sv') \<Longrightarrow>
     conc_step ho ops c (Begin name a) (c\<lparr>cc_server := sv'\<rparr>)"
| conc_begin:
    "resume_tool name = Some (op, msg, kind) \<Longrightarrow>
     resume_begin op kind a (cc_server c) = (Inr rc, sv') \<Longrightarrow>
     conc_step ho ops c (Begin name a)
       (c\<lparr>cc_server := sv',
          cc_blocked := cc_blocked c @ [\<lparr>bc_op = op, bc_timeout = msg, bc_call = rc\<rparr>]\<rparr>)"
| conc_finish:
    "i < length (cc_blocked c) \<Longrightarrow> cc_blocked c ! i = bc \<Longrightarrow> bc_call bc = rc \<Longrightarrow>
     run_backend ops (rc_backend rc) (rc_kind rc) (rc_thread rc) (rc_granularity rc) (cc_world c) = (r, w') \<Longrightarrow>
     resume_finish (bc_op bc) (bc_timeout bc) (rc_generation rc) (Some r) (cc_server c) = (out, sv') \<Longrightarrow>
     conc_step ho ops c (Finish i)
       (c\<lparr>cc_server := sv', cc_world := w', cc_blocked := vec_remove i (cc_blocked c)\<rparr>)"
| conc_cancel:
    "i < length (cc_blocked c) \<Longrightarrow>
     conc_step ho ops c (Cancel i) (c\<lparr>cc_world := w', cc_blocked := vec_remove i (cc_blocked c)\<rparr>)"
| conc_pump:
    "i < length (sv_pumps (cc_server c)) \<Longrightarrow>
     conc_step ho ops c (Pump i e) (c\<lparr>cc_server := pump_server i e (cc_server c), cc_world := w'\<rparr>)"

inductive_cases conc_finishE: "conc_step ho ops c (Finish i) c'"

inductive_cases conc_cancelE: "conc_step ho ops c (Cancel i) c'"

definition conc_initial :: "('h, 'w) conc \<Rightarrow> bool" where
  "conc_initial c \<longleftrightarrow>
     (\<exists>reg. registry_inv reg \<and> cc_server c = server_new session_new reg) \<and> cc_blocked c = []"

lemma pump_server_inv: "server_inv sv \<Longrightarrow> server_inv (pump_server i e sv)"
  by (simp add: pump_server_def inv_intros)

lemma resume_begin_inv:
  "resume_begin op kind a sv = (r, sv') \<Longrightarrow> server_inv sv \<Longrightarrow> server_inv sv'"
  by (auto simp: resume_begin_def intro!: inv_intros split: tool_splits)

lemma resume_finish_inv:
  "resume_finish op msg g r sv = (out, sv') \<Longrightarrow> server_inv sv \<Longrightarrow> server_inv sv'"
  by (auto simp: resume_finish_def dest!: stop_result_server intro!: inv_intros split: tool_splits)

lemma conc_step_inv:
  "conc_step ho ops c e c' \<Longrightarrow> server_inv (cc_server c) \<Longrightarrow> server_inv (cc_server c')"
  by (induction rule: conc_step.induct)
    (auto intro: dispatched.keeps_inv resume_begin_inv resume_finish_inv pump_server_inv)

interpretation conc: step_invariant conc_initial "conc_step ho ops" "\<lambda>c. server_inv (cc_server c)"
  by unfold_locales (auto simp: conc_initial_def intro: conc_step_inv server_new_inv)

definition seq_inv :: "('h, 'w) config \<Rightarrow> bool" where
  "seq_inv c \<longleftrightarrow> server_inv (cf_server c) \<and>
     (cf_steps c < 2 ^ 64 \<longrightarrow> lifecycle (cf_steps c) (cf_server c))"

lemma seq_step_inv: "seq_step ho ops c e c' \<Longrightarrow> seq_inv c \<Longrightarrow> seq_inv c'"
proof (induction rule: seq_step.induct)
  case (seq_call ct name a c out sv' w')
  then show ?case
    using dispatch_lifecycle [of ho ops ct name] dispatched.keeps_inv
    unfolding lifecycle_tool_def seq_inv_def by fastforce
next
  case (seq_pump i c e w')
  then show ?case
    by (simp add: seq_inv_def pump_server_inv lifecycle_pump)
qed

lemma seq_initial: "initial c \<Longrightarrow> seq_inv c"
  by (auto simp: initial_def seq_inv_def lifecycle_new server_new_inv)

interpretation seq: step_invariant initial "seq_step ho ops" seq_inv
  by unfold_locales (blast intro: seq_initial seq_step_inv)+

end
