(* ===== verification/Server_Properties.thy ===== *)
theory Server_Properties
  imports Server_Steps
begin

text \<open>
  The properties of the tool server as a whole: guards, the life of a session over any run of
  calls and events, and what a resume that is overtaken by a disconnect can and cannot do.
\<close>

section \<open>Guards\<close>

text \<open>C13: a tool called in a state it is not meant for answers with the state error and does
  nothing else: server and world are as they were.\<close>

theorem tool_guard:
  assumes "guard_states name = Some allowed" "s_state (sv_session sv) \<notin> set allowed"
  shows "\<exists>e. check_state allowed (sv_session sv) = Inl e \<and> dispatch ho ops ct name a sv w = (Error e, sv, w)"
proof -
  have "allowed_states name = allowed" using assms(1) by (simp add: allowed_states_def)
  then show ?thesis
    using dispatched.rejects_iff_state [of sv name ho ops ct a w] assms(2) by metis
qed

definition no_args :: args where "no_args = []"

lemma demo_idle: "s_state (sv_session demo_server) = Idle"
  by (simp add: demo_server_def server_new_def session_new_def)

theorem tool_guard_witness:
  "\<exists>e. dispatch demo_host demo_ops None ''continue'' no_args demo_server True = (Error e, demo_server, True)"
  using tool_guard [of "''continue''" "[Stopped]" demo_server demo_host demo_ops None no_args True] demo_idle
  by (auto simp: guard_states_def)

section \<open>A concrete run\<close>

definition launch_args :: args where
  "launch_args = [(''program'', JStr ''a.out'')]"

definition demo_launched :: "(unit, bool) server" where
  "demo_launched =
     demo_server\<lparr>sv_session := session_new\<lparr>s_state := Stopped, s_program := ''a.out'', s_pid := 42,
         s_last_stopped := Some demo_stop\<rparr>,
       sv_backend := Some (), sv_active_name := Some ''lldb'', sv_pumps := [((), 0)]\<rparr>"

lemma demo_launch:
  "\<exists>out. dispatch demo_host demo_ops None ''launch'' launch_args demo_server w = (out, demo_launched, False)"
  by (simp add: dispatch_def handle_launch_def launch_begin_def launch_finish_def connect_stage_def
      record_launch_def launch_args_def demo_launched_def demo_defs check_state_def server_new_def
      session_new_def require_string_def parse_json_array_def parse_json_object_def get_string_def
      get_bool_def flush_pending_breakpoints_def set_state_def select_backend_def select_with_env_def
      select_name_def backend_select_def registry_new_def register_def spawn_pump_def set_backend_def
      select_call_def set_program_def set_pid_def set_last_stopped_def hm_get_def hm_insert_def Let_def)

definition demo_running :: "(unit, bool) server" where
  "demo_running = on_session (set_state Running) demo_launched"

definition demo_call :: "unit blocked_call" where
  "demo_call = \<lparr>bc_op = CONTINUE, bc_timeout = CONTINUE_TIMEOUT,
     bc_call = \<lparr>rc_backend = (), rc_kind = Rs_Continue, rc_thread = 7, rc_granularity = None,
       rc_generation = 0\<rparr>\<rparr>"

lemma demo_continue_begin:
  "resume_begin CONTINUE Rs_Continue no_args demo_launched = (Inr (bc_call demo_call), demo_running)"
  by (simp add: resume_begin_def demo_launched_def demo_running_def demo_call_def no_args_def
      check_state_def session_new_def resolve_thread_id_def explicit_positive_thread_id_def
      get_raw_def last_thread_def demo_stop_def)

definition demo_conc :: "(unit, bool) server \<Rightarrow> bool \<Rightarrow> unit blocked_call list \<Rightarrow> (unit, bool) conc" where
  "demo_conc sv w bs = \<lparr>cc_server = sv, cc_world = w, cc_blocked = bs\<rparr>"

definition demo_disconnected :: "(unit, bool) server" where
  "demo_disconnected =
     demo_running\<lparr>sv_session := session_new\<lparr>s_generation := 1\<rparr>, sv_backend := None, sv_active_name := None\<rparr>"

lemma demo_running_disconnect:
  "\<exists>out. dispatch demo_host demo_ops None ''disconnect'' no_args demo_running w = (out, demo_disconnected, True)"
proof -
  have "buffer_inv (s_output (sv_session demo_running))"
    by (simp add: demo_running_def demo_launched_def set_state_def session_new_def buffer_new_inv)
  then have "reset (sv_session demo_running) = session_new\<lparr>s_generation := 1\<rparr>"
    by (subst reset_eq_buffer) (simp_all add: demo_running_def demo_launched_def set_state_def session_new_def)
  then show ?thesis
    by (simp add: dispatch_def handle_disconnect_def disconnect_begin_def disconnect_finish_def
        drop_backend_bounded_def check_state_def demo_disconnected_def demo_running_def
        demo_launched_def set_state_def no_args_def get_bool_def on_session_def demo_ops_def Let_def)
qed

lemma demo_reach_blocked:
  "reach conc_initial (conc_step demo_host demo_ops) (demo_conc demo_running False [demo_call])"
proof -
  let ?R = "reach conc_initial (conc_step demo_host demo_ops)"
  have "?R (demo_conc demo_server True [])"
    by (rule reach_init) (use demo_registry_inv in \<open>auto simp: conc_initial_def demo_conc_def demo_server_def\<close>)
  moreover obtain out where "dispatch demo_host demo_ops None ''launch'' launch_args demo_server True =
      (out, demo_launched, False)"
    using demo_launch by blast
  then have "conc_step demo_host demo_ops (demo_conc demo_server True []) (Call ''launch'' launch_args)
      (demo_conc demo_launched False [])"
    using conc_call [of "''launch''" demo_host demo_ops None launch_args "demo_conc demo_server True []"
        out demo_launched False]
    by (simp add: demo_conc_def resume_tool_def)
  ultimately have "?R (demo_conc demo_launched False [])" by (rule reach_step)
  moreover have "conc_step demo_host demo_ops (demo_conc demo_launched False []) (Begin ''continue'' no_args)
      (demo_conc demo_running False [demo_call])"
    using conc_begin [of "''continue''" CONTINUE CONTINUE_TIMEOUT Rs_Continue no_args
        "demo_conc demo_launched False []" _ _ demo_host demo_ops] demo_continue_begin
    by (simp add: demo_conc_def resume_tool_def demo_call_def)
  ultimately show ?thesis by (rule reach_step)
qed

lemma demo_reach_overtaken:
  "reach conc_initial (conc_step demo_host demo_ops) (demo_conc demo_disconnected True [demo_call])"
proof -
  obtain out where "dispatch demo_host demo_ops None ''disconnect'' no_args demo_running False =
      (out, demo_disconnected, True)"
    using demo_running_disconnect by blast
  then have "conc_step demo_host demo_ops (demo_conc demo_running False [demo_call])
      (Call ''disconnect'' no_args) (demo_conc demo_disconnected True [demo_call])"
    using conc_call [of "''disconnect''" demo_host demo_ops None no_args
        "demo_conc demo_running False [demo_call]" out demo_disconnected True]
    by (simp add: demo_conc_def resume_tool_def)
  with demo_reach_blocked show ?thesis by (rule reach_step)
qed

section \<open>Runs\<close>

text \<open>C7: in every run of tool calls, blocked resumes, cancellations and pump events the server
  keeps its invariant: maps with distinct keys, breakpoints filed under their own id, an exact
  byte count of the output, factories under their own name with their capabilities in the union,
  and a backend name recorded exactly when a backend is connected.\<close>

theorem concurrent_runs_keep_invariant:
  "reach conc_initial (conc_step ho ops) c \<Longrightarrow> server_inv (cc_server c)"
  by (rule conc.reach_inv)

theorem concurrent_runs_keep_invariant_witness: "server_inv demo_disconnected"
  using concurrent_runs_keep_invariant [OF demo_reach_overtaken] by (simp add: demo_conc_def)

text \<open>C1: as long as tool calls do not overlap, and fewer than \<open>2^64\<close> have been made, the session
  is idle exactly when no debugger is connected, no call leaves it configuring, and a pump that
  still carries the current generation drains the connected debugger.\<close>

theorem sequential_lifecycle:
  assumes "reach initial (seq_step ho ops) c" "cf_steps c < 2 ^ 64"
  shows "(s_state (sv_session (cf_server c)) = Idle \<longleftrightarrow> sv_backend (cf_server c) = None) \<and>
    s_state (sv_session (cf_server c)) \<noteq> Configuring \<and>
    (\<forall>(h, g) \<in> set (sv_pumps (cf_server c)).
       g = s_generation (sv_session (cf_server c)) \<longrightarrow> sv_backend (cf_server c) = Some h)"
proof -
  have "seq_inv c" using assms(1) by (rule seq.reach_inv)
  with assms(2) show ?thesis unfolding seq_inv_def lifecycle_def by blast
qed

theorem sequential_lifecycle_witness: "s_state (sv_session demo_launched) \<noteq> Configuring"
proof -
  let ?c = "\<lparr>cf_server = demo_server, cf_world = True, cf_steps = 0\<rparr>"
  have init: "reach initial (seq_step demo_host demo_ops) ?c"
    by (rule reach_init) (use demo_registry_inv in \<open>auto simp: initial_def demo_server_def\<close>)
  obtain out where "dispatch demo_host demo_ops None ''launch'' launch_args demo_server True =
      (out, demo_launched, False)"
    using demo_launch by blast
  then have "seq_step demo_host demo_ops ?c (Call ''launch'' launch_args)
      \<lparr>cf_server = demo_launched, cf_world = False, cf_steps = 1\<rparr>"
    using seq_call [of demo_host demo_ops None "''launch''" launch_args ?c out demo_launched False] by simp
  with init have "reach initial (seq_step demo_host demo_ops)
      \<lparr>cf_server = demo_launched, cf_world = False, cf_steps = 1\<rparr>"
    by (rule reach_step)
  from sequential_lifecycle [OF this] show ?thesis by simp
qed

section \<open>An overtaken resume\<close>

text \<open>C4: What a late answer does, when the debugger answers a resume whose session has been reset meanwhile.  A
  cancelled call does nothing.  An answer of success keeps the new session as it is, its state, stop information and exit
  code included, but for the output: unless the answer is that the program terminated, the output buffered by the new
  session is drained into the late reply and lost to the new session.  An answer of an error sets the new session's state
  to stopped, and changes nothing else.\<close>

theorem overtaken_answer_drains_output:
  assumes "s_generation (sv_session sv) \<noteq> g"
  shows "snd (resume_finish op msg g r sv) =
      (case r of
         None \<Rightarrow> sv
       | Some (Inl e) \<Rightarrow> on_session (set_state Stopped) sv
       | Some (Inr out) \<Rightarrow> if out = SO_Terminated then sv else on_session (\<lambda>s. snd (drain_output s)) sv) \<and>
    (\<forall>out. r = Some (Inr out) \<longrightarrow> (\<exists>b. snd (resume_finish op msg g r sv) = sv\<lparr>sv_session := (sv_session sv)\<lparr>s_output := b\<rparr>\<rparr>))"
proof -
  have "snd (resume_finish op msg g (Some (Inr out)) sv) =
      (if out = SO_Terminated then sv else on_session (\<lambda>s. snd (drain_output s)) sv)" for out
    using assms stop_result_effect [of out g sv]
    by (cases out) (simp_all add: resume_finish_def stop_effect_def term_epoch.stale on_session_def)
  moreover have "\<exists>b. sv = sv\<lparr>sv_session := (sv_session sv)\<lparr>s_output := b\<rparr>\<rparr>"
    by (intro exI [of _ "s_output (sv_session sv)"]) simp
  moreover have "\<exists>b. on_session (\<lambda>s. snd (drain_output s)) sv = sv\<lparr>sv_session := (sv_session sv)\<lparr>s_output := b\<rparr>\<rparr>"
    by (auto simp: on_session_def drain_output_def Let_def split: prod.split)
  ultimately show ?thesis by (auto simp: resume_finish_def split: option.split sum.split)
qed

theorem overtaken_answer_drains_output_witness:
  "snd (resume_finish CONTINUE CONTINUE_TIMEOUT 0 (Some (Inr SO_Terminated)) demo_disconnected) =
     demo_disconnected"
  using overtaken_answer_drains_output [of demo_disconnected 0 CONTINUE CONTINUE_TIMEOUT "Some (Inr SO_Terminated)"]
  by (simp add: demo_disconnected_def session_new_def)

text \<open>C15: the error path of a resume is not guarded the same way.  There is a run (launch, a
  continue that blocks, a disconnect, then the error the blocked call gets) after which the
  session is stopped although it was reset to idle and no debugger is connected.\<close>

theorem overtaken_error_clobbers_idle:
  "\<exists>c :: (unit, bool) conc. reach conc_initial (conc_step demo_host demo_ops) c \<and>
     s_state (sv_session (cc_server c)) = Stopped \<and> sv_backend (cc_server c) = None"
proof -
  let ?c = "demo_conc demo_disconnected True [demo_call]"
  let ?sv = "on_session (set_state Stopped) demo_disconnected"
  have "conc_step demo_host demo_ops ?c (Finish 0) (demo_conc ?sv True [])"
    using conc_finish [of 0 ?c demo_call "bc_call demo_call" demo_ops
        "Inl (Send ''broken pipe'')" True
        "Error (op_render CONTINUE (Send ''broken pipe''))" ?sv demo_host]
    by (simp add: demo_conc_def demo_call_def demo_ops_def demo_answer_def resume_finish_def
        vec_remove_def)
  with demo_reach_overtaken
  have "reach conc_initial (conc_step demo_host demo_ops) (demo_conc ?sv True [])"
    by (rule reach_step)
  moreover have "s_state (sv_session ?sv) = Stopped" "sv_backend ?sv = None"
    by (simp_all add: set_state_def demo_disconnected_def)
  ultimately show ?thesis
    by (intro exI [of _ "demo_conc ?sv True []"]) (simp add: demo_conc_def)
qed

end
