(* ===== verification/Tool_Properties.thy ===== *)
theory Tool_Properties
  imports Server_Properties
begin

text \<open>
  The properties of the tools one by one: execution, lifecycle, crash dumps, breakpoints, and the
  tools that read the debuggee.
\<close>

section \<open>continue and step\<close>

lemma obj_ok_distinct: "obj_ok m \<Longrightarrow> distinct (map fst m)"
  by (simp add: obj_ok_def strict_sorted_iff)

lemma format_output_obj: "\<exists>m. format_output_entries es = JObj m \<and> obj_ok m"
  by (cases "fold group_step es ([], [], [])")
    (auto simp: format_output_entries_def rb_build_def rb_defs Let_def obj_ok_def)

text \<open>Merging output into a reply: the output's keys win, the others stay.\<close>

lemma merge_output_get:
  "map_of (merge_output b es) k =
     (case jget (format_output_entries es) k of Some v \<Rightarrow> Some v | None \<Rightarrow> map_of b k)"
proof -
  obtain m where m: "format_output_entries es = JObj m" "obj_ok m" using format_output_obj by blast
  have "merge_output b es = rb_sets m b" by (simp add: merge_output_def m rb_sets_def)
  moreover have "map_of (rev m) = map_of m"
    using obj_ok_distinct [OF m(2)] by (subst map_of_inject_set) (simp_all add: rev_map [symmetric])
  ultimately show ?thesis by (simp add: rb_sets_get m)
qed

definition output_keys :: "string set" where
  "output_keys = {''output'', ''count'', ''stdout'', ''stderr'', ''console''}"

lemma format_output_keys: "k \<notin> output_keys \<Longrightarrow> jget (format_output_entries es) k = None"
  by (cases "fold group_step es ([], [], [])")
    (auto simp: output_keys_def format_output_entries_def rb_defs Let_def)

text \<open>C8: a \<open>continue\<close> or step that the debugger answers with a stop, when nothing overtakes it,
  leaves the session stopped with that stop recorded and the output drained, and the reply carries
  the stop's reason and thread and the drained output grouped by category.\<close>

theorem resume_reports_stop:
  assumes "s_state (sv_session sv) = Stopped" "\<not> s_is_dump (sv_session sv)"
    and "resolve_thread_id a (sv_session sv) = Inr tid" "sv_backend sv = Some h"
    and "run_backend ops h kind tid (case kind of Rs_Continue \<Rightarrow> None | Rs_Step _ \<Rightarrow> parse_granularity a) w
           = (Inr (SO_Stopped info), w')"
  shows "\<exists>v. resume op msg kind ops None a sv w =
      (Json v, on_session (\<lambda>s. snd (drain_output (s\<lparr>s_state := Stopped, s_last_stopped := Some info\<rparr>))) sv, w') \<and>
    jget v ''status'' = Some (JStr ''stopped'') \<and> jget v ''reason'' = Some (JStr (si_reason info)) \<and>
    jget v ''thread_id'' = Some (json_int (si_thread_id info)) \<and>
    (\<forall>k \<in> output_keys. jget v k = jget (format_output_entries (fst (drain (s_output (sv_session sv))))) k)"
proof -
  let ?es = "fst (drain (s_output (sv_session sv)))"
  let ?b = "merge_output (stopped_response info) ?es"
  have "resume op msg kind ops None a sv w =
      (rb_into_outcome ?b,
       on_session (\<lambda>s. snd (drain_output (s\<lparr>s_state := Stopped, s_last_stopped := Some info\<rparr>))) sv, w')"
    using assms
    by (auto simp: resume_def resume_begin_def resume_finish_def select_call_def Let_def on_session_def
        set_state_def set_state_if_generation_def set_last_stopped_def check_state_def drain_output_def
        split_beta)
  moreover have "map_of ?b k = (case jget (format_output_entries ?es) k of
      Some v \<Rightarrow> Some v | None \<Rightarrow> map_of (stopped_response info) k)" for k
    by (rule merge_output_get)
  moreover have "map_of (stopped_response info) k = None" if "k \<in> output_keys" for k
    using that by (auto simp: output_keys_def stopped_response_def rb_defs)
  moreover have "map_of (stopped_response info) ''status'' = Some (JStr ''stopped'')"
      "map_of (stopped_response info) ''reason'' = Some (JStr (si_reason info))"
      "map_of (stopped_response info) ''thread_id'' = Some (json_int (si_thread_id info))"
    by (simp_all add: stopped_response_def rb_defs)
  ultimately show ?thesis
    by (intro exI [of _ "JObj ?b"])
      (auto simp: rb_into_outcome_def rb_build_def format_output_keys output_keys_def split: option.splits)
qed

lemma demo_launched_facts:
  "s_state (sv_session demo_launched) = Stopped" "\<not> s_is_dump (sv_session demo_launched)"
  "resolve_thread_id no_args (sv_session demo_launched) = Inr 7" "sv_backend demo_launched = Some ()"
  by (simp_all add: demo_launched_def session_new_def no_args_def resolve_thread_id_def
      explicit_positive_thread_id_def get_raw_def last_thread_def demo_stop_def)

theorem resume_reports_stop_witness:
  "\<exists>v sv'. handle_continue demo_ops None no_args demo_launched False = (Json v, sv', False) \<and>
     jget v ''status'' = Some (JStr ''stopped'') \<and> s_state (sv_session sv') = Stopped"
proof -
  have "run_backend demo_ops () Rs_Continue 7 None False = (Inr (SO_Stopped demo_stop), False)"
    by (simp add: demo_ops_def demo_answer_def)
  then show ?thesis
    using resume_reports_stop [OF demo_launched_facts, of demo_ops Rs_Continue False demo_stop False
        CONTINUE CONTINUE_TIMEOUT]
    by (auto simp: handle_continue_def)
qed

text \<open>A resume that fails reports the error and leaves the server as it was; one whose caller
  cancels leaves the session running and everything else as it was, so that \<open>pause\<close> can stop it.\<close>

theorem resume_failure_and_cancel:
  assumes "s_state (sv_session sv) = Stopped" "\<not> s_is_dump (sv_session sv)"
    and "resolve_thread_id a (sv_session sv) = Inr tid" "sv_backend sv = Some h"
  shows "resume op msg kind ops (Some f) a sv w = (Error msg, on_session (set_state Running) sv, f w) \<and>
    (\<forall>e w'. run_backend ops h kind tid (case kind of Rs_Continue \<Rightarrow> None | Rs_Step _ \<Rightarrow> parse_granularity a) w
        = (Inl e, w') \<longrightarrow> resume op msg kind ops None a sv w = (Error (op_render op e), sv, w'))"
  using assms
  by (auto simp: resume_def resume_begin_def resume_finish_def select_call_def Let_def on_session_def
      set_state_def check_state_def)

theorem resume_failure_and_cancel_witness:
  "resume CONTINUE CONTINUE_TIMEOUT Rs_Continue demo_ops None no_args demo_launched True =
     (Error ''continue request failed: broken pipe'', demo_launched, True)"
  using resume_failure_and_cancel [OF demo_launched_facts, of CONTINUE CONTINUE_TIMEOUT Rs_Continue
      demo_ops _ True]
  by (auto simp: demo_ops_def demo_answer_def CONTINUE_def)

section \<open>Lifecycle\<close>

text \<open>
  What the connect points refuse before they touch the session: a session that is not idle, and arguments that are
  missing or malformed.
\<close>

definition connect_refused :: "host \<Rightarrow> string \<Rightarrow> args \<Rightarrow> session \<Rightarrow> bool" where
  "connect_refused ho name a s \<longleftrightarrow> s_state s \<noteq> Idle \<or>
     (if name = ''launch'' then isl (require_string a ''program'') \<or> isl (parse_json_array (ho_serde ho) a ''args'') \<or>
        isl (parse_json_object (ho_serde ho) a ''env'')
      else if name = ''attach'' then isl (attach_target a)
      else if name = ''open_crash_dump'' then isl (require_string a ''dump_path'')
      else (case require_string a ''connection'' of Inl _ \<Rightarrow> True | Inr c \<Rightarrow> \<not> starts_with ''net:'' c))"

lemma refused_begins:
  "connect_refused ho ''launch'' a (sv_session sv) \<Longrightarrow> \<exists>e. launch_begin ho a sv = (Inl (Error e), sv)"
  "connect_refused ho ''attach'' a (sv_session sv) \<Longrightarrow> \<exists>e. attach_begin ho a sv = (Inl (Error e), sv)"
  "connect_refused ho ''open_crash_dump'' a (sv_session sv) \<Longrightarrow> \<exists>e. dump_begin ho a sv = (Inl (Error e), sv)"
  "connect_refused ho ''attach_kernel'' a (sv_session sv) \<Longrightarrow> \<exists>e. kernel_begin ho a sv = (Inl (Error e), sv)"
  by (cases "check_state [Idle] (sv_session sv)";
      auto simp: connect_refused_def launch_begin_def attach_begin_def dump_begin_def kernel_begin_def isl_def
        dest!: check_state_InrD split: sum.splits)+

text \<open>An error of the first stage that is no refusal has reset the session: no backend could be selected.\<close>

lemma unselected_begins:
  "launch_begin ho a sv = (Inl out, sv') \<Longrightarrow> \<not> connect_refused ho ''launch'' a (sv_session sv) \<Longrightarrow> server_inv sv \<Longrightarrow>
     fresh_after sv sv'"
  "attach_begin ho a sv = (Inl out, sv') \<Longrightarrow> \<not> connect_refused ho ''attach'' a (sv_session sv) \<Longrightarrow> server_inv sv \<Longrightarrow>
     fresh_after sv sv'"
  "dump_begin ho a sv = (Inl out, sv') \<Longrightarrow> \<not> connect_refused ho ''open_crash_dump'' a (sv_session sv) \<Longrightarrow> server_inv sv \<Longrightarrow>
     fresh_after sv sv'"
  "kernel_begin ho a sv = (Inl out, sv') \<Longrightarrow> \<not> connect_refused ho ''attach_kernel'' a (sv_session sv) \<Longrightarrow> server_inv sv \<Longrightarrow>
     fresh_after sv sv'"
  by (cases "check_state [Idle] (sv_session sv)";
      auto simp: connect_refused_def launch_begin_def attach_begin_def dump_begin_def kernel_begin_def check_state_def
        fresh_after_def server_inv_def session_inv_def reset_eq_buffer set_state_def on_session_def Let_def
        dest!: flush_keepsD split: sum.splits prod.splits if_splits)+

lemma connect_point_fresh:
  assumes run: "(case begun of
        (Inl out, sv) \<Rightarrow> (out, sv, w)
      | (Inr (p, f), sv) \<Rightarrow>
          (let (c, w) = fac_connect f w
           in case connect_stage f c sv of
                (Inl out, sv) \<Rightarrow> (out, sv, w)
              | (Inr h, sv) \<Rightarrow>
                  (let (r, w) = select_call ct (request p h) w; (out, sv) = finish p f h w r sv in (out, sv, w)))) =
      (Error e, sv', w')"
    and shape: "begin_shape sv (fst begun) (snd begun)" and inv: "server_inv sv"
    and fresh: "\<And>out sv1. begun = (Inl out, sv1) \<Longrightarrow> fresh_after sv sv1"
    and fails: "\<And>p f h w r sv1 e sv2. finish p f h w r sv1 = (Error e, sv2) \<Longrightarrow> sv2 = cleanup_after_cancel sv1"
  shows "fresh_after sv sv'"
proof (cases begun)
  case (Pair r sv1)
  show ?thesis
  proof (cases r)
    case (Inl out)
    then show ?thesis using fresh run Pair by simp
  next
    case (Inr pf)
    obtain p f where pf: "pf = (p, f)" by (rule prod.exhaust)
    have start: "begin_shape sv (Inr pf) sv1" using shape Pair Inr by simp
    obtain c w1 where c: "fac_connect f w = (c, w1)" by (rule prod.exhaust)
    obtain q sv2 where q: "connect_stage f c sv1 = (q, sv2)" by (rule prod.exhaust)
    show ?thesis
    proof (cases q)
      case (Inl out)
      then have "sv' = sv2" using run Pair Inr pf c q by simp
      then show ?thesis using connect_fail_fresh [OF start _ inv] q Inl by blast
    next
      case (Inr h)
      then have "\<exists>r w2. finish p f h w2 r sv2 = (Error e, sv')"
        using run Pair \<open>r = Inr pf\<close> pf c q by (auto simp: Let_def split: prod.splits)
      then have "sv' = cleanup_after_cancel sv2" using fails by blast
      then show ?thesis using finish_fail_fresh [OF start _ inv] q Inr by blast
    qed
  qed
qed

lemma connect_point_resets:
  assumes inv: "server_inv sv"
  shows "handle_launch ho ops ct a sv w = (Error e, sv', w') \<Longrightarrow> \<not> connect_refused ho ''launch'' a (sv_session sv) \<Longrightarrow>
     fresh_after sv sv'"
  "handle_attach ho ops ct a sv w = (Error e, sv', w') \<Longrightarrow> \<not> connect_refused ho ''attach'' a (sv_session sv) \<Longrightarrow>
     fresh_after sv sv'"
  "handle_open_crash_dump ho ops ct a sv w = (Error e, sv', w') \<Longrightarrow>
     \<not> connect_refused ho ''open_crash_dump'' a (sv_session sv) \<Longrightarrow> fresh_after sv sv'"
  "handle_attach_kernel ho ops ct a sv w = (Error e, sv', w') \<Longrightarrow>
     \<not> connect_refused ho ''attach_kernel'' a (sv_session sv) \<Longrightarrow> fresh_after sv sv'"
proof -
  note shapes = begin_shapes(1-4) [where sv = sv and ho = ho and a = a, OF prod.collapse [symmetric]]
  note start = unselected_begins [OF _ _ inv]
  show "handle_launch ho ops ct a sv w = (Error e, sv', w') \<Longrightarrow> \<not> connect_refused ho ''launch'' a (sv_session sv) \<Longrightarrow>
     fresh_after sv sv'"
    unfolding handle_launch_def
    by (rule connect_point_fresh [where begun = "launch_begin ho a sv" and request = "\<lambda>lp h. b_launch ops h (lp_spec lp)" and
          finish = "\<lambda>lp f h w. launch_finish lp (b_debugger_pid ops h w)", OF _ shapes(1) inv])
      (assumption, erule (1) start(1), erule finish_error(1))
  show "handle_attach ho ops ct a sv w = (Error e, sv', w') \<Longrightarrow> \<not> connect_refused ho ''attach'' a (sv_session sv) \<Longrightarrow>
     fresh_after sv sv'"
    unfolding handle_attach_def
    by (rule connect_point_fresh [where begun = "attach_begin ho a sv" and request = "\<lambda>ap h. b_attach ops h (ap_spec ap)" and
          finish = "\<lambda>ap f h w. attach_finish ap (b_debugger_pid ops h w)", OF _ shapes(2) inv])
      (assumption, erule (1) start(2), erule finish_error(2))
  show "handle_open_crash_dump ho ops ct a sv w = (Error e, sv', w') \<Longrightarrow>
     \<not> connect_refused ho ''open_crash_dump'' a (sv_session sv) \<Longrightarrow> fresh_after sv sv'"
    unfolding handle_open_crash_dump_def
    by (rule connect_point_fresh [where begun = "dump_begin ho a sv" and request = "\<lambda>path h. b_open_dump ops h path" and
          finish = "\<lambda>path f h w. dump_finish path (fac_name f)", OF _ shapes(3) inv])
      (assumption, erule (1) start(3), erule finish_error(3))
  show "handle_attach_kernel ho ops ct a sv w = (Error e, sv', w') \<Longrightarrow>
     \<not> connect_refused ho ''attach_kernel'' a (sv_session sv) \<Longrightarrow> fresh_after sv sv'"
    unfolding handle_attach_kernel_def
    by (rule connect_point_fresh [where begun = "kernel_begin ho a sv" and request = "\<lambda>c h. b_attach_kernel ops h c" and
          finish = "\<lambda>c f h w. kernel_finish c (fac_name f)", OF _ shapes(4) inv])
      (assumption, erule (1) start(4), erule finish_error(4))
qed

lemma refused_connects:
  "connect_refused ho ''launch'' a (sv_session sv) \<Longrightarrow> \<exists>e. handle_launch ho ops ct a sv w = (Error e, sv, w)"
  "connect_refused ho ''attach'' a (sv_session sv) \<Longrightarrow> \<exists>e. handle_attach ho ops ct a sv w = (Error e, sv, w)"
  "connect_refused ho ''open_crash_dump'' a (sv_session sv) \<Longrightarrow> \<exists>e. handle_open_crash_dump ho ops ct a sv w = (Error e, sv, w)"
  "connect_refused ho ''attach_kernel'' a (sv_session sv) \<Longrightarrow> \<exists>e. handle_attach_kernel ho ops ct a sv w = (Error e, sv, w)"
  by (auto dest!: refused_begins simp: handle_launch_def handle_attach_def handle_open_crash_dump_def handle_attach_kernel_def)

lemma connect_dispatch:
  "dispatch ho ops ct ''launch'' = handle_launch ho ops ct" "dispatch ho ops ct ''attach'' = handle_attach ho ops ct"
  "dispatch ho ops ct ''open_crash_dump'' = handle_open_crash_dump ho ops ct"
  "dispatch ho ops ct ''attach_kernel'' = handle_attach_kernel ho ops ct"
  by (simp_all add: dispatch_def)

text \<open>C11: \<open>launch\<close>, \<open>attach\<close>, \<open>open_crash_dump\<close> and \<open>attach_kernel\<close> change nothing when they refuse, which they do
  exactly when the session is not idle or an argument is missing or malformed (no program, arguments or environment that do
  not parse, no process to attach to, no dump path, a connection string that is not a KDNET one).  Every other failure (a
  backend that is not there, a failed connect, a failed or cancelled handshake) leaves a new session of the next generation
  and no debugger connected, never the session as it was.\<close>

theorem failed_connect_resets:
  assumes "name \<in> {''launch'', ''attach'', ''open_crash_dump'', ''attach_kernel''}" "server_inv sv"
  shows "(connect_refused ho name a (sv_session sv) \<longrightarrow> (\<exists>e. dispatch ho ops ct name a sv w = (Error e, sv, w))) \<and>
    (\<not> connect_refused ho name a (sv_session sv) \<longrightarrow> (\<forall>e sv' w'. dispatch ho ops ct name a sv w = (Error e, sv', w') \<longrightarrow>
       sv_session sv' = session_new\<lparr>s_generation := s_generation (sv_session sv) + 1\<rparr> \<and>
       sv_backend sv' = None \<and> sv_active_name sv' = None))"
proof -
  have "\<exists>e. dispatch ho ops ct name a sv w = (Error e, sv, w)" if "connect_refused ho name a (sv_session sv)"
    using assms(1) that by (elim insertE emptyE) (simp_all only: connect_dispatch refused_connects)
  moreover have "fresh_after sv sv'"
    if "\<not> connect_refused ho name a (sv_session sv)" "dispatch ho ops ct name a sv w = (Error e, sv', w')" for e sv' w'
    using assms(1) that
    by (elim insertE emptyE) (simp_all only: connect_dispatch, (rule connect_point_resets [OF assms(2)]; assumption)+)
  ultimately show ?thesis unfolding fresh_after_def by blast
qed

theorem failed_connect_resets_witness:
  "\<exists>e sv' w'. dispatch demo_host demo_ops None ''open_crash_dump'' [(''dump_path'', JStr ''a.dmp'')]
      demo_server True = (Error e, sv', w') \<and> s_generation (sv_session sv') = 1 \<and> sv_backend sv' = None"
proof -
  let ?a = "[(''dump_path'', JStr ''a.dmp'')]"
  let ?r = "dispatch demo_host demo_ops None ''open_crash_dump'' ?a demo_server True"
  have "\<exists>e sv' w'. ?r = (Error e, sv', w')"
    by (simp add: dispatch_def handle_open_crash_dump_def dump_begin_def demo_idle check_state_def
        require_string_def select_backend_def select_with_env_def select_name_def demo_host_def
        demo_server_def server_new_def demo_registry_def demo_factory_def register_def registry_new_def
        on_session_def hm_get_def hm_insert_def session_new_def set_state_def Let_def) blast
  then obtain e sv' w' where r: "?r = (Error e, sv', w')" by blast
  have tool: "''open_crash_dump'' \<in> {''launch'', ''attach'', ''open_crash_dump'', ''attach_kernel''}" by simp
  have asked: "\<not> connect_refused demo_host ''open_crash_dump'' ?a (sv_session demo_server)"
    by (simp add: connect_refused_def demo_idle require_string_def)
  have "s_generation (sv_session demo_server) = 0" by (simp add: demo_server_def server_new_def session_new_def)
  then show ?thesis
    using failed_connect_resets [OF tool demo_server_inv(1), THEN conjunct2, rule_format, OF asked r] r
    by (intro exI [of _ e] exI [of _ sv'] exI [of _ w']) (simp only: session.simps, simp)
qed

text \<open>Past its guard \<open>disconnect\<close> always succeeds: it asks the connected debugger to go and
  leaves a new session of the next generation.\<close>

theorem disconnect_resets:
  assumes "server_inv sv" "s_state (sv_session sv) \<noteq> Idle"
  shows "\<exists>sv'. handle_disconnect ops a sv w =
      (Json (JObj [(''status'', JStr ''disconnected'')]), sv',
       case sv_backend sv of Some h \<Rightarrow> b_disconnect ops h (get_bool a ''terminate'' True) w | None \<Rightarrow> w) \<and>
    sv_session sv' = session_new\<lparr>s_generation := s_generation (sv_session sv) + 1\<rparr> \<and>
    sv_backend sv' = None \<and> sv_active_name sv' = None"
proof -
  have "check_state [Configuring, Stopped, Running, Terminated] (sv_session sv) = Inr ()"
    using assms(2) by (cases "s_state (sv_session sv)") (auto simp: check_state_def)
  then show ?thesis
    using reset_eq [OF server_inv_session [OF assms(1)]]
    by (simp add: handle_disconnect_def disconnect_begin_def disconnect_finish_def on_session_def
        drop_backend_bounded_def rb_defs Let_def)
qed

theorem disconnect_resets_witness:
  "\<exists>out sv'. handle_disconnect demo_ops no_args demo_stopped False = (out, sv', True) \<and> sv_backend sv' = None"
  using disconnect_resets [OF demo_server_inv(2), of demo_ops no_args False]
  by (auto simp: demo_stopped_def set_state_def set_last_stopped_def demo_ops_def)

text \<open>\<open>launch\<close> hands every pending breakpoint to the debugger in its specification and moves
  them to the active lists before it connects.\<close>

theorem launch_flushes_pending:
  assumes "launch_begin ho a sv = (Inr (lp, factory), sv')" "server_inv sv"
  shows "ls_source_breakpoints (lp_spec lp) = s_pending_source_bps (sv_session sv) \<and>
    ls_function_breakpoints (lp_spec lp) = s_pending_function_bps (sv_session sv) \<and>
    s_state (sv_session sv') = Configuring \<and>
    s_pending_source_bps (sv_session sv') = [] \<and> s_pending_function_bps (sv_session sv') = [] \<and>
    source_breakpoints_for_file f (sv_session sv') =
      source_breakpoints_for_file f (sv_session sv) @ hm_list (s_pending_source_bps (sv_session sv)) f"
proof -
  have ok: "hm_ok (s_pending_source_bps (sv_session sv))"
    using assms(2) by (simp add: server_inv_def session_inv_def)
  show ?thesis
    using assms(1) flush_active_source [of "set_state Configuring (sv_session sv)" f] ok
    by (auto simp: launch_begin_def Let_def flush_pending_breakpoints_def set_state_def
        source_breakpoints_for_file_def split: tool_splits)
qed

theorem launch_flushes_pending_witness:
  "\<exists>lp sv'. launch_begin demo_host launch_args
      (on_session (add_pending_function_breakpoint ''main'' []) demo_server) = (Inr (lp, demo_factory), sv') \<and>
     ls_function_breakpoints (lp_spec lp) = [\<lparr>fb_name = ''main'', fb_condition = []\<rparr>]"
proof -
  let ?sv = "on_session (add_pending_function_breakpoint ''main'' []) demo_server"
  have "\<exists>lp sv'. launch_begin demo_host launch_args ?sv = (Inr (lp, demo_factory), sv')"
    by (simp add: launch_begin_def launch_args_def demo_defs check_state_def server_new_def
        session_new_def require_string_def parse_json_array_def parse_json_object_def get_string_def
        get_bool_def flush_pending_breakpoints_def set_state_def select_backend_def select_with_env_def
        select_name_def backend_select_def registry_new_def register_def
        add_pending_function_breakpoint_def hm_get_def hm_insert_def Let_def)
  then obtain lp sv' where l: "launch_begin demo_host launch_args ?sv = (Inr (lp, demo_factory), sv')"
    by blast
  have "server_inv ?sv" by (simp add: inv_intros demo_server_inv)
  from launch_flushes_pending [OF l this] have
    "ls_function_breakpoints (lp_spec lp) = s_pending_function_bps (sv_session ?sv)" by blast
  with l show ?thesis
    by (simp add: add_pending_function_breakpoint_def demo_server_def server_new_def session_new_def)
qed

text \<open>The success path of a connect point is not guarded by the generation: a launch that
  completes after its session was reset and its debugger dropped still makes the new session
  stopped, with no debugger connected.\<close>

theorem overtaken_launch_clobbers_idle:
  "s_state (sv_session demo_disconnected) = Idle \<and>
   (let sv = snd (launch_finish lp dpid (Some (Inr (LO_Stopped info))) demo_disconnected)
    in s_state (sv_session sv) = Stopped \<and> sv_backend sv = None)"
  by (simp add: launch_finish_def demo_disconnected_def session_new_def record_launch_def Let_def
      set_state_def set_last_stopped_def)

text \<open>The WinDbg connect points advertise a \<open>backend\<close> argument but never look at it.\<close>

theorem windbg_tools_ignore_backend_argument:
  assumes "map_of a ''dump_path'' = map_of a' ''dump_path''" "map_of a ''connection'' = map_of a' ''connection''"
  shows "handle_open_crash_dump ho ops ct a sv w = handle_open_crash_dump ho ops ct a' sv w \<and>
    handle_attach_kernel ho ops ct a sv w = handle_attach_kernel ho ops ct a' sv w"
proof -
  have "require_string a ''dump_path'' = require_string a' ''dump_path''"
      "require_string a ''connection'' = require_string a' ''connection''"
    using assms by (simp_all only: require_string_def)
  then have "dump_begin ho a sv = dump_begin ho a' sv" "kernel_begin ho a sv = kernel_begin ho a' sv"
    by (simp_all only: dump_begin_def kernel_begin_def)
  then show ?thesis by (simp only: handle_open_crash_dump_def handle_attach_kernel_def)
qed

theorem windbg_tools_ignore_backend_argument_witness:
  "handle_open_crash_dump demo_host demo_ops None [(''backend'', JStr ''lldb''), (''dump_path'', JStr ''a.dmp'')]
     demo_server True =
   handle_open_crash_dump demo_host demo_ops None [(''dump_path'', JStr ''a.dmp'')] demo_server True"
  by (rule conjunct1 [OF windbg_tools_ignore_backend_argument]) simp_all

section \<open>Crash dumps\<close>

text \<open>A session on a crash dump: stopped, and marked as a dump.\<close>

definition dump_session :: "('h, 'w) server \<Rightarrow> bool" where
  "dump_session sv \<longleftrightarrow> s_state (sv_session sv) = Stopped \<and> s_is_dump (sv_session sv)"

definition dump_tool :: "('h, 'w) handler \<Rightarrow> bool" where
  "dump_tool handler \<longleftrightarrow>
     (\<forall>a sv w out sv' w'. handler a sv w = (out, sv', w') \<longrightarrow> dump_session sv \<longrightarrow> dump_session sv')"

context guarded_tool
begin

lemma not_stopped_dump_tool: "Stopped \<notin> set allowed \<Longrightarrow> dump_tool handler"
  unfolding dump_tool_def dump_session_def by (metis rejects_iff_state prod.inject)

end

context reading_tool
begin

lemma reading_dump_tool: "dump_tool handler"
  unfolding dump_tool_def dump_session_def
proof (intro allI impI)
  fix a sv w out sv' w'
  assume "handler a sv w = (out, sv', w')" and d: "s_state (sv_session sv) = Stopped \<and> s_is_dump (sv_session sv)"
  from reads [OF this(1)] obtain m where "sv' = on_session (\<lambda>s. s\<lparr>s_frame_mapping := m\<rparr>) sv" by blast
  with d show "s_state (sv_session sv') = Stopped \<and> s_is_dump (sv_session sv')" by simp
qed

end

lemma resume_dump:
  "dump_session sv \<Longrightarrow> resume op msg kind ops ct a sv w = (Error DUMP_NO_CONTINUE, sv, w)"
  by (simp add: resume_def resume_begin_def dump_session_def check_state_def)

lemma resume_dump_tool: "dump_tool (resume op msg kind ops ct)"
  by (auto simp: dump_tool_def resume_dump)

lemma breakpoint_op_dump [simp]:
  "s_is_dump (snd (add_source_breakpoint f l c s)) = s_is_dump s"
  "s_is_dump (snd (add_function_breakpoint nm c s)) = s_is_dump s"
  "s_is_dump (add_breakpoint_response info s) = s_is_dump s"
  "s_is_dump (snd (remove_breakpoint_by_id i s)) = s_is_dump s"
  by (simp_all add: add_source_breakpoint_def add_function_breakpoint_def add_breakpoint_response_def
      remove_breakpoint_by_id_def Let_def split: option.split)

lemma breakpoint_dump_tools:
  "dump_tool (handle_set_breakpoint ops)" "dump_tool (handle_set_function_breakpoint ops)"
  "dump_tool (handle_remove_breakpoint ops)" "dump_tool handle_read_output"
  unfolding dump_tool_def dump_session_def
  by (auto simp: handle_set_breakpoint_def handle_set_function_breakpoint_def handle_remove_breakpoint_def
      handle_read_output_def Let_def check_state_def
      dest!: snd_eqD [of "remove_breakpoint_by_id _ _"] snd_eqD [of "drain_output _"] split: tool_splits)

lemma other_dump_tools:
  "dump_tool (handle_launch ho ops ct)" "dump_tool (handle_attach ho ops ct)"
  "dump_tool (handle_open_crash_dump ho ops ct)" "dump_tool (handle_attach_kernel ho ops ct)"
  "dump_tool (handle_continue ops ct)" "dump_tool (handle_step_over ops ct)"
  "dump_tool (handle_step_into ops ct)" "dump_tool (handle_step_out ops ct)"
  "dump_tool (\<lambda>a sv w. (Error m, sv, w))"
  by (simp_all add: launch_tool.not_stopped_dump_tool attach_tool.not_stopped_dump_tool
      open_crash_dump_tool.not_stopped_dump_tool attach_kernel_tool.not_stopped_dump_tool
      handle_continue_def handle_step_over_def handle_step_into_def handle_step_out_def
      resume_dump_tool) (simp add: dump_tool_def)

lemma dump_tool_if: "dump_tool f \<Longrightarrow> dump_tool g \<Longrightarrow> dump_tool (if b then f else g)"
  by simp

lemmas reading_dump_tools =
  pause_tool.reading_dump_tool status_tool.reading_dump_tool list_tool.reading_dump_tool
  threads_tool.reading_dump_tool backtrace_tool.reading_dump_tool run_command_tool.reading_dump_tool
  analyze_tool.reading_dump_tool modules_tool.reading_dump_tool memory_tool.reading_dump_tool
  disassemble_tool.reading_dump_tool evaluate_tool.reading_dump_tool variables_tool.reading_dump_tool

lemma dispatch_dump_tool: "name \<noteq> ''disconnect'' \<Longrightarrow> dump_tool (dispatch ho ops ct name)"
  unfolding dispatch_def
  by (simp only: if_False, intro dump_tool_if breakpoint_dump_tools other_dump_tools reading_dump_tools)

text \<open>C12: a crash-dump session is static: a resume answers that it cannot continue, without touching
  server or debugger, and no call but \<open>disconnect\<close> takes the session out of the stopped dump state.\<close>

theorem dump_session_is_static:
  assumes "s_state (sv_session sv) = Stopped" "s_is_dump (sv_session sv)"
    and "dispatch ho ops ct name a sv w = (out, sv', w')" "name \<noteq> ''disconnect''"
  shows "s_state (sv_session sv') = Stopped \<and> s_is_dump (sv_session sv') \<and>
    (name \<in> {''continue'', ''step_over'', ''step_into'', ''step_out''} \<longrightarrow>
       out = Error ''cannot continue a crash-dump session'' \<and> sv' = sv \<and> w' = w)"
proof -
  have d: "dump_session sv" using assms(1,2) by (simp add: dump_session_def)
  have "dump_session sv'"
    using dispatch_dump_tool [OF assms(4), of ho ops ct] assms(3) d unfolding dump_tool_def by blast
  moreover have "out = Error DUMP_NO_CONTINUE \<and> sv' = sv \<and> w' = w"
    if "name \<in> {''continue'', ''step_over'', ''step_into'', ''step_out''}"
    using that assms(3) resume_dump [OF d]
    by (auto simp: dispatch_def handle_continue_def handle_step_over_def handle_step_into_def handle_step_out_def)
  ultimately show ?thesis by (simp add: dump_session_def DUMP_NO_CONTINUE_def)
qed

theorem dump_session_is_static_witness:
  "dispatch demo_host demo_ops None ''continue'' no_args (on_session (set_dump True) demo_stopped) False =
     (Error ''cannot continue a crash-dump session'', on_session (set_dump True) demo_stopped, False)"
proof -
  let ?sv = "on_session (set_dump True) demo_stopped"
  have "s_state (sv_session ?sv) = Stopped" "s_is_dump (sv_session ?sv)"
    by (simp_all add: demo_stopped_def set_dump_def set_state_def set_last_stopped_def)
  from dump_session_is_static [OF this, of demo_host demo_ops None "''continue''" no_args False]
  show ?thesis
    by (cases "dispatch demo_host demo_ops None ''continue'' no_args ?sv False") auto
qed

end
