(* ===== verification/Breakpoint_Properties.thy ===== *)
theory Breakpoint_Properties
  imports Server_Properties
begin

text \<open>The properties of the breakpoint tools.\<close>

text \<open>C5: the breakpoint tools are transactional: whenever one of them answers with an error (a bad
  argument, no debugger, a refused request, a rejected location, an empty response, an unknown
  id), the tracked breakpoints and the rest of the server are unchanged.\<close>

theorem breakpoint_errors_change_nothing:
  assumes "name \<in> {''set_breakpoint'', ''set_function_breakpoint'', ''remove_breakpoint''}"
    and "dispatch ho ops ct name a sv w = (Error e, sv', w')"
  shows "sv' = sv"
proof -
  have remove: "remove_breakpoint_by_id i s = (Inl x, s') \<Longrightarrow> s' = s" for i s x s'
    by (auto simp: remove_breakpoint_by_id_def Let_def split: option.splits if_splits)
  have "handle_set_breakpoint ops a sv w = (Error e, sv', w') \<Longrightarrow> sv' = sv"
    by (auto simp: handle_set_breakpoint_def pending_source_response_def rb_into_outcome_def Let_def
        split: tool_splits)
  moreover have "handle_set_function_breakpoint ops a sv w = (Error e, sv', w') \<Longrightarrow> sv' = sv"
    by (auto simp: handle_set_function_breakpoint_def Let_def split: tool_splits)
  moreover have "handle_remove_breakpoint ops a sv w = (Error e, sv', w') \<Longrightarrow> sv' = sv"
    by (auto simp: handle_remove_breakpoint_def Let_def dest!: remove split: tool_splits)
  ultimately show ?thesis using assms by (auto simp: dispatch_def)
qed

definition line_args :: "string \<Rightarrow> nat \<Rightarrow> args" where
  "line_args file line = [(''file'', JStr file), (''line'', json_nat line)]"

definition id_args :: "nat \<Rightarrow> args" where
  "id_args i = [(''breakpoint_id'', json_nat i)]"

lemma line_args_read:
  "require_string (line_args f n) ''file'' = Inr f"
  "0 < n \<Longrightarrow> n < 2 ^ 53 \<Longrightarrow> require_positive_int (line_args f n) ''line'' = Inr (int n)"
  "get_string (line_args f n) ''condition'' [] = []"
proof -
  show "require_positive_int (line_args f n) ''line'' = Inr (int n)" if "0 < n" "n < 2 ^ 53"
    using require_int_exact [of "int n" "line_args f n" "''line''"] that
    by (simp add: require_positive_int_def line_args_def json_nat_def json_int_def)
qed (simp_all add: line_args_def require_string_def get_string_def)

lemma id_args_read: "n < 2 ^ 53 \<Longrightarrow> require_int (id_args n) ''breakpoint_id'' = Inr (int n)"
  using require_int_exact [of "int n" "id_args n" "''breakpoint_id''"]
  by (simp add: id_args_def json_nat_def json_int_def)

theorem breakpoint_errors_change_nothing_witness:
  "\<exists>e. dispatch demo_host demo_ops None ''set_breakpoint'' (line_args ''a.c'' 3) demo_stopped True =
     (Error e, demo_stopped, True)"
proof -
  let ?r = "dispatch demo_host demo_ops None ''set_breakpoint'' (line_args ''a.c'' 3) demo_stopped True"
  have "\<exists>e sv'. ?r = (Error e, sv', True)"
    by (simp add: dispatch_def handle_set_breakpoint_def line_args_read check_state_def demo_stopped_def
        set_state_def set_last_stopped_def demo_ops_def demo_answer_def Let_def)
  then obtain e sv' where r: "?r = (Error e, sv', True)" by blast
  from breakpoint_errors_change_nothing [OF _ r] r show ?thesis by simp
qed

text \<open>A \<open>set_breakpoint\<close> in a stopped session sends the file's tracked list with the new entry
  behind it; when the debugger accepts, exactly that list is tracked, and the matched answer (the
  first on the requested line, else the last) is recorded under its id.\<close>

theorem set_breakpoint_tracks:
  assumes "s_state (sv_session sv) = Stopped" "sv_backend sv = Some h"
    and "require_string a ''file'' = Inr file" "require_positive_int a ''line'' = Inr line"
    and "get_string a ''condition'' [] = cond"
    and "b_set_source_breakpoints ops h file
           (source_breakpoints_for_file file (sv_session sv) @ [\<lparr>sb_line = line, sb_condition = cond\<rparr>]) w
           = (Inr results, w')"
    and "match_breakpoint line results = Some m"
  shows "\<exists>v sv'. handle_set_breakpoint ops a sv w = (Json v, sv', w') \<and>
    jget v ''breakpoint_id'' = Some (json_int (br_id m)) \<and>
    (\<forall>f. source_breakpoints_for_file f (sv_session sv') =
      source_breakpoints_for_file f (sv_session sv) @
        (if f = file then [\<lparr>sb_line = line, sb_condition = cond\<rparr>] else [])) \<and>
    (\<forall>i. breakpoint_info_of i (sv_session sv') =
      (if i = br_id m then Some \<lparr>bi_id = br_id m, bi_ty = ''source'', bi_file = file,
           bi_line = br_line m, bi_function = [], bi_condition = cond, bi_verified = br_verified m\<rparr>
       else breakpoint_info_of i (sv_session sv)))"
  using assms
  by (auto simp: handle_set_breakpoint_def check_state_def add_source_breakpoint_def
      add_breakpoint_response_def source_breakpoints_for_file_def breakpoint_info_of_def rb_defs Let_def)

lemma demo_stopped_facts:
  "s_state (sv_session demo_stopped) = Stopped" "sv_backend demo_stopped = Some ()"
  "s_source_bps (sv_session demo_stopped) = []" "s_function_bps (sv_session demo_stopped) = []"
  by (simp_all add: demo_stopped_def demo_server_def server_new_def set_state_def set_last_stopped_def
      session_new_def)

theorem set_breakpoint_tracks_witness:
  "\<exists>v sv'. handle_set_breakpoint demo_ops (line_args ''a.c'' 3) demo_stopped False = (Json v, sv', False) \<and>
     source_breakpoints_for_file ''a.c'' (sv_session sv') = [\<lparr>sb_line = 3, sb_condition = []\<rparr>]"
proof -
  have line: "require_positive_int (line_args ''a.c'' 3) ''line'' = Inr 3"
    using line_args_read(2) [of 3 "''a.c''"] by simp
  have empty: "source_breakpoints_for_file ''a.c'' (sv_session demo_stopped) = []"
    by (simp add: source_breakpoints_for_file_def demo_stopped_facts)
  have "b_set_source_breakpoints demo_ops () ''a.c''
      (source_breakpoints_for_file ''a.c'' (sv_session demo_stopped) @ [\<lparr>sb_line = 3, sb_condition = []\<rparr>]) False
      = (Inr [demo_place 1 3], False)"
    by (simp add: empty demo_ops_def demo_answer_def)
  moreover have "match_breakpoint 3 [demo_place 1 3] = Some (demo_place 1 3)"
    by (simp add: match_breakpoint_def demo_place_def)
  ultimately show ?thesis
    using set_breakpoint_tracks [OF demo_stopped_facts(1,2) line_args_read(1) line line_args_read(3),
        of demo_ops False "[demo_place 1 3]" False "demo_place 1 3"]
    by (auto simp: empty)
qed

text \<open>C16: when a breakpoint's recorded line differs from every line its file is tracked under (the
  debugger had moved it), removing it reports success and forgets the record, but sends and keeps
  the list unchanged: the breakpoint stays set.\<close>

theorem remove_after_move_keeps_breakpoint:
  assumes "s_state (sv_session sv) = Stopped" "sv_backend sv = Some h"
    and "require_int a ''breakpoint_id'' = Inr i"
    and "breakpoint_info_of i (sv_session sv) = Some info" "bi_ty info = ''source''"
    and "\<forall>bp \<in> set (source_breakpoints_for_file (bi_file info) (sv_session sv)). sb_line bp \<noteq> bi_line info"
    and "b_set_source_breakpoints ops h (bi_file info)
           (source_breakpoints_for_file (bi_file info) (sv_session sv)) w = (Inr results, w')"
  shows "\<exists>v sv'. handle_remove_breakpoint ops a sv w = (Json v, sv', w') \<and>
    jget v ''removed'' = Some (JBool True) \<and> breakpoint_info_of i (sv_session sv') = None \<and>
    source_breakpoints_for_file (bi_file info) (sv_session sv') =
      source_breakpoints_for_file (bi_file info) (sv_session sv)"
proof -
  have same: "remaining_source_breakpoints (source_breakpoints_for_file (bi_file info) (sv_session sv)) info
      = source_breakpoints_for_file (bi_file info) (sv_session sv)"
    using assms(6) by (simp add: remaining_source_breakpoints_def remove_position_eq remove_first_none)
  obtain r s' where r: "remove_breakpoint_by_id i (sv_session sv) = (Inr r, s')"
      "breakpoint_info_of i s' = None"
      "source_breakpoints_for_file (bi_file info) s' = source_breakpoints_for_file (bi_file info) (sv_session sv)"
    using assms(4-6)
    by (auto simp: remove_breakpoint_by_id_def breakpoint_info_of_def source_breakpoints_for_file_def
        hm_list_def remove_position_eq remove_first_none Let_def split: option.splits)
  have "handle_remove_breakpoint ops a sv w =
      (resp [(''removed'', JBool True), (''breakpoint_id'', json_int i)], sv\<lparr>sv_session := s'\<rparr>, w')"
    using assms(1-5,7) r(1)
    by (simp add: handle_remove_breakpoint_def check_state_def send_remaining_def same)
  with r show ?thesis by (auto simp: rb_defs)
qed

text \<open>A debugger that places a breakpoint one line further down.\<close>

definition moving_ops :: "(unit, bool) backend_ops" where
  "moving_ops = demo_ops\<lparr>b_set_source_breakpoints :=
     (\<lambda>h file bps. demo_answer (map (\<lambda>(i, b). demo_place (int i) (sb_line b + 1)) (enumerate 1 bps)))\<rparr>"

definition moved_server :: "(unit, bool) server" where
  "moved_server = on_session
     (add_breakpoint_response \<lparr>bi_id = 1, bi_ty = ''source'', bi_file = ''a.c'', bi_line = 4,
        bi_function = [], bi_condition = [], bi_verified = True\<rparr>
      \<circ> (\<lambda>s. snd (add_source_breakpoint ''a.c'' 3 [] s))) demo_stopped"

theorem remove_after_move_keeps_breakpoint_witness:
  "(\<exists>v. handle_set_breakpoint moving_ops (line_args ''a.c'' 3) demo_stopped False = (Json v, moved_server, False)) \<and>
   (\<exists>v sv'. handle_remove_breakpoint moving_ops (id_args 1) moved_server False = (Json v, sv', False) \<and>
      jget v ''removed'' = Some (JBool True) \<and>
      source_breakpoints_for_file ''a.c'' (sv_session sv') = [\<lparr>sb_line = 3, sb_condition = []\<rparr>])"
proof
  have line: "require_positive_int (line_args ''a.c'' 3) ''line'' = Inr 3"
    using line_args_read(2) [of 3 "''a.c''"] by simp
  show "\<exists>v. handle_set_breakpoint moving_ops (line_args ''a.c'' 3) demo_stopped False =
      (Json v, moved_server, False)"
    by (simp add: handle_set_breakpoint_def line_args_read line check_state_def demo_stopped_facts
        moving_ops_def demo_answer_def source_breakpoints_for_file_def match_breakpoint_def demo_place_def
        moved_server_def on_session_def rb_into_outcome_def Let_def)
  have tracked: "source_breakpoints_for_file ''a.c'' (sv_session moved_server) = [\<lparr>sb_line = 3, sb_condition = []\<rparr>]"
    by (simp add: moved_server_def source_breakpoints_for_file_def add_source_breakpoint_def
        add_breakpoint_response_def demo_stopped_facts Let_def)
  have st: "s_state (sv_session moved_server) = Stopped" "sv_backend moved_server = Some ()"
    by (simp_all add: moved_server_def demo_stopped_facts)
  have i: "require_int (id_args 1) ''breakpoint_id'' = Inr 1" using id_args_read [of 1] by simp
  have info: "breakpoint_info_of 1 (sv_session moved_server) =
      Some \<lparr>bi_id = 1, bi_ty = ''source'', bi_file = ''a.c'', bi_line = 4, bi_function = [],
        bi_condition = [], bi_verified = True\<rparr>"
    by (simp add: moved_server_def breakpoint_info_of_def add_breakpoint_response_def)
  have "b_set_source_breakpoints moving_ops () ''a.c'' [\<lparr>sb_line = 3, sb_condition = []\<rparr>] False =
      (Inr [demo_place 1 4], False)"
    by (simp add: moving_ops_def demo_answer_def)
  with remove_after_move_keeps_breakpoint [OF st i info, of moving_ops False "[demo_place 1 4]" False] tracked
  show "\<exists>v sv'. handle_remove_breakpoint moving_ops (id_args 1) moved_server False = (Json v, sv', False) \<and>
      jget v ''removed'' = Some (JBool True) \<and>
      source_breakpoints_for_file ''a.c'' (sv_session sv') = [\<lparr>sb_line = 3, sb_condition = []\<rparr>]"
    by auto
qed

end
