(* ===== verification/Inspection_Properties.thy ===== *)
theory Inspection_Properties
  imports Server_Properties
begin

text \<open>
  The properties of the tools that read the debuggee and of what they are made of: the frame map,
  the variable flattener, the formatters, the argument accessor, the error texts, the registry and
  the advertised tools.
\<close>

section \<open>Reading tools\<close>

definition reading_tools :: "string set" where
  "reading_tools = {''pause'', ''status'', ''list_breakpoints'', ''threads'', ''backtrace'',
     ''variables'', ''evaluate'', ''read_memory'', ''disassemble'', ''run_command'',
     ''analyze_crash'', ''get_modules''}"

text \<open>A tool that only looks at the debuggee changes nothing of the server but the frame map:
  state, generation, breakpoints, output and the connected debugger stay, whatever it answers.\<close>

theorem reading_tools_change_only_frames:
  assumes "name \<in> reading_tools" "dispatch ho ops ct name a sv w = (out, sv', w')"
  shows "sv' = on_session (\<lambda>s. s\<lparr>s_frame_mapping := s_frame_mapping (sv_session sv')\<rparr>) sv"
  using assms unfolding reading_tools_def
  by (elim insertE emptyE) (simp_all add: dispatch_def,
      (erule pause_tool.reads | erule status_tool.reads | erule list_tool.reads | erule threads_tool.reads
       | erule backtrace_tool.reads | erule variables_tool.reads | erule evaluate_tool.reads
       | erule memory_tool.reads | erule disassemble_tool.reads | erule run_command_tool.reads
       | erule analyze_tool.reads | erule modules_tool.reads)+)

theorem reading_tools_change_only_frames_witness:
  "\<exists>out sv' w'. dispatch demo_host demo_ops None ''backtrace'' no_args demo_stopped False = (out, sv', w') \<and>
     s_state (sv_session sv') = Stopped"
proof -
  obtain out sv' w' where r: "dispatch demo_host demo_ops None ''backtrace'' no_args demo_stopped False = (out, sv', w')"
    by (rule prod_cases3)
  have "sv' = on_session (\<lambda>s. s\<lparr>s_frame_mapping := s_frame_mapping (sv_session sv')\<rparr>) demo_stopped"
    by (rule reading_tools_change_only_frames [OF _ r]) (simp add: reading_tools_def)
  moreover have "s_state (sv_session demo_stopped) = Stopped"
    by (simp add: demo_stopped_def set_state_def set_last_stopped_def)
  ultimately have "s_state (sv_session sv') = Stopped"
    by (metis server_simps(1) session.select_convs(1) session.surjective session.update_convs(8))
  with r show ?thesis by blast
qed

text \<open>\<open>backtrace\<close> and the implicit stack trace build the same map (the id of the last frame with
  an index), and a frame index that resolved once resolves again, to the same id, without another
  request to the debugger.\<close>

theorem frame_resolution_is_cached:
  assumes "resolve_frame_id ops h i s w = (Inr fid, s', w')"
  shows "resolve_frame_id ops' h' i s' w'' = (Inr fid, s', w'') \<and>
    s' = s\<lparr>s_frame_mapping := s_frame_mapping s'\<rparr> \<and>
    hm_get (frames_mapping frames) j = map_option fr_id (find (\<lambda>f. fr_index f = j) (rev frames))"
  using resolve_frame_id_frame [OF assms] frames_mapping_get [of frames j] assms
  by (auto simp: resolve_frame_id_def Let_def set_frame_mapping_def
      split: option.splits prod.splits sum.splits)

theorem frame_resolution_is_cached_witness:
  "\<exists>s'. resolve_frame_id demo_ops () 0 session_new False = (Inr 1000, s', False) \<and>
     resolve_frame_id demo_ops () 0 s' True = (Inr 1000, s', True)"
proof -
  have "\<exists>s'. resolve_frame_id demo_ops () 0 session_new False = (Inr 1000, s', False)"
    by (simp add: resolve_frame_id_def session_new_def demo_ops_def demo_answer_def demo_frame_def
        frames_mapping_def hm_insert_def hm_get_def Let_def)
  then obtain s' where r: "resolve_frame_id demo_ops () 0 session_new False = (Inr 1000, s', False)" by blast
  from frame_resolution_is_cached [OF this, of demo_ops "()" True "[]" 0] r show ?thesis by blast
qed

section \<open>Flattening variables\<close>

text \<open>C6: whatever the debugger answers, even references that form a cycle, flattening ends after
  at most \<open>max_count\<close> requests and returns at most \<open>max_count\<close> entries, marked as truncated
  exactly when it returns that many.  (\<open>max_count\<close> is 100 in the \<open>variables\<close> tool.)\<close>

theorem flatten_is_bounded:
  assumes "0 < max_count"
    and "flatten_variables lower (\<lambda>r (w, n). (let (x, w') = fetch r w in (x, (w', Suc n))))
           ref depth max_count flt (w, 0) = (res, (w', requests))"
  shows "requests \<le> max_count \<and>
    (case res of Inl e \<Rightarrow> True
     | Inr (result, truncated) \<Rightarrow> length result \<le> max_count \<and> (truncated \<longleftrightarrow> length result = max_count))"
proof -
  let ?fetch = "\<lambda>r (w, n). (let (x, w') = fetch r w in (x, (w', Suc n)))"
  have cnt: "\<forall>r w. snd (snd (?fetch r w)) \<le> Suc (snd w)"
    by (auto simp: split_beta Let_def)
  note b = flatten_variables_bound [OF cnt assms(1), of lower ref depth flt "(w, 0)"]
  show ?thesis
    using b(1) b(2) assms(2) by (cases res) auto
qed

text \<open>A reference that lists itself: \<open>demo_variables 1\<close> has a child whose reference is 1.\<close>

theorem flatten_is_bounded_witness:
  "\<exists>res w' n. flatten_variables (\<lambda>s. s) (\<lambda>r (w, n). (let (x, w') = b_variables demo_ops () r w in (x, (w', Suc n))))
      1 1000 3 [] (False, 0) = (res, (w', n)) \<and> n \<le> 3"
proof -
  obtain res w' n where r: "flatten_variables (\<lambda>s. s)
      (\<lambda>r (w, n). (let (x, w') = b_variables demo_ops () r w in (x, (w', Suc n)))) 1 1000 3 [] (False, 0) = (res, (w', n))"
    by (metis surj_pair)
  with flatten_is_bounded [OF _ r] show ?thesis by auto
qed

text \<open>C10: when the debugger answers every reference consistently, the result is the first
  \<open>max_count\<close> nodes, in preorder, of the tree below the requested reference cut at \<open>depth\<close>: the
  filter selects among the top-level variables only, nested names are dotted paths, and a container
  at the cut is marked with its number of children.\<close>

theorem flatten_is_preorder_prefix:
  "0 < max_count \<Longrightarrow>
   flatten_variables lower (\<lambda>r w. (Inr (kids r), w)) ref depth max_count flt w =
     (let nodes = flat_tree kids (\<lambda>n. n) depth (filter (filter_matches lower flt) (kids ref))
      in (Inr (take max_count nodes, max_count \<le> length nodes), w))"
  by (rule flatten_variables_tree)

theorem flatten_is_preorder_prefix_witness:
  "\<exists>rest. flatten_variables (\<lambda>s. s) (\<lambda>r w. (Inr (demo_variables r), w)) 1 1 3 [] () =
     (Inr (rest, True), ()) \<and> map fv_name rest = [''x'', ''node'', ''node.x'']"
  using flatten_is_preorder_prefix [of 3 "\<lambda>s. s" demo_variables 1 1 "[]" "()"]
  by (simp add: demo_variables_def filter_matches_def flat_new_def flat_collapsed_def Let_def numeral_3_eq_3)

section \<open>Formatters\<close>

text \<open>A hex dump is the rows at offsets 0, 16, 32 and so on joined by newlines, each row the
  address plus offset (modulo \<open>2^64\<close>), 49 columns of bytes and 16 of text.\<close>

theorem hex_dump_layout:
  "format_hex_dump data a = join_with [CHR 0x0A] (map (hex_row data a) (row_offsets (length data))) \<and>
   (\<exists>bytes gutter. hex_row data a off =
      ''0x'' @ show_hex_pad 8 (unat (a + of_nat off)) @ '': '' @ bytes @ '' |'' @ gutter @ ''|'' \<and>
      length bytes = 49 \<and> length gutter = 16)"
  using format_hex_dump_rows [of data a] hex_row_shape [of data a off] by blast

text \<open>Drained output is grouped by category without losing or reordering text: a key holds the
  texts of its category in order, \<open>console\<close> takes every category that is neither \<open>stdout\<close> nor
  \<open>stderr\<close>, and a category with no text has no key.\<close>

theorem output_grouping:
  "es \<noteq> [] \<Longrightarrow>
   jget (format_output_entries es) ''count'' = Some (json_nat (length es)) \<and>
   jget (format_output_entries es) ''stdout'' =
     (let t = of_category (\<lambda>c. c = ''stdout'') es in if t = [] then None else Some (JStr t)) \<and>
   jget (format_output_entries es) ''stderr'' =
     (let t = of_category (\<lambda>c. c = ''stderr'') es in if t = [] then None else Some (JStr t)) \<and>
   jget (format_output_entries es) ''console'' =
     (let t = of_category (\<lambda>c. c \<noteq> ''stdout'' \<and> c \<noteq> ''stderr'') es
      in if t = [] then None else Some (JStr t))"
  by (intro conjI format_output_lookup)

theorem output_grouping_witness:
  "jget (format_output_entries
      [\<lparr>oe_category = ''telemetry'', oe_text = ''a''\<rparr>, \<lparr>oe_category = ''console'', oe_text = ''b''\<rparr>])
     ''console'' = Some (JStr ''ab'')"
  using output_grouping [of "[\<lparr>oe_category = ''telemetry'', oe_text = ''a''\<rparr>, \<lparr>oe_category = ''console'', oe_text = ''b''\<rparr>]"]
  by (simp add: of_category_def)

section \<open>Arguments and error texts\<close>

text \<open>A positive integer argument that is accepted lies between 1 and \<open>2^63 - 1\<close>, and every
  positive integer below \<open>2^53\<close> is accepted with its exact value.\<close>

theorem positive_argument:
  "(require_positive_int a key = Inr i \<longrightarrow> 0 < i \<and> i \<le> i64_max) \<and>
   (0 < j \<and> j < 2 ^ 53 \<and> map_of a key = Some (json_int j) \<longrightarrow> require_positive_int a key = Inr j)"
proof (intro conjI impI)
  assume "0 < j \<and> j < 2 ^ 53 \<and> map_of a key = Some (json_int j)"
  with require_int_exact [of j a key] show "require_positive_int a key = Inr j"
    by (simp only: require_positive_int_def) simp
qed (simp_all add: require_positive_int_bounds)

theorem positive_argument_witness: "require_positive_int [(''line'', json_int 12)] ''line'' = Inr 12"
  using positive_argument [of "[(''line'', json_int 12)]" "''line''" 0 12] by simp

text \<open>Beyond 53 bits an integer argument is rounded, because it passes through a double: the
  breakpoint id \<open>2^53 + 1\<close> is read as \<open>2^53\<close>.\<close>

theorem large_argument_is_rounded:
  "require_int [(''breakpoint_id'', json_int 9007199254740993)] ''breakpoint_id'' = Inr 9007199254740992"
proof -
  have bits: "bit_len 9007199254740993 = 54" by (simp add: bit_len.simps)
  then have "round_f64 9007199254740993 = 9007199254740992"
    by (simp add: round_f64_def Let_def)
  then show ?thesis
    using trunc_rat_of_nat [of 9007199254740992]
    by (simp add: require_int_def json_int_def f64_as_i64_def i64_min_def i64_max_def)
qed

text \<open>The two messages the DAP layer builds for a failed operation keep their detail under the
  call site's own wording: a transport failure always, a refusal as long as its detail does not
  itself contain the text \<open> request failed: \<close>.\<close>

theorem error_detail_is_kept:
  assumes "CHR '' '' \<notin> set opn"
    and "str_find '' request failed: '' (opn @ '' failed: '' @ inner) = None"
  shows "op_render op (Dap (opn @ '' request failed: '' @ detail)) = oe_request_failed op @ detail \<and>
    op_render op (Dap (opn @ '' failed: '' @ inner)) = oe_failed op @ inner"
  using render_dap_request_failed [OF assms(1), of op detail] render_dap_failed [OF assms, of op]
  by simp

theorem error_detail_is_kept_witness:
  "op_render RUN_COMMAND (Dap ''evaluate failed: no such command'') = ''command failed: no such command''"
proof -
  have "str_find '' request failed: '' (''evaluate'' @ '' failed: '' @ ''no such command'') = None"
    by code_simp
  with error_detail_is_kept [of "''evaluate''" "''no such command''" RUN_COMMAND]
  show ?thesis by (simp add: RUN_COMMAND_def)
qed

text \<open>Without that condition detail is lost: a refusal whose message mentions a failed request
  is reported as a transport failure, without the part before it.\<close>

theorem error_detail_can_be_lost:
  "op_render EVALUATE (Dap ''evaluate failed: expression: host request failed: timeout'') =
     ''evaluate request failed: timeout''"
  using render_dap_loses_detail by simp

section \<open>Backend selection and advertised tools\<close>

text \<open>A call selects its backend by its own argument, else by the environment, else by the
  default, an empty name counting as absent; it gets the last factory registered under that name,
  and an error exactly when there is none.\<close>

theorem backend_selection:
  "select_with_env (fold register fs (registry_new d)) requested env_value =
     (let name = (case nonempty requested of Some n \<Rightarrow> n
                  | None \<Rightarrow> (case nonempty env_value of Some n \<Rightarrow> n | None \<Rightarrow> d))
      in case find (\<lambda>f. fac_name f = name) (rev fs) of
           Some f \<Rightarrow> Inr f
         | None \<Rightarrow> Inl (''unknown backend '' @ sq # name @ sq # ''; available: '' @
                      comma_list (fold register fs (registry_new d))))"
proof -
  have "reg_default_name (fold register fs reg) = reg_default_name reg" for reg :: "('a, 'b) registry"
    by (induction fs arbitrary: reg) (simp_all add: register_def Let_def)
  then show ?thesis
    by (simp add: select_with_env_def select_name_def registrations_lookup registry_new_def Let_def
        split: option.split)
qed

text \<open>A capability-gated tool is advertised exactly when some registered backend has the
  capability, the 21 base tools always, no name twice, and no other tool.\<close>

theorem advertised_tools:
  "let names = map tl_name (server_tools (server_new s (fold register fs (registry_new d))))
   in distinct names \<and>
    set names = set base_tool_names \<union>
      (if \<exists>f \<in> set fs. cap_crash_dump (fac_capabilities f) then {''open_crash_dump''} else {}) \<union>
      (if \<exists>f \<in> set fs. cap_kernel (fac_capabilities f) then {''attach_kernel''} else {}) \<union>
      (if \<exists>f \<in> set fs. cap_analyze (fac_capabilities f) then {''analyze_crash''} else {}) \<union>
      (if \<exists>f \<in> set fs. cap_modules (fac_capabilities f) then {''get_modules''} else {}) \<and>
    length base_tool_names = 21"
proof -
  have caps: "reg_capabilities (fold register fs (registry_new d)) = foldr sup (map fac_capabilities fs) bot"
    by (simp add: registrations_capabilities registry_new_def)
  have "set (map tl_name (all_tools (foldr sup (map fac_capabilities fs) bot))) = set base_tool_names \<union>
      (if \<exists>f \<in> set fs. cap_crash_dump (fac_capabilities f) then {''open_crash_dump''} else {}) \<union>
      (if \<exists>f \<in> set fs. cap_kernel (fac_capabilities f) then {''attach_kernel''} else {}) \<union>
      (if \<exists>f \<in> set fs. cap_analyze (fac_capabilities f) then {''analyze_crash''} else {}) \<union>
      (if \<exists>f \<in> set fs. cap_modules (fac_capabilities f) then {''get_modules''} else {})"
    unfolding all_tool_names by (simp add: foldr_sup_iff)
  moreover have "length base_tool_names = 21" by (simp add: base_tool_names_eq)
  ultimately show ?thesis
    using distinct_tool_names by (simp only: Let_def server_tools_def server_new_def server.select_convs caps)
qed

end
