(* ===== verification/Text.thy ===== *)
theory Text
  imports Prelude
begin

text \<open>
  Texts as Rust's \<open>str\<close> has them: well-formed UTF-8 over lists of bytes, and the trimming functions,
  which remove the characters with the Unicode property \<open>White_Space\<close>.
\<close>

text \<open>Well-formed UTF-8.\<close>

definition continuation :: "char \<Rightarrow> bool" where
  "continuation c \<longleftrightarrow> 0x80 \<le> (of_char c :: nat) \<and> (of_char c :: nat) \<le> 0xBF"

fun utf8_step :: "string \<Rightarrow> nat option" where
  "utf8_step [] = None"
| "utf8_step (c # cs) =
     (let b = of_char c :: nat; k = (\<lambda>i. i < length cs \<and> continuation (cs ! i));
          b1 = (if cs = [] then 0 else of_char (hd cs) :: nat)
      in if b < 0x80 then Some 1
         else if 0xC2 \<le> b \<and> b \<le> 0xDF \<and> k 0 then Some 2
         else if 0xE0 \<le> b \<and> b \<le> 0xEF \<and> k 0 \<and> k 1 \<and>
                 (b = 0xE0 \<longrightarrow> 0xA0 \<le> b1) \<and> (b = 0xED \<longrightarrow> b1 \<le> 0x9F) then Some 3
         else if 0xF0 \<le> b \<and> b \<le> 0xF4 \<and> k 0 \<and> k 1 \<and> k 2 \<and>
                 (b = 0xF0 \<longrightarrow> 0x90 \<le> b1) \<and> (b = 0xF4 \<longrightarrow> b1 \<le> 0x8F) then Some 4
         else None)"

lemma utf8_step_pos: "utf8_step s = Some n \<Longrightarrow> 0 < n"
  by (cases s) (auto simp: Let_def split: if_splits)

function utf8 :: "string \<Rightarrow> bool" where
  "utf8 s = (if s = [] then True
             else case utf8_step s of None \<Rightarrow> False | Some n \<Rightarrow> utf8 (drop n s))"
  by pat_completeness auto
termination
  by (relation "measure length") (auto dest: utf8_step_pos)

declare utf8.simps [simp del]

text \<open>
  \<open>from_utf8_lossy\<close>: a longest prefix of a character that is broken off is replaced by U+FFFD.
\<close>

definition broken_len :: "string \<Rightarrow> nat" where
  "broken_len s =
     (let b = of_char (hd s) :: nat; cs = tl s; k = (\<lambda>i. i < length cs \<and> continuation (cs ! i));
          b1 = (if cs = [] then 0 else of_char (hd cs) :: nat)
      in if 0xE0 \<le> b \<and> b \<le> 0xEF \<and> k 0 \<and> (b = 0xE0 \<longrightarrow> 0xA0 \<le> b1) \<and> (b = 0xED \<longrightarrow> b1 \<le> 0x9F) then 2
         else if 0xF0 \<le> b \<and> b \<le> 0xF4 \<and> k 0 \<and> (b = 0xF0 \<longrightarrow> 0x90 \<le> b1) \<and> (b = 0xF4 \<longrightarrow> b1 \<le> 0x8F)
              then (if k 1 then 3 else 2)
         else 1)"

lemma broken_len_pos: "0 < broken_len s"
  by (simp add: broken_len_def Let_def)

function utf8_lossy :: "string \<Rightarrow> string" where
  "utf8_lossy s =
     (if s = [] then []
      else case utf8_step s of
             Some n \<Rightarrow> take n s @ utf8_lossy (drop n s)
           | None \<Rightarrow> [CHR 0xEF, CHR 0xBF, CHR 0xBD] @ utf8_lossy (drop (broken_len s) s))"
  by pat_completeness auto
termination
  by (relation "measure length") (auto dest: utf8_step_pos simp: broken_len_pos)

declare utf8_lossy.simps [simp del]

lemma utf8_lossy_id: "utf8 s \<Longrightarrow> utf8_lossy s = s"
proof (induction s rule: utf8.induct)
  case (1 s)
  then show ?case
    by (subst utf8_lossy.simps) (auto simp: utf8.simps [of s] split: option.splits if_splits)
qed

text \<open>\<open>trim\<close>: the characters with the Unicode property \<open>White_Space\<close>, as UTF-8.\<close>

definition white_space :: "string list" where
  "white_space =
     [[CHR 0x20], [CHR 0x09], [CHR 0x0A], [CHR 0x0B], [CHR 0x0C], [CHR 0x0D],
      [CHR 0xC2, CHR 0x85], [CHR 0xC2, CHR 0xA0], [CHR 0xE1, CHR 0x9A, CHR 0x80]]
     @ map (\<lambda>b. [CHR 0xE2, CHR 0x80, char_of b])
         ([0x80 ..< 0x8B] @ [0xA8, 0xA9, 0xAF :: nat])
     @ [[CHR 0xE2, CHR 0x81, CHR 0x9F], [CHR 0xE3, CHR 0x80, CHR 0x80]]"

lemma white_space_nonempty: "t \<in> set white_space \<Longrightarrow> t \<noteq> []"
  by (auto simp: white_space_def)

lemma starts_with_drop_less: "t \<noteq> [] \<Longrightarrow> starts_with t s \<Longrightarrow> length (drop (length t) s) < length s"
  by (cases s) (auto simp: starts_with_def)

lemma find_SomeD: "find P xs = Some x \<Longrightarrow> P x \<and> x \<in> set xs"
  by (auto simp: find_Some_iff)

function trim_with :: "string list \<Rightarrow> string \<Rightarrow> string" where
  "trim_with ts s =
     (case find (\<lambda>t. t \<noteq> [] \<and> starts_with t s) ts of
        None \<Rightarrow> s
      | Some t \<Rightarrow> trim_with ts (drop (length t) s))"
  by pat_completeness auto
termination
  by (relation "measure (\<lambda>(ts, s). length s)") (auto simp del: length_drop dest!: find_SomeD intro: starts_with_drop_less)

declare trim_with.simps [simp del]

definition trim :: "string \<Rightarrow> string" where
  "trim s = rev (trim_with (map rev white_space) (rev (trim_with white_space s)))"

definition trim_start :: "string \<Rightarrow> string" where
  "trim_start s = trim_with white_space s"

definition ascii :: "string \<Rightarrow> bool" where
  "ascii s \<longleftrightarrow> (\<forall>c \<in> set s. (of_char c :: nat) < 0x80)"

lemma utf8_ascii: "ascii s \<Longrightarrow> utf8 s"
  by (induction s) (subst utf8.simps; simp add: ascii_def Let_def)+

lemma trim_with_id:
  "\<forall>t \<in> set ts. \<not> starts_with t s \<Longrightarrow> trim_with ts s = s"
  by (subst trim_with.simps) (auto simp: find_None_iff split: option.split dest!: find_SomeD)

definition digits :: "string \<Rightarrow> bool" where
  "digits s \<longleftrightarrow> s \<noteq> [] \<and> set s \<subseteq> set ''0123456789''"

lemma digits_show_nat: "digits (show_nat n)"
proof -
  have "digit_char d \<in> set ''0123456789''" if "d < 10" for d
  proof -
    have "\<forall>d \<in> set [0 ..< 10]. digit_char d \<in> set ''0123456789''" by code_simp
    then show ?thesis using that by simp
  qed
  then show ?thesis
    using radix_digits_less [of 10 _ n] by (auto simp: digits_def show_nat_def)
qed

text \<open>Trimming leaves a graphic text alone, but for one leading space.\<close>

definition graphic :: "string \<Rightarrow> bool" where
  "graphic s \<longleftrightarrow> s \<noteq> [] \<and> (\<forall>c \<in> set s. 0x20 < (of_char c :: nat) \<and> (of_char c :: nat) < 0x7F)"

lemma graphic_rev [simp]: "graphic (rev s) = graphic s"
  by (simp add: graphic_def)

lemma graphic_Cons: "graphic (c # s) \<longleftrightarrow> 0x20 < (of_char c :: nat) \<and> (of_char c :: nat) < 0x7F \<and> (s = [] \<or> graphic s)"
  by (auto simp: graphic_def)

lemma digits_graphic: "digits s \<Longrightarrow> graphic s"
  by (auto simp: digits_def graphic_def subset_iff)

lemma white_space_not_graphic:
  "w \<in> set white_space \<Longrightarrow> graphic s \<Longrightarrow> \<not> starts_with w s \<and> \<not> starts_with (rev w) s"
proof -
  assume w: "w \<in> set white_space" and s: "graphic s"
  have "\<forall>w \<in> set white_space. w \<noteq> [] \<and> \<not> graphic [hd w] \<and> \<not> graphic [last w]"
    by (simp add: white_space_def graphic_def upt_rec)
  then have "w \<noteq> []" "\<not> graphic [hd w]" "\<not> graphic [last w]" using w by auto
  moreover have "graphic [hd s]" using s by (cases s) (auto simp: graphic_def)
  moreover have "starts_with p s \<Longrightarrow> p \<noteq> [] \<Longrightarrow> hd p = hd s" for p
    by (cases p; cases s) (auto simp: starts_with_def)
  ultimately show ?thesis by (metis hd_rev rev_is_Nil_conv)
qed

lemma trim_graphic:
  assumes "graphic s"
  shows "trim s = s" "trim (CHR 0x20 # s) = s" "trim_start s = s"
proof -
  have keep: "trim_with white_space s = s" "trim_with (map rev white_space) (rev s) = rev s"
    using white_space_not_graphic assms graphic_rev by (auto intro!: trim_with_id)
  have "find (\<lambda>t. t \<noteq> [] \<and> starts_with t (CHR 0x20 # s)) white_space = Some [CHR 0x20]"
    by (simp add: white_space_def starts_with_def)
  then have "trim_with white_space (CHR 0x20 # s) = trim_with white_space s"
    by (subst trim_with.simps) simp
  then show "trim s = s" "trim (CHR 0x20 # s) = s" "trim_start s = s"
    by (simp_all add: trim_def trim_start_def keep)
qed

lemma trim_space_digits: "digits s \<Longrightarrow> trim (CHR 0x20 # s) = s"
  by (rule trim_graphic(2) [OF digits_graphic])

lemma graphic_radix:
  assumes "2 \<le> b" "b \<le> 16"
  shows "graphic (map digit_char (radix_digits b n))"
proof -
  have "\<forall>d \<in> set [0 ..< 16]. digit_char d \<in> set ''0123456789abcdef''" by code_simp
  moreover have "\<forall>c \<in> set ''0123456789abcdef''. graphic [c]" by (simp add: graphic_def)
  ultimately have "d < 16 \<Longrightarrow> graphic [digit_char d]" for d by (metis atLeastLessThan_iff atLeast_upt le0 set_upt)
  moreover have "d < 16" if "d \<in> set (radix_digits b n)" for d
    using radix_digits_less [OF assms(1) that] assms(2) by simp
  ultimately show ?thesis by (auto simp: graphic_def)
qed

end
