(* ===== verification/Wire.thy ===== *)
theory Wire
  imports Core_Types Text
begin

text \<open>
  The DAP wire layer, \<open>dap-client/src/wire.rs\<close>: the message types, their decoding, and the
  Content-Length framing over a byte stream.

  \<open>serde_json\<close>'s parser and printer are parameters: \<open>parse\<close> gives the value of a text or
  \<open>None\<close>, \<open>to_vec\<close> the text of a value.  What the derived \<open>Deserialize\<close> instances do with a
  value is written out; an array where an object is expected is an error here (serde would read it
  by position), and the wording of a JSON error is not kept.  A byte stream is the list of the bytes
  still to be read; at its end the reader is at EOF.
\<close>

definition MAX_CONTENT_LENGTH :: nat where
  "MAX_CONTENT_LENGTH = 64 * 1024 * 1024"

datatype wire_error =
    W_Eof
  | W_Io string
  | W_MissingContentLength
  | W_InvalidContentLength string
  | W_Json

fun is_disconnect :: "wire_error \<Rightarrow> bool" where
  "is_disconnect W_Eof = True"
| "is_disconnect (W_Io _) = True"
| "is_disconnect _ = False"

section \<open>Message types\<close>

record envelope =
  en_seq :: i64
  en_ty :: string
  en_command :: "string option"
  en_event :: "string option"

record response =
  rs_seq :: i64
  rs_ty :: string
  rs_request_seq :: i64
  rs_success :: bool
  rs_command :: string
  rs_message :: string
  rs_body :: "json option"

record stopped_body =
  sp_reason :: string
  sp_description :: string
  sp_thread_id :: i64
  sp_text :: string
  sp_all_threads_stopped :: bool
  sp_hit_breakpoint_ids :: "i64 list"

record output_body =
  ob_category :: string
  ob_output :: string

datatype dap_event =
    Initialized
  | StoppedEvent stopped_body
  | OutputEvent output_body
  | ExitedEvent i64
  | TerminatedEvent
  | ThreadEvent
  | BreakpointEvent
  | ProcessEvent
  | ContinuedEvent
  | ModuleEvent
  | CapabilitiesEvent

datatype dap_message = DapResponse response | DapEvent dap_event | DapOther envelope

record request =
  rq_seq :: i64
  rq_ty :: string
  rq_command :: string
  rq_arguments :: "json option"

definition request_new :: "string \<Rightarrow> json option \<Rightarrow> request" where
  "request_new command arguments =
     \<lparr>rq_seq = 0, rq_ty = ''request'', rq_command = command, rq_arguments = arguments\<rparr>"

definition request_set_seq :: "i64 \<Rightarrow> request \<Rightarrow> request" where
  "request_set_seq s r = r\<lparr>rq_seq := s\<rparr>"

section \<open>Decoding of fields\<close>

fun json_i64 :: "json \<Rightarrow> i64 option" where
  "json_i64 (JNum (PosInt n)) = (if int n \<le> i64_max then Some (int n) else None)"
| "json_i64 (JNum (NegInt i)) = Some i"
| "json_i64 _ = None"

fun json_bool :: "json \<Rightarrow> bool option" where
  "json_bool (JBool b) = Some b"
| "json_bool _ = None"

fun json_i64s :: "json list \<Rightarrow> i64 list option" where
  "json_i64s [] = Some []"
| "json_i64s (j # js) =
     (case (json_i64 j, json_i64s js) of (Some i, Some is) \<Rightarrow> Some (i # is) | _ \<Rightarrow> None)"

fun json_i64_list :: "json \<Rightarrow> i64 list option" where
  "json_i64_list (JArr js) = json_i64s js"
| "json_i64_list _ = None"

text \<open>A required field, a field with \<open>#[serde(default)]\<close>, and an optional one.\<close>

definition field :: "(json \<Rightarrow> 'a option) \<Rightarrow> (string \<times> json) list \<Rightarrow> string \<Rightarrow> 'a option" where
  "field dec m k = Option.bind (map_of m k) dec"

definition field_or :: "(json \<Rightarrow> 'a option) \<Rightarrow> 'a \<Rightarrow> (string \<times> json) list \<Rightarrow> string \<Rightarrow> 'a option" where
  "field_or dec d m k = (case map_of m k of None \<Rightarrow> Some d | Some v \<Rightarrow> dec v)"

definition field_opt :: "(json \<Rightarrow> 'a option) \<Rightarrow> (string \<times> json) list \<Rightarrow> string \<Rightarrow> 'a option option" where
  "field_opt dec m k =
     (case map_of m k of
        None \<Rightarrow> Some None
      | Some v \<Rightarrow> (if v = JNull then Some None else map_option Some (dec v)))"

text \<open>A field the struct knows must not occur twice.\<close>

definition no_duplicates :: "string list \<Rightarrow> (string \<times> json) list \<Rightarrow> bool" where
  "no_duplicates known m \<longleftrightarrow> distinct (filter (\<lambda>k. k \<in> set known) (map fst m))"

fun decode_envelope :: "json \<Rightarrow> envelope option" where
  "decode_envelope (JObj m) =
     (if no_duplicates [''seq'', ''type'', ''command'', ''event''] m then
        (case (field json_i64 m ''seq'', field as_str m ''type'', field_opt as_str m ''command'',
               field_opt as_str m ''event'') of
           (Some s, Some t, Some c, Some e) \<Rightarrow>
             Some \<lparr>en_seq = s, en_ty = t, en_command = c, en_event = e\<rparr>
         | _ \<Rightarrow> None)
      else None)"
| "decode_envelope _ = None"

fun decode_response :: "json \<Rightarrow> response option" where
  "decode_response (JObj m) =
     (if no_duplicates [''seq'', ''type'', ''request_seq'', ''success'', ''command'', ''message'', ''body''] m then
        (case (field json_i64 m ''seq'', field as_str m ''type'', field json_i64 m ''request_seq'',
               field json_bool m ''success'', field as_str m ''command'',
               field_or as_str [] m ''message'', field_opt Some m ''body'') of
           (Some s, Some t, Some r, Some ok, Some c, Some msg, Some b) \<Rightarrow>
             Some \<lparr>rs_seq = s, rs_ty = t, rs_request_seq = r, rs_success = ok, rs_command = c,
                   rs_message = msg, rs_body = b\<rparr>
         | _ \<Rightarrow> None)
      else None)"
| "decode_response _ = None"

fun decode_stopped_body :: "json \<Rightarrow> stopped_body option" where
  "decode_stopped_body (JObj m) =
     (if no_duplicates [''reason'', ''description'', ''threadId'', ''text'', ''allThreadsStopped'',
           ''hitBreakpointIds''] m then
        (case (field_or as_str [] m ''reason'', field_or as_str [] m ''description'',
               field_or json_i64 0 m ''threadId'', field_or as_str [] m ''text'',
               field_or json_bool False m ''allThreadsStopped'',
               field_or json_i64_list [] m ''hitBreakpointIds'') of
           (Some r, Some d, Some t, Some x, Some a, Some h) \<Rightarrow>
             Some \<lparr>sp_reason = r, sp_description = d, sp_thread_id = t, sp_text = x,
                   sp_all_threads_stopped = a, sp_hit_breakpoint_ids = h\<rparr>
         | _ \<Rightarrow> None)
      else None)"
| "decode_stopped_body _ = None"

fun decode_output_body :: "json \<Rightarrow> output_body option" where
  "decode_output_body (JObj m) =
     (if no_duplicates [''category'', ''output''] m then
        (case (field_or as_str [] m ''category'', field_or as_str [] m ''output'') of
           (Some c, Some t) \<Rightarrow> Some \<lparr>ob_category = c, ob_output = t\<rparr>
         | _ \<Rightarrow> None)
      else None)"
| "decode_output_body _ = None"

fun decode_exited_body :: "json \<Rightarrow> i64 option" where
  "decode_exited_body (JObj m) =
     (if no_duplicates [''exitCode''] m then field_or json_i64 0 m ''exitCode'' else None)"
| "decode_exited_body _ = None"

text \<open>The event structs share their outer fields: \<open>seq\<close>, \<open>type\<close>, \<open>event\<close> and a required \<open>body\<close>.\<close>

fun decode_event_struct :: "(json \<Rightarrow> 'a option) \<Rightarrow> json \<Rightarrow> 'a option" where
  "decode_event_struct dec (JObj m) =
     (if no_duplicates [''seq'', ''type'', ''event'', ''body''] m then
        (case (field json_i64 m ''seq'', field as_str m ''type'', field as_str m ''event'',
               field dec m ''body'') of
           (Some _, Some _, Some _, Some b) \<Rightarrow> Some b
         | _ \<Rightarrow> None)
      else None)"
| "decode_event_struct dec _ = None"

definition event_from_envelope :: "json \<Rightarrow> envelope \<Rightarrow> wire_error + dap_event option" where
  "event_from_envelope j en =
     (case en_event en of
        None \<Rightarrow> Inr None
      | Some name \<Rightarrow>
          if name = ''initialized'' then Inr (Some Initialized)
          else if name = ''stopped'' then
            (case decode_event_struct decode_stopped_body j of
               Some b \<Rightarrow> Inr (Some (StoppedEvent b)) | None \<Rightarrow> Inl W_Json)
          else if name = ''output'' then
            (case decode_event_struct decode_output_body j of
               Some b \<Rightarrow> Inr (Some (OutputEvent b)) | None \<Rightarrow> Inl W_Json)
          else if name = ''exited'' then
            (case decode_event_struct decode_exited_body j of
               Some b \<Rightarrow> Inr (Some (ExitedEvent b)) | None \<Rightarrow> Inl W_Json)
          else if name = ''terminated'' then Inr (Some TerminatedEvent)
          else if name = ''thread'' then Inr (Some ThreadEvent)
          else if name = ''breakpoint'' then Inr (Some BreakpointEvent)
          else if name = ''process'' then Inr (Some ProcessEvent)
          else if name = ''continued'' then Inr (Some ContinuedEvent)
          else if name = ''module'' then Inr (Some ModuleEvent)
          else if name = ''capabilities'' then Inr (Some CapabilitiesEvent)
          else Inr None)"

definition from_slice :: "(string \<Rightarrow> json option) \<Rightarrow> string \<Rightarrow> wire_error + dap_message" where
  "from_slice parse bytes =
     (case parse bytes of
        None \<Rightarrow> Inl W_Json
      | Some j \<Rightarrow>
     (case decode_envelope j of
        None \<Rightarrow> Inl W_Json
      | Some en \<Rightarrow>
          if en_ty en = ''response'' then
            (case decode_response j of Some r \<Rightarrow> Inr (DapResponse r) | None \<Rightarrow> Inl W_Json)
          else if en_ty en = ''event'' then
            (case event_from_envelope j en of
               Inl e \<Rightarrow> Inl e
             | Inr (Some ev) \<Rightarrow> Inr (DapEvent ev)
             | Inr None \<Rightarrow> Inr (DapOther en))
          else Inr (DapOther en)))"

section \<open>Encoding\<close>

text \<open>\<open>Serialize\<close> of a request: \<open>arguments\<close> is left out when absent.\<close>

definition request_json :: "request \<Rightarrow> json" where
  "request_json r =
     JObj ([(''seq'', json_int (rq_seq r)), (''type'', JStr (rq_ty r)), (''command'', JStr (rq_command r))]
           @ (case rq_arguments r of Some v \<Rightarrow> [(''arguments'', v)] | None \<Rightarrow> []))"

definition crlf :: string where
  "crlf = [CHR 0x0D, CHR 0x0A]"

definition frame_bytes :: "string \<Rightarrow> string" where
  "frame_bytes body = ''Content-Length: '' @ show_nat (length body) @ crlf @ crlf @ body"

definition write_message :: "(json \<Rightarrow> string) \<Rightarrow> json \<Rightarrow> string \<Rightarrow> string" where
  "write_message to_vec message out = out @ frame_bytes (to_vec message)"

section \<open>Reading a frame\<close>

text \<open>\<open>read_line\<close>: the bytes up to and with the next line feed, or up to the end.\<close>

fun read_line :: "string \<Rightarrow> string \<times> string" where
  "read_line [] = ([], [])"
| "read_line (c # cs) =
     (if c = CHR 0x0A then ([c], cs) else (let (l, rest) = read_line cs in (c # l, rest)))"

lemma read_line_split: "read_line s = (l, rest) \<Longrightarrow> s = l @ rest"
  by (induction s arbitrary: l) (auto split: if_splits prod.splits)

lemma read_line_nonempty: "s \<noteq> [] \<Longrightarrow> fst (read_line s) \<noteq> []"
  by (cases s) (auto split: prod.split)

lemma read_line_decreases: "s \<noteq> [] \<Longrightarrow> length (snd (read_line s)) < length s"
  using read_line_split [of s "fst (read_line s)" "snd (read_line s)"] read_line_nonempty [of s]
  by (metis length_append length_greater_0_conv less_add_same_cancel2 prod.collapse)

lemma read_line_less: "read_line s = (l, rest) \<Longrightarrow> s \<noteq> [] \<Longrightarrow> length rest < length s"
  using read_line_decreases [of s] by simp

definition trim_newlines :: "string \<Rightarrow> string" where
  "trim_newlines s = rev (dropWhile (\<lambda>c. c = CHR 0x0D \<or> c = CHR 0x0A) (rev s))"

definition usize_max :: nat where
  "usize_max = 2 ^ 64 - 1"

definition parse_content_length :: "string \<Rightarrow> wire_error + nat" where
  "parse_content_length value =
     (case parse_uint 10 usize_max (trim value) of
        Inl _ \<Rightarrow> Inl (W_InvalidContentLength (trim value))
      | Inr n \<Rightarrow>
          if MAX_CONTENT_LENGTH < n then Inl (W_InvalidContentLength (trim value)) else Inr n)"

function read_header_loop ::
  "nat option \<Rightarrow> bool \<Rightarrow> string \<Rightarrow> (wire_error + nat) \<times> string" where
  "read_header_loop content_length first_line input =
     (if input = [] then
        (Inl (if first_line then W_Eof else W_Io ''EOF in the middle of a DAP header''), [])
      else
        (let (line, rest) = read_line input; trimmed = trim_newlines line
         in if \<not> utf8 line then (Inl (W_Io ''stream did not contain valid UTF-8''), rest)
            else if trimmed = [] then
              (case content_length of
                 Some n \<Rightarrow> (Inr n, rest)
               | None \<Rightarrow> (Inl W_MissingContentLength, rest))
            else case strip_prefix ''Content-Length:'' trimmed of
              None \<Rightarrow> read_header_loop content_length False rest
            | Some value \<Rightarrow>
                (case parse_content_length value of
                   Inl e \<Rightarrow> (Inl e, rest)
                 | Inr n \<Rightarrow> read_header_loop (Some n) False rest)))"
  by pat_completeness auto
termination
  by (relation "measure (\<lambda>(_, _, s). length s)") (auto intro: read_line_less [OF sym])

declare read_header_loop.simps [simp del]

definition read_header :: "string \<Rightarrow> (wire_error + nat) \<times> string" where
  "read_header input = read_header_loop None True input"

text \<open>\<open>read_exact\<close>: too few bytes are consumed and an error.\<close>

definition read_exact_body :: "nat \<Rightarrow> string \<Rightarrow> (wire_error + string) \<times> string" where
  "read_exact_body n input =
     (if length input < n then (Inl (W_Io ''early eof''), []) else (Inr (take n input), drop n input))"

definition read_message ::
  "(string \<Rightarrow> json option) \<Rightarrow> string \<Rightarrow> (wire_error + dap_message) \<times> string" where
  "read_message parse input =
     (case read_header input of
        (Inl e, rest) \<Rightarrow> (Inl e, rest)
      | (Inr n, rest) \<Rightarrow>
          (case read_exact_body n rest of
             (Inl e, rest') \<Rightarrow> (Inl e, rest')
           | (Inr body, rest') \<Rightarrow> (from_slice parse body, rest')))"

section \<open>What reading does\<close>

text \<open>A header never grows its input, and a successful one is bounded.\<close>

lemma read_header_loop_result:
  "read_header_loop cl first input = (r, rest) \<Longrightarrow> pred_option (\<lambda>n. n \<le> MAX_CONTENT_LENGTH) cl \<Longrightarrow>
   length rest \<le> length input \<and>
   (\<forall>n. r = Inr n \<longrightarrow> length rest < length input \<and> n \<le> MAX_CONTENT_LENGTH)"
proof (induction cl first input arbitrary: r rest rule: read_header_loop.induct)
  case (1 cl first input)
  obtain line more where rl: "read_line input = (line, more)" by (cases "read_line input")
  show ?case
  proof (cases "input = []")
    case True
    then show ?thesis using "1.prems"(1) by (subst (asm) read_header_loop.simps) auto
  next
    case False
    note less = read_line_less [OF rl False]
    let ?line = "trim_newlines line"
    note step = read_header_loop.simps [of cl first input] False rl
    have eq: "(r, rest) = read_header_loop cl first input" using "1.prems"(1) by simp
    show ?thesis
    proof (cases "\<not> utf8 line \<or> ?line = []")
      case True
      then show ?thesis using eq less "1.prems"(2) by (auto simp: step split: option.splits if_splits)
    next
      case go: False
      show ?thesis
      proof (cases "strip_prefix ''Content-Length:'' ?line")
        case None
        then have rec: "read_header_loop cl False more = (r, rest)" using eq go by (simp add: step)
        show ?thesis
          using "1.IH"(1) [OF False rl [symmetric] refl refl _ _ None rec "1.prems"(2)] go less by auto
      next
        case (Some v)
        show ?thesis
        proof (cases "parse_content_length v")
          case (Inl e)
          then show ?thesis using eq go Some less by (simp add: step)
        next
          case (Inr n)
          then have rec: "read_header_loop (Some n) False more = (r, rest)"
            using eq go Some by (simp add: step)
          have "n \<le> MAX_CONTENT_LENGTH"
            using Inr by (auto simp: parse_content_length_def split: sum.splits if_splits)
          then show ?thesis
            using "1.IH"(2) [OF False rl [symmetric] refl refl _ _ Some Inr rec] go less by auto
        qed
      qed
    qed
  qed
qed

lemma read_message_less: "read_message parse input = (Inr m, rest) \<Longrightarrow> length rest < length input"
  using read_header_loop_result [of None True input]
  by (auto simp: read_message_def read_header_def read_exact_body_def
      split: prod.splits sum.splits if_splits)

text \<open>Lines and texts of a header that the writer produces.\<close>

lemma read_line_until: "CHR 0x0A \<notin> set s \<Longrightarrow> read_line (s @ CHR 0x0A # r) = (s @ [CHR 0x0A], r)"
  by (induction s) auto

lemma trim_newlines_crlf:
  "s = [] \<or> last s \<noteq> CHR 0x0D \<and> last s \<noteq> CHR 0x0A \<Longrightarrow> trim_newlines (s @ crlf) = s"
  by (cases s rule: rev_cases) (auto simp: trim_newlines_def crlf_def)

lemma parse_content_length_shown:
  "n \<le> MAX_CONTENT_LENGTH \<Longrightarrow> parse_content_length (CHR 0x20 # show_nat n) = Inr n"
  using parse_uint_radix [of 10 n usize_max]
  by (simp add: parse_content_length_def trim_space_digits digits_show_nat show_nat_def [symmetric]
      MAX_CONTENT_LENGTH_def usize_max_def)

definition header_line :: "nat \<Rightarrow> string" where
  "header_line n = ''Content-Length: '' @ show_nat n"

lemma header_line_chars: "c \<in> set (header_line n) \<Longrightarrow> (of_char c :: nat) < 0x80 \<and> c \<noteq> CHR 0x0A \<and> c \<noteq> CHR 0x0D"
  using digits_show_nat [of n] by (auto simp: header_line_def digits_def)

lemma header_line_trim: "trim_newlines (header_line n @ crlf) = header_line n"
  using header_line_chars [of "last (header_line n)" n] last_in_set [of "header_line n"]
  by (intro trim_newlines_crlf) (auto simp: header_line_def)

lemma read_line_header: "read_line (header_line n @ crlf @ r) = (header_line n @ crlf, r)"
  using read_line_until [of "header_line n @ [CHR 0x0D]" r] header_line_chars [of _ n]
  by (auto simp: crlf_def)

lemma read_header_frame:
  assumes "n \<le> MAX_CONTENT_LENGTH"
  shows "read_header (header_line n @ crlf @ crlf @ r) = (Inr n, r)"
proof -
  have blank: "read_header_loop (Some n) False (crlf @ r) = (Inr n, r)"
    by (subst read_header_loop.simps)
      (simp add: crlf_def trim_newlines_def utf8_ascii ascii_def)
  have "utf8 (header_line n @ crlf)"
    using header_line_chars [of _ n] by (intro utf8_ascii) (auto simp: ascii_def crlf_def)
  moreover have "strip_prefix ''Content-Length:'' (header_line n) = Some (CHR 0x20 # show_nat n)"
    by (simp add: header_line_def strip_prefix_def starts_with_def)
  moreover have "header_line n \<noteq> []" by (simp add: header_line_def)
  ultimately show ?thesis
    unfolding read_header_def
    by (subst read_header_loop.simps)
      (simp add: read_line_header header_line_trim parse_content_length_shown [OF assms] blank)
qed

lemma read_message_frame:
  "length body \<le> MAX_CONTENT_LENGTH \<Longrightarrow>
   read_message parse (frame_bytes body @ r) = (from_slice parse body, r)"
  using read_header_frame [of "length body" "body @ r"]
  by (simp add: read_message_def frame_bytes_def header_line_def read_exact_body_def)

lemma read_message_end: "read_message parse [] = (Inl W_Eof, [])"
  by (simp add: read_message_def read_header_def read_header_loop.simps)

end
