(* ===== verification/Oneshot.thy ===== *)
theory Oneshot
  imports Core_Types
begin

text \<open>
  The one-shot channels (\<open>tokio::sync::oneshot\<close>) the DAP client hands its results through, and the
  contract of a table that keeps their sending halves.  Channels are numbered in the order they are
  created; a channel is waiting, holds the value sent, or was closed because its sender was dropped.
  A receiver that is gone makes a send an ignored error, which leaves nothing to observe.
\<close>

datatype 'a oneshot = Waiting | Sent 'a | Hung_up

type_synonym 'a channels = "'a oneshot list"

definition settle :: "nat \<Rightarrow> 'a oneshot \<Rightarrow> 'a channels \<Rightarrow> 'a channels" where
  "settle c v cs = (if c < length cs \<and> cs ! c = Waiting then cs[c := v] else cs)"

abbreviation send_value :: "nat \<Rightarrow> 'a \<Rightarrow> 'a channels \<Rightarrow> 'a channels" where
  "send_value c v \<equiv> settle c (Sent v)"

abbreviation hang_up :: "nat \<Rightarrow> 'a channels \<Rightarrow> 'a channels" where
  "hang_up c \<equiv> settle c Hung_up"

fun hang_up_opt :: "nat option \<Rightarrow> 'a channels \<Rightarrow> 'a channels" where
  "hang_up_opt None cs = cs"
| "hang_up_opt (Some c) cs = hang_up c cs"

lemma settle_length [simp]: "length (settle c v cs) = length cs"
  by (simp add: settle_def)

lemma settle_nth: "d < length cs \<Longrightarrow> settle c v cs ! d = (if d = c \<and> cs ! c = Waiting then v else cs ! d)"
  by (auto simp: settle_def)

lemma hang_up_opt_length [simp]: "length (hang_up_opt o' cs) = length cs"
  by (cases o') simp_all

text \<open>The senders kept are exactly those of the waiting channels, each kept once.\<close>

definition waiting :: "'a channels \<Rightarrow> nat set" where
  "waiting cs = {c. c < length cs \<and> cs ! c = Waiting}"

definition wired :: "nat list \<Rightarrow> 'a channels \<Rightarrow> bool" where
  "wired ss cs \<longleftrightarrow> distinct ss \<and> set ss = waiting cs"

lemma waiting_empty [simp]: "waiting [] = {}"
  by (simp add: waiting_def)

lemma waiting_new [simp]: "waiting (cs @ [Waiting]) = insert (length cs) (waiting cs)"
  by (auto simp: waiting_def nth_append less_Suc_eq)

lemma waiting_settle [simp]: "v \<noteq> Waiting \<Longrightarrow> waiting (settle c v cs) = waiting cs - {c}"
  by (auto simp: waiting_def settle_nth split: if_splits)

lemma waiting_less: "c \<in> waiting cs \<Longrightarrow> c < length cs"
  by (simp add: waiting_def)

lemma fresh_not_waiting [simp]: "length cs \<notin> waiting cs"
  by (simp add: waiting_def)

text \<open>Channels are only added, and one that is settled stays as it is.\<close>

definition extends :: "'a channels \<Rightarrow> 'a channels \<Rightarrow> bool" where
  "extends cs ds \<longleftrightarrow> length cs \<le> length ds \<and> (\<forall>c < length cs. cs ! c \<noteq> Waiting \<longrightarrow> ds ! c = cs ! c)"

lemma wired_empty [simp]: "wired [] []"
  by (simp add: wired_def)

lemma wired_new: "wired ss cs \<Longrightarrow> wired (length cs # ss) (cs @ [Waiting])"
  by (simp add: wired_def)

lemma wired_settle: "wired ss cs \<Longrightarrow> v \<noteq> Waiting \<Longrightarrow> wired (filter (\<lambda>d. d \<noteq> c) ss) (settle c v cs)"
  by (auto simp: wired_def)

lemma wired_settle_hd: "wired (c # ss) cs \<Longrightarrow> v \<noteq> Waiting \<Longrightarrow> wired ss (settle c v cs)"
  by (auto simp: wired_def)

lemma wired_no_sender: "wired ss cs \<Longrightarrow> c \<notin> set ss \<Longrightarrow> settle c v cs = cs"
  by (auto simp: wired_def waiting_def settle_def)

lemma wired_fold_settle:
  "wired (map snd es @ ss) cs \<Longrightarrow> v \<noteq> Waiting \<Longrightarrow> wired ss (fold (\<lambda>(_, c). settle c v) es cs)"
  by (induction es arbitrary: cs) (auto dest: wired_settle_hd)

lemma extends_refl [simp]: "extends cs cs"
  by (simp add: extends_def)

lemma extends_trans [trans]: "extends cs ds \<Longrightarrow> extends ds es \<Longrightarrow> extends cs es"
  by (auto simp: extends_def)

lemma extends_new [simp]: "extends cs (cs @ [v])"
  by (auto simp: extends_def nth_append)

lemma extends_settle [simp]: "extends cs (settle c v cs)"
  by (auto simp: extends_def settle_nth)

lemma extends_hang_up_opt [simp]: "extends cs (hang_up_opt o' cs)"
  by (cases o') simp_all

lemma extends_fold_settle [simp]: "extends cs (fold (\<lambda>(_, c). settle c v) es cs)"
  by (induction es arbitrary: cs) (auto intro: extends_trans extends_settle)

text \<open>
  The contract of a component that keeps senders: its steps keep the table wired and never touch a
  settled channel.  Then a receiver gets one answer, once, and a table without senders has left
  nobody waiting.
\<close>

locale sender_table =
  fixes senders :: "'s \<Rightarrow> nat list"
    and chans :: "'s \<Rightarrow> 'a channels"
    and inv :: "'s \<Rightarrow> bool"
    and step :: "'s \<Rightarrow> 's \<Rightarrow> bool"
  assumes step_inv: "step s t \<Longrightarrow> inv s \<Longrightarrow> inv t"
    and inv_wired: "inv s \<Longrightarrow> wired (senders s) (chans s)"
    and step_extends: "step s t \<Longrightarrow> extends (chans s) (chans t)"
begin

lemma steps_inv: "step\<^sup>*\<^sup>* s t \<Longrightarrow> inv s \<Longrightarrow> inv t"
  by (induction rule: rtranclp_induct) (auto intro: step_inv)

lemma steps_extends: "step\<^sup>*\<^sup>* s t \<Longrightarrow> extends (chans s) (chans t)"
  by (induction rule: rtranclp_induct) (auto intro: extends_trans step_extends)

lemma answer_is_final:
  "step\<^sup>*\<^sup>* s t \<Longrightarrow> c < length (chans s) \<Longrightarrow> chans s ! c \<noteq> Waiting \<Longrightarrow> chans t ! c = chans s ! c"
  using steps_extends [of s t] by (simp add: extends_def)

lemma nobody_waits: "inv s \<Longrightarrow> senders s = [] \<Longrightarrow> Waiting \<notin> set (chans s)"
  using inv_wired [of s] by (auto simp: wired_def waiting_def in_set_conv_nth)

lemma waiting_has_sender: "inv s \<Longrightarrow> c < length (chans s) \<Longrightarrow> chans s ! c = Waiting \<Longrightarrow> c \<in> set (senders s)"
  using inv_wired [of s] by (auto simp: wired_def waiting_def)

end

end
