(* ===== verification/Dap_Client.thy ===== *)
theory Dap_Client
  imports Wire Oneshot
begin

text \<open>
  The DAP client, \<open>dap-client/src/client.rs\<close>, and its stop waiter, \<open>stop_waiter.rs\<close>.  A \<open>HashMap\<close>
  is an association list whose order carries no meaning; every critical section (one lock, or one
  write of a whole frame under the write mutex) is one function.  An awaiting operation is split at
  its awaits: what runs before the write, the write, and what runs when the answer is there, when the
  write fails, or when the future is dropped.
\<close>

section \<open>The stop waiter\<close>

record stop_waiter =
  sw_slot :: "nat option"
  sw_channels :: "stop_outcome channels"

definition stop_waiter_new :: stop_waiter where
  "stop_waiter_new = \<lparr>sw_slot = None, sw_channels = []\<rparr>"

definition sw_register :: "stop_waiter \<Rightarrow> nat \<times> stop_waiter" where
  "sw_register sw =
     (let c = length (sw_channels sw)
      in (c, \<lparr>sw_slot = Some c, sw_channels = hang_up_opt (sw_slot sw) (sw_channels sw) @ [Waiting]\<rparr>))"

definition sw_send :: "stop_outcome \<Rightarrow> stop_waiter \<Rightarrow> stop_waiter" where
  "sw_send outcome sw =
     (case sw_slot sw of
        None \<Rightarrow> sw
      | Some c \<Rightarrow> \<lparr>sw_slot = None, sw_channels = send_value c outcome (sw_channels sw)\<rparr>)"

definition stop_info_from_event :: "stopped_body \<Rightarrow> stop_info" where
  "stop_info_from_event b =
     \<lparr>si_reason = sp_reason b, si_thread_id = sp_thread_id b, si_description = sp_description b,
      si_hit_breakpoint_ids = sp_hit_breakpoint_ids b\<rparr>"

definition sw_deliver :: "stopped_body \<Rightarrow> stop_waiter \<Rightarrow> stop_waiter" where
  "sw_deliver b = sw_send (SO_Stopped (stop_info_from_event b))"

definition sw_deliver_exit :: "i64 \<Rightarrow> stop_waiter \<Rightarrow> stop_waiter" where
  "sw_deliver_exit code = sw_send (SO_Exited (Some code))"

definition sw_cancel :: "stop_waiter \<Rightarrow> stop_waiter" where
  "sw_cancel = sw_send SO_Terminated"

definition sw_senders :: "stop_waiter \<Rightarrow> nat list" where
  "sw_senders sw = (case sw_slot sw of None \<Rightarrow> [] | Some c \<Rightarrow> [c])"

inductive sw_step :: "stop_waiter \<Rightarrow> stop_waiter \<Rightarrow> bool" where
  Register: "sw_register sw = (c, sw') \<Longrightarrow> sw_step sw sw'"
| Deliver: "sw_step sw (sw_send outcome sw)"

lemma wired_one: "wired [c] cs \<Longrightarrow> v \<noteq> Waiting \<Longrightarrow> wired [] (settle c v cs)"
  by (rule wired_settle_hd)

abbreviation sw_inv :: "stop_waiter \<Rightarrow> bool" where
  "sw_inv sw \<equiv> wired (sw_senders sw) (sw_channels sw)"

interpretation sw: sender_table sw_senders sw_channels sw_inv sw_step
proof unfold_locales
  fix s t :: stop_waiter
  assume step: "sw_step s t"
  show "sw_inv t" if "sw_inv s"
    using step that
  proof cases
    case (Register c)
    have "wired [] (hang_up_opt (sw_slot s) (sw_channels s))"
      using that by (cases "sw_slot s") (auto simp: sw_senders_def intro: wired_one)
    then show ?thesis
      using Register wired_new [of "[]" "hang_up_opt (sw_slot s) (sw_channels s)"]
      by (auto simp: sw_register_def sw_senders_def Let_def)
  qed (auto simp: sw_send_def sw_senders_def intro: wired_one split: option.splits)
  show "extends (sw_channels s) (sw_channels t)"
    using step
    by cases (auto simp: sw_register_def sw_send_def Let_def split: option.splits
        intro: extends_trans [OF extends_hang_up_opt extends_new])
qed assumption

section \<open>Shared client state\<close>

record initialized_signal =
  is_fired :: bool
  is_waiter :: "nat option"
  is_channels :: "unit channels"

definition initialized_new :: initialized_signal where
  "initialized_new = \<lparr>is_fired = False, is_waiter = None, is_channels = []\<rparr>"

text \<open>\<open>sh_out\<close> is what has been written to the transport so far.\<close>

type_synonym pending_result = "backend_error + dap_message"

record shared =
  sh_out :: string
  sh_seq :: i64
  sh_pending :: "(i64 \<times> nat) list"
  sh_replies :: "pending_result channels"
  sh_stop_waiter :: stop_waiter
  sh_initialized :: initialized_signal

definition shared_new :: shared where
  "shared_new =
     \<lparr>sh_out = [], sh_seq = 0, sh_pending = [], sh_replies = [], sh_stop_waiter = stop_waiter_new,
      sh_initialized = initialized_new\<rparr>"

definition next_seq :: "shared \<Rightarrow> i64 \<times> shared" where
  "next_seq sh = (let s = wrap_i64 (sh_seq sh + 1) in (s, sh\<lparr>sh_seq := s\<rparr>))"

text \<open>Inserting under a sequence number in use drops the sender that was there.\<close>

definition register_pending :: "i64 \<Rightarrow> shared \<Rightarrow> nat \<times> shared" where
  "register_pending s sh =
     (let c = length (sh_replies sh)
      in (c, sh\<lparr>sh_pending := (s, c) # AList.delete s (sh_pending sh),
                sh_replies := hang_up_opt (map_of (sh_pending sh) s) (sh_replies sh) @ [Waiting]\<rparr>))"

definition remove_pending :: "i64 \<Rightarrow> shared \<Rightarrow> nat option \<times> shared" where
  "remove_pending s sh =
     (map_of (sh_pending sh) s, sh\<lparr>sh_pending := AList.delete s (sh_pending sh)\<rparr>)"

text \<open>Removing an entry without using its sender drops the sender.\<close>

definition drop_pending :: "i64 \<Rightarrow> shared \<Rightarrow> shared" where
  "drop_pending s sh =
     (let (tx, sh') = remove_pending s sh in sh'\<lparr>sh_replies := hang_up_opt tx (sh_replies sh')\<rparr>)"

definition dispatch_response :: "i64 \<Rightarrow> dap_message \<Rightarrow> shared \<Rightarrow> bool \<times> shared" where
  "dispatch_response s message sh =
     (case remove_pending s sh of
        (Some c, sh') \<Rightarrow> (True, sh'\<lparr>sh_replies := send_value c (Inr message) (sh_replies sh')\<rparr>)
      | (None, sh') \<Rightarrow> (False, sh'))"

definition cancel_all_pending :: "backend_error \<Rightarrow> shared \<Rightarrow> shared" where
  "cancel_all_pending err sh =
     sh\<lparr>sh_pending := [],
        sh_replies := fold (\<lambda>(_, c). send_value c (Inl err)) (sh_pending sh) (sh_replies sh)\<rparr>"

definition signal_initialized :: "shared \<Rightarrow> shared" where
  "signal_initialized sh =
     (let sig = sh_initialized sh
      in sh\<lparr>sh_initialized :=
           \<lparr>is_fired = True, is_waiter = None,
            is_channels = (case is_waiter sig of
                             None \<Rightarrow> is_channels sig
                           | Some c \<Rightarrow> send_value c () (is_channels sig))\<rparr>\<rparr>)"

text \<open>\<open>None\<close>: it has fired already and the wait is over at once; otherwise the channel waited for.\<close>

definition wait_initialized :: "shared \<Rightarrow> nat option \<times> shared" where
  "wait_initialized sh =
     (let sig = sh_initialized sh; c = length (is_channels sig)
      in if is_fired sig then (None, sh)
         else (Some c, sh\<lparr>sh_initialized :=
                 sig\<lparr>is_waiter := Some c,
                     is_channels := hang_up_opt (is_waiter sig) (is_channels sig) @ [Waiting]\<rparr>\<rparr>))"

definition pending_len :: "shared \<Rightarrow> nat" where
  "pending_len sh = length (sh_pending sh)"

definition has_pending :: "i64 \<Rightarrow> shared \<Rightarrow> bool" where
  "has_pending s sh \<longleftrightarrow> map_of (sh_pending sh) s \<noteq> None"

section \<open>Sending\<close>

text \<open>
  The transport accepts a whole frame (\<open>None\<close>), or fails with an IO error after the first \<open>n\<close> bytes.
\<close>

definition write_request ::
  "(json \<Rightarrow> string) \<Rightarrow> (nat \<times> string) option \<Rightarrow> request \<Rightarrow> shared \<Rightarrow> (wire_error + unit) \<times> shared" where
  "write_request to_vec fault r sh =
     (case fault of
        None \<Rightarrow> (Inr (), sh\<lparr>sh_out := write_message to_vec (request_json r) (sh_out sh)\<rparr>)
      | Some (n, e) \<Rightarrow>
          (Inl (W_Io e), sh\<lparr>sh_out := sh_out sh @ take n (frame_bytes (to_vec (request_json r)))\<rparr>))"

text \<open>
  The texts of the errors; that of a JSON error is an argument.  A write fails with an IO error only:
  the messages written always serialize.
\<close>

fun wire_error_text :: "string \<Rightarrow> wire_error \<Rightarrow> string" where
  "wire_error_text json W_Eof = ''connection closed (EOF)''"
| "wire_error_text json (W_Io e) = ''io error: '' @ e"
| "wire_error_text json W_MissingContentLength = ''missing Content-Length header''"
| "wire_error_text json (W_InvalidContentLength v) = ''invalid Content-Length header: '' @ v"
| "wire_error_text json W_Json = ''malformed DAP message body: '' @ json"

text \<open>A send in flight: its sequence number, its reply channel and the stamped request.\<close>

record sending =
  sd_seq :: i64
  sd_channel :: nat
  sd_request :: request

definition send_begin :: "request \<Rightarrow> shared \<Rightarrow> sending \<times> shared" where
  "send_begin r sh =
     (let (s, sh1) = next_seq sh; (c, sh2) = register_pending s sh1
      in (\<lparr>sd_seq = s, sd_channel = c, sd_request = request_set_seq s r\<rparr>, sh2))"

text \<open>A failed write rolls the entry back, in \<open>send_async\<close> itself or through the guard of \<open>send\<close>.\<close>

definition send_write ::
  "(json \<Rightarrow> string) \<Rightarrow> (nat \<times> string) option \<Rightarrow> sending \<Rightarrow> shared \<Rightarrow> (backend_error + unit) \<times> shared" where
  "send_write to_vec fault sd sh =
     (case write_request to_vec fault (sd_request sd) sh of
        (Inl e, sh') \<Rightarrow> (Inl (Send (wire_error_text [] e)), drop_pending (sd_seq sd) sh')
      | (Inr u, sh') \<Rightarrow> (Inr u, sh'))"

definition send_async ::
  "(json \<Rightarrow> string) \<Rightarrow> (nat \<times> string) option \<Rightarrow> request \<Rightarrow> shared \<Rightarrow> (backend_error + sending) \<times> shared" where
  "send_async to_vec fault r sh =
     (let (sd, sh1) = send_begin r sh
      in case send_write to_vec fault sd sh1 of
           (Inl e, sh2) \<Rightarrow> (Inl e, sh2)
         | (Inr _, sh2) \<Rightarrow> (Inr sd, sh2))"

text \<open>What awaiting the reply yields, once it yields: a dropped sender reads as a closed transport.\<close>

definition send_result :: "sending \<Rightarrow> shared \<Rightarrow> pending_result option" where
  "send_result sd sh =
     (case sh_replies sh ! sd_channel sd of
        Waiting \<Rightarrow> None | Sent r \<Rightarrow> Some r | Hung_up \<Rightarrow> Some (Inl Closed))"

definition send_abort :: "sending \<Rightarrow> shared \<Rightarrow> shared" where
  "send_abort sd sh = drop_pending (sd_seq sd) sh"

text \<open>The dual await ends when the reply and the initialized signal are both there.\<close>

definition initialized_done :: "nat option \<Rightarrow> shared \<Rightarrow> bool" where
  "initialized_done w sh \<longleftrightarrow>
     (case w of None \<Rightarrow> True | Some c \<Rightarrow> is_channels (sh_initialized sh) ! c \<noteq> Waiting)"

definition both_result :: "sending \<Rightarrow> nat option \<Rightarrow> shared \<Rightarrow> pending_result option" where
  "both_result sd w sh = (if initialized_done w sh then send_result sd sh else None)"

section \<open>Steps on the shared state\<close>

inductive shared_step :: "(json \<Rightarrow> string) \<Rightarrow> shared \<Rightarrow> shared \<Rightarrow> bool" for to_vec where
  Next_Seq: "next_seq sh = (s, sh') \<Longrightarrow> shared_step to_vec sh sh'"
| Send_Begin: "send_begin r sh = (sd, sh') \<Longrightarrow> shared_step to_vec sh sh'"
| Send_Write: "send_write to_vec fault sd sh = (res, sh') \<Longrightarrow> shared_step to_vec sh sh'"
| Send_Abort: "shared_step to_vec sh (send_abort sd sh)"
| Wait_Initialized: "wait_initialized sh = (w, sh') \<Longrightarrow> shared_step to_vec sh sh'"
| Register_Stop: "sw_register (sh_stop_waiter sh) = (c, sw) \<Longrightarrow> shared_step to_vec sh (sh\<lparr>sh_stop_waiter := sw\<rparr>)"
| Response: "dispatch_response (rs_request_seq r) (DapResponse r) sh = (found, sh') \<Longrightarrow> shared_step to_vec sh sh'"
| Initialized_Event: "shared_step to_vec sh (signal_initialized sh)"
| Stop_Event: "shared_step to_vec sh (sh\<lparr>sh_stop_waiter := sw_send outcome (sh_stop_waiter sh)\<rparr>)"
| Cancel_All: "shared_step to_vec sh (cancel_all_pending Closed sh)"

definition pending_senders :: "shared \<Rightarrow> nat list" where
  "pending_senders sh = map snd (sh_pending sh)"

definition pending_inv :: "shared \<Rightarrow> bool" where
  "pending_inv sh \<longleftrightarrow> distinct (map fst (sh_pending sh)) \<and> wired (pending_senders sh) (sh_replies sh)"

text \<open>Taking an entry out of the table together with its sender.\<close>

lemma take_entry:
  assumes "distinct (map fst ps)" "wired (map snd ps) cs" "map_of ps s = Some c" "v \<noteq> Waiting"
  shows "wired (map snd (AList.delete s ps)) (settle c v cs)"
proof -
  have mem: "(s, c) \<in> set ps" using assms(3) by (rule map_of_SomeD)
  have "snd e \<noteq> c \<longleftrightarrow> s \<noteq> fst e" if "e \<in> set ps" for e
  proof -
    have "inj_on fst (set ps)" "inj_on snd (set ps)"
      using assms(1,2) by (auto simp: wired_def distinct_map)
    then show ?thesis using mem that by (metis fst_conv inj_on_def snd_conv)
  qed
  then have "filter (\<lambda>e. snd e \<noteq> c) ps = filter (\<lambda>e. s \<noteq> fst e) ps" by (rule filter_cong [OF refl])
  then have "filter (\<lambda>d. d \<noteq> c) (map snd ps) = map snd (AList.delete s ps)"
    by (simp add: filter_map o_def AList.delete_eq case_prod_unfold)
  then show ?thesis using wired_settle [OF assms(2,4), of c] by simp
qed

lemma delete_absent: "map_of ps s = None \<Longrightarrow> AList.delete s ps = ps"
  by (simp add: delete_id map_of_eq_None_iff)

lemma drop_entry:
  "distinct (map fst ps) \<Longrightarrow> wired (map snd ps) cs \<Longrightarrow>
   wired (map snd (AList.delete s ps)) (hang_up_opt (map_of ps s) cs)"
  by (cases "map_of ps s") (auto simp: delete_absent intro: take_entry)

lemma pending_inv_new [simp]: "pending_inv shared_new"
  by (simp add: pending_inv_def pending_senders_def shared_new_def)

lemma pending_inv_drop: "pending_inv sh \<Longrightarrow> pending_inv (drop_pending s sh)"
  by (simp add: pending_inv_def pending_senders_def drop_pending_def remove_pending_def drop_entry
      distinct_delete)

lemma pending_inv_register:
  "register_pending s sh = (c, sh') \<Longrightarrow> pending_inv sh \<Longrightarrow> pending_inv sh'"
  using drop_entry [of "sh_pending sh" "sh_replies sh" s]
    wired_new [of "map snd (AList.delete s (sh_pending sh))" "hang_up_opt (map_of (sh_pending sh) s) (sh_replies sh)"]
  by (auto simp: register_pending_def pending_inv_def pending_senders_def Let_def distinct_delete
      delete_notin_dom)

lemma pending_inv_dispatch:
  "dispatch_response s m sh = (found, sh') \<Longrightarrow> pending_inv sh \<Longrightarrow> pending_inv sh'"
  by (auto simp: dispatch_response_def remove_pending_def pending_inv_def pending_senders_def
      distinct_delete delete_absent take_entry split: option.splits)

lemma pending_inv_cancel: "pending_inv sh \<Longrightarrow> pending_inv (cancel_all_pending e sh)"
  using wired_fold_settle [of "sh_pending sh" "[]" "sh_replies sh" "Sent (Inl e)"]
  by (simp add: pending_inv_def pending_senders_def cancel_all_pending_def)

text \<open>What the operations leave alone.\<close>

lemma write_request_frame:
  "write_request to_vec fault r sh = (res, sh') \<Longrightarrow> \<exists>out. sh' = sh\<lparr>sh_out := out\<rparr>"
  by (auto simp: write_request_def split: option.splits prod.splits)

lemma send_write_cases:
  assumes "send_write to_vec fault sd sh = (res, sh')"
  obtains out where "sh' = sh\<lparr>sh_out := out\<rparr>"
    | out where "sh' = drop_pending (sd_seq sd) (sh\<lparr>sh_out := out\<rparr>)"
  using assms by (auto simp: send_write_def write_request_def split: option.splits prod.splits)

lemma shared_step_replies:
  "shared_step to_vec sh sh' \<Longrightarrow> extends (sh_replies sh) (sh_replies sh')"
proof (induction rule: shared_step.induct)
  case (Send_Begin r sh sd sh')
  then show ?case
    by (auto simp: send_begin_def next_seq_def register_pending_def Let_def
        intro: extends_trans [OF extends_hang_up_opt extends_new])
next
  case (Send_Write fault sd sh res sh')
  then show ?case by (rule send_write_cases) (simp_all add: drop_pending_def remove_pending_def)
qed (auto simp: next_seq_def send_abort_def drop_pending_def remove_pending_def wait_initialized_def
      dispatch_response_def signal_initialized_def cancel_all_pending_def Let_def
      split: option.splits if_splits)

lemma shared_step_pending_inv:
  "shared_step to_vec sh sh' \<Longrightarrow> pending_inv sh \<Longrightarrow> pending_inv sh'"
proof (induction rule: shared_step.induct)
  case (Send_Begin r sh sd sh')
  have "pending_inv (snd (next_seq sh))"
    using Send_Begin.prems by (simp add: pending_inv_def pending_senders_def next_seq_def Let_def)
  then show ?case
    using Send_Begin.hyps by (auto simp: send_begin_def Let_def split: prod.splits intro: pending_inv_register)
next
  case (Send_Write fault sd sh res sh')
  have out: "pending_inv (sh\<lparr>sh_out := out\<rparr>)" for out
    using Send_Write.prems by (simp add: pending_inv_def pending_senders_def)
  from Send_Write.hyps show ?case by (rule send_write_cases) (simp_all add: out pending_inv_drop)
qed (auto simp: send_abort_def pending_inv_drop pending_inv_cancel intro: pending_inv_dispatch,
     auto simp: pending_inv_def pending_senders_def next_seq_def wait_initialized_def
       signal_initialized_def Let_def split: if_splits)

interpretation replies: sender_table pending_senders sh_replies pending_inv "shared_step to_vec" for to_vec
  by unfold_locales
    (erule (1) shared_step_pending_inv, simp add: pending_inv_def, erule shared_step_replies)

text \<open>The initialized signal: at most one waiter is parked, and none once it has fired.\<close>

definition init_senders :: "shared \<Rightarrow> nat list" where
  "init_senders sh = (case is_waiter (sh_initialized sh) of None \<Rightarrow> [] | Some c \<Rightarrow> [c])"

definition init_inv :: "shared \<Rightarrow> bool" where
  "init_inv sh \<longleftrightarrow>
     wired (init_senders sh) (is_channels (sh_initialized sh)) \<and>
     (is_fired (sh_initialized sh) \<longrightarrow> is_waiter (sh_initialized sh) = None)"

lemma init_inv_new [simp]: "init_inv shared_new"
  by (simp add: init_inv_def init_senders_def shared_new_def initialized_new_def)

lemma init_inv_wait: "wait_initialized sh = (w, sh') \<Longrightarrow> init_inv sh \<Longrightarrow> init_inv sh'"
proof -
  assume w: "wait_initialized sh = (w, sh')" and inv: "init_inv sh"
  have "wired [] (hang_up_opt (is_waiter (sh_initialized sh)) (is_channels (sh_initialized sh)))"
    using inv by (cases "is_waiter (sh_initialized sh)") (auto simp: init_inv_def init_senders_def intro: wired_one)
  then show ?thesis
    using wired_new [of "[]" "hang_up_opt (is_waiter (sh_initialized sh)) (is_channels (sh_initialized sh))"] w inv
    by (auto simp: wait_initialized_def init_inv_def init_senders_def Let_def split: if_splits)
qed

lemma init_inv_signal: "init_inv sh \<Longrightarrow> init_inv (signal_initialized sh)"
  by (cases "is_waiter (sh_initialized sh)")
    (auto simp: init_inv_def init_senders_def signal_initialized_def Let_def intro: wired_one)

definition sh_init_channels :: "shared \<Rightarrow> unit channels" where
  "sh_init_channels sh = is_channels (sh_initialized sh)"

text \<open>Only the signal and a wait touch it.\<close>

lemma shared_step_initialized:
  assumes "shared_step to_vec sh sh'"
  obtains "sh_initialized sh' = sh_initialized sh"
    | w where "wait_initialized sh = (w, sh')"
    | "sh' = signal_initialized sh"
  using assms
proof cases
  case (Send_Write fault sd res)
  then show ?thesis
    using that(1) by (auto simp: drop_pending_def remove_pending_def elim!: send_write_cases)
qed (use that in \<open>auto simp: next_seq_def send_begin_def register_pending_def send_abort_def
      drop_pending_def remove_pending_def dispatch_response_def cancel_all_pending_def Let_def
      split: option.splits\<close>)

interpretation initialized: sender_table init_senders sh_init_channels init_inv "shared_step to_vec" for to_vec
proof unfold_locales
  fix s t
  assume step: "shared_step to_vec s t"
  show "init_inv t" if "init_inv s"
    using step
  proof (rule shared_step_initialized)
    assume "sh_initialized t = sh_initialized s"
    then show ?thesis using that by (simp add: init_inv_def init_senders_def)
  qed (use that in \<open>auto intro: init_inv_wait init_inv_signal\<close>)
  show "extends (sh_init_channels s) (sh_init_channels t)"
    using step
    by (rule shared_step_initialized)
      (auto simp: sh_init_channels_def wait_initialized_def signal_initialized_def Let_def
        split: if_splits option.splits intro: extends_trans [OF extends_hang_up_opt extends_new])
qed (simp add: init_inv_def sh_init_channels_def)

lemma shared_step_stop_waiter:
  "shared_step to_vec sh sh' \<Longrightarrow> sw_step\<^sup>=\<^sup>= (sh_stop_waiter sh) (sh_stop_waiter sh')"
proof (induction rule: shared_step.induct)
  case (Send_Write fault sd sh res sh')
  then show ?case by (rule send_write_cases) (simp_all add: drop_pending_def remove_pending_def)
qed (auto simp: next_seq_def send_begin_def register_pending_def send_abort_def drop_pending_def
      remove_pending_def dispatch_response_def cancel_all_pending_def wait_initialized_def
      signal_initialized_def Let_def split: option.splits if_splits intro: sw_step.intros)

lemma shared_steps_stop_waiter:
  "(shared_step to_vec)\<^sup>*\<^sup>* sh sh' \<Longrightarrow> sw_step\<^sup>*\<^sup>* (sh_stop_waiter sh) (sh_stop_waiter sh')"
  by (induction rule: rtranclp_induct) (auto dest!: shared_step_stop_waiter intro: rtranclp.rtrancl_into_rtrancl)

section \<open>Correlation\<close>

text \<open>The answers the waiter of request \<open>s\<close> can get.\<close>

fun answers :: "i64 \<Rightarrow> pending_result oneshot \<Rightarrow> bool" where
  "answers s (Sent (Inr (DapResponse r))) \<longleftrightarrow> rs_request_seq r = s"
| "answers s (Sent (Inl e)) \<longleftrightarrow> e = Closed"
| "answers s Hung_up \<longleftrightarrow> True"
| "answers s _ \<longleftrightarrow> False"

definition in_flight :: "i64 \<Rightarrow> nat \<Rightarrow> shared \<Rightarrow> bool" where
  "in_flight s c sh \<longleftrightarrow> (s, c) \<in> set (sh_pending sh) \<and> c < length (sh_replies sh) \<and> sh_replies sh ! c = Waiting"

definition answered :: "i64 \<Rightarrow> nat \<Rightarrow> shared \<Rightarrow> bool" where
  "answered s c sh \<longleftrightarrow> c < length (sh_replies sh) \<and> answers s (sh_replies sh ! c)"

lemma in_flight_entry: "pending_inv sh \<Longrightarrow> (s, c) \<in> set (sh_pending sh) \<Longrightarrow> in_flight s c sh"
  by (force simp: in_flight_def pending_inv_def pending_senders_def wired_def waiting_def)

lemma entry_lookup: "pending_inv sh \<Longrightarrow> (s, c) \<in> set (sh_pending sh) \<Longrightarrow> map_of (sh_pending sh) s = Some c"
  by (simp add: pending_inv_def)

lemma answered_stays: "answered s c sh \<Longrightarrow> extends (sh_replies sh) (sh_replies sh') \<Longrightarrow> answered s c sh'"
  by (auto simp: answered_def extends_def)

lemma in_delete: "(s, c) \<in> set (AList.delete s' ps) \<longleftrightarrow> (s, c) \<in> set ps \<and> s \<noteq> s'"
  by (auto simp: AList.delete_eq)

lemma in_flight_drop:
  "pending_inv sh \<Longrightarrow> in_flight s c sh \<Longrightarrow> s = s' \<Longrightarrow> answered s c (drop_pending s' sh)"
  using entry_lookup [of sh s c]
  by (auto simp: in_flight_def answered_def drop_pending_def remove_pending_def settle_nth)

lemma fold_settle_nth:
  "c \<in> snd ` set es \<Longrightarrow> c < length cs \<Longrightarrow> cs ! c = Waiting \<Longrightarrow> v \<noteq> Waiting \<Longrightarrow>
   fold (\<lambda>(_, c). settle c v) es cs ! c = v"
proof (induction es arbitrary: cs)
  case (Cons e es)
  show ?case
  proof (cases "snd e = c")
    case True
    then have "settle (snd e) v cs ! c = v" using Cons.prems by (simp add: settle_nth)
    moreover have "extends (settle (snd e) v cs) (fold (\<lambda>(_, c). settle c v) es (settle (snd e) v cs))" by simp
    ultimately show ?thesis using Cons.prems by (cases e) (simp add: extends_def)
  next
    case False
    then show ?thesis using Cons by (cases e) (auto simp: settle_nth)
  qed
qed simp

lemma fold_settle_length [simp]: "length (fold (\<lambda>(_, c). settle c v) es cs) = length cs"
  by (induction es arbitrary: cs) auto

lemma in_flight_step:
  assumes "shared_step to_vec sh sh'" "pending_inv sh" "in_flight s c sh"
  shows "in_flight s c sh' \<or> answered s c sh'"
proof -
  have inv': "pending_inv sh'" using assms(1,2) by (rule shared_step_pending_inv)
  have entry: "(s, c) \<in> set (sh_pending sh)" and len: "c < length (sh_replies sh)"
    and waits: "sh_replies sh ! c = Waiting"
    using assms(3) by (auto simp: in_flight_def)
  note look = entry_lookup [OF assms(2) entry]
  have "(s, c) \<in> set (sh_pending sh') \<or> answered s c sh'"
    using assms(1)
  proof cases
    case (Send_Begin r sd)
    then show ?thesis
      using entry len waits look
      by (cases "s = wrap_i64 (sh_seq sh + 1)")
        (auto simp: send_begin_def next_seq_def register_pending_def Let_def in_delete answered_def
          nth_append settle_nth)
  next
    case (Send_Write fault sd res)
    have flight: "in_flight s c (sh\<lparr>sh_out := out\<rparr>)" "pending_inv (sh\<lparr>sh_out := out\<rparr>)" for out
      using assms(2,3) by (simp_all add: in_flight_def pending_inv_def pending_senders_def)
    from Send_Write show ?thesis
      using in_flight_drop [OF flight(2,1)] entry
      by (elim send_write_cases)
        (auto simp: drop_pending_def remove_pending_def in_delete)
  next
    case (Send_Abort sd)
    then show ?thesis
      using in_flight_drop [OF assms(2,3), of "sd_seq sd"] entry
      by (auto simp: send_abort_def drop_pending_def remove_pending_def in_delete)
  next
    case (Response r found)
    then show ?thesis
      using entry len waits look
      by (auto simp: dispatch_response_def remove_pending_def in_delete answered_def settle_nth
          split: option.splits)
  next
    case Cancel_All
    moreover have "c \<in> snd ` set (sh_pending sh)" using entry by force
    ultimately show ?thesis
      using fold_settle_nth [of c "sh_pending sh" "sh_replies sh" "Sent (Inl Closed)"] len waits
      by (simp add: cancel_all_pending_def answered_def)
  qed (use entry in \<open>auto simp: next_seq_def wait_initialized_def signal_initialized_def Let_def
        split: if_splits\<close>)
  then show ?thesis using in_flight_entry [OF inv'] by blast
qed

lemma in_flight_steps:
  assumes "(shared_step to_vec)\<^sup>*\<^sup>* sh sh'" "pending_inv sh" "in_flight s c sh"
  shows "in_flight s c sh' \<or> answered s c sh'"
  using assms(1)
proof (induction rule: rtranclp_induct)
  case (step sh1 sh2)
  have "pending_inv sh1" using step.hyps(1) assms(2) by (rule replies.steps_inv)
  then show ?case
    using step in_flight_step [of to_vec sh1 sh2 s c] answered_stays shared_step_replies by blast
qed (simp add: assms(3))

lemma send_begin_in_flight:
  assumes "send_begin r sh = (sd, sh')" "pending_inv sh"
  shows "in_flight (sd_seq sd) (sd_channel sd) sh' \<and> pending_inv sh'"
proof -
  have inv: "pending_inv sh'"
    by (rule shared_step_pending_inv [OF Send_Begin [OF assms(1)] assms(2)])
  moreover have "(sd_seq sd, sd_channel sd) \<in> set (sh_pending sh')"
    using assms(1) by (auto simp: send_begin_def register_pending_def Let_def split: prod.splits)
  ultimately show ?thesis using in_flight_entry by blast
qed

end
