(* ===== verification/Read_Loop.thy ===== *)
theory Read_Loop
  imports Dap_Client
begin

text \<open>
  The read loop, \<open>dap-client/src/read_loop.rs\<close>: the task that reads one message after the other and
  hands each to whoever waits for it, and that releases everybody when the transport ends.  The
  reader is the bytes the transport still delivers; the log is what goes to the standard error.
\<close>

section \<open>State\<close>

record output_chunk =
  oc_category :: string
  oc_text :: string

record sinks =
  sk_output :: "output_chunk list"
  sk_terminated :: "nat option"
  sk_signals :: "i64 option channels"
  sk_last_exit_code :: "i64 option"

definition sinks_new :: sinks where
  "sinks_new = \<lparr>sk_output = [], sk_terminated = Some 0, sk_signals = [Waiting], sk_last_exit_code = None\<rparr>"

definition fire_terminated :: "sinks \<Rightarrow> sinks" where
  "fire_terminated sk =
     (case sk_terminated sk of
        None \<Rightarrow> sk
      | Some c \<Rightarrow> sk\<lparr>sk_terminated := None,
                     sk_signals := send_value c (sk_last_exit_code sk) (sk_signals sk)\<rparr>)"

definition record_exit :: "i64 \<Rightarrow> sinks \<Rightarrow> sinks" where
  "record_exit code sk = sk\<lparr>sk_last_exit_code := Some code\<rparr>"

text \<open>The error is kept as a value; the code keeps its text.\<close>

record close_state =
  cs_closed :: bool
  cs_err :: "wire_error option"

definition close_once :: "wire_error \<Rightarrow> close_state \<Rightarrow> bool \<times> close_state" where
  "close_once e cs = (if cs_closed cs then (False, cs) else (True, \<lparr>cs_closed = True, cs_err = Some e\<rparr>))"

text \<open>\<open>rl_running\<close> is false once \<open>run\<close> has returned.\<close>

record read_loop =
  rl_reader :: string
  rl_shared :: shared
  rl_sinks :: sinks
  rl_close_state :: close_state
  rl_log :: "string list"
  rl_running :: bool

definition read_loop_new :: "string \<Rightarrow> shared \<Rightarrow> read_loop" where
  "read_loop_new reader sh =
     \<lparr>rl_reader = reader, rl_shared = sh, rl_sinks = sinks_new,
      rl_close_state = \<lparr>cs_closed = False, cs_err = None\<rparr>, rl_log = [], rl_running = True\<rparr>"

abbreviation on_shared :: "(shared \<Rightarrow> shared) \<Rightarrow> read_loop \<Rightarrow> read_loop" where
  "on_shared f rl \<equiv> rl\<lparr>rl_shared := f (rl_shared rl)\<rparr>"

abbreviation on_sinks :: "(sinks \<Rightarrow> sinks) \<Rightarrow> read_loop \<Rightarrow> read_loop" where
  "on_sinks f rl \<equiv> rl\<lparr>rl_sinks := f (rl_sinks rl)\<rparr>"

definition on_stop_waiter :: "(stop_waiter \<Rightarrow> stop_waiter) \<Rightarrow> read_loop \<Rightarrow> read_loop" where
  "on_stop_waiter f rl = on_shared (\<lambda>sh. sh\<lparr>sh_stop_waiter := f (sh_stop_waiter sh)\<rparr>) rl"

definition log_line :: "string \<Rightarrow> read_loop \<Rightarrow> read_loop" where
  "log_line t rl = rl\<lparr>rl_log := rl_log rl @ [''dap-client: '' @ t]\<rparr>"

section \<open>Dispatch\<close>

definition log_no_waiter :: "i64 \<Rightarrow> read_loop \<Rightarrow> read_loop" where
  "log_no_waiter s = log_line (''no waiter for response to request seq '' @ show_int s)"

definition log_unhandled :: "string \<Rightarrow> string option \<Rightarrow> string option \<Rightarrow> read_loop \<Rightarrow> read_loop" where
  "log_unhandled ty event command =
     log_line (case event of
                 Some e \<Rightarrow> ''unhandled event: '' @ e
               | None \<Rightarrow>
                   (case command of
                      Some c \<Rightarrow> ''unhandled message type '' @ ty @ '' (command '' @ c @ '')''
                    | None \<Rightarrow> ''unhandled message type: '' @ ty))"

definition log_informational :: "dap_event \<Rightarrow> read_loop \<Rightarrow> read_loop" where
  "log_informational ev =
     log_line (''informational event: '' @
       (case ev of
          ThreadEvent \<Rightarrow> ''thread'' | BreakpointEvent \<Rightarrow> ''breakpoint'' | ProcessEvent \<Rightarrow> ''process''
        | ContinuedEvent \<Rightarrow> ''continued'' | ModuleEvent \<Rightarrow> ''module''
        | CapabilitiesEvent \<Rightarrow> ''capabilities'' | _ \<Rightarrow> ''informational''))"

definition dispatch_event :: "dap_event \<Rightarrow> read_loop \<Rightarrow> read_loop" where
  "dispatch_event ev rl =
     (case ev of
        StoppedEvent b \<Rightarrow> on_stop_waiter (sw_deliver b) rl
      | Initialized \<Rightarrow> on_shared signal_initialized rl
      | OutputEvent b \<Rightarrow>
          on_sinks (\<lambda>sk. sk\<lparr>sk_output := sk_output sk @ [\<lparr>oc_category = ob_category b, oc_text = ob_output b\<rparr>]\<rparr>) rl
      | ExitedEvent code \<Rightarrow> on_stop_waiter (sw_deliver_exit code) (on_sinks (record_exit code) rl)
      | TerminatedEvent \<Rightarrow> on_stop_waiter sw_cancel (on_sinks fire_terminated rl)
      | _ \<Rightarrow> log_informational ev rl)"

definition dispatch_message :: "dap_message \<Rightarrow> read_loop \<Rightarrow> read_loop" where
  "dispatch_message m rl =
     (case m of
        DapEvent ev \<Rightarrow> dispatch_event ev rl
      | DapResponse r \<Rightarrow>
          (let (found, sh) = dispatch_response (rs_request_seq r) (DapResponse r) (rl_shared rl);
               rl' = rl\<lparr>rl_shared := sh\<rparr>
           in if found then rl' else log_no_waiter (rs_request_seq r) rl')
      | DapOther en \<Rightarrow> log_unhandled (en_ty en) (en_event en) (en_command en) rl)"

definition recover :: "wire_error \<Rightarrow> read_loop \<Rightarrow> read_loop" where
  "recover e rl =
     (let rl1 = rl\<lparr>rl_close_state := snd (close_once e (rl_close_state rl))\<rparr>;
          rl2 = on_shared (cancel_all_pending Closed) rl1;
          rl3 = on_stop_waiter sw_cancel rl2
      in on_sinks fire_terminated rl3)"

text \<open>One turn of the loop of \<open>run\<close>, and the loop: every turn that goes on has consumed bytes.\<close>

definition run_turn :: "(string \<Rightarrow> json option) \<Rightarrow> read_loop \<Rightarrow> read_loop" where
  "run_turn parse rl =
     (case read_message parse (rl_reader rl) of
        (Inr m, rest) \<Rightarrow> dispatch_message m (rl\<lparr>rl_reader := rest\<rparr>)
      | (Inl e, rest) \<Rightarrow> (recover e (rl\<lparr>rl_reader := rest\<rparr>))\<lparr>rl_running := False\<rparr>)"

lemma recover_keeps [simp]:
  "rl_reader (recover e rl) = rl_reader rl" "rl_running (recover e rl) = rl_running rl"
  "rl_log (recover e rl) = rl_log rl"
  by (simp_all add: recover_def on_stop_waiter_def Let_def)

lemma dispatch_keeps [simp]:
  "rl_reader (dispatch_message m rl) = rl_reader rl" "rl_running (dispatch_message m rl) = rl_running rl"
  "rl_close_state (dispatch_message m rl) = rl_close_state rl"
  by (auto simp: dispatch_message_def dispatch_event_def on_stop_waiter_def log_no_waiter_def
      log_unhandled_def log_informational_def log_line_def Let_def
      split: dap_message.splits dap_event.splits prod.splits)

lemma run_turn_less:
  "rl_running (run_turn parse rl) \<Longrightarrow> length (rl_reader (run_turn parse rl)) < length (rl_reader rl)"
  by (auto simp: run_turn_def split: prod.splits sum.splits dest: read_message_less)

function run :: "(string \<Rightarrow> json option) \<Rightarrow> read_loop \<Rightarrow> read_loop" where
  "run parse rl = (if rl_running rl then run parse (run_turn parse rl) else rl)"
  by pat_completeness auto
termination
proof (relation "measure (\<lambda>(_, rl). if rl_running rl then Suc (length (rl_reader rl)) else 0)")
  fix parse rl
  assume "rl_running (rl :: read_loop)"
  then show "((parse, run_turn parse rl), (parse, rl)) \<in>
      measure (\<lambda>(_, rl). if rl_running rl then Suc (length (rl_reader rl)) else 0)"
    using run_turn_less [of parse rl] by simp
qed simp

declare run.simps [simp del]

section \<open>The client and the loop together\<close>

text \<open>What the client side does between two turns of the loop.\<close>

inductive client_step :: "(json \<Rightarrow> string) \<Rightarrow> shared \<Rightarrow> shared \<Rightarrow> bool" for to_vec where
  C_Next_Seq: "next_seq sh = (s, sh') \<Longrightarrow> client_step to_vec sh sh'"
| C_Send_Begin: "send_begin r sh = (sd, sh') \<Longrightarrow> client_step to_vec sh sh'"
| C_Send_Write: "send_write to_vec fault sd sh = (res, sh') \<Longrightarrow> client_step to_vec sh sh'"
| C_Send_Abort: "client_step to_vec sh (send_abort sd sh)"
| C_Wait_Initialized: "wait_initialized sh = (w, sh') \<Longrightarrow> client_step to_vec sh sh'"
| C_Register_Stop: "sw_register (sh_stop_waiter sh) = (c, sw) \<Longrightarrow> client_step to_vec sh (sh\<lparr>sh_stop_waiter := sw\<rparr>)"

inductive connection_step ::
  "(json \<Rightarrow> string) \<Rightarrow> (string \<Rightarrow> json option) \<Rightarrow> read_loop \<Rightarrow> read_loop \<Rightarrow> bool" for to_vec parse where
  Client: "client_step to_vec (rl_shared rl) sh \<Longrightarrow> connection_step to_vec parse rl (rl\<lparr>rl_shared := sh\<rparr>)"
| Loop: "rl_running rl \<Longrightarrow> connection_step to_vec parse rl (run_turn parse rl)"

inductive_cases connection_stepE: "connection_step to_vec parse rl rl'"

lemma client_step_shared: "client_step to_vec sh sh' \<Longrightarrow> shared_step to_vec sh sh'"
  by (induction rule: client_step.induct) (auto intro: shared_step.intros)

text \<open>What a turn does to the shared state is a few of its steps.\<close>

lemma dispatch_shared:
  "(shared_step to_vec)\<^sup>*\<^sup>* (rl_shared rl) (rl_shared (dispatch_message m rl))"
proof (cases m)
  case (DapResponse r)
  then show ?thesis
    by (auto simp: dispatch_message_def log_no_waiter_def log_line_def Let_def split: prod.splits
        intro: r_into_rtranclp shared_step.Response)
next
  case (DapEvent ev)
  then show ?thesis
    by (cases ev)
      (auto simp: dispatch_message_def dispatch_event_def on_stop_waiter_def log_informational_def
        log_line_def sw_deliver_def sw_deliver_exit_def sw_cancel_def
        intro: r_into_rtranclp shared_step.Initialized_Event shared_step.Stop_Event)
qed (simp add: dispatch_message_def log_unhandled_def log_line_def)

lemma recover_shared: "(shared_step to_vec)\<^sup>*\<^sup>* (rl_shared rl) (rl_shared (recover e rl))"
proof -
  have "shared_step to_vec (rl_shared rl) (cancel_all_pending Closed (rl_shared rl))"
    by (rule shared_step.Cancel_All)
  moreover have "shared_step to_vec (cancel_all_pending Closed (rl_shared rl)) (rl_shared (recover e rl))"
    using shared_step.Stop_Event [of to_vec "cancel_all_pending Closed (rl_shared rl)" SO_Terminated]
    by (simp add: recover_def on_stop_waiter_def sw_cancel_def Let_def)
  ultimately show ?thesis by (meson converse_rtranclp_into_rtranclp r_into_rtranclp)
qed

lemma run_turn_shared: "(shared_step to_vec)\<^sup>*\<^sup>* (rl_shared rl) (rl_shared (run_turn parse rl))"
proof -
  obtain r rest where "read_message parse (rl_reader rl) = (r, rest)" by (rule prod.exhaust)
  then show ?thesis
    using dispatch_shared [of to_vec "rl\<lparr>rl_reader := rest\<rparr>"] recover_shared [of to_vec "rl\<lparr>rl_reader := rest\<rparr>"]
    by (cases r) (simp_all add: run_turn_def)
qed

lemma connection_step_shared:
  "connection_step to_vec parse rl rl' \<Longrightarrow> (shared_step to_vec)\<^sup>*\<^sup>* (rl_shared rl) (rl_shared rl')"
  by (induction rule: connection_step.induct)
    (auto intro: client_step_shared run_turn_shared r_into_rtranclp)

lemma connection_steps_shared:
  "(connection_step to_vec parse)\<^sup>*\<^sup>* rl rl' \<Longrightarrow> (shared_step to_vec)\<^sup>*\<^sup>* (rl_shared rl) (rl_shared rl')"
  by (induction rule: rtranclp_induct) (auto dest: connection_step_shared)

lemma run_steps: "(connection_step to_vec parse)\<^sup>*\<^sup>* rl (run parse rl)"
proof (induction parse rl rule: run.induct)
  case (1 parse rl)
  then show ?case
    by (subst run.simps) (auto intro: converse_rtranclp_into_rtranclp connection_step.Loop)
qed

lemma run_stops: "\<not> rl_running (run parse rl)"
  by (induction parse rl rule: run.induct) (subst run.simps; simp)

section \<open>Release at the end\<close>

definition sinks_inv :: "sinks \<Rightarrow> bool" where
  "sinks_inv sk \<longleftrightarrow> wired (case sk_terminated sk of None \<Rightarrow> [] | Some c \<Rightarrow> [c]) (sk_signals sk)"

definition connection_inv :: "read_loop \<Rightarrow> bool" where
  "connection_inv rl \<longleftrightarrow>
     pending_inv (rl_shared rl) \<and> init_inv (rl_shared rl) \<and> sw_inv (sh_stop_waiter (rl_shared rl)) \<and>
     sinks_inv (rl_sinks rl)"

lemma sinks_inv_new [simp]: "sinks_inv sinks_new"
  using wired_new [OF wired_empty] by (simp add: sinks_inv_def sinks_new_def)

lemma connection_inv_new [simp]: "connection_inv (read_loop_new reader shared_new)"
  by (simp add: connection_inv_def read_loop_new_def)
    (simp add: shared_new_def stop_waiter_new_def sw_senders_def)

lemma sinks_inv_fire: "sinks_inv sk \<Longrightarrow> sinks_inv (fire_terminated sk)"
  by (auto simp: sinks_inv_def fire_terminated_def split: option.splits intro: wired_one)

text \<open>What one message means for the backend's sinks.\<close>

definition sinks_after :: "dap_message \<Rightarrow> sinks \<Rightarrow> sinks" where
  "sinks_after m sk =
     (case m of
        DapEvent (OutputEvent b) \<Rightarrow>
          sk\<lparr>sk_output := sk_output sk @ [\<lparr>oc_category = ob_category b, oc_text = ob_output b\<rparr>]\<rparr>
      | DapEvent (ExitedEvent code) \<Rightarrow> record_exit code sk
      | DapEvent TerminatedEvent \<Rightarrow> fire_terminated sk
      | _ \<Rightarrow> sk)"

lemma dispatch_sinks: "rl_sinks (dispatch_message m rl) = sinks_after m (rl_sinks rl)"
  by (auto simp: sinks_after_def dispatch_message_def dispatch_event_def on_stop_waiter_def
      log_no_waiter_def log_unhandled_def log_informational_def log_line_def Let_def
      split: dap_message.splits dap_event.splits prod.splits)

lemma recover_sinks: "rl_sinks (recover e rl) = fire_terminated (rl_sinks rl)"
  by (simp add: recover_def on_stop_waiter_def Let_def)

lemma sinks_inv_after: "sinks_inv sk \<Longrightarrow> sinks_inv (sinks_after m sk)"
  by (auto simp: sinks_after_def sinks_inv_fire split: dap_message.splits dap_event.splits)
    (simp_all add: sinks_inv_def record_exit_def)

lemma run_turn_sinks:
  "rl_sinks (run_turn parse rl) =
     (case fst (read_message parse (rl_reader rl)) of
        Inr m \<Rightarrow> sinks_after m (rl_sinks rl) | Inl _ \<Rightarrow> fire_terminated (rl_sinks rl))"
  by (auto simp: run_turn_def recover_sinks dispatch_sinks split: prod.splits sum.splits)

lemma sinks_inv_turn: "sinks_inv (rl_sinks rl) \<Longrightarrow> sinks_inv (rl_sinks (run_turn parse rl))"
  by (simp add: run_turn_sinks sinks_inv_after sinks_inv_fire split: sum.split)

lemma connection_step_inv:
  assumes "connection_step to_vec parse rl rl'" "connection_inv rl"
  shows "connection_inv rl'"
proof -
  have sh: "(shared_step to_vec)\<^sup>*\<^sup>* (rl_shared rl) (rl_shared rl')"
    using assms(1) by (rule connection_step_shared)
  have "sinks_inv (rl_sinks rl')"
    using assms(1)
  proof cases
    case Loop
    then show ?thesis
      using assms(2) by (simp add: connection_inv_def sinks_inv_turn)
  qed (use assms(2) in \<open>simp add: connection_inv_def\<close>)
  then show ?thesis
    using assms(2) replies.steps_inv [OF sh] initialized.steps_inv [OF sh]
      sw.steps_inv [OF shared_steps_stop_waiter [OF sh]]
    by (simp add: connection_inv_def)
qed

lemma connection_steps_inv:
  "(connection_step to_vec parse)\<^sup>*\<^sup>* rl rl' \<Longrightarrow> connection_inv rl \<Longrightarrow> connection_inv rl'"
  by (induction rule: rtranclp_induct) (auto intro: connection_step_inv)

text \<open>Nobody but a waiter for the initialized signal is left: what a finished loop guarantees.\<close>

definition released :: "read_loop \<Rightarrow> bool" where
  "released rl \<longleftrightarrow>
     sh_pending (rl_shared rl) = [] \<and> sw_slot (sh_stop_waiter (rl_shared rl)) = None \<and>
     sk_terminated (rl_sinks rl) = None"

lemma recover_released: "released (recover e rl)"
  by (auto simp: released_def recover_def on_stop_waiter_def cancel_all_pending_def sw_cancel_def
      sw_send_def fire_terminated_def Let_def split: option.splits)

lemma run_turn_released: "\<not> rl_running (run_turn parse rl) \<Longrightarrow> rl_running rl \<Longrightarrow> released (run_turn parse rl)"
  using recover_released
  by (auto simp: run_turn_def released_def split: prod.splits sum.splits)

lemma run_released: "rl_running rl \<Longrightarrow> released (run parse rl)"
proof (induction parse rl rule: run.induct)
  case (1 parse rl)
  show ?case
  proof (cases "rl_running (run_turn parse rl)")
    case True
    then show ?thesis using 1 by (subst run.simps) simp
  next
    case False
    then have "run parse rl = run_turn parse rl"
      using "1.prems" by (subst run.simps, subst run.simps) simp
    then show ?thesis using False "1.prems" run_turn_released by simp
  qed
qed

end
