(* ===== verification/Transport_Properties.thy ===== *)
theory Transport_Properties
  imports Read_Loop
begin

text \<open>
  The properties of the DAP transport: framing, correlation of answers with requests, the stop
  waiter, and what the end of the connection releases and does not release.
\<close>

section \<open>The loop on a stream of whole frames\<close>

definition dispatch_all :: "dap_message list \<Rightarrow> read_loop \<Rightarrow> read_loop" where
  "dispatch_all ms rl = fold dispatch_message ms rl"

lemma dispatch_reader:
  "dispatch_message m (rl\<lparr>rl_reader := x\<rparr>) = (dispatch_message m rl)\<lparr>rl_reader := x\<rparr>"
  by (auto simp: dispatch_message_def dispatch_event_def on_stop_waiter_def log_no_waiter_def
      log_unhandled_def log_informational_def log_line_def Let_def
      split: dap_message.splits dap_event.splits prod.splits)

lemma dispatch_all_keeps [simp]:
  "rl_reader (dispatch_all ms rl) = rl_reader rl" "rl_running (dispatch_all ms rl) = rl_running rl"
  unfolding dispatch_all_def by (induction ms arbitrary: rl) simp_all

lemma run_frames:
  "rl_running rl \<Longrightarrow> rl_reader rl = concat (map frame_bytes bs) \<Longrightarrow>
   list_all2 (\<lambda>b m. length b \<le> MAX_CONTENT_LENGTH \<and> from_slice parse b = Inr m) bs ms \<Longrightarrow>
   run parse rl = (recover W_Eof (dispatch_all ms (rl\<lparr>rl_reader := []\<rparr>)))\<lparr>rl_running := False\<rparr>"
proof (induction bs arbitrary: rl ms)
  case Nil
  then show ?case
    by (subst run.simps, subst run.simps) (simp add: run_turn_def read_message_end dispatch_all_def)
next
  case (Cons b bs)
  from Cons.prems(3) obtain m ms' where ms: "ms = m # ms'" and b: "length b \<le> MAX_CONTENT_LENGTH"
    and m: "from_slice parse b = Inr m"
    and rest: "list_all2 (\<lambda>b m. length b \<le> MAX_CONTENT_LENGTH \<and> from_slice parse b = Inr m) bs ms'"
    by (auto simp: list_all2_Cons1)
  let ?rl = "dispatch_message m (rl\<lparr>rl_reader := concat (map frame_bytes bs)\<rparr>)"
  have "run_turn parse rl = ?rl"
    using Cons.prems(2) by (simp add: run_turn_def read_message_frame [OF b] m)
  then have "run parse rl = run parse ?rl" using Cons.prems(1) by (subst run.simps) simp
  also have "\<dots> = (recover W_Eof (dispatch_all ms' (?rl\<lparr>rl_reader := []\<rparr>)))\<lparr>rl_running := False\<rparr>"
    using Cons.prems(1) by (intro Cons.IH rest) simp_all
  finally show ?case by (simp add: ms dispatch_all_def dispatch_reader)
qed

fun outputs_in :: "dap_message list \<Rightarrow> output_chunk list" where
  "outputs_in [] = []"
| "outputs_in (DapEvent (OutputEvent b) # ms) =
     \<lparr>oc_category = ob_category b, oc_text = ob_output b\<rparr> # outputs_in ms"
| "outputs_in (m # ms) = outputs_in ms"

text \<open>The exit code known when the session ends: at the first \<open>terminated\<close> event, or at the end.\<close>

fun exit_report :: "i64 option \<Rightarrow> dap_message list \<Rightarrow> i64 option" where
  "exit_report code [] = code"
| "exit_report code (DapEvent (ExitedEvent c) # ms) = exit_report (Some c) ms"
| "exit_report code (DapEvent TerminatedEvent # ms) = code"
| "exit_report code (m # ms) = exit_report code ms"

lemma sinks_all: "rl_sinks (dispatch_all ms rl) = fold sinks_after ms (rl_sinks rl)"
  unfolding dispatch_all_def by (induction ms arbitrary: rl) (simp_all add: dispatch_sinks)

lemma sinks_output: "sk_output (fold sinks_after ms sk) = sk_output sk @ outputs_in ms"
proof (induction ms arbitrary: sk rule: outputs_in.induct)
  case (2 b ms)
  then show ?case by (simp add: sinks_after_def)
qed (auto simp: sinks_after_def record_exit_def fire_terminated_def split: option.splits)

lemma fired_stays: "sk_terminated sk = None \<Longrightarrow> sk_signals (fold sinks_after ms sk) = sk_signals sk \<and>
   sk_terminated (fold sinks_after ms sk) = None"
  by (induction ms arbitrary: sk)
    (auto simp: sinks_after_def record_exit_def fire_terminated_def
      split: dap_message.splits dap_event.splits)

lemma sinks_signal:
  "sk_terminated sk = Some 0 \<Longrightarrow> sk_signals sk = [Waiting] \<Longrightarrow>
   sk_signals (fire_terminated (fold sinks_after ms sk)) = [Sent (exit_report (sk_last_exit_code sk) ms)]"
proof (induction "sk_last_exit_code sk" ms arbitrary: sk rule: exit_report.induct)
  case (3 ms)
  have "sk_terminated (fire_terminated sk) = None"
    "sk_signals (fire_terminated sk) = [Sent (sk_last_exit_code sk)]"
    using 3 by (simp_all add: fire_terminated_def settle_def)
  then show ?case
    using fired_stays [of "fire_terminated sk" ms] by (simp add: sinks_after_def fire_terminated_def)
qed (auto simp: sinks_after_def record_exit_def fire_terminated_def settle_def)

section \<open>Framing\<close>

text \<open>C21: Whatever is written is read back, and nothing but it: a frame written to the transport, with
  anything after it, reads as the decoding of its body and leaves exactly what came after, for every
  body up to the length cap.\<close>

theorem written_frame_is_read_back:
  assumes "length (to_vec j) \<le> MAX_CONTENT_LENGTH"
  shows "read_message parse (write_message to_vec j [] @ rest) = (from_slice parse (to_vec j), rest)"
  using read_message_frame [OF assms] by (simp add: write_message_def)

theorem written_frame_is_read_back_witness:
  "read_message (\<lambda>_. None) (write_message (\<lambda>_. ''{}'') JNull [] @ ''Con'') = (Inl W_Json, ''Con'')"
  using written_frame_is_read_back [of "\<lambda>_. ''{}''" JNull "\<lambda>_. None" "''Con''"]
  by (simp add: MAX_CONTENT_LENGTH_def from_slice_def)

text \<open>A header is bounded: reading one that is accepted consumes at least a byte, never gives back
  more than there was, and announces at most 64 MiB, however the input was made.\<close>

theorem accepted_length_is_bounded:
  assumes "read_header input = (Inr n, rest)"
  shows "n \<le> MAX_CONTENT_LENGTH \<and> length rest < length input"
  using read_header_loop_result [of None True input] assms by (simp add: read_header_def)

theorem accepted_length_is_bounded_witness:
  "read_header (''Content-Length: 2'' @ crlf @ crlf @ ''{}'') = (Inr 2, ''{}'') \<and>
   (2 :: nat) \<le> MAX_CONTENT_LENGTH \<and> length ''{}'' < length (''Content-Length: 2'' @ crlf @ crlf @ ''{}'')"
proof -
  have r: "read_header (''Content-Length: 2'' @ crlf @ crlf @ ''{}'') = (Inr 2, ''{}'')"
  proof -
    have "header_line 2 = ''Content-Length: 2''" by code_simp
    then show ?thesis using read_header_frame [of 2 "''{}''"] by (simp add: MAX_CONTENT_LENGTH_def)
  qed
  show ?thesis using accepted_length_is_bounded [OF r] r by blast
qed

text \<open>C20: On a stream of whole frames that decode, the loop dispatches every message, in order, then
  recovers from the end of the stream and stops; the backend's output sink has every output chunk in
  order, and its terminated signal fired exactly once, with the exit code known by the first
  \<open>terminated\<close> event or else by the end of the stream.\<close>

theorem run_dispatches_every_frame:
  assumes "rl = read_loop_new (concat (map frame_bytes bs)) sh"
    and "list_all2 (\<lambda>b m. length b \<le> MAX_CONTENT_LENGTH \<and> from_slice parse b = Inr m) bs ms"
  shows "run parse rl = (recover W_Eof (dispatch_all ms (read_loop_new [] sh)))\<lparr>rl_running := False\<rparr> \<and>
         sk_output (rl_sinks (run parse rl)) = outputs_in ms \<and>
         sk_signals (rl_sinks (run parse rl)) = [Sent (exit_report None ms)]"
proof -
  have rl: "rl\<lparr>rl_reader := []\<rparr> = read_loop_new [] sh" "rl_running rl"
    "rl_reader rl = concat (map frame_bytes bs)"
    by (simp_all add: assms(1) read_loop_new_def)
  have run: "run parse rl = (recover W_Eof (dispatch_all ms (read_loop_new [] sh)))\<lparr>rl_running := False\<rparr>"
    using run_frames [OF rl(2,3) assms(2)] rl(1) by simp
  have new: "rl_sinks (read_loop_new [] sh) = sinks_new" by (simp add: read_loop_new_def)
  have out: "sk_output (fire_terminated sk) = sk_output sk" for sk
    by (simp add: fire_terminated_def split: option.split)
  show ?thesis
    using sinks_signal [of sinks_new ms] sinks_output [of ms sinks_new]
    by (simp add: run recover_sinks sinks_all new out) (simp add: sinks_new_def)
qed

text \<open>An event frame as a debugger sends it, and a parser that knows it.\<close>

definition demo_event :: "string \<Rightarrow> (string \<times> json) list \<Rightarrow> json" where
  "demo_event name body =
     JObj [(''seq'', JNum (PosInt 1)), (''type'', JStr ''event''), (''event'', JStr name),
           (''body'', JObj body)]"

definition demo_parse :: "string \<Rightarrow> json option" where
  "demo_parse t =
     (if t = ''out'' then Some (demo_event ''output'' [(''output'', JStr ''hi'')])
      else if t = ''exit'' then Some (demo_event ''exited'' [(''exitCode'', JNum (PosInt 3))])
      else if t = ''end'' then Some (demo_event ''terminated'' [])
      else if t = ''ok'' then
        Some (JObj [(''seq'', JNum (PosInt 9)), (''type'', JStr ''response''),
                    (''request_seq'', JNum (PosInt 1)), (''success'', JBool True),
                    (''command'', JStr ''threads'')])
      else None)"

definition demo_hi :: output_body where
  "demo_hi = \<lparr>ob_category = [], ob_output = ''hi''\<rparr>"

theorem run_dispatches_every_frame_witness:
  "sk_output (rl_sinks (run demo_parse (read_loop_new (concat (map frame_bytes [''out'', ''exit'', ''end''])) shared_new)))
     = [\<lparr>oc_category = [], oc_text = ''hi''\<rparr>] \<and>
   sk_signals (rl_sinks (run demo_parse (read_loop_new (concat (map frame_bytes [''out'', ''exit'', ''end''])) shared_new)))
     = [Sent (Some 3)]"
proof -
  have "from_slice demo_parse ''out'' = Inr (DapEvent (OutputEvent demo_hi))"
    "from_slice demo_parse ''exit'' = Inr (DapEvent (ExitedEvent 3))"
    "from_slice demo_parse ''end'' = Inr (DapEvent TerminatedEvent)"
    by code_simp+
  then have "list_all2 (\<lambda>b m. length b \<le> MAX_CONTENT_LENGTH \<and> from_slice demo_parse b = Inr m)
      [''out'', ''exit'', ''end'']
      [DapEvent (OutputEvent demo_hi), DapEvent (ExitedEvent 3), DapEvent TerminatedEvent]"
    by (simp add: MAX_CONTENT_LENGTH_def)
  from run_dispatches_every_frame [OF refl this, of shared_new, THEN conjunct2] show ?thesis
    by (simp only: outputs_in.simps exit_report.simps demo_hi_def output_body.simps simp_thms)
qed

text \<open>A send puts exactly one frame on the wire, after all that was written before, and the peer that
  reads it finds a request with the sequence number the client assigned and the command sent; only
  the serializer's round trip is assumed.\<close>

theorem sent_request_is_readable:
  assumes "send_async to_vec None (request_new command arguments) sh = (Inr sd, sh')"
    and "parse (to_vec (request_json (sd_request sd))) = Some (request_json (sd_request sd))"
    and "length (to_vec (request_json (sd_request sd))) \<le> MAX_CONTENT_LENGTH"
  shows "\<exists>frame. sh_out sh' = sh_out sh @ frame \<and>
           read_message parse (frame @ rest) =
             (Inr (DapOther \<lparr>en_seq = sd_seq sd, en_ty = ''request'', en_command = Some command, en_event = None\<rparr>),
              rest)"
proof -
  have sd: "sd_request sd = request_set_seq (sd_seq sd) (request_new command arguments)"
    and seq: "in_i64 (sd_seq sd)" and out: "sh_out sh' = sh_out sh @ frame_bytes (to_vec (request_json (sd_request sd)))"
    using assms(1)
    by (auto simp: send_async_def send_begin_def next_seq_def register_pending_def send_write_def
        write_request_def write_message_def Let_def wrap_i64_in_range)
  have "decode_envelope (request_json (sd_request sd)) =
      Some \<lparr>en_seq = sd_seq sd, en_ty = ''request'', en_command = Some command, en_event = None\<rparr>"
    using seq unfolding sd
    by (cases arguments)
      (auto simp: request_json_def request_set_seq_def request_new_def no_duplicates_def field_def
        field_opt_def json_int_def in_i64_def)
  then have "from_slice parse (to_vec (request_json (sd_request sd))) =
      Inr (DapOther \<lparr>en_seq = sd_seq sd, en_ty = ''request'', en_command = Some command, en_event = None\<rparr>)"
    by (simp add: from_slice_def assms(2))
  then show ?thesis using out read_message_frame [OF assms(3)] by auto
qed

text \<open>A serializer and a parser for one request.\<close>

definition demo_threads :: json where
  "demo_threads = JObj [(''seq'', JNum (PosInt 1)), (''type'', JStr ''request''), (''command'', JStr ''threads'')]"

theorem sent_request_is_readable_witness:
  "\<exists>frame. sh_out (snd (send_async (\<lambda>_. ''T'') None (request_new ''threads'' None) shared_new)) = sh_out shared_new @ frame \<and>
     read_message (\<lambda>t. if t = ''T'' then Some demo_threads else None) frame =
       (Inr (DapOther \<lparr>en_seq = 1, en_ty = ''request'', en_command = Some ''threads'', en_event = None\<rparr>), [])"
proof -
  let ?sd = "\<lparr>sd_seq = 1, sd_channel = 0, sd_request = request_set_seq 1 (request_new ''threads'' None)\<rparr>"
  let ?sh = "snd (send_async (\<lambda>_. ''T'') None (request_new ''threads'' None) shared_new)"
  have s: "send_async (\<lambda>_. ''T'') None (request_new ''threads'' None) shared_new = (Inr ?sd, ?sh)"
    by (simp add: send_async_def send_begin_def next_seq_def register_pending_def send_write_def
        write_request_def shared_new_def wrap_i64_def Let_def)
  have p: "(\<lambda>t. if t = ''T'' then Some demo_threads else None) ((\<lambda>_. ''T'') (request_json (sd_request ?sd))) =
      Some (request_json (sd_request ?sd))"
    by (simp add: request_json_def request_set_seq_def request_new_def demo_threads_def json_int_def)
  have l: "length ((\<lambda>_. ''T'') (request_json (sd_request ?sd))) \<le> MAX_CONTENT_LENGTH"
    by (simp add: MAX_CONTENT_LENGTH_def)
  show ?thesis
    using sent_request_is_readable [where to_vec = "\<lambda>_. ''T''" and rest = "[]"
        and parse = "\<lambda>t. if t = ''T'' then Some demo_threads else None", OF s p l]
    by simp
qed

section \<open>Correlation\<close>

abbreviation reachable_connection ::
  "(json \<Rightarrow> string) \<Rightarrow> (string \<Rightarrow> json option) \<Rightarrow> read_loop \<Rightarrow> bool" where
  "reachable_connection to_vec parse rl \<equiv>
     \<exists>input. (connection_step to_vec parse)\<^sup>*\<^sup>* (read_loop_new input shared_new) rl"

lemma reachable_inv: "reachable_connection to_vec parse rl \<Longrightarrow> connection_inv rl"
  using connection_steps_inv connection_inv_new by blast

text \<open>C17: Answers go to the request they answer.  Whatever the peer sends and whatever other sends,
  aborts and failed writes are interleaved, from the moment a request has its sequence number its
  sender is still waiting with its table entry intact, or got a response whose \<open>request_seq\<close> is that
  number, or an error, which is always \<open>Closed\<close>.\<close>

theorem replies_are_correlated:
  assumes "reachable_connection to_vec parse rl"
    and "send_begin r (rl_shared rl) = (sd, sh)"
    and "(connection_step to_vec parse)\<^sup>*\<^sup>* (rl\<lparr>rl_shared := sh\<rparr>) rl'"
  shows "case send_result sd (rl_shared rl') of
           None \<Rightarrow> (sd_seq sd, sd_channel sd) \<in> set (sh_pending (rl_shared rl'))
         | Some (Inl e) \<Rightarrow> e = Closed
         | Some (Inr m) \<Rightarrow> \<exists>rs. m = DapResponse rs \<and> rs_request_seq rs = sd_seq sd"
proof -
  have "pending_inv (rl_shared rl)" using reachable_inv [OF assms(1)] by (simp add: connection_inv_def)
  note begun = send_begin_in_flight [OF assms(2) this]
  have "(shared_step to_vec)\<^sup>*\<^sup>* sh (rl_shared rl')"
    using connection_steps_shared [OF assms(3)] by simp
  from in_flight_steps [OF this] begun
  have "in_flight (sd_seq sd) (sd_channel sd) (rl_shared rl') \<or> answered (sd_seq sd) (sd_channel sd) (rl_shared rl')"
    by blast
  then show ?thesis
  proof
    assume "in_flight (sd_seq sd) (sd_channel sd) (rl_shared rl')"
    then show ?thesis by (simp add: in_flight_def send_result_def)
  next
    assume "answered (sd_seq sd) (sd_channel sd) (rl_shared rl')"
    then show ?thesis
      by (cases "(sd_seq sd, sh_replies (rl_shared rl') ! sd_channel sd)" rule: answers.cases)
        (simp_all add: answered_def send_result_def)
  qed
qed

definition demo_sending :: sending where
  "demo_sending = fst (send_begin (request_new ''threads'' None) shared_new)"

definition demo_sent :: shared where
  "demo_sent = snd (send_begin (request_new ''threads'' None) shared_new)"

lemma demo_begin: "send_begin (request_new ''threads'' None) shared_new = (demo_sending, demo_sent)"
  by (simp add: demo_sending_def demo_sent_def)

theorem replies_are_correlated_witness:
  "case send_result demo_sending
          (rl_shared (run demo_parse ((read_loop_new (frame_bytes ''ok'') shared_new)\<lparr>rl_shared := demo_sent\<rparr>))) of
     None \<Rightarrow> (sd_seq demo_sending, sd_channel demo_sending) \<in>
       set (sh_pending (rl_shared (run demo_parse
         ((read_loop_new (frame_bytes ''ok'') shared_new)\<lparr>rl_shared := demo_sent\<rparr>))))
   | Some (Inl e) \<Rightarrow> e = Closed
   | Some (Inr m) \<Rightarrow> \<exists>rs. m = DapResponse rs \<and> rs_request_seq rs = sd_seq demo_sending"
proof -
  let ?rl = "read_loop_new (frame_bytes ''ok'') shared_new"
  have "reachable_connection (\<lambda>_. []) demo_parse ?rl" by blast
  moreover have "send_begin (request_new ''threads'' None) (rl_shared ?rl) = (demo_sending, demo_sent)"
    by (simp add: read_loop_new_def demo_begin)
  ultimately show ?thesis by (rule replies_are_correlated [OF _ _ run_steps])
qed

text \<open>Responses may come in any order: dispatching a list of responses to different requests gives
  each waiting sender its own, and leaves every entry that was not answered.\<close>

theorem responses_in_any_order:
  assumes "pending_inv sh" and "distinct (map rs_request_seq rs)"
    and "r \<in> set rs" and "map_of (sh_pending sh) (rs_request_seq r) = Some c"
  shows "let sh' = fold (\<lambda>r sh. snd (dispatch_response (rs_request_seq r) (DapResponse r) sh)) rs sh
         in sh_replies sh' ! c = Sent (Inr (DapResponse r)) \<and>
            (\<forall>s. s \<notin> rs_request_seq ` set rs \<longrightarrow> map_of (sh_pending sh') s = map_of (sh_pending sh) s)"
proof -
  let ?one = "\<lambda>r sh. snd (dispatch_response (rs_request_seq r) (DapResponse r) sh)"
  have other: "map_of (sh_pending (?one r sh)) s = map_of (sh_pending sh) s" if "s \<noteq> rs_request_seq r" for r s sh
    using that by (simp add: dispatch_response_def remove_pending_def split: option.split)
  have keep: "s \<notin> rs_request_seq ` set rs \<Longrightarrow> map_of (sh_pending (fold ?one rs sh)) s = map_of (sh_pending sh) s"
    for s rs sh by (induction rs arbitrary: sh) (auto simp: other)
  have ext: "extends (sh_replies sh) (sh_replies (fold ?one rs sh))" for rs sh
  proof (induction rs arbitrary: sh)
    case (Cons r rs)
    have "extends (sh_replies sh) (sh_replies (?one r sh))"
      by (simp add: dispatch_response_def remove_pending_def split: option.split)
    then show ?case using Cons.IH extends_trans by fastforce
  qed simp
  have "sh_replies (fold ?one rs sh) ! c = Sent (Inr (DapResponse r))"
    using assms
  proof (induction rs arbitrary: sh)
    case (Cons q rs)
    have inv: "pending_inv (?one q sh)"
      using pending_inv_dispatch Cons.prems(1) by (metis prod.collapse)
    show ?case
    proof (cases "q = r")
      case True
      have "in_flight (rs_request_seq r) c sh"
        using in_flight_entry [OF Cons.prems(1)] Cons.prems(4) map_of_SomeD by metis
      then have "c < length (sh_replies (?one q sh)) \<and> sh_replies (?one q sh) ! c = Sent (Inr (DapResponse r))"
        using True Cons.prems(4) by (simp add: dispatch_response_def remove_pending_def in_flight_def settle_nth)
      then show ?thesis using ext [of "?one q sh" rs] by (simp add: extends_def)
    next
      case False
      then have mem: "r \<in> set rs" and "rs_request_seq r \<noteq> rs_request_seq q"
        using Cons.prems(2,3) by (auto simp: image_iff)
      then have "map_of (sh_pending (?one q sh)) (rs_request_seq r) = Some c"
        using Cons.prems(4) other by simp
      then show ?thesis using Cons.IH [OF inv _ mem] Cons.prems(2) by simp
    qed
  qed simp
  then show ?thesis using keep by (simp add: Let_def)
qed

definition demo_response :: "i64 \<Rightarrow> response" where
  "demo_response s =
     \<lparr>rs_seq = 9, rs_ty = ''response'', rs_request_seq = s, rs_success = True, rs_command = ''threads'',
      rs_message = [], rs_body = None\<rparr>"

definition demo_two_sent :: shared where
  "demo_two_sent = snd (send_begin (request_new ''threads'' None) demo_sent)"

theorem responses_in_any_order_witness:
  "sh_replies (fold (\<lambda>r sh. snd (dispatch_response (rs_request_seq r) (DapResponse r) sh))
      [demo_response 2, demo_response 1] demo_two_sent) ! 0 = Sent (Inr (DapResponse (demo_response 1)))"
proof -
  have "pending_inv demo_sent" using send_begin_in_flight [OF demo_begin] by simp
  then have inv: "pending_inv demo_two_sent"
    using send_begin_in_flight [of "request_new ''threads'' None" demo_sent]
    by (simp add: demo_two_sent_def) (metis prod.collapse)
  have entry: "map_of (sh_pending demo_two_sent) 1 = Some 0"
    by (simp add: demo_two_sent_def demo_sent_def send_begin_def next_seq_def register_pending_def
        shared_new_def wrap_i64_def Let_def)
  show ?thesis
    using responses_in_any_order [OF inv, of "[demo_response 2, demo_response 1]" "demo_response 1" 0] entry
    by (simp add: demo_response_def Let_def)
qed

text \<open>A send that was given up is forgotten: the table has no entry for it any more, no other
  request's entry or answer changes, and a response that still arrives for it finds nobody, changes
  nothing but the log, and is not delivered to anyone.\<close>

theorem aborted_send_is_forgotten:
  fixes rl :: read_loop
  assumes "rs_request_seq rs = sd_seq sd"
  shows "let sh = send_abort sd (rl_shared rl)
         in \<not> has_pending (sd_seq sd) sh \<and>
            (\<forall>s. s \<noteq> sd_seq sd \<longrightarrow> map_of (sh_pending sh) s = map_of (sh_pending (rl_shared rl)) s) \<and>
            (\<forall>c. map_of (sh_pending (rl_shared rl)) (sd_seq sd) \<noteq> Some c \<longrightarrow>
                 c < length (sh_replies (rl_shared rl)) \<longrightarrow> sh_replies sh ! c = sh_replies (rl_shared rl) ! c) \<and>
            dispatch_message (DapResponse rs) (rl\<lparr>rl_shared := sh\<rparr>) =
              log_no_waiter (sd_seq sd) (rl\<lparr>rl_shared := sh\<rparr>)"
proof -
  have "map_of (AList.delete s ps) s = None" for s and ps :: "(i64 \<times> nat) list"
    by (simp add: AList.delete_conv')
  moreover have "AList.delete s (AList.delete s ps) = AList.delete s ps" for s and ps :: "(i64 \<times> nat) list"
    by (rule AList.delete_idem)
  moreover have "hang_up_opt d cs ! c = cs ! c" if "d \<noteq> Some c" "c < length cs" for d c and cs :: "pending_result channels"
    using that by (cases d) (auto simp: settle_nth)
  ultimately show ?thesis
    using assms
    by (cases "rl_shared rl") (simp add: send_abort_def drop_pending_def remove_pending_def has_pending_def
        dispatch_message_def dispatch_response_def Let_def)
qed

theorem aborted_send_is_forgotten_witness:
  "\<not> has_pending 1 (send_abort demo_sending demo_two_sent) \<and>
   map_of (sh_pending (send_abort demo_sending demo_two_sent)) 2 = Some 1"
proof -
  have seq: "sd_seq demo_sending = 1"
    by (simp add: demo_sending_def send_begin_def next_seq_def register_pending_def shared_new_def
        wrap_i64_def Let_def)
  have entry: "map_of (sh_pending demo_two_sent) 2 = Some 1"
    by (simp add: demo_two_sent_def demo_sent_def send_begin_def next_seq_def register_pending_def
        shared_new_def wrap_i64_def Let_def)
  have "rs_request_seq (demo_response 1) = sd_seq demo_sending" by (simp add: demo_response_def seq)
  from aborted_send_is_forgotten [OF this, of "read_loop_new [] demo_two_sent"] entry show ?thesis
    by (simp add: Let_def seq read_loop_new_def)
qed

section \<open>Stops\<close>

text \<open>A registered stop waiter gets exactly the first outcome that comes after its registration: the
  later ones do not reach it, and what came before it was registered does not either.\<close>

theorem first_stop_wins:
  assumes "sw_inv sw" and "sw_register (fold sw_send earlier sw) = (c, sw1)"
  shows "sw_channels (fold sw_send (outcome # later) sw1) ! c = Sent outcome \<and> sw_channels sw1 ! c = Waiting"
proof -
  have slot: "sw_slot sw1 = Some c" "c < length (sw_channels sw1)" "sw_channels sw1 ! c = Waiting"
    using assms(2) by (auto simp: sw_register_def Let_def nth_append)
  then have first: "sw_channels (sw_send outcome sw1) ! c = Sent outcome"
    by (simp add: sw_send_def settle_nth)
  have "sw_step\<^sup>*\<^sup>* sw (fold sw_send os sw)" for os sw
    by (induction os arbitrary: sw) (auto intro: converse_rtranclp_into_rtranclp sw_step.Deliver)
  then have "sw_channels (fold sw_send later (sw_send outcome sw1)) ! c = Sent outcome"
    using sw.answer_is_final [of "sw_send outcome sw1" "fold sw_send later (sw_send outcome sw1)" c] first slot
    by (simp add: sw_send_def)
  then show ?thesis using slot by simp
qed

theorem first_stop_wins_witness:
  "sw_channels (fold sw_send [SO_Exited (Some 3), SO_Terminated]
      (snd (sw_register (fold sw_send [SO_Terminated] stop_waiter_new)))) ! 0 = Sent (SO_Exited (Some 3))"
proof -
  have r: "sw_register (fold sw_send [SO_Terminated] stop_waiter_new) =
      (0, snd (sw_register (fold sw_send [SO_Terminated] stop_waiter_new)))"
    by (simp add: sw_register_def sw_send_def stop_waiter_new_def Let_def)
  have "sw_inv stop_waiter_new" by (simp add: stop_waiter_new_def sw_senders_def)
  then show ?thesis using first_stop_wins [OF _ r] by blast
qed

section \<open>The end of the connection\<close>

text \<open>C19: The loop always ends, whatever bytes the peer sends, and its end leaves no sender of a request
  and no stop waiter waiting, fires the terminated signal, and changes no answer that was given
  before.\<close>

theorem connection_end_releases_waiters:
  assumes "reachable_connection to_vec parse rl" and "rl_running rl"
  shows "let rl' = run parse rl
         in \<not> rl_running rl' \<and> sh_pending (rl_shared rl') = [] \<and>
            Waiting \<notin> set (sh_replies (rl_shared rl')) \<and>
            Waiting \<notin> set (sw_channels (sh_stop_waiter (rl_shared rl'))) \<and>
            Waiting \<notin> set (sk_signals (rl_sinks rl')) \<and>
            extends (sh_replies (rl_shared rl)) (sh_replies (rl_shared rl'))"
proof -
  have steps: "(connection_step to_vec parse)\<^sup>*\<^sup>* rl (run parse rl)" by (rule run_steps)
  have "connection_inv (run parse rl)"
    by (rule connection_steps_inv [OF steps reachable_inv [OF assms(1)]])
  then have inv: "pending_inv (rl_shared (run parse rl))" "sw_inv (sh_stop_waiter (rl_shared (run parse rl)))"
    "sinks_inv (rl_sinks (run parse rl))"
    by (simp_all add: connection_inv_def)
  have rel: "released (run parse rl)" using assms(2) by (rule run_released)
  have "Waiting \<notin> set (sk_signals (rl_sinks (run parse rl)))"
    using inv(3) rel by (auto simp: sinks_inv_def released_def wired_def waiting_def in_set_conv_nth)
  then show ?thesis
    using rel run_stops [of parse rl] replies.nobody_waits [OF inv(1)] sw.nobody_waits [OF inv(2)]
      replies.steps_extends [OF connection_steps_shared [OF steps]]
    by (simp add: Let_def released_def pending_senders_def sw_senders_def)
qed

theorem connection_end_releases_waiters_witness:
  "let rl' = run (\<lambda>_. None) ((read_loop_new ''garbage'' shared_new)\<lparr>rl_shared := demo_sent\<rparr>)
   in \<not> rl_running rl' \<and> Waiting \<notin> set (sh_replies (rl_shared rl'))"
proof -
  let ?rl = "(read_loop_new ''garbage'' shared_new)\<lparr>rl_shared := demo_sent\<rparr>"
  have "connection_step (\<lambda>_. []) (\<lambda>_. None) (read_loop_new ''garbage'' shared_new) ?rl"
    by (rule connection_step.Client, rule C_Send_Begin [of "request_new ''threads'' None"])
      (simp add: read_loop_new_def demo_begin)
  then have "reachable_connection (\<lambda>_. []) (\<lambda>_. None) ?rl" by blast
  from connection_end_releases_waiters [OF this] show ?thesis
    by (simp add: Let_def read_loop_new_def)
qed

text \<open>Once the loop has ended only the client side moves, and it never sends anything on a channel.\<close>

definition unsent :: "nat \<Rightarrow> 'a channels \<Rightarrow> bool" where
  "unsent c cs \<longleftrightarrow> c < length cs \<and> (\<forall>v. cs ! c \<noteq> Sent v)"

lemma unsent_new: "unsent c cs \<Longrightarrow> unsent c (cs @ [Waiting])"
  by (auto simp: unsent_def nth_append)

lemma unsent_hang_up: "unsent c cs \<Longrightarrow> unsent c (hang_up_opt d cs)"
  by (cases d) (auto simp: unsent_def settle_nth)

lemma client_step_unsent:
  assumes "client_step to_vec sh sh'"
  shows "(unsent c (sh_replies sh) \<longrightarrow> unsent c (sh_replies sh')) \<and>
         (unsent d (sh_init_channels sh) \<longrightarrow> unsent d (sh_init_channels sh'))"
  using assms
proof cases
  case (C_Send_Write fault sd res)
  then show ?thesis
    by (elim send_write_cases)
      (auto simp: drop_pending_def remove_pending_def sh_init_channels_def intro: unsent_hang_up)
qed (auto simp: next_seq_def send_begin_def register_pending_def send_abort_def drop_pending_def
      remove_pending_def wait_initialized_def sh_init_channels_def Let_def
      intro: unsent_new [OF unsent_hang_up] unsent_hang_up split: if_splits)

lemma stopped_steps_unsent:
  "(connection_step to_vec parse)\<^sup>*\<^sup>* rl rl' \<Longrightarrow> \<not> rl_running rl \<Longrightarrow>
   \<not> rl_running rl' \<and>
   (unsent c (sh_replies (rl_shared rl)) \<longrightarrow> unsent c (sh_replies (rl_shared rl'))) \<and>
   (unsent d (sh_init_channels (rl_shared rl)) \<longrightarrow> unsent d (sh_init_channels (rl_shared rl')))"
proof (induction rule: rtranclp_induct)
  case (step y z)
  from step.hyps(2) show ?case
  proof (rule connection_stepE)
    fix sh assume "z = y\<lparr>rl_shared := sh\<rparr>" "client_step to_vec (rl_shared y) sh"
    then show ?thesis using step client_step_unsent [of to_vec "rl_shared y" sh] by simp
  qed (use step in simp)
qed simp

text \<open>A request sent after the loop has ended is never answered, not even with an error: its write
  succeeds if the transport still takes bytes, its sender waits, and no later step of the client or
  of the loop ever sends it anything.\<close>

theorem late_request_is_never_answered:
  assumes "\<not> rl_running rl"
    and "send_async to_vec None r (rl_shared rl) = (Inr sd, sh)"
    and "(connection_step to_vec parse)\<^sup>*\<^sup>* (rl\<lparr>rl_shared := sh\<rparr>) rl'"
  shows "send_result sd sh = None \<and> (\<forall>v. sh_replies (rl_shared rl') ! sd_channel sd \<noteq> Sent v)"
proof -
  have wait: "sd_channel sd < length (sh_replies sh) \<and> sh_replies sh ! sd_channel sd = Waiting"
    using assms(2)
    by (auto simp: send_async_def send_begin_def next_seq_def register_pending_def send_write_def
        write_request_def Let_def nth_append)
  then have "unsent (sd_channel sd) (sh_replies sh)" by (simp add: unsent_def)
  then show ?thesis
    using stopped_steps_unsent [OF assms(3), of "sd_channel sd"] assms(1) wait
    by (simp add: unsent_def send_result_def)
qed

theorem late_request_is_never_answered_witness:
  "let rl = run (\<lambda>_. None) (read_loop_new ''garbage'' shared_new)
   in \<not> rl_running rl \<and>
      (\<exists>sd sh. send_async (\<lambda>_. []) None (request_new ''threads'' None) (rl_shared rl) = (Inr sd, sh) \<and>
               send_result sd sh = None \<and> (\<forall>v. sh_replies sh ! sd_channel sd \<noteq> Sent v))"
proof -
  let ?rl = "run (\<lambda>_. None) (read_loop_new ''garbage'' shared_new)"
  obtain sd sh where s: "send_async (\<lambda>_. []) None (request_new ''threads'' None) (rl_shared ?rl) = (Inr sd, sh)"
    by (simp add: send_async_def send_write_def write_request_def case_prod_beta Let_def)
  have "(connection_step (\<lambda>_. []) (\<lambda>_. None))\<^sup>*\<^sup>* (?rl\<lparr>rl_shared := sh\<rparr>) (?rl\<lparr>rl_shared := sh\<rparr>)" by simp
  from late_request_is_never_answered [OF run_stops s this] s run_stops show ?thesis
    by (auto simp: Let_def)
qed

text \<open>The dual await of launch and attach does not survive the loss of the connection: when the
  transport ends before the \<open>initialized\<close> event, the request's own reply resolves to \<open>Closed\<close>, but
  the wait for the event is not released, so the await never returns.\<close>

theorem dual_await_hangs_at_end:
  assumes "rl_running rl" and "rl_reader rl = []"
    and "in_flight (sd_seq sd) (sd_channel sd) (rl_shared rl)"
    and "wait_initialized (rl_shared rl) = (Some c, sh)"
    and "rl' = run parse (rl\<lparr>rl_shared := sh\<rparr>)"
  shows "\<not> rl_running rl' \<and> send_result sd (rl_shared rl') = Some (Inl Closed) \<and>
         both_result sd (Some c) (rl_shared rl') = None \<and>
         (\<forall>rl''. (connection_step to_vec parse)\<^sup>*\<^sup>* rl' rl'' \<longrightarrow>
                 is_channels (sh_initialized (rl_shared rl'')) ! c \<noteq> Sent ())"
proof -
  let ?rl = "rl\<lparr>rl_shared := sh, rl_reader := []\<rparr>"
  have run: "rl' = (recover W_Eof ?rl)\<lparr>rl_running := False\<rparr>"
    unfolding assms(5)
    by (subst run.simps, subst run.simps) (simp add: assms(1,2) run_turn_def read_message_end)
  have stop: "\<not> rl_running rl'" by (simp add: run)
  have replies: "sh_replies sh = sh_replies (rl_shared rl)" "sh_pending sh = sh_pending (rl_shared rl)"
    using assms(4) by (auto simp: wait_initialized_def Let_def split: if_splits)
  have "sd_channel sd \<in> snd ` set (sh_pending sh)"
    using assms(3) replies by (force simp: in_flight_def)
  then have closed: "sh_replies (rl_shared rl') ! sd_channel sd = Sent (Inl Closed)"
    using assms(3) replies fold_settle_nth [of "sd_channel sd" "sh_pending sh" "sh_replies sh" "Sent (Inl Closed)"]
    by (simp add: run recover_def on_stop_waiter_def cancel_all_pending_def in_flight_def Let_def)
  have init: "sh_init_channels (rl_shared rl') = sh_init_channels sh"
    by (simp add: run recover_def on_stop_waiter_def cancel_all_pending_def sh_init_channels_def Let_def)
  have wait: "c < length (sh_init_channels sh) \<and> sh_init_channels sh ! c = Waiting"
    using assms(4) by (auto simp: wait_initialized_def sh_init_channels_def Let_def nth_append split: if_splits)
  then have "unsent c (sh_init_channels (rl_shared rl'))" by (simp add: unsent_def init)
  then have "is_channels (sh_initialized (rl_shared rl'')) ! c \<noteq> Sent ()"
    if "(connection_step to_vec parse)\<^sup>*\<^sup>* rl' rl''" for rl''
    using stopped_steps_unsent [OF that stop, of 0 c] by (simp add: unsent_def sh_init_channels_def)
  then show ?thesis
    using stop closed wait init
    by (auto simp: send_result_def both_result_def initialized_done_def sh_init_channels_def)
qed

theorem dual_await_hangs_at_end_witness:
  "\<exists>c sh. wait_initialized demo_sent = (Some c, sh) \<and>
     (let rl' = run (\<lambda>_. None) ((read_loop_new [] demo_sent)\<lparr>rl_shared := sh\<rparr>)
      in \<not> rl_running rl' \<and> send_result demo_sending (rl_shared rl') = Some (Inl Closed) \<and>
         both_result demo_sending (Some c) (rl_shared rl') = None)"
proof -
  obtain sh where w: "wait_initialized demo_sent = (Some 0, sh)"
    by (simp add: wait_initialized_def demo_sent_def send_begin_def next_seq_def register_pending_def
        shared_new_def initialized_new_def Let_def)
  let ?rl = "read_loop_new [] demo_sent"
  have "in_flight (sd_seq demo_sending) (sd_channel demo_sending) (rl_shared ?rl)"
    using send_begin_in_flight [OF demo_begin] by (simp add: read_loop_new_def)
  moreover have "wait_initialized (rl_shared ?rl) = (Some 0, sh)" using w by (simp add: read_loop_new_def)
  moreover have "rl_running ?rl" "rl_reader ?rl = []" by (simp_all add: read_loop_new_def)
  ultimately show ?thesis
    using dual_await_hangs_at_end [OF _ _ _ _ refl] w by (fastforce simp: Let_def)
qed

end
