(* ===== verification/Engine_Thread.thy ===== *)
theory Engine_Thread
  imports Core_Types Oneshot
begin

text \<open>
  The engine thread of the WinDbg backend, \<open>windbg-backend/src/thread.rs\<close> and \<open>engine_ops.rs\<close>: one
  thread owns the engine, the backend sends it commands and awaits one reply per command.

  The engine is a state of type \<open>'e\<close> and a record of operations on it, the trait \<open>EngineOps\<close>.  An
  operation that panics gives no result: the thread unwinds, the reply sender is dropped, and every
  later command finds the channel closed.  A command is the operation it names with its arguments;
  its reply channel is part of the call.
\<close>

section \<open>The engine's operations\<close>

datatype engine_error = EE_Com string "32 word" string | EE_Engine string

fun engine_error_text :: "engine_error \<Rightarrow> string" where
  "engine_error_text (EE_Com context code message) =
     context @ '' failed: 0x'' @ show_hex_pad 8 (unat code) @ '' ('' @ message @ '')''"
| "engine_error_text (EE_Engine message) = message"

record launch_req =
  lr_program :: string
  lr_args :: "string list"
  lr_cwd :: "string option"

datatype bp_loc = Loc_Address nat | Loc_FileLine string nat | Loc_Function string

type_synonym ('e, 'a) engine_op = "'e \<Rightarrow> (engine_error + 'a) option \<times> 'e"

record 'e engine_ops =
  eo_launch :: "launch_req \<Rightarrow> ('e, stop_outcome) engine_op"
  eo_attach_pid :: "nat \<Rightarrow> ('e, stop_outcome) engine_op"
  eo_detach :: "bool \<Rightarrow> ('e, unit) engine_op"
  eo_go :: "nat \<Rightarrow> ('e, stop_outcome option) engine_op"
  eo_step :: "step_kind \<Rightarrow> ('e, stop_outcome) engine_op"
  eo_break_in :: "('e, stop_outcome) engine_op"
  eo_set_breakpoint :: "bp_loc \<Rightarrow> string \<Rightarrow> ('e, breakpoint_result) engine_op"
  eo_remove_breakpoint :: "i64 \<Rightarrow> ('e, unit) engine_op"
  eo_list_breakpoints :: "('e, breakpoint_result list) engine_op"
  eo_threads :: "('e, thread_info list) engine_op"
  eo_stack_trace :: "i64 \<Rightarrow> i64 \<Rightarrow> ('e, frame list) engine_op"
  eo_locals :: "i64 \<Rightarrow> ('e, variable list) engine_op"
  eo_evaluate :: "string \<Rightarrow> ('e, eval_result) engine_op"
  eo_read_memory :: "nat \<Rightarrow> nat \<Rightarrow> ('e, memory_read) engine_op"
  eo_disassemble :: "nat \<Rightarrow> i64 \<Rightarrow> ('e, instruction list) engine_op"
  eo_execute :: "string \<Rightarrow> ('e, string) engine_op"
  eo_modules :: "('e, module_info list) engine_op"
  eo_current_source_location :: "('e, (string \<times> i64) option) engine_op"
  eo_open_dump :: "string \<Rightarrow> ('e, dump_outcome) engine_op"
  eo_attach_kernel :: "string \<Rightarrow> ('e, stop_outcome) engine_op"
  eo_analyze :: "('e, string) engine_op"
  eo_interrupt :: "'e \<Rightarrow> 'e"

section \<open>The thread\<close>

record 'e engine_thread =
  et_engine :: 'e
  et_running :: bool

text \<open>Dispatch of one command: the reply that is sent, or the sender that a panic drops.\<close>

definition dispatch_cmd ::
  "('e, 'a) engine_op \<Rightarrow> 'e engine_thread \<Rightarrow> (engine_error + 'a) oneshot \<times> 'e engine_thread" where
  "dispatch_cmd cmd t =
     (case cmd (et_engine t) of
        (Some r, e) \<Rightarrow> (Sent r, t\<lparr>et_engine := e\<rparr>)
      | (None, e) \<Rightarrow> (Hung_up, \<lparr>et_engine = e, et_running = False\<rparr>))"

text \<open>
  The body of the thread, from the apartment to the teardown.  The commands are those received
  until the channel closes, each with its reply dropped; \<open>receiver_kept\<close> says that the caller still
  waits for the readiness.  The terminated signal is fired by the wrapper in any case.
\<close>

type_synonym 'e command = "'e \<Rightarrow> unit option \<times> 'e"

definition no_reply :: "('e, 'a) engine_op \<Rightarrow> 'e command" where
  "no_reply cmd e = (let (r, e') = cmd e in (map_option (\<lambda>_. ()) r, e'))"

fun serve :: "'e command list \<Rightarrow> 'e \<Rightarrow> bool \<times> 'e" where
  "serve [] e = (True, e)"
| "serve (cmd # cmds) e =
     (case cmd e of (Some _, e') \<Rightarrow> serve cmds e' | (None, e') \<Rightarrow> (False, e'))"

record 'e thread_run =
  tr_ready :: "(engine_error + unit) oneshot"
  tr_terminated :: "i64 option oneshot"
  tr_engine :: "'e option"

definition engine_thread_main ::
  "'e engine_ops \<Rightarrow> engine_error option \<Rightarrow> (engine_error + 'e) option \<Rightarrow> bool \<Rightarrow> 'e command list \<Rightarrow>
   (engine_error + unit) oneshot \<times> 'e option" where
  "engine_thread_main ops com made receiver_kept cmds =
     (case com of
        Some err \<Rightarrow> (Sent (Inl err), None)
      | None \<Rightarrow>
     (case made of
        None \<Rightarrow> (Hung_up, None)
      | Some (Inl err) \<Rightarrow> (Sent (Inl err), None)
      | Some (Inr e) \<Rightarrow>
          if \<not> receiver_kept then (Hung_up, Some (snd (eo_detach ops False e)))
          else (case serve cmds e of
                  (True, e') \<Rightarrow> (Sent (Inr ()), Some (snd (eo_detach ops False e')))
                | (False, e') \<Rightarrow> (Sent (Inr ()), Some e'))))"

definition spawn_engine_thread ::
  "'e engine_ops \<Rightarrow> engine_error option \<Rightarrow> (engine_error + 'e) option \<Rightarrow> bool \<Rightarrow> 'e command list \<Rightarrow> 'e thread_run" where
  "spawn_engine_thread ops com made receiver_kept cmds =
     (let (ready, e) = engine_thread_main ops com made receiver_kept cmds
      in \<lparr>tr_ready = ready, tr_terminated = Sent None, tr_engine = e\<rparr>)"

end
