(* ===== verification/Windbg_Backend.thy ===== *)
theory Windbg_Backend
  imports Engine_Thread Text
begin

text \<open>
  The WinDbg backend, \<open>windbg-backend/src/backend.rs\<close>: the marshaling call, breakpoint
  reconciliation, and every operation of the trait.  The state is the engine thread with the
  backend's own fields; its hash maps are association lists whose order carries no meaning.
\<close>

section \<open>State\<close>

record bp_table =
  bt_source :: "(string \<times> (nat \<times> breakpoint_result) list) list"
  bt_function :: "(string \<times> breakpoint_result) list"

record 'e windbg =
  wd_thread :: "'e engine_thread"
  wd_target_pid :: "i64 option"
  wd_table :: bp_table

definition windbg_new :: "'e \<Rightarrow> i64 option \<Rightarrow> 'e windbg" where
  "windbg_new e pid =
     \<lparr>wd_thread = \<lparr>et_engine = e, et_running = True\<rparr>, wd_target_pid = pid,
      wd_table = \<lparr>bt_source = [], bt_function = []\<rparr>\<rparr>"

abbreviation wd_engine :: "'e windbg \<Rightarrow> 'e" where
  "wd_engine w \<equiv> et_engine (wd_thread w)"

abbreviation wd_running :: "'e windbg \<Rightarrow> bool" where
  "wd_running w \<equiv> et_running (wd_thread w)"

definition set_target_pid :: "i64 option \<Rightarrow> 'e windbg \<Rightarrow> 'e windbg" where
  "set_target_pid pid w = w\<lparr>wd_target_pid := pid\<rparr>"

section \<open>Marshaling\<close>

definition map_engine_err :: "engine_error \<Rightarrow> backend_error" where
  "map_engine_err e = Dap (engine_error_text e)"

definition engine_call :: "('e, 'a) engine_op \<Rightarrow> ('e windbg, 'a) call" where
  "engine_call cmd w =
     (if \<not> wd_running w then (Inl Closed, w)
      else (let (reply, t) = dispatch_cmd cmd (wd_thread w); w' = w\<lparr>wd_thread := t\<rparr>
            in case reply of
                 Sent (Inr a) \<Rightarrow> (Inr a, w')
               | Sent (Inl e) \<Rightarrow> (Inl (map_engine_err e), w')
               | _ \<Rightarrow> (Inl Closed, w')))"

text \<open>The interrupt handle only sets the flag it shares with the engine.\<close>

definition interrupt :: "'e engine_ops \<Rightarrow> 'e windbg \<Rightarrow> 'e windbg" where
  "interrupt ops w = w\<lparr>wd_thread := (wd_thread w)\<lparr>et_engine := eo_interrupt ops (wd_engine w)\<rparr>\<rparr>"

definition remove_engine_breakpoint :: "'e engine_ops \<Rightarrow> i64 \<Rightarrow> ('e windbg, unit) call" where
  "remove_engine_breakpoint ops i w =
     (if i \<le> 0 then (Inr (), w)
      else (case engine_call (eo_remove_breakpoint ops i) w of
              (Inl Closed, w') \<Rightarrow> (Inl Closed, w')
            | (_, w') \<Rightarrow> (Inr (), w')))"

text \<open>
  Polling the process list: the answers of the lookups made until the deadline has passed, the last
  one made at or after it.
\<close>

fun poll_for_process :: "string \<Rightarrow> nat option list \<Rightarrow> backend_error + nat" where
  "poll_for_process name (Some pid # answers) = Inr pid"
| "poll_for_process name (None # answer # answers) = poll_for_process name (answer # answers)"
| "poll_for_process name _ = Inl (Dap (''wait_for: no process named '' @ [sq] @ name @ [sq] @ '' appeared''))"

definition u64_max :: nat where
  "u64_max = 2 ^ 64 - 1"

definition parse_address :: "string \<Rightarrow> backend_error + nat" where
  "parse_address address =
     (let t = trim address;
          parsed = (case strip_prefix ''0x'' t of
                      Some h \<Rightarrow> parse_uint 16 u64_max h
                    | None \<Rightarrow>
                        (case strip_prefix ''0X'' t of
                           Some h \<Rightarrow> parse_uint 16 u64_max h
                         | None \<Rightarrow> parse_uint 10 u64_max t))
      in case parsed of
           Inr n \<Rightarrow> Inr n
         | Inl _ \<Rightarrow> Inl (Dap (''invalid address: '' @ [sq] @ address @ [sq])))"

fun stop_to_attach :: "stop_outcome \<Rightarrow> attach_outcome" where
  "stop_to_attach (SO_Stopped i) = AO_Stopped i"
| "stop_to_attach (SO_Exited code) = AO_Exited code"
| "stop_to_attach SO_Terminated = AO_Terminated"

definition address_bp_guidance :: string where
  "address_bp_guidance =
     ''address breakpoints are not ASLR-stable when set via set_function_breakpoint under WinDbg '' @
     ''(they would be misplaced on relaunch); use run_command('' @ [dq] @ ''bp <addr>'' @ [dq] @
     '') for an address breakpoint instead''"

definition is_bare_address_name :: "string \<Rightarrow> bool" where
  "is_bare_address_name name \<longleftrightarrow>
     (let t = trim_start name in starts_with ''0x'' t \<or> starts_with ''0X'' t)"

definition unverified :: "i64 \<Rightarrow> string \<Rightarrow> bool \<Rightarrow> breakpoint_result" where
  "unverified line message rejected =
     \<lparr>br_id = 0, br_verified = False, br_line = line, br_message = message, br_rejected = rejected\<rparr>"

fun bp_result_or_continue ::
  "backend_error + breakpoint_result \<Rightarrow> i64 \<Rightarrow> backend_error + breakpoint_result" where
  "bp_result_or_continue (Inr r) line = Inr r"
| "bp_result_or_continue (Inl e) line =
     (if e = Closed then Inl Closed else Inr (unverified line (error_text e) False))"

definition as_u32 :: "i64 \<Rightarrow> nat option" where
  "as_u32 i = (if 0 \<le> i \<and> i < 2 ^ 32 then Some (nat i) else None)"

section \<open>Reconciliation\<close>

text \<open>
  Both setters walk the requested list the same way.  A request is refused with a result of its own,
  or names a slot: the key it is tracked under, its location, its condition, and the line an
  unverified result carries.
\<close>

datatype 'k slot = Refused breakpoint_result | Slot 'k bp_loc string i64

fun source_slot :: "string \<Rightarrow> source_bp \<Rightarrow> nat slot" where
  "source_slot file bp =
     (case as_u32 (sb_line bp) of
        None \<Rightarrow> Refused (unverified (sb_line bp)
                  (file @ '':'' @ show_int (sb_line bp) @ '': line out of range'') False)
      | Some line \<Rightarrow> Slot line (Loc_FileLine file line) (sb_condition bp) (sb_line bp))"

fun function_slot :: "function_bp \<Rightarrow> string slot" where
  "function_slot bp =
     (if is_bare_address_name (fb_name bp) then Refused (unverified 0 address_bp_guidance True)
      else Slot (fb_name bp) (Loc_Function (fb_name bp)) (fb_condition bp) 0)"

text \<open>The keys asked for, the results so far and the map to commit, or the error that aborts.\<close>

record 'k progress =
  pg_desired :: "'k list"
  pg_results :: "breakpoint_result list"
  pg_map :: "('k \<times> breakpoint_result) list"

fun reconcile_add ::
  "'e engine_ops \<Rightarrow> ('k \<times> breakpoint_result) list \<Rightarrow> 'k slot list \<Rightarrow> 'k progress \<Rightarrow> ('e windbg, 'k progress) call" where
  "reconcile_add ops prior [] p w = (Inr p, w)"
| "reconcile_add ops prior (Refused r # slots) p w =
     reconcile_add ops prior slots (p\<lparr>pg_results := pg_results p @ [r]\<rparr>) w"
| "reconcile_add ops prior (Slot key loc condition line # slots) p w =
     (let p1 = p\<lparr>pg_desired := key # pg_desired p\<rparr>
      in case map_of prior key of
           Some existing \<Rightarrow>
             reconcile_add ops prior slots
               (p1\<lparr>pg_results := pg_results p1 @ [existing], pg_map := AList.update key existing (pg_map p1)\<rparr>) w
         | None \<Rightarrow>
             (case engine_call (eo_set_breakpoint ops loc condition) w of (outcome, w1) \<Rightarrow>
                (case bp_result_or_continue outcome line of
                   Inl e \<Rightarrow> (Inl e, w1)
                 | Inr r \<Rightarrow>
                     reconcile_add ops prior slots
                       (p1\<lparr>pg_results := pg_results p1 @ [r],
                          pg_map := (if br_verified r then AList.update key r (pg_map p1) else pg_map p1)\<rparr>) w1)))"

fun reconcile_remove ::
  "'e engine_ops \<Rightarrow> 'k list \<Rightarrow> ('k \<times> breakpoint_result) list \<Rightarrow> ('e windbg, unit) call" where
  "reconcile_remove ops desired [] w = (Inr (), w)"
| "reconcile_remove ops desired ((key, old) # prior) w =
     (if key \<in> set desired then reconcile_remove ops desired prior w
      else (case remove_engine_breakpoint ops (br_id old) w of
              (Inl e, w1) \<Rightarrow> (Inl e, w1)
            | (Inr _, w1) \<Rightarrow> reconcile_remove ops desired prior w1))"

definition reconcile ::
  "'e engine_ops \<Rightarrow> ('k \<times> breakpoint_result) list \<Rightarrow> 'k slot list \<Rightarrow>
   (('k \<times> breakpoint_result) list \<Rightarrow> bp_table \<Rightarrow> bp_table) \<Rightarrow> ('e windbg, breakpoint_result list) call" where
  "reconcile ops prior slots commit w =
     (case reconcile_add ops prior slots \<lparr>pg_desired = [], pg_results = [], pg_map = []\<rparr> w of
        (Inl e, w1) \<Rightarrow> (Inl e, w1)
      | (Inr p, w1) \<Rightarrow>
          (let (removed, w2) = reconcile_remove ops (pg_desired p) prior w1;
               w3 = w2\<lparr>wd_table := commit (pg_map p) (wd_table w2)\<rparr>
           in case removed of Inl e \<Rightarrow> (Inl e, w3) | Inr _ \<Rightarrow> (Inr (pg_results p), w3)))"

definition source_prior :: "string \<Rightarrow> bp_table \<Rightarrow> (nat \<times> breakpoint_result) list" where
  "source_prior file t = (case map_of (bt_source t) file of None \<Rightarrow> [] | Some m \<Rightarrow> m)"

definition commit_source :: "string \<Rightarrow> (nat \<times> breakpoint_result) list \<Rightarrow> bp_table \<Rightarrow> bp_table" where
  "commit_source file m t =
     t\<lparr>bt_source := (if m = [] then AList.delete file (bt_source t) else AList.update file m (bt_source t))\<rparr>"

definition commit_function :: "(string \<times> breakpoint_result) list \<Rightarrow> bp_table \<Rightarrow> bp_table" where
  "commit_function m t = t\<lparr>bt_function := m\<rparr>"

definition wd_set_source_breakpoints ::
  "'e engine_ops \<Rightarrow> string \<Rightarrow> source_bp list \<Rightarrow> ('e windbg, breakpoint_result list) call" where
  "wd_set_source_breakpoints ops file bps w =
     reconcile ops (source_prior file (wd_table w)) (map (source_slot file) bps) (commit_source file) w"

definition wd_set_function_breakpoints ::
  "'e engine_ops \<Rightarrow> function_bp list \<Rightarrow> ('e windbg, breakpoint_result list) call" where
  "wd_set_function_breakpoints ops bps w =
     reconcile ops (bt_function (wd_table w)) (map function_slot bps) commit_function w"

section \<open>Launch and attach\<close>

text \<open>The flush of pending breakpoints: a failure of one is dropped, a verified one is tracked.\<close>

fun flush_source :: "'e engine_ops \<Rightarrow> string \<Rightarrow> source_bp list \<Rightarrow> 'e windbg \<Rightarrow> 'e windbg" where
  "flush_source ops file [] w = w"
| "flush_source ops file (bp # bps) w =
     (case as_u32 (sb_line bp) of
        None \<Rightarrow> flush_source ops file bps w
      | Some line \<Rightarrow>
          (case engine_call (eo_set_breakpoint ops (Loc_FileLine file line) (sb_condition bp)) w of
             (Inr r, w1) \<Rightarrow>
               flush_source ops file bps
                 (if br_verified r
                  then w1\<lparr>wd_table := (wd_table w1)\<lparr>bt_source :=
                         AList.update file (AList.update line r (source_prior file (wd_table w1)))
                           (bt_source (wd_table w1))\<rparr>\<rparr>
                  else w1)
           | (Inl _, w1) \<Rightarrow> flush_source ops file bps w1))"

fun flush_functions :: "'e engine_ops \<Rightarrow> function_bp list \<Rightarrow> 'e windbg \<Rightarrow> 'e windbg" where
  "flush_functions ops [] w = w"
| "flush_functions ops (bp # bps) w =
     (if is_bare_address_name (fb_name bp) then flush_functions ops bps w
      else (case engine_call (eo_set_breakpoint ops (Loc_Function (fb_name bp)) (fb_condition bp)) w of
              (Inr r, w1) \<Rightarrow>
                flush_functions ops bps
                  (if br_verified r
                   then w1\<lparr>wd_table := (wd_table w1)\<lparr>bt_function :=
                          AList.update (fb_name bp) r (bt_function (wd_table w1))\<rparr>\<rparr>
                   else w1)
            | (Inl _, w1) \<Rightarrow> flush_functions ops bps w1))"

definition flush_pending :: "'e engine_ops \<Rightarrow> launch_spec \<Rightarrow> 'e windbg \<Rightarrow> 'e windbg" where
  "flush_pending ops spec w =
     flush_functions ops (ls_function_breakpoints spec)
       (fold (\<lambda>(file, bps). flush_source ops file bps) (ls_source_breakpoints spec) w)"

definition wd_launch :: "'e engine_ops \<Rightarrow> launch_spec \<Rightarrow> ('e windbg, launch_outcome) call" where
  "wd_launch ops spec w =
     (case engine_call (eo_launch ops \<lparr>lr_program = ls_program spec, lr_args = ls_args spec, lr_cwd = ls_cwd spec\<rparr>) w of
        (Inl e, w1) \<Rightarrow> (Inl e, w1)
      | (Inr (SO_Stopped info), w1) \<Rightarrow> (Inr (LO_Stopped info), flush_pending ops spec w1)
      | (Inr (SO_Exited code), w1) \<Rightarrow> (Inr (LO_Exited code), w1)
      | (Inr SO_Terminated, w1) \<Rightarrow> (Inr (LO_Exited None), w1))"

text \<open>\<open>procs\<close> gives the answers of the process lookups while waiting for a name.\<close>

definition resolve_attach_pid ::
  "(string \<Rightarrow> nat option list) \<Rightarrow> attach_spec \<Rightarrow> backend_error + nat" where
  "resolve_attach_pid procs spec =
     (case as_pid spec of
        Some pid \<Rightarrow>
          (case as_u32 pid of
             Some p \<Rightarrow> Inr p
           | None \<Rightarrow> Inl (Dap (''attach: pid '' @ show_int pid @ '' is out of range'')))
      | None \<Rightarrow>
          (case as_wait_for spec of
             Some name \<Rightarrow> poll_for_process name (procs name)
           | None \<Rightarrow> Inl (Dap ''attach: neither pid nor wait_for was supplied'')))"

definition wd_attach ::
  "'e engine_ops \<Rightarrow> (string \<Rightarrow> nat option list) \<Rightarrow> attach_spec \<Rightarrow> ('e windbg, attach_outcome) call" where
  "wd_attach ops procs spec w =
     (case resolve_attach_pid procs spec of
        Inl e \<Rightarrow> (Inl e, w)
      | Inr pid \<Rightarrow>
          (case engine_call (eo_attach_pid ops pid) (set_target_pid (Some (int pid)) w) of
             (Inl e, w1) \<Rightarrow> (Inl e, w1)
           | (Inr outcome, w1) \<Rightarrow> (Inr (stop_to_attach outcome), w1)))"

definition wd_disconnect :: "'e engine_ops \<Rightarrow> bool \<Rightarrow> 'e windbg \<Rightarrow> 'e windbg" where
  "wd_disconnect ops terminate w = snd (engine_call (eo_detach ops terminate) (interrupt ops w))"

section \<open>Execution and inspection\<close>

definition u32_max :: nat where
  "u32_max = 2 ^ 32 - 1"

definition wd_cont :: "'e engine_ops \<Rightarrow> i64 \<Rightarrow> ('e windbg, stop_outcome) call" where
  "wd_cont ops thread_id w =
     (case engine_call (eo_go ops u32_max) w of
        (Inl e, w1) \<Rightarrow> (Inl e, w1)
      | (Inr (Some stop), w1) \<Rightarrow> (Inr stop, w1)
      | (Inr None, w1) \<Rightarrow> engine_call (eo_break_in ops) w1)"

definition wd_step ::
  "'e engine_ops \<Rightarrow> step_kind \<Rightarrow> i64 \<Rightarrow> granularity option \<Rightarrow> ('e windbg, stop_outcome) call" where
  "wd_step ops kind thread_id gran = engine_call (eo_step ops kind)"

definition wd_pause :: "'e engine_ops \<Rightarrow> ('e windbg, unit) call" where
  "wd_pause ops w = (Inr (), interrupt ops w)"

definition wd_threads :: "'e engine_ops \<Rightarrow> ('e windbg, thread_info list) call" where
  "wd_threads ops = engine_call (eo_threads ops)"

definition saturating_add :: "i64 \<Rightarrow> i64 \<Rightarrow> i64" where
  "saturating_add a b = max i64_min (min i64_max (a + b))"

definition wd_stack_trace ::
  "'e engine_ops \<Rightarrow> i64 \<Rightarrow> i64 \<Rightarrow> i64 \<Rightarrow> ('e windbg, frame list \<times> i64) call" where
  "wd_stack_trace ops thread_id start levels w =
     (let start' = max 0 start;
          fetch_max = (if 0 < levels then saturating_add start' levels else 1024)
      in case engine_call (eo_stack_trace ops thread_id fetch_max) w of
           (Inl e, w1) \<Rightarrow> (Inl e, w1)
         | (Inr frames, w1) \<Rightarrow> (Inr (drop (nat start') frames, int (length frames)), w1))"

definition wd_scopes :: "i64 \<Rightarrow> ('e windbg, scope list) call" where
  "wd_scopes frame_id w =
     (Inr [\<lparr>sc_name = ''Locals'', sc_variables_reference = saturating_add frame_id 1\<rparr>], w)"

definition max_frame_reference :: i64 where
  "max_frame_reference = 2 ^ 20"

definition wd_variables :: "'e engine_ops \<Rightarrow> i64 \<Rightarrow> ('e windbg, variable list) call" where
  "wd_variables ops reference w =
     (if reference \<le> 0 \<or> max_frame_reference < reference then (Inr [], w)
      else engine_call (eo_locals ops (reference - 1)) w)"

definition wd_evaluate ::
  "'e engine_ops \<Rightarrow> string \<Rightarrow> i64 option \<Rightarrow> eval_mode \<Rightarrow> ('e windbg, eval_result) call" where
  "wd_evaluate ops expr frame_id mode w =
     (case mode of
        EvalExpression \<Rightarrow> engine_call (eo_evaluate ops expr) w
      | EvalRepl \<Rightarrow>
          (case engine_call (eo_execute ops expr) w of
             (Inl e, w1) \<Rightarrow> (Inl e, w1)
           | (Inr output, w1) \<Rightarrow>
               (Inr \<lparr>er_result = output, er_ty = [], er_variables_reference = 0\<rparr>, w1)))"

definition wd_read_memory :: "'e engine_ops \<Rightarrow> string \<Rightarrow> i64 \<Rightarrow> ('e windbg, memory_read) call" where
  "wd_read_memory ops address count w =
     (case parse_address address of
        Inl e \<Rightarrow> (Inl e, w)
      | Inr a \<Rightarrow> engine_call (eo_read_memory ops a (nat (max 0 count))) w)"

definition wd_disassemble :: "'e engine_ops \<Rightarrow> string \<Rightarrow> i64 \<Rightarrow> ('e windbg, instruction list) call" where
  "wd_disassemble ops address count w =
     (case parse_address address of
        Inl e \<Rightarrow> (Inl e, w)
      | Inr a \<Rightarrow> engine_call (eo_disassemble ops a count) w)"

definition wd_attach_kernel :: "'e engine_ops \<Rightarrow> string \<Rightarrow> ('e windbg, attach_outcome) call" where
  "wd_attach_kernel ops connection w =
     (case engine_call (eo_attach_kernel ops connection) w of
        (Inl e, w1) \<Rightarrow> (Inl e, w1)
      | (Inr outcome, w1) \<Rightarrow> (Inr (stop_to_attach outcome), w1))"

section \<open>The backend\<close>

definition windbg_ops ::
  "'e engine_ops \<Rightarrow> (string \<Rightarrow> nat option list) \<Rightarrow> (unit, 'e windbg) backend_ops" where
  "windbg_ops ops procs =
     \<lparr>b_launch = \<lambda>_. wd_launch ops, b_attach = \<lambda>_. wd_attach ops procs,
      b_disconnect = \<lambda>_. wd_disconnect ops,
      b_set_source_breakpoints = \<lambda>_. wd_set_source_breakpoints ops,
      b_set_function_breakpoints = \<lambda>_. wd_set_function_breakpoints ops,
      b_cont = \<lambda>_. wd_cont ops, b_step = \<lambda>_. wd_step ops, b_pause = \<lambda>_. wd_pause ops,
      b_threads = \<lambda>_. wd_threads ops, b_stack_trace = \<lambda>_. wd_stack_trace ops,
      b_scopes = \<lambda>_. wd_scopes, b_variables = \<lambda>_. wd_variables ops,
      b_evaluate = \<lambda>_. wd_evaluate ops, b_read_memory = \<lambda>_. wd_read_memory ops,
      b_disassemble = \<lambda>_. wd_disassemble ops,
      b_supports_command_repl_mode = \<lambda>_. True, b_debugger_pid = \<lambda>_. wd_target_pid,
      b_open_dump = \<lambda>_ path. engine_call (eo_open_dump ops path),
      b_attach_kernel = \<lambda>_. wd_attach_kernel ops,
      b_analyze = \<lambda>_. engine_call (eo_analyze ops),
      b_modules = \<lambda>_. engine_call (eo_modules ops)\<rparr>"

definition windbg_capabilities :: capabilities where
  "windbg_capabilities = Capabilities True True True True"

end
