(* ===== verification/Windbg_Facts.thy ===== *)
theory Windbg_Facts
  imports Windbg_Backend
begin

text \<open>
  What marshaling and reconciliation do to the engine.  The engine is seen through its pool of
  breakpoints, a set of pairs of an id and a location; \<open>pool_engine\<close> says what is documented of the
  two operations that change it: a breakpoint that is set is verified, gets an id not in use and is
  added, one of the pool that is removed is taken out, which does not fail, and an operation that fails
  changes nothing.
\<close>

type_synonym 'e pool_view = "'e \<Rightarrow> (i64 \<times> bp_loc) set"

definition pool_engine :: "'e engine_ops \<Rightarrow> 'e pool_view \<Rightarrow> bool" where
  "pool_engine ops pool \<longleftrightarrow>
     (\<forall>loc c e r e'. eo_set_breakpoint ops loc c e = (r, e') \<longrightarrow>
        (case r of
           Some (Inr b) \<Rightarrow> br_verified b \<and> br_id b \<notin> fst ` pool e \<and> pool e' = insert (br_id b, loc) (pool e)
         | _ \<Rightarrow> pool e' = pool e)) \<and>
     (\<forall>i e r e'. i \<in> fst ` pool e \<longrightarrow> eo_remove_breakpoint ops i e = (r, e') \<longrightarrow>
        (case r of
           Some (Inr _) \<Rightarrow> pool e' = {p \<in> pool e. fst p \<noteq> i}
         | Some (Inl _) \<Rightarrow> False
         | None \<Rightarrow> pool e' = pool e))"

text \<open>
  The same of a part of the breakpoints, those whose ids are counted: of the others the pool says nothing.  The
  ids above 0 are such a part of every pool.
\<close>

definition pool_engine_on :: "(i64 \<Rightarrow> bool) \<Rightarrow> 'e engine_ops \<Rightarrow> 'e pool_view \<Rightarrow> bool" where
  "pool_engine_on counted ops pool \<longleftrightarrow>
     (\<forall>loc c e r e'. eo_set_breakpoint ops loc c e = (r, e') \<longrightarrow>
        (case r of
           Some (Inr b) \<Rightarrow> br_verified b \<and>
             (if counted (br_id b) then br_id b \<notin> fst ` pool e \<and> pool e' = insert (br_id b, loc) (pool e)
              else pool e' = pool e)
         | _ \<Rightarrow> pool e' = pool e)) \<and>
     (\<forall>i e r e'. i \<in> fst ` pool e \<longrightarrow> eo_remove_breakpoint ops i e = (r, e') \<longrightarrow>
        (case r of
           Some (Inr _) \<Rightarrow> pool e' = {p \<in> pool e. fst p \<noteq> i}
         | Some (Inl _) \<Rightarrow> False
         | None \<Rightarrow> pool e' = pool e))"

lemma pool_engine_all: "pool_engine_on (\<lambda>_. True) ops pool = pool_engine ops pool"
  unfolding pool_engine_on_def pool_engine_def if_True ..

abbreviation above_zero :: "'e pool_view \<Rightarrow> 'e pool_view" where
  "above_zero pool \<equiv> \<lambda>e. {p \<in> pool e. 0 < fst p}"

lemma pool_engine_above_zero:
  assumes "pool_engine ops pool"
  shows "pool_engine_on (\<lambda>i. 0 < i) ops (above_zero pool)"
  unfolding pool_engine_on_def
proof (intro conjI allI impI)
  fix loc c e r e'
  assume run: "eo_set_breakpoint ops loc c e = (r, e')"
  have "case r of Some (Inr b) \<Rightarrow> br_verified b \<and> br_id b \<notin> fst ` pool e \<and> pool e' = insert (br_id b, loc) (pool e)
      | _ \<Rightarrow> pool e' = pool e"
    using assms run unfolding pool_engine_def by blast
  then show "case r of
      Some (Inr b) \<Rightarrow> br_verified b \<and>
        (if 0 < br_id b then br_id b \<notin> fst ` above_zero pool e \<and> above_zero pool e' = insert (br_id b, loc) (above_zero pool e)
         else above_zero pool e' = above_zero pool e)
    | _ \<Rightarrow> above_zero pool e' = above_zero pool e"
    by (auto split: option.splits sum.splits)
next
  fix i e r e'
  assume used: "i \<in> fst ` above_zero pool e" and run: "eo_remove_breakpoint ops i e = (r, e')"
  have "i \<in> fst ` pool e" using used by auto
  then have "case r of Some (Inr _) \<Rightarrow> pool e' = {p \<in> pool e. fst p \<noteq> i} | Some (Inl _) \<Rightarrow> False
      | None \<Rightarrow> pool e' = pool e"
    using assms run unfolding pool_engine_def by blast
  then show "case r of Some (Inr _) \<Rightarrow> above_zero pool e' = {p \<in> above_zero pool e. fst p \<noteq> i} | Some (Inl _) \<Rightarrow> False
      | None \<Rightarrow> above_zero pool e' = above_zero pool e"
    by (auto split: option.splits sum.splits)
qed

lemma engine_call_keeps:
  "engine_call cmd w = (r, w') \<Longrightarrow> wd_table w' = wd_table w \<and> wd_target_pid w' = wd_target_pid w"
  by (auto simp: engine_call_def dispatch_cmd_def Let_def split: if_splits option.splits sum.splits prod.splits)

lemma engine_call_cases:
  assumes "engine_call cmd w = (r, w')"
  obtains (closed) "\<not> wd_running w" "r = Inl Closed" "w' = w"
    | (answer) a where "cmd (wd_engine w) = (Some (Inr a), wd_engine w')" "r = Inr a"
    | (failure) e where "cmd (wd_engine w) = (Some (Inl e), wd_engine w')" "r = Inl (map_engine_err e)"
    | (panic) "cmd (wd_engine w) = (None, wd_engine w')" "r = Inl Closed"
proof (cases "wd_running w")
  case False
  then show ?thesis using assms by (intro closed) (auto simp: engine_call_def)
next
  case True
  obtain q e where q: "cmd (wd_engine w) = (q, e)" by (rule prod.exhaust)
  show ?thesis
  proof (cases q)
    case None
    then show ?thesis using assms True q by (intro panic) (auto simp: engine_call_def dispatch_cmd_def)
  next
    case (Some x)
    then show ?thesis
      using assms True q
      by (cases x) (auto simp: engine_call_def dispatch_cmd_def intro: answer failure)
  qed
qed

lemma map_engine_err_not_closed [simp]: "map_engine_err e \<noteq> Closed"
  by (simp add: map_engine_err_def)

lemma engine_call_set:
  assumes "pool_engine_on counted ops pool" "engine_call (eo_set_breakpoint ops loc c) w = (r, w')"
  shows "case r of
           Inr b \<Rightarrow> br_verified b \<and>
             (if counted (br_id b) then br_id b \<notin> fst ` pool (wd_engine w) \<and>
                pool (wd_engine w') = insert (br_id b, loc) (pool (wd_engine w))
              else pool (wd_engine w') = pool (wd_engine w))
         | Inl _ \<Rightarrow> pool (wd_engine w') = pool (wd_engine w)"
proof -
  have law: "case q of
      Some (Inr b) \<Rightarrow> br_verified b \<and>
        (if counted (br_id b) then br_id b \<notin> fst ` pool e \<and> pool e' = insert (br_id b, loc) (pool e) else pool e' = pool e)
    | _ \<Rightarrow> pool e' = pool e" if "eo_set_breakpoint ops loc c e = (q, e')" for e q e'
    using assms(1) that unfolding pool_engine_on_def by blast
  from assms(2) show ?thesis
    by (cases rule: engine_call_cases) (use law in \<open>fastforce+\<close>)
qed

lemma engine_call_remove:
  assumes "pool_engine_on counted ops pool" "engine_call (eo_remove_breakpoint ops i) w = (r, w')" "r \<noteq> Inl Closed"
    and "i \<in> fst ` pool (wd_engine w)"
  shows "pool (wd_engine w') = {p \<in> pool (wd_engine w). fst p \<noteq> i}"
proof -
  have law: "case q of
      Some (Inr _) \<Rightarrow> pool e' = {p \<in> pool (wd_engine w). fst p \<noteq> i}
    | Some (Inl _) \<Rightarrow> False
    | None \<Rightarrow> pool e' = pool (wd_engine w)" if "eo_remove_breakpoint ops i (wd_engine w) = (q, e')" for q e'
    using assms(1,4) that unfolding pool_engine_on_def by blast
  from assms(2) show ?thesis
    by (cases rule: engine_call_cases) (use law assms(3) in \<open>fastforce+\<close>)
qed

lemma remove_engine_breakpoint_pool:
  assumes "pool_engine_on counted ops pool" "remove_engine_breakpoint ops i w = (Inr u, w')"
    and "0 < i \<Longrightarrow> i \<in> fst ` pool (wd_engine w)"
  shows "pool (wd_engine w') = (if i \<le> 0 then pool (wd_engine w) else {p \<in> pool (wd_engine w). fst p \<noteq> i}) \<and>
         wd_table w' = wd_table w"
proof (cases "i \<le> 0")
  case True
  then show ?thesis using assms(2) by (simp add: remove_engine_breakpoint_def)
next
  case False
  obtain r w1 where c: "engine_call (eo_remove_breakpoint ops i) w = (r, w1)" by (rule prod.exhaust)
  have "r \<noteq> Inl Closed \<and> w' = w1"
    using assms(2) False c by (auto simp: remove_engine_breakpoint_def split: sum.splits backend_error.splits)
  then show ?thesis
    using engine_call_remove [OF assms(1) c _ assms(3)] engine_call_keeps [OF c] False by simp
qed

section \<open>The two passes\<close>

fun slot_keys :: "'k slot list \<Rightarrow> 'k list" where
  "slot_keys [] = []"
| "slot_keys (Refused _ # slots) = slot_keys slots"
| "slot_keys (Slot key _ _ _ # slots) = key # slot_keys slots"

definition located :: "('k \<Rightarrow> bp_loc) \<Rightarrow> 'k slot list \<Rightarrow> bool" where
  "located loc slots \<longleftrightarrow> (\<forall>s \<in> set slots. case s of Slot key l _ _ \<Rightarrow> l = loc key | Refused _ \<Rightarrow> True)"

text \<open>The entries a map has for new keys, as they stand in the pool.\<close>

definition new_entries ::
  "(i64 \<Rightarrow> bool) \<Rightarrow> ('k \<Rightarrow> bp_loc) \<Rightarrow> ('k \<times> breakpoint_result) list \<Rightarrow> 'k list \<Rightarrow> ('k \<times> breakpoint_result) list \<Rightarrow>
   (i64 \<times> bp_loc) set" where
  "new_entries counted loc prior keys m =
     {(br_id r, loc key) | key r. key \<in> set keys \<and> map_of prior key = None \<and> map_of m key = Some r \<and> counted (br_id r)}"

lemma new_entries_simps:
  "new_entries counted loc prior [] m = {}"
  "map_of prior key \<noteq> None \<or> map_of m key = None \<Longrightarrow>
     new_entries counted loc prior (key # keys) m = new_entries counted loc prior keys m"
  "map_of prior key = None \<Longrightarrow> map_of m key = Some r \<Longrightarrow>
     new_entries counted loc prior (key # keys) m =
       (if counted (br_id r) then insert (br_id r, loc key) (new_entries counted loc prior keys m)
        else new_entries counted loc prior keys m)"
  by (auto simp: new_entries_def)

text \<open>What the adding pass guarantees of the progress and the pool, from one to the other.\<close>

definition add_post ::
  "(i64 \<Rightarrow> bool) \<Rightarrow> ('k \<Rightarrow> bp_loc) \<Rightarrow> ('k \<times> breakpoint_result) list \<Rightarrow> 'k list \<Rightarrow> 'k progress \<Rightarrow> (i64 \<times> bp_loc) set \<Rightarrow>
   'k progress \<Rightarrow> (i64 \<times> bp_loc) set \<Rightarrow> bool" where
  "add_post counted loc prior keys p P p' P' \<longleftrightarrow>
     set (pg_desired p') = set (pg_desired p) \<union> set keys \<and>
     (\<forall>key. key \<notin> set keys \<longrightarrow> map_of (pg_map p') key = map_of (pg_map p) key) \<and>
     (\<forall>key \<in> set keys. map_of prior key \<noteq> None \<longrightarrow> map_of (pg_map p') key = map_of prior key) \<and>
     P' = P \<union> new_entries counted loc prior keys (pg_map p') \<and>
     fst ` new_entries counted loc prior keys (pg_map p') \<inter> fst ` P = {} \<and>
     inj_on fst (new_entries counted loc prior keys (pg_map p'))"

lemma add_post_reuse:
  assumes "map_of prior key = Some r" "key \<notin> set keys"
    and "add_post counted loc prior keys (p\<lparr>pg_desired := key # pg_desired p, pg_results := rs,
           pg_map := AList.update key r (pg_map p)\<rparr>) P p' P'"
  shows "add_post counted loc prior (key # keys) p P p' P'"
  using assms by (auto simp: add_post_def new_entries_simps update_conv')

lemma add_post_unverified:
  assumes "map_of prior key = None" "key \<notin> set keys" "map_of (pg_map p) key = None"
    and "add_post counted loc prior keys (p\<lparr>pg_desired := key # pg_desired p, pg_results := rs\<rparr>) P p' P'"
  shows "add_post counted loc prior (key # keys) p P p' P'"
  using assms by (auto simp: add_post_def new_entries_simps)

lemma add_post_verified:
  assumes "map_of prior key = None" "key \<notin> set keys" "counted (br_id r) \<Longrightarrow> br_id r \<notin> fst ` P"
    and "add_post counted loc prior keys (p\<lparr>pg_desired := key # pg_desired p, pg_results := rs,
           pg_map := AList.update key r (pg_map p)\<rparr>) (if counted (br_id r) then insert (br_id r, loc key) P else P) p' P'"
  shows "add_post counted loc prior (key # keys) p P p' P'"
proof -
  have m: "map_of (pg_map p') key = Some r"
    using assms(2,4) by (simp add: add_post_def update_conv')
  note entries = new_entries_simps(3) [OF assms(1) m]
  show ?thesis
  proof (cases "counted (br_id r)")
    case True
    then show ?thesis using assms by (simp add: add_post_def entries update_conv') auto
  next
    case False
    then show ?thesis using assms by (simp add: add_post_def entries update_conv')
  qed
qed

lemma reconcile_add_spec:
  assumes "pool_engine_on counted ops pool"
  shows "reconcile_add ops prior slots p w = (Inr p', w') \<Longrightarrow> located loc slots \<Longrightarrow> distinct (slot_keys slots) \<Longrightarrow>
    \<forall>key \<in> set (slot_keys slots). map_of (pg_map p) key = None \<Longrightarrow>
    wd_table w' = wd_table w \<and> length (pg_results p') = length (pg_results p) + length slots \<and>
    add_post counted loc prior (slot_keys slots) p (pool (wd_engine w)) p' (pool (wd_engine w'))"
proof (induction slots arbitrary: p w)
  case Nil
  then show ?case by (simp add: add_post_def new_entries_simps)
next
  case (Cons s slots)
  let ?post = "\<lambda>p w. wd_table w' = wd_table w \<and>
    length (pg_results p') = length (pg_results p) + length slots \<and>
    add_post counted loc prior (slot_keys slots) p (pool (wd_engine w)) p' (pool (wd_engine w'))"
  show ?case
  proof (cases s)
    case (Refused r)
    then show ?thesis
      using Cons.IH [of "p\<lparr>pg_results := pg_results p @ [r]\<rparr>" w] Cons.prems
      by (simp add: located_def add_post_def)
  next
    case (Slot key l c line)
    have key: "key \<notin> set (slot_keys slots)" and l: "l = loc key" and more: "located loc slots"
      using Cons.prems Slot by (auto simp: located_def)
    have none: "map_of (pg_map p) key = None" using Cons.prems(4) Slot by simp
    show ?thesis
    proof (cases "map_of prior key")
      case (Some r)
      let ?p = "p\<lparr>pg_desired := key # pg_desired p, pg_results := pg_results p @ [r],
                  pg_map := AList.update key r (pg_map p)\<rparr>"
      have "reconcile_add ops prior slots ?p w = (Inr p', w')"
        using Cons.prems(1) Slot Some by (simp add: Let_def)
      then have post: "?post ?p w" using Cons.prems key Slot by (intro Cons.IH more) (auto simp: update_conv')
      then show ?thesis
        using Slot add_post_reuse [OF Some key post [THEN conjunct2, THEN conjunct2]] by simp
    next
      case None
      obtain outcome w1 where c: "engine_call (eo_set_breakpoint ops l c) w = (outcome, w1)" by (rule prod.exhaust)
      note law = engine_call_set [OF assms c] and table = engine_call_keeps [OF c]
      show ?thesis
      proof (cases outcome)
        case (Inr r)
        let ?p = "p\<lparr>pg_desired := key # pg_desired p, pg_results := pg_results p @ [r],
                    pg_map := AList.update key r (pg_map p)\<rparr>"
        have "reconcile_add ops prior slots ?p w1 = (Inr p', w')"
          using Cons.prems(1) Slot None c Inr law by (simp add: Let_def)
        then have post: "?post ?p w1" using Cons.prems key Slot by (intro Cons.IH more) (auto simp: update_conv')
        have fresh: "counted (br_id r) \<Longrightarrow> br_id r \<notin> fst ` pool (wd_engine w)" and
          grown: "pool (wd_engine w1) =
            (if counted (br_id r) then insert (br_id r, loc key) (pool (wd_engine w)) else pool (wd_engine w))"
          using law Inr l by auto
        show ?thesis
          using post Slot table
            add_post_verified [OF None key fresh post [THEN conjunct2, THEN conjunct2, unfolded grown]] by simp
      next
        case (Inl e)
        let ?r = "unverified line (error_text e) False"
        let ?p = "p\<lparr>pg_desired := key # pg_desired p, pg_results := pg_results p @ [?r]\<rparr>"
        have "e \<noteq> Closed" using Cons.prems(1) Slot None c Inl by (auto simp: Let_def)
        then have "reconcile_add ops prior slots ?p w1 = (Inr p', w')"
          using Cons.prems(1) Slot None c Inl by (simp add: Let_def unverified_def)
        then have post: "?post ?p w1" using Cons.prems key Slot by (intro Cons.IH more) auto
        have same: "pool (wd_engine w1) = pool (wd_engine w)" using law Inl by simp
        show ?thesis
          using post Slot table
            add_post_unverified [OF None key none post [THEN conjunct2, THEN conjunct2, unfolded same]] by simp
      qed
    qed
  qed
qed

lemma reconcile_add_distinct:
  "reconcile_add ops prior slots p w = (Inr p', w') \<Longrightarrow> distinct (map fst (pg_map p)) \<Longrightarrow> distinct (map fst (pg_map p'))"
proof (induction slots arbitrary: p w)
  case (Cons s slots)
  then show ?case
    by (cases s) (auto simp: Let_def distinct_update split: option.splits prod.splits sum.splits if_splits)
qed simp

text \<open>The answers follow the requests: a tracked location answers with what is tracked for it.\<close>

fun answers :: "('k \<times> breakpoint_result) list \<Rightarrow> 'k slot \<Rightarrow> breakpoint_result \<Rightarrow> bool" where
  "answers m (Refused r) x \<longleftrightarrow> x = r"
| "answers m (Slot key _ _ _) x \<longleftrightarrow> (case map_of m key of Some r \<Rightarrow> x = r | None \<Rightarrow> \<not> br_verified x)"

lemma reconcile_add_other:
  "reconcile_add ops prior slots p w = (Inr p', w') \<Longrightarrow> key \<notin> set (slot_keys slots) \<Longrightarrow>
   map_of (pg_map p') key = map_of (pg_map p) key"
proof (induction slots arbitrary: p w)
  case (Cons s slots)
  then show ?case
    by (cases s) (auto simp: Let_def update_conv' split: option.splits prod.splits sum.splits if_splits)
qed simp

lemma reconcile_add_answers:
  "reconcile_add ops prior slots p w = (Inr p', w') \<Longrightarrow> distinct (slot_keys slots) \<Longrightarrow>
   \<forall>key \<in> set (slot_keys slots). map_of (pg_map p) key = None \<Longrightarrow>
   \<exists>xs. pg_results p' = pg_results p @ xs \<and> list_all2 (answers (pg_map p')) slots xs"
proof (induction slots arbitrary: p w)
  case (Cons s slots)
  show ?case
  proof (cases s)
    case (Refused r)
    then show ?thesis
      using Cons.IH [of "p\<lparr>pg_results := pg_results p @ [r]\<rparr>" w] Cons.prems by (auto simp: list_all2_Cons1)
  next
    case (Slot key l c line)
    have step: "\<exists>xs. pg_results p' = pg_results p @ xs \<and> list_all2 (answers (pg_map p')) (s # slots) xs"
      if "reconcile_add ops prior slots (p\<lparr>pg_desired := d, pg_results := pg_results p @ [x], pg_map := m\<rparr>) v = (Inr p', w')"
        "\<forall>key \<in> set (slot_keys slots). map_of m key = None"
        "case map_of m key of Some r \<Rightarrow> x = r | None \<Rightarrow> \<not> br_verified x" for d x m v
      using Cons.IH [OF that(1)] that(2,3) Cons.prems(2) Slot reconcile_add_other [OF that(1), of key]
      by (auto simp: list_all2_Cons1)
    show ?thesis
    proof (cases "map_of prior key")
      case (Some r)
      then show ?thesis
        using Cons.prems Slot by (intro step [where x = r and v = w]) (auto simp: Let_def update_conv')
    next
      case None
      obtain outcome w1 where c: "engine_call (eo_set_breakpoint ops l c) w = (outcome, w1)" by (rule prod.exhaust)
      obtain r where r: "bp_result_or_continue outcome line = Inr r"
        using Cons.prems(1) Slot None c by (cases "bp_result_or_continue outcome line") (auto simp: Let_def)
      show ?thesis
        using Cons.prems Slot None c r
        by (intro step [where x = r and v = w1 and m = "if br_verified r then AList.update key r (pg_map p) else pg_map p"])
          (auto simp: Let_def update_conv')
    qed
  qed
qed simp

lemma reconcile_remove_spec:
  assumes "pool_engine_on counted ops pool"
  shows "reconcile_remove ops desired prior w = (Inr u, w') \<Longrightarrow>
    distinct (map (br_id \<circ> snd) (filter (\<lambda>x. 0 < br_id (snd x)) prior)) \<Longrightarrow>
    \<forall>(key, r) \<in> set prior. 0 < br_id r \<longrightarrow> br_id r \<in> fst ` pool (wd_engine w) \<Longrightarrow>
    wd_table w' = wd_table w \<and>
    pool (wd_engine w') =
      {p \<in> pool (wd_engine w). \<forall>(key, r) \<in> set prior. key \<notin> set desired \<longrightarrow> 0 < br_id r \<longrightarrow> fst p \<noteq> br_id r}"
proof (induction prior arbitrary: w)
  case (Cons e prior)
  obtain key r where e: "e = (key, r)" by (rule prod.exhaust)
  show ?case
  proof (cases "key \<in> set desired")
    case True
    then show ?thesis using Cons.IH [of w] Cons.prems e by (auto split: if_splits)
  next
    case False
    obtain q w1 where q: "remove_engine_breakpoint ops (br_id r) w = (q, w1)" by (rule prod.exhaust)
    then obtain v where v: "remove_engine_breakpoint ops (br_id r) w = (Inr v, w1)"
      using Cons.prems False e by (cases q) auto
    have removed: "pool (wd_engine w1) = (if br_id r \<le> 0 then pool (wd_engine w)
        else {p \<in> pool (wd_engine w). fst p \<noteq> br_id r}) \<and> wd_table w1 = wd_table w"
      using remove_engine_breakpoint_pool [OF assms v] Cons.prems(3) e by simp
    have rest: "\<forall>(key, r') \<in> set prior. 0 < br_id r' \<longrightarrow> br_id r' \<in> fst ` pool (wd_engine w1)"
    proof (clarify)
      fix k r' assume r': "(k, r') \<in> set prior" "0 < br_id r'"
      then have live: "br_id r' \<in> fst ` pool (wd_engine w)" using Cons.prems(3) by auto
      moreover have "br_id r' \<noteq> br_id r" if "0 < br_id r"
      proof
        have "br_id r' \<in> (br_id \<circ> snd) ` set (filter (\<lambda>x. 0 < br_id (snd x)) prior)" using r' by force
        moreover assume "br_id r' = br_id r"
        ultimately show False using Cons.prems(2) e that by simp
      qed
      ultimately show "br_id r' \<in> fst ` pool (wd_engine w1)" using removed by (auto simp: image_iff)
    qed
    have run: "reconcile_remove ops desired prior w1 = (Inr u, w')" using Cons.prems False e v by simp
    have "distinct (map (br_id \<circ> snd) (filter (\<lambda>x. 0 < br_id (snd x)) prior))"
      using Cons.prems(2) by (simp add: o_def split: if_splits)
    from Cons.IH [OF run this rest] show ?thesis
      using removed False e by (cases "0 < br_id r") auto
  qed
qed simp

text \<open>
  A category of locations, the range of \<open>loc\<close>, is tracked exactly when the map names the
  breakpoints the pool has there, each by its id; ids are those of one breakpoint.
\<close>

definition tracked :: "('k \<Rightarrow> bp_loc) \<Rightarrow> ('k \<times> breakpoint_result) list \<Rightarrow> (i64 \<times> bp_loc) set \<Rightarrow> bool" where
  "tracked loc m P \<longleftrightarrow> (\<forall>i key. (i, loc key) \<in> P \<longleftrightarrow> (\<exists>r. map_of m key = Some r \<and> br_id r = i))"

definition tracked_on ::
  "(i64 \<Rightarrow> bool) \<Rightarrow> ('k \<Rightarrow> bp_loc) \<Rightarrow> ('k \<times> breakpoint_result) list \<Rightarrow> (i64 \<times> bp_loc) set \<Rightarrow> bool" where
  "tracked_on counted loc m P \<longleftrightarrow>
     (\<forall>i key. (i, loc key) \<in> P \<longleftrightarrow> counted i \<and> (\<exists>r. map_of m key = Some r \<and> br_id r = i))"

lemma tracked_all: "tracked_on (\<lambda>_. True) loc m P = tracked loc m P"
  by (simp add: tracked_on_def tracked_def)

lemma trackedD: "tracked_on counted loc m P \<Longrightarrow> map_of m key = Some r \<Longrightarrow> counted (br_id r) \<Longrightarrow> (br_id r, loc key) \<in> P"
  by (auto simp: tracked_on_def)

lemma reconcile_exact:
  assumes ops: "pool_engine_on counted ops pool" and inj: "inj loc"
    and run: "reconcile ops prior slots commit w = (Inr results, w')"
    and loc: "located loc slots" and dist: "distinct (slot_keys slots)"
    and ids: "inj_on fst (pool (wd_engine w))"
    and prior: "tracked_on counted loc prior (pool (wd_engine w))" "distinct (map fst prior)"
    and pos: "\<forall>(key, r) \<in> set prior. 0 < br_id r \<longleftrightarrow> counted (br_id r)"
  obtains m where "wd_table w' = commit m (wd_table w)" "tracked_on counted loc m (pool (wd_engine w'))"
    "\<forall>key. key \<notin> set (slot_keys slots) \<longrightarrow> map_of m key = None"
    "\<forall>key \<in> set (slot_keys slots). map_of prior key \<noteq> None \<longrightarrow> map_of m key = map_of prior key"
    "{p \<in> pool (wd_engine w'). snd p \<notin> range loc} = {p \<in> pool (wd_engine w). snd p \<notin> range loc}"
    "inj_on fst (pool (wd_engine w'))" "list_all2 (answers m) slots results" "distinct (map fst m)"
proof -
  let ?p = "\<lparr>pg_desired = [], pg_results = [], pg_map = []\<rparr>"
  obtain q w1 where add: "reconcile_add ops prior slots ?p w = (q, w1)" by (rule prod.exhaust)
  then obtain p where q: "q = Inr p" using run by (cases q) (auto simp: reconcile_def)
  obtain v w2 where rem: "reconcile_remove ops (pg_desired p) prior w1 = (v, w2)" by (rule prod.exhaust)
  then obtain u where v: "v = Inr u" and w': "w' = w2\<lparr>wd_table := commit (pg_map p) (wd_table w2)\<rparr>"
    and res: "results = pg_results p"
    using run add q by (cases v) (auto simp: reconcile_def)
  let ?P = "pool (wd_engine w)" and ?Q = "pool (wd_engine w')" and ?m = "pg_map p"
    and ?keys = "set (slot_keys slots)"
  let ?N = "new_entries counted loc prior (slot_keys slots) ?m"
  from reconcile_add_spec [OF ops add [unfolded q] loc dist] have
    table1: "wd_table w1 = wd_table w" and
    post: "add_post counted loc prior (slot_keys slots) ?p ?P p (pool (wd_engine w1))"
    by (simp_all add: res)
  from post have desired: "set (pg_desired p) = ?keys"
    and none: "\<And>key. key \<notin> ?keys \<Longrightarrow> map_of ?m key = None"
    and reuse: "\<And>key. key \<in> ?keys \<Longrightarrow> map_of prior key \<noteq> None \<Longrightarrow> map_of ?m key = map_of prior key"
    and grown: "pool (wd_engine w1) = ?P \<union> ?N" and fresh: "fst ` ?N \<inter> fst ` ?P = {}" and inj_new: "inj_on fst ?N"
    by (simp_all add: add_post_def)
  have ans: "list_all2 (answers ?m) slots results"
    using reconcile_add_answers [OF add [unfolded q] dist] by (simp add: res)
  have dm: "distinct (map fst ?m)" using reconcile_add_distinct [OF add [unfolded q]] by simp
  have uniq: "key = key' \<and> r = r'" if "(key, r) \<in> set prior" "(key', r') \<in> set prior"
      "br_id r = br_id r'" "0 < br_id r" for key r key' r'
  proof -
    have m: "map_of prior key = Some r" "map_of prior key' = Some r'"
      using that(1,2) prior(2) by (simp_all add: map_of_is_SomeI)
    then have "(br_id r, loc key) = (br_id r', loc key')"
      using inj_onD [OF ids, of "(br_id r, loc key)" "(br_id r', loc key')"] that(3,4)
        trackedD [OF prior(1) m(1)] trackedD [OF prior(1) m(2)] pos that(1,2) by auto
    then have "key = key'" using inj by (simp add: inj_eq)
    then show ?thesis using m by simp
  qed
  let ?positive = "filter (\<lambda>x. 0 < br_id (snd x)) prior"
  have "inj_on (br_id \<circ> snd) (set ?positive)" using uniq by (fastforce intro: inj_onI)
  then have distinct_ids: "distinct (map (br_id \<circ> snd) ?positive)"
    using prior(2) by (simp add: distinct_map)
  have live: "\<forall>(key, r) \<in> set prior. 0 < br_id r \<longrightarrow> br_id r \<in> fst ` pool (wd_engine w1)"
    using trackedD [OF prior(1)] prior(2) pos by (force simp: grown map_of_is_SomeI image_iff)
  from reconcile_remove_spec [OF ops rem [unfolded v] distinct_ids live] have
    table2: "wd_table w2 = wd_table w1" and
    Q: "?Q = {x \<in> ?P \<union> ?N. \<forall>(key, r) \<in> set prior. key \<notin> ?keys \<longrightarrow> counted (br_id r) \<longrightarrow> fst x \<noteq> br_id r}"
    using pos by (auto simp: w' grown desired)
  have gone: "x \<in> ?Q \<longleftrightarrow> (x \<in> ?P \<union> ?N \<and> (\<forall>key r. map_of prior key = Some r \<longrightarrow> key \<notin> ?keys \<longrightarrow>
      counted (br_id r) \<longrightarrow> fst x \<noteq> br_id r))" for x
    using prior(2) by (auto simp: Q)
  have one: "snd x = loc key" if "x \<in> ?P" "map_of prior key = Some r" "counted (br_id r)" "fst x = br_id r" for x key r
    using inj_onD [OF ids, of x "(br_id r, loc key)"] that trackedD [OF prior(1) that(2)] by auto
  have apart: "x \<in> ?N \<Longrightarrow> map_of prior key = Some r \<Longrightarrow> counted (br_id r) \<Longrightarrow> fst x \<noteq> br_id r" for x key r
    using fresh trackedD [OF prior(1), of key r] by force
  have "tracked_on counted loc ?m ?Q"
    unfolding tracked_on_def
  proof (intro allI iffI)
    fix i key assume "(i, loc key) \<in> ?Q"
    then show "counted i \<and> (\<exists>r. map_of ?m key = Some r \<and> br_id r = i)"
      using prior(1) reuse none inj unfolding gone
      by (fastforce simp: tracked_on_def new_entries_def inj_eq)
  next
    fix i key assume "counted i \<and> (\<exists>r. map_of ?m key = Some r \<and> br_id r = i)"
    then obtain r where r: "map_of ?m key = Some r" "br_id r = i" "counted i" by blast
    then have key: "key \<in> ?keys" using none by force
    show "(i, loc key) \<in> ?Q"
    proof (cases "map_of prior key")
      case None
      then have N: "(i, loc key) \<in> ?N" using r key by (auto simp: new_entries_def)
      then show ?thesis using apart [OF N] unfolding gone by force
    next
      case (Some r')
      then have "(i, loc key) \<in> ?P" using reuse key r trackedD [OF prior(1) Some] by auto
      then show ?thesis using one inj key r(3) by (fastforce simp: gone inj_eq)
    qed
  qed
  moreover have "{x \<in> ?Q. snd x \<notin> range loc} = {x \<in> ?P. snd x \<notin> range loc}"
    using one by (fastforce simp: gone new_entries_def)
  moreover have "inj_on fst (?P \<union> ?N)"
    using ids inj_new fresh by (auto simp: inj_on_Un)
  then have "inj_on fst ?Q" by (rule inj_on_subset) (auto simp: gone)
  ultimately show ?thesis
    using that [of ?m] none reuse table1 table2 w' dm ans by simp
qed

section \<open>The table and the pool\<close>

text \<open>
  The invariant of the backend's table: every category is tracked, each by distinct keys, and an id
  names one breakpoint of the pool.  Its abstraction is the map from tracked locations to ids.
\<close>

definition table_exact :: "'e pool_view \<Rightarrow> 'e windbg \<Rightarrow> bool" where
  "table_exact pool w \<longleftrightarrow>
     (\<forall>file. tracked (Loc_FileLine file) (source_prior file (wd_table w)) (pool (wd_engine w)) \<and>
             distinct (map fst (source_prior file (wd_table w)))) \<and>
     tracked Loc_Function (bt_function (wd_table w)) (pool (wd_engine w)) \<and>
     distinct (map fst (bt_function (wd_table w))) \<and>
     inj_on fst (pool (wd_engine w))"

definition table_exact_on :: "(i64 \<Rightarrow> bool) \<Rightarrow> 'e pool_view \<Rightarrow> 'e windbg \<Rightarrow> bool" where
  "table_exact_on counted pool w \<longleftrightarrow>
     (\<forall>file. tracked_on counted (Loc_FileLine file) (source_prior file (wd_table w)) (pool (wd_engine w)) \<and>
             distinct (map fst (source_prior file (wd_table w)))) \<and>
     tracked_on counted Loc_Function (bt_function (wd_table w)) (pool (wd_engine w)) \<and>
     distinct (map fst (bt_function (wd_table w))) \<and>
     inj_on fst (pool (wd_engine w))"

lemma table_exact_all: "table_exact_on (\<lambda>_. True) pool w = table_exact pool w"
  by (simp add: table_exact_on_def table_exact_def tracked_all)

lemma table_exact_above_zero: "table_exact pool w \<Longrightarrow> table_exact_on (\<lambda>i. 0 < i) (above_zero pool) w"
  by (auto simp: table_exact_def table_exact_on_def tracked_def tracked_on_def inj_on_def)

lemma source_prior_commit:
  "source_prior f (commit_source file m t) = (if f = file then m else source_prior f t)"
  "bt_function (commit_source file m t) = bt_function t"
  "source_prior f (commit_function n t) = source_prior f t"
  "bt_function (commit_function n t) = n"
  by (auto simp: source_prior_def commit_source_def commit_function_def delete_conv' update_conv')

lemma tracked_apart:
  assumes "tracked_on counted loc m P" "{p \<in> Q. snd p \<notin> A} = {p \<in> P. snd p \<notin> A}" "range loc \<inter> A = {}"
  shows "tracked_on counted loc m Q"
proof -
  have "(i, loc key) \<in> Q \<longleftrightarrow> (i, loc key) \<in> P" for i key
  proof -
    have "loc key \<notin> A" using assms(3) by blast
    then have m: "(i, loc key) \<in> X \<longleftrightarrow> (i, loc key) \<in> {p \<in> X. snd p \<notin> A}" for X by simp
    show ?thesis by (subst (1 2) m) (simp only: assms(2))
  qed
  then show ?thesis using assms(1) by (simp add: tracked_on_def)
qed

lemma located_slots [simp]:
  "located (Loc_FileLine file) (map (source_slot file) bps)" "located Loc_Function (map function_slot fbs)"
  by (auto simp: located_def split: option.splits)

lemma inj_locs [simp]: "inj (Loc_FileLine file)" "inj Loc_Function"
  by (auto simp: inj_def)

section \<open>A category of breakpoints\<close>

text \<open>
  What the table, the slots and the commit of a category promise to the reconciliation: distinct
  locations, a commit that is read back, and an exact table once the category is tracked and the rest
  of the pool is as it was.  The lines of a file and the functions are two categories.
\<close>

locale bp_category =
  fixes counted :: "i64 \<Rightarrow> bool"
    and pool :: "'e pool_view"
    and loc :: "'k \<Rightarrow> bp_loc"
    and entries :: "bp_table \<Rightarrow> ('k \<times> breakpoint_result) list"
    and commit :: "('k \<times> breakpoint_result) list \<Rightarrow> bp_table \<Rightarrow> bp_table"
    and slot :: "'r \<Rightarrow> 'k slot"
  assumes inj_loc: "inj loc"
    and slot_located: "located loc (map slot rs)"
    and entries_commit: "entries (commit m t) = m"
    and exact_tracked: "table_exact_on counted pool w \<Longrightarrow>
      tracked_on counted loc (entries (wd_table w)) (pool (wd_engine w)) \<and> distinct (map fst (entries (wd_table w)))"
    and commit_exact: "table_exact_on counted pool w \<Longrightarrow> wd_table w' = commit m (wd_table w) \<Longrightarrow>
      tracked_on counted loc m (pool (wd_engine w')) \<Longrightarrow> distinct (map fst m) \<Longrightarrow> inj_on fst (pool (wd_engine w')) \<Longrightarrow>
      {p \<in> pool (wd_engine w'). snd p \<notin> range loc} = {p \<in> pool (wd_engine w). snd p \<notin> range loc} \<Longrightarrow>
      table_exact_on counted pool w'"
begin

lemma replace_all:
  assumes ops: "pool_engine_on counted ops pool" and exact: "table_exact_on counted pool w"
    and pos: "\<forall>(key, r) \<in> set (entries (wd_table w)). 0 < br_id r \<longleftrightarrow> counted (br_id r)"
    and dist: "distinct (slot_keys (map slot rs))"
    and run: "reconcile ops (entries (wd_table w)) (map slot rs) commit w = (Inr results, w')"
  shows "table_exact_on counted pool w'" "wd_table w' = commit (entries (wd_table w')) (wd_table w)"
    "list_all2 (answers (entries (wd_table w'))) (map slot rs) results"
    "set (map fst (entries (wd_table w'))) \<subseteq> set (slot_keys (map slot rs))"
    "\<forall>key \<in> set (slot_keys (map slot rs)). map_of (entries (wd_table w)) key \<noteq> None \<longrightarrow>
       map_of (entries (wd_table w')) key = map_of (entries (wd_table w)) key"
proof -
  note prior = exact_tracked [OF exact]
  have inj: "inj_on fst (pool (wd_engine w))" using exact by (simp add: table_exact_on_def)
  obtain m where m: "wd_table w' = commit m (wd_table w)" "tracked_on counted loc m (pool (wd_engine w'))"
      "\<forall>key. key \<notin> set (slot_keys (map slot rs)) \<longrightarrow> map_of m key = None"
      "\<forall>key \<in> set (slot_keys (map slot rs)). map_of (entries (wd_table w)) key \<noteq> None \<longrightarrow>
         map_of m key = map_of (entries (wd_table w)) key"
      "{p \<in> pool (wd_engine w'). snd p \<notin> range loc} = {p \<in> pool (wd_engine w). snd p \<notin> range loc}"
      "inj_on fst (pool (wd_engine w'))" "list_all2 (answers m) (map slot rs) results" "distinct (map fst m)"
    using reconcile_exact [OF ops inj_loc run slot_located dist inj] prior pos by blast
  have e: "entries (wd_table w') = m" by (simp add: m(1) entries_commit)
  show "table_exact_on counted pool w'" by (rule commit_exact [OF exact m(1,2,8,6,5)])
  show "set (map fst (entries (wd_table w'))) \<subseteq> set (slot_keys (map slot rs))"
    unfolding e using m(3) by (force simp: map_of_eq_None_iff)
  show "wd_table w' = commit (entries (wd_table w')) (wd_table w)"
    "list_all2 (answers (entries (wd_table w'))) (map slot rs) results"
    "\<forall>key \<in> set (slot_keys (map slot rs)). map_of (entries (wd_table w)) key \<noteq> None \<longrightarrow>
       map_of (entries (wd_table w')) key = map_of (entries (wd_table w)) key"
    unfolding e by (rule m)+
qed

end

interpretation source_lines: bp_category counted pool "Loc_FileLine f" "source_prior f" "commit_source f" "source_slot f" for counted pool f
proof
  fix w w' :: "'a windbg" and m
  show "table_exact_on counted pool w \<Longrightarrow> tracked_on counted (Loc_FileLine f) (source_prior f (wd_table w)) (pool (wd_engine w)) \<and>
      distinct (map fst (source_prior f (wd_table w)))"
    by (simp add: table_exact_on_def)
  assume a: "table_exact_on counted pool w" "wd_table w' = commit_source f m (wd_table w)"
    "tracked_on counted (Loc_FileLine f) m (pool (wd_engine w'))" "distinct (map fst m)" "inj_on fst (pool (wd_engine w'))"
    "{p \<in> pool (wd_engine w'). snd p \<notin> range (Loc_FileLine f)} = {p \<in> pool (wd_engine w). snd p \<notin> range (Loc_FileLine f)}"
  note exact = a(1) [unfolded table_exact_on_def]
  have "tracked_on counted (Loc_FileLine g) (source_prior g (wd_table w)) (pool (wd_engine w'))" if "g \<noteq> f" for g
    using tracked_apart [OF _ a(6)] exact that by blast
  moreover have "tracked_on counted Loc_Function (bt_function (wd_table w)) (pool (wd_engine w'))"
    using tracked_apart [OF _ a(6)] exact by blast
  ultimately show "table_exact_on counted pool w'"
    using exact a(3-5) by (auto simp: table_exact_on_def a(2) source_prior_commit)
qed (simp_all add: source_prior_commit)

interpretation function_names: bp_category counted pool Loc_Function bt_function commit_function function_slot for counted pool
proof
  fix w w' :: "'a windbg" and m
  show "table_exact_on counted pool w \<Longrightarrow> tracked_on counted Loc_Function (bt_function (wd_table w)) (pool (wd_engine w)) \<and>
      distinct (map fst (bt_function (wd_table w)))"
    by (simp add: table_exact_on_def)
  assume a: "table_exact_on counted pool w" "wd_table w' = commit_function m (wd_table w)"
    "tracked_on counted Loc_Function m (pool (wd_engine w'))" "distinct (map fst m)" "inj_on fst (pool (wd_engine w'))"
    "{p \<in> pool (wd_engine w'). snd p \<notin> range Loc_Function} = {p \<in> pool (wd_engine w). snd p \<notin> range Loc_Function}"
  note exact = a(1) [unfolded table_exact_on_def]
  have "tracked_on counted (Loc_FileLine g) (source_prior g (wd_table w)) (pool (wd_engine w'))" for g
    using tracked_apart [OF _ a(6)] exact by blast
  then show "table_exact_on counted pool w'"
    using exact a(3-5) by (auto simp: table_exact_on_def a(2) source_prior_commit)
qed (simp_all add: source_prior_commit)

section \<open>The flush at launch\<close>

abbreviation grown :: "(i64 \<Rightarrow> bool) \<Rightarrow> breakpoint_result \<Rightarrow> bp_loc \<Rightarrow> (i64 \<times> bp_loc) set \<Rightarrow> (i64 \<times> bp_loc) set" where
  "grown counted r l P \<equiv> if counted (br_id r) then insert (br_id r, l) P else P"

lemma tracked_insert:
  assumes "tracked_on counted loc m P" "inj loc" "map_of m key = None"
  shows "tracked_on counted loc (AList.update key r m) (grown counted r (loc key) P)"
  unfolding tracked_on_def
proof (intro allI)
  fix i k
  have "(i, loc k) \<in> P \<longleftrightarrow> counted i \<and> (\<exists>q. map_of m k = Some q \<and> br_id q = i)"
    using assms(1) unfolding tracked_on_def by blast
  then show "(i, loc k) \<in> grown counted r (loc key) P \<longleftrightarrow> counted i \<and>
      (\<exists>q. map_of (AList.update key r m) k = Some q \<and> br_id q = i)"
    using assms(2,3) by (cases "k = key") (auto simp: update_conv' inj_eq)
qed

lemma tracked_insert_apart: "tracked_on counted loc m P \<Longrightarrow> l \<notin> range loc \<Longrightarrow> tracked_on counted loc m (grown counted r l P)"
  unfolding tracked_on_def by (auto split: if_splits)

lemma inj_insert: "inj_on fst P \<Longrightarrow> (counted (br_id r) \<Longrightarrow> br_id r \<notin> fst ` P) \<Longrightarrow> inj_on fst (grown counted r l P)"
  by (force simp: inj_on_insert)

lemma table_exact_same:
  "table_exact_on counted pool w \<Longrightarrow> wd_table w' = wd_table w \<Longrightarrow> pool (wd_engine w') = pool (wd_engine w) \<Longrightarrow>
   table_exact_on counted pool w'"
  by (simp add: table_exact_on_def)

lemma table_exact_source:
  assumes "table_exact_on counted pool w" "map_of (source_prior file (wd_table w)) line = None"
    "counted (br_id r) \<Longrightarrow> br_id r \<notin> fst ` pool (wd_engine w)"
    and "pool (wd_engine w') = grown counted r (Loc_FileLine file line) (pool (wd_engine w))"
    and "wd_table w' = (wd_table w)\<lparr>bt_source := AList.update file
           (AList.update line r (source_prior file (wd_table w))) (bt_source (wd_table w))\<rparr>"
  shows "table_exact_on counted pool w'"
proof -
  note exact = assms(1) [unfolded table_exact_on_def]
  have prior: "source_prior f (wd_table w') =
      (if f = file then AList.update line r (source_prior file (wd_table w)) else source_prior f (wd_table w))" for f
    by (simp add: assms(5) source_prior_def update_conv')
  have "tracked_on counted (Loc_FileLine f) (source_prior f (wd_table w')) (pool (wd_engine w'))" for f
  proof (cases "f = file")
    case True
    then show ?thesis
      using tracked_insert [where counted = counted and r = r, OF _ inj_locs(1) assms(2)] exact unfolding prior assms(4) by simp
  next
    case False
    then have "Loc_FileLine file line \<notin> range (Loc_FileLine f)" by auto
    moreover have "source_prior f (wd_table w') = source_prior f (wd_table w)" using False by (simp add: prior)
    ultimately show ?thesis
      unfolding assms(4) by (simp only:) (rule tracked_insert_apart, use exact in auto)
  qed
  moreover have "tracked_on counted Loc_Function (bt_function (wd_table w)) (pool (wd_engine w'))"
    unfolding assms(4) by (rule tracked_insert_apart) (use exact in auto)
  moreover have "inj_on fst (pool (wd_engine w'))"
    unfolding assms(4) by (rule inj_insert) (use exact assms(3) in auto)
  ultimately show ?thesis
    using exact by (auto simp: table_exact_on_def prior distinct_update) (simp_all add: assms(5) distinct_update)
qed

lemma table_exact_function:
  assumes "table_exact_on counted pool w" "map_of (bt_function (wd_table w)) name = None"
    "counted (br_id r) \<Longrightarrow> br_id r \<notin> fst ` pool (wd_engine w)"
    and "pool (wd_engine w') = grown counted r (Loc_Function name) (pool (wd_engine w))"
    and "wd_table w' = (wd_table w)\<lparr>bt_function := AList.update name r (bt_function (wd_table w))\<rparr>"
  shows "table_exact_on counted pool w'"
proof -
  note exact = assms(1) [unfolded table_exact_on_def]
  have prior: "source_prior f (wd_table w') = source_prior f (wd_table w)" for f
    by (simp add: assms(5) source_prior_def)
  have "tracked_on counted (Loc_FileLine f) (source_prior f (wd_table w)) (pool (wd_engine w'))" for f
    unfolding assms(4) by (rule tracked_insert_apart) (use exact in auto)
  moreover have "tracked_on counted Loc_Function (bt_function (wd_table w')) (pool (wd_engine w'))"
    using tracked_insert [where counted = counted and r = r, OF _ inj_locs(2) assms(2)] exact unfolding assms(4,5) by simp
  moreover have "inj_on fst (pool (wd_engine w'))"
    unfolding assms(4) by (rule inj_insert) (use exact assms(3) in auto)
  ultimately show ?thesis
    using exact by (auto simp: table_exact_on_def prior distinct_update) (simp_all add: assms(5) distinct_update)
qed

lemma flush_source_exact:
  assumes "pool_engine_on counted ops pool"
  shows "table_exact_on counted pool w \<Longrightarrow> distinct (map sb_line bps) \<Longrightarrow>
    \<forall>bp \<in> set bps. \<forall>n. as_u32 (sb_line bp) = Some n \<longrightarrow> map_of (source_prior file (wd_table w)) n = None \<Longrightarrow>
    table_exact_on counted pool (flush_source ops file bps w) \<and>
    bt_function (wd_table (flush_source ops file bps w)) = bt_function (wd_table w) \<and>
    (\<forall>f. f \<noteq> file \<longrightarrow> source_prior f (wd_table (flush_source ops file bps w)) = source_prior f (wd_table w))"
proof (induction bps arbitrary: w)
  case (Cons bp bps)
  show ?case
  proof (cases "as_u32 (sb_line bp)")
    case None
    then show ?thesis using Cons by simp
  next
    case (Some n)
    obtain q w1 where q: "engine_call (eo_set_breakpoint ops (Loc_FileLine file n) (sb_condition bp)) w = (q, w1)"
      by (rule prod.exhaust)
    note law = engine_call_set [OF assms q] and keeps = engine_call_keeps [OF q]
    show ?thesis
    proof (cases q)
      case (Inl e)
      have "table_exact_on counted pool w1" using table_exact_same [OF Cons.prems(1)] law keeps Inl by simp
      then show ?thesis using Cons.IH [of w1] Cons.prems Some q Inl keeps by simp
    next
      case (Inr r)
      let ?w = "w1\<lparr>wd_table := (wd_table w1)\<lparr>bt_source := AList.update file
                  (AList.update n r (source_prior file (wd_table w1))) (bt_source (wd_table w1))\<rparr>\<rparr>"
      have "table_exact_on counted pool ?w"
        using table_exact_source [OF Cons.prems(1), of "file" n r ?w] Cons.prems(3) law keeps Inr Some by simp
      moreover have "m \<noteq> n" if "bp' \<in> set bps" "as_u32 (sb_line bp') = Some m" for bp' m
      proof
        assume "m = n"
        then have "sb_line bp' = sb_line bp"
          using that(2) Some by (auto simp: as_u32_def split: if_splits)
        then show False using Cons.prems(2) that(1) by (metis distinct.simps(2) image_eqI list.map(2) set_map)
      qed
      then have "\<forall>bp \<in> set bps. \<forall>m. as_u32 (sb_line bp) = Some m \<longrightarrow> map_of (source_prior file (wd_table ?w)) m = None"
        using Cons.prems(3) keeps by (auto simp: source_prior_def update_conv')
      ultimately show ?thesis
        using Cons.IH [of ?w] Cons.prems Some q Inr law keeps by (simp add: source_prior_def update_conv')
    qed
  qed
qed simp

lemma flush_functions_exact:
  assumes "pool_engine_on counted ops pool"
  shows "table_exact_on counted pool w \<Longrightarrow> distinct (map fb_name bps) \<Longrightarrow>
    \<forall>bp \<in> set bps. map_of (bt_function (wd_table w)) (fb_name bp) = None \<Longrightarrow>
    table_exact_on counted pool (flush_functions ops bps w)"
proof (induction bps arbitrary: w)
  case (Cons bp bps)
  show ?case
  proof (cases "is_bare_address_name (fb_name bp)")
    case True
    then show ?thesis using Cons by simp
  next
    case False
    obtain q w1 where q: "engine_call (eo_set_breakpoint ops (Loc_Function (fb_name bp)) (fb_condition bp)) w = (q, w1)"
      by (rule prod.exhaust)
    note law = engine_call_set [OF assms q] and keeps = engine_call_keeps [OF q]
    show ?thesis
    proof (cases q)
      case (Inl e)
      have "table_exact_on counted pool w1" using table_exact_same [OF Cons.prems(1)] law keeps Inl by simp
      then show ?thesis using Cons.IH [of w1] Cons.prems False q Inl keeps by simp
    next
      case (Inr r)
      let ?w = "w1\<lparr>wd_table := (wd_table w1)\<lparr>bt_function := AList.update (fb_name bp) r (bt_function (wd_table w1))\<rparr>\<rparr>"
      have "table_exact_on counted pool ?w"
        using table_exact_function [OF Cons.prems(1), where name = "fb_name bp" and r = r and w' = ?w] Cons.prems(3) law keeps Inr by simp
      moreover have "fb_name b \<noteq> fb_name bp" if "b \<in> set bps" for b
        using Cons.prems(2) that by (metis distinct.simps(2) image_eqI list.map(2) set_map)
      then have "\<forall>b \<in> set bps. map_of (bt_function (wd_table ?w)) (fb_name b) = None"
        using Cons.prems(3) keeps by (simp add: update_conv')
      ultimately show ?thesis
        using Cons.IH [of ?w] Cons.prems(2) False q Inr law by simp
    qed
  qed
qed simp

lemma flush_files_exact:
  assumes "pool_engine_on counted ops pool"
  shows "table_exact_on counted pool w \<Longrightarrow> distinct (map fst files) \<Longrightarrow> \<forall>(file, bps) \<in> set files. distinct (map sb_line bps) \<Longrightarrow>
    \<forall>(file, bps) \<in> set files. source_prior file (wd_table w) = [] \<Longrightarrow>
    table_exact_on counted pool (fold (\<lambda>(file, bps). flush_source ops file bps) files w) \<and>
    bt_function (wd_table (fold (\<lambda>(file, bps). flush_source ops file bps) files w)) = bt_function (wd_table w)"
proof (induction files arbitrary: w)
  case (Cons e files)
  obtain f bps where e: "e = (f, bps)" by (rule prod.exhaust)
  let ?w = "flush_source ops f bps w"
  have step: "table_exact_on counted pool ?w" "bt_function (wd_table ?w) = bt_function (wd_table w)"
      "\<And>g. g \<noteq> f \<Longrightarrow> source_prior g (wd_table ?w) = source_prior g (wd_table w)"
    using flush_source_exact [OF assms Cons.prems(1), of bps f] Cons.prems e by auto
  have "\<forall>(g, bps) \<in> set files. source_prior g (wd_table ?w) = []"
    using step(3) Cons.prems(2,4) e by (force simp: image_iff)
  then show ?case using Cons.IH [OF step(1)] Cons.prems(2,3) e step(2) by simp
qed simp

section \<open>Addresses\<close>

text \<open>Addresses read back: the hexadecimal rendering of an address, with either prefix, and its
  decimal rendering parse to it, with white space around or without, for every 64-bit address.\<close>

lemma parse_address_render:
  assumes "n \<le> u64_max"
  shows "parse_address (''0x'' @ show_hex n) = Inr n \<and> parse_address (''0X'' @ show_hex n) = Inr n \<and>
         parse_address (show_nat n) = Inr n \<and> parse_address (CHR 0x20 # show_nat n) = Inr n"
proof -
  let ?h = "show_hex n" and ?d = "show_nat n"
  have h: "parse_uint 16 u64_max ?h = Inr n" and d: "parse_uint 10 u64_max ?d = Inr n"
    using parse_uint_radix [of 16 n u64_max] parse_uint_radix [of 10 n u64_max] assms
    by (simp_all add: show_hex_def show_nat_def)
  have g: "graphic ?h" "graphic ?d"
    using graphic_radix [of 16 n] graphic_radix [of 10 n] by (simp_all add: show_hex_def show_nat_def)
  have hex: "trim (''0x'' @ ?h) = ''0x'' @ ?h" "trim (''0X'' @ ?h) = ''0X'' @ ?h"
    by (intro trim_graphic(1), simp add: graphic_Cons g)+
  have "strip_prefix ''0x'' (''0X'' @ ?h) = None" by (simp add: strip_prefix_def starts_with_def)
  moreover have "strip_prefix [CHR ''0'', x] ?d = None" if "x \<notin> set ''0123456789''" for x
    using digits_show_nat [of n] strip_prefix_SomeD [of "[CHR ''0'', x]" ?d] that
    by (cases "strip_prefix [CHR ''0'', x] ?d") (auto simp: digits_def)
  then have "strip_prefix ''0x'' ?d = None" "strip_prefix ''0X'' ?d = None" by simp_all
  moreover note strip_prefix_append [of "''0x''" ?h] strip_prefix_append [of "''0X''" ?h]
  ultimately show ?thesis
    unfolding parse_address_def Let_def hex trim_graphic(1,2) [OF g(2)] by (simp only: h d option.case sum.case)
qed

end
