(* ===== verification/Dbgeng_Callbacks.thy ===== *)
theory Dbgeng_Callbacks
  imports Core_Types Text
begin

text \<open>
  The callbacks DbgEng calls on its own threads, \<open>dbgeng-sys/src/callbacks.rs\<close>, and the state they
  share with the engine.  The state is behind one mutex and every callback is one critical section.
  The constants are those of \<open>dbgeng.h\<close>.
\<close>

section \<open>Constants of dbgeng.h\<close>

abbreviation DEBUG_OUTPUT_NORMAL :: "32 word" where "DEBUG_OUTPUT_NORMAL \<equiv> 0x1"
abbreviation DEBUG_OUTPUT_ERROR :: "32 word" where "DEBUG_OUTPUT_ERROR \<equiv> 0x2"
abbreviation DEBUG_OUTPUT_WARNING :: "32 word" where "DEBUG_OUTPUT_WARNING \<equiv> 0x4"
abbreviation DEBUG_OUTPUT_PROMPT :: "32 word" where "DEBUG_OUTPUT_PROMPT \<equiv> 0x10"

abbreviation DEBUG_STATUS_NO_CHANGE :: "32 word" where "DEBUG_STATUS_NO_CHANGE \<equiv> 0"
abbreviation DEBUG_STATUS_GO :: "32 word" where "DEBUG_STATUS_GO \<equiv> 1"
abbreviation DEBUG_STATUS_GO_HANDLED :: "32 word" where "DEBUG_STATUS_GO_HANDLED \<equiv> 2"
abbreviation DEBUG_STATUS_GO_NOT_HANDLED :: "32 word" where "DEBUG_STATUS_GO_NOT_HANDLED \<equiv> 3"
abbreviation DEBUG_STATUS_STEP_OVER :: "32 word" where "DEBUG_STATUS_STEP_OVER \<equiv> 4"
abbreviation DEBUG_STATUS_STEP_INTO :: "32 word" where "DEBUG_STATUS_STEP_INTO \<equiv> 5"
abbreviation DEBUG_STATUS_BREAK :: "32 word" where "DEBUG_STATUS_BREAK \<equiv> 6"
abbreviation DEBUG_STATUS_NO_DEBUGGEE :: "32 word" where "DEBUG_STATUS_NO_DEBUGGEE \<equiv> 7"
abbreviation DEBUG_STATUS_STEP_BRANCH :: "32 word" where "DEBUG_STATUS_STEP_BRANCH \<equiv> 8"

section \<open>Output kinds\<close>

datatype output_kind = Out_Normal | Out_Error | Out_Warning | Out_Prompt | Out_Other "32 word"

unbundle bit_operations_syntax

definition from_mask :: "32 word \<Rightarrow> output_kind" where
  "from_mask msk =
     (if msk AND DEBUG_OUTPUT_ERROR \<noteq> 0 then Out_Error
      else if msk AND DEBUG_OUTPUT_WARNING \<noteq> 0 then Out_Warning
      else if msk AND DEBUG_OUTPUT_PROMPT \<noteq> 0 then Out_Prompt
      else if msk AND DEBUG_OUTPUT_NORMAL \<noteq> 0 then Out_Normal
      else Out_Other msk)"


section \<open>The shared state\<close>

text \<open>
  The sink is the list of what it was called with, when one is installed.  The option fields are what
  the most recent event of its kind left.
\<close>

record callback_state =
  cs_output :: string
  cs_sink :: "(output_kind \<times> string) list option"
  cs_last_breakpoint_id :: "32 word option"
  cs_last_breakpoint_offset :: "64 word option"
  cs_last_exception_code :: "32 word option"
  cs_last_exception_address :: "64 word option"
  cs_last_exit_code :: "32 word option"
  cs_last_stop_reason :: string

definition callback_state_new :: callback_state where
  "callback_state_new =
     \<lparr>cs_output = [], cs_sink = None, cs_last_breakpoint_id = None, cs_last_breakpoint_offset = None,
      cs_last_exception_code = None, cs_last_exception_address = None, cs_last_exit_code = None,
      cs_last_stop_reason = []\<rparr>"

definition set_sink :: "callback_state \<Rightarrow> callback_state" where
  "set_sink st = st\<lparr>cs_sink := Some []\<rparr>"

definition state_take_output :: "callback_state \<Rightarrow> string \<times> callback_state" where
  "state_take_output st = (cs_output st, st\<lparr>cs_output := []\<rparr>)"

definition record_output :: "output_kind \<Rightarrow> string \<Rightarrow> callback_state \<Rightarrow> callback_state" where
  "record_output kind txt st =
     st\<lparr>cs_output := cs_output st @ txt, cs_sink := map_option (\<lambda>sent. sent @ [(kind, txt)]) (cs_sink st)\<rparr>"

section \<open>The callbacks\<close>

text \<open>\<open>{:X}\<close> and \<open>{:0wX}\<close>: hexadecimal in capitals.\<close>

definition digit_char_upper :: "nat \<Rightarrow> char" where
  "digit_char_upper d = (if d < 10 then char_of (48 + d) else char_of (55 + d))"

definition show_HEX :: "nat \<Rightarrow> string" where
  "show_HEX n = map digit_char_upper (radix_digits 16 n)"

definition show_HEX_pad :: "nat \<Rightarrow> nat \<Rightarrow> string" where
  "show_HEX_pad w n = pad_left w (CHR ''0'') (show_HEX n)"

definition STATUS_BREAKPOINT :: "32 word" where
  "STATUS_BREAKPOINT = 0x80000003"

definition exception_breaks :: "bool \<Rightarrow> 32 word \<Rightarrow> bool" where
  "exception_breaks first_chance code \<longleftrightarrow> \<not> first_chance \<or> code = STATUS_BREAKPOINT"

text \<open>A C string ends at its first NUL; DbgEng's texts are not always UTF-8.\<close>

definition until_nul :: "string \<Rightarrow> string" where
  "until_nul buf = takeWhile (\<lambda>c. c \<noteq> CHR 0x00) buf"

definition pcstr_to_string :: "string option \<Rightarrow> string" where
  "pcstr_to_string t = (case t of None \<Rightarrow> [] | Some bytes \<Rightarrow> utf8_lossy (until_nul bytes))"

definition output_callback :: "32 word \<Rightarrow> string option \<Rightarrow> callback_state \<Rightarrow> callback_state" where
  "output_callback msk t st =
     (let s = pcstr_to_string t in if s \<noteq> [] then record_output (from_mask msk) s st else st)"

text \<open>
  The event callbacks answer with a status: what the engine is to do.  A breakpoint is a null pointer,
  or an object whose two accessors may fail.
\<close>

definition breakpoint_callback ::
  "(32 word option \<times> 64 word option) option \<Rightarrow> callback_state \<Rightarrow> 32 word \<times> callback_state" where
  "breakpoint_callback bp st =
     (let (i, offset) = (case bp of Some (i, offset) \<Rightarrow>
                           ((case i of Some i \<Rightarrow> i | None \<Rightarrow> 0), (case offset of Some a \<Rightarrow> a | None \<Rightarrow> 0))
                         | None \<Rightarrow> (0, 0))
      in (DEBUG_STATUS_BREAK,
          st\<lparr>cs_last_breakpoint_id := Some i, cs_last_breakpoint_offset := Some offset,
             cs_last_stop_reason := ''Breakpoint '' @ show_nat (unat i) @ '' hit at 0x'' @ show_HEX (unat offset)\<rparr>))"

definition exception_callback ::
  "(32 word \<times> 64 word) option \<Rightarrow> 32 word \<Rightarrow> callback_state \<Rightarrow> 32 word \<times> callback_state" where
  "exception_callback exception firstchance st =
     (let (code, address) = (case exception of Some (c, a) \<Rightarrow> (c, a) | None \<Rightarrow> (0, 0));
          first = firstchance \<noteq> 0;
          reason = (if first then ''First-chance'' else ''Second-chance'') @ '' exception 0x'' @
                   show_HEX_pad 8 (unat code) @ '' at 0x'' @ show_HEX (unat address)
      in (if exception_breaks first code then DEBUG_STATUS_BREAK else DEBUG_STATUS_NO_CHANGE,
          st\<lparr>cs_last_exception_code := Some code, cs_last_exception_address := Some address,
             cs_last_stop_reason := reason\<rparr>))"

definition exit_process_callback :: "32 word \<Rightarrow> callback_state \<Rightarrow> 32 word \<times> callback_state" where
  "exit_process_callback exitcode st =
     (DEBUG_STATUS_BREAK,
      st\<lparr>cs_last_exit_code := Some exitcode,
         cs_last_stop_reason := ''Process exited with code '' @ show_nat (unat exitcode)\<rparr>)"

text \<open>
  What may happen on other threads while the engine's thread is in a call of DbgEng: callbacks, and a
  request to interrupt.  The other callbacks change no state: those that answer a status pass the event
  through, the three on changed state and the session status answer nothing.
\<close>

datatype happening =
    On_Output "32 word" "string option"
  | On_Breakpoint "(32 word option \<times> 64 word option) option"
  | On_Exception "(32 word \<times> 64 word) option" "32 word"
  | On_Exit_Process "32 word"
  | On_Passed_Through
  | On_State_Change
  | On_Interrupt

fun callback :: "happening \<Rightarrow> callback_state \<Rightarrow> 32 word option \<times> callback_state" where
  "callback (On_Output msk t) st = (None, output_callback msk t st)"
| "callback (On_Breakpoint bp) st = map_prod Some id (breakpoint_callback bp st)"
| "callback (On_Exception exception firstchance) st = map_prod Some id (exception_callback exception firstchance st)"
| "callback (On_Exit_Process exitcode) st = map_prod Some id (exit_process_callback exitcode st)"
| "callback On_Passed_Through st = (Some DEBUG_STATUS_NO_CHANGE, st)"
| "callback On_State_Change st = (None, st)"
| "callback On_Interrupt st = (None, st)"

definition absorb :: "happening list \<Rightarrow> callback_state \<Rightarrow> callback_state" where
  "absorb hs st = fold (\<lambda>h st. snd (callback h st)) hs st"

lemma absorb_simps [simp]:
  "absorb [] st = st" "absorb (h # hs) st = absorb hs (snd (callback h st))"
  by (simp_all add: absorb_def)

lemma absorb_append: "absorb (hs @ hs') st = absorb hs' (absorb hs st)"
  by (simp add: absorb_def)

section \<open>The COM interface\<close>

text \<open>The events the engine is asked to report.\<close>

abbreviation DEBUG_EVENT_BREAKPOINT :: "32 word" where "DEBUG_EVENT_BREAKPOINT \<equiv> 0x1"
abbreviation DEBUG_EVENT_EXCEPTION :: "32 word" where "DEBUG_EVENT_EXCEPTION \<equiv> 0x2"
abbreviation DEBUG_EVENT_CREATE_PROCESS :: "32 word" where "DEBUG_EVENT_CREATE_PROCESS \<equiv> 0x10"
abbreviation DEBUG_EVENT_EXIT_PROCESS :: "32 word" where "DEBUG_EVENT_EXIT_PROCESS \<equiv> 0x20"
abbreviation DEBUG_EVENT_LOAD_MODULE :: "32 word" where "DEBUG_EVENT_LOAD_MODULE \<equiv> 0x40"
abbreviation DEBUG_EVENT_SESSION_STATUS :: "32 word" where "DEBUG_EVENT_SESSION_STATUS \<equiv> 0x200"

definition interest_mask :: "32 word" where
  "interest_mask =
     DEBUG_EVENT_BREAKPOINT OR DEBUG_EVENT_EXCEPTION OR DEBUG_EVENT_CREATE_PROCESS OR DEBUG_EVENT_EXIT_PROCESS OR
     DEBUG_EVENT_LOAD_MODULE OR DEBUG_EVENT_SESSION_STATUS"

text \<open>
  A method returns a status as the code of an error, unless it is 0; \<open>from_hresult\<close> would replace the code 0
  by a sentinel of the library.  \<open>hresult\<close> is what the library hands to the caller of the method.
\<close>

definition status_result :: "32 word \<Rightarrow> 32 word + unit" where
  "status_result value = (if value = 0 then Inr () else Inl value)"

definition hresult :: "32 word + unit \<Rightarrow> 32 word" where
  "hresult r = (case r of Inl code \<Rightarrow> code | Inr _ \<Rightarrow> 0)"

lemma hresult_status [simp]: "hresult (status_result value) = value"
  by (simp add: hresult_def status_result_def)

text \<open>Every disposition that a callback decides on reaches the engine as it is, and is one of two.\<close>

lemma callback_disposition:
  assumes "callback h st = (Some value, st')"
  shows "hresult (status_result value) = value" and "value = DEBUG_STATUS_BREAK \<or> value = DEBUG_STATUS_NO_CHANGE"
  using assms by (cases h; auto simp: breakpoint_callback_def exception_callback_def exit_process_callback_def Let_def
      split: prod.splits if_splits)+

text \<open>What stops the target is asked for; threads, unloaded modules, system errors and changes of state are not.\<close>

lemma interest_mask_bits:
  "interest_mask AND DEBUG_EVENT_BREAKPOINT \<noteq> 0" "interest_mask AND DEBUG_EVENT_EXCEPTION \<noteq> 0"
  "interest_mask AND DEBUG_EVENT_EXIT_PROCESS \<noteq> 0" "interest_mask AND 0x0C = 0" "interest_mask AND 0x1D80 = 0"
  by (simp_all add: interest_mask_def)

section \<open>What is captured\<close>

text \<open>The lines a list of happenings puts out, and what they leave in the buffer and in the sink.\<close>

fun output_line :: "happening \<Rightarrow> (output_kind \<times> string) list" where
  "output_line (On_Output msk t) =
     (if pcstr_to_string t = [] then [] else [(from_mask msk, pcstr_to_string t)])"
| "output_line _ = []"

lemma callback_output:
  "cs_output (snd (callback h st)) = cs_output st @ concat (map snd (output_line h))"
  "cs_sink (snd (callback h st)) = map_option (\<lambda>sent. sent @ output_line h) (cs_sink st)"
  by (cases h; simp add: output_callback_def record_output_def Let_def breakpoint_callback_def
      exception_callback_def exit_process_callback_def option.map_ident split: prod.split)+

lemma absorb_output:
  "cs_output (absorb hs st) = cs_output st @ concat (map snd (concat (map output_line hs)))"
  "cs_sink (absorb hs st) = map_option (\<lambda>sent. sent @ concat (map output_line hs)) (cs_sink st)"
  by (induction hs arbitrary: st) (simp_all add: callback_output option.map_comp comp_def option.map_ident)

lemma callback_without_exit:
  "\<forall>c. On_Exit_Process c \<noteq> h \<Longrightarrow> cs_last_exit_code (snd (callback h st)) = cs_last_exit_code st"
  by (cases h) (simp_all add: output_callback_def record_output_def Let_def breakpoint_callback_def
      exception_callback_def split: prod.split)

lemma absorb_without_exit:
  "\<forall>c. On_Exit_Process c \<notin> set hs \<Longrightarrow> cs_last_exit_code (absorb hs st) = cs_last_exit_code st"
  by (induction hs arbitrary: st) (auto simp: callback_without_exit)

lemma callback_exit_persists:
  "cs_last_exit_code st \<noteq> None \<Longrightarrow> cs_last_exit_code (snd (callback h st)) \<noteq> None"
  by (cases "\<exists>c. On_Exit_Process c = h") (auto simp: exit_process_callback_def callback_without_exit)

lemma absorb_exit_persists: "cs_last_exit_code st \<noteq> None \<Longrightarrow> cs_last_exit_code (absorb hs st) \<noteq> None"
proof (induction hs arbitrary: st)
  case (Cons h hs)
  show ?case using Cons.IH [OF callback_exit_persists [OF Cons.prems]] by simp
qed simp

lemma callback_breakpoint_persists:
  "\<forall>b. On_Breakpoint b \<noteq> h \<Longrightarrow> cs_last_breakpoint_id (snd (callback h st)) = cs_last_breakpoint_id st"
  by (cases h) (simp_all add: output_callback_def record_output_def Let_def exit_process_callback_def
      exception_callback_def split: prod.split)

lemma absorb_breakpoint_persists:
  "\<forall>b. On_Breakpoint b \<notin> set hs \<Longrightarrow> cs_last_breakpoint_id (absorb hs st) = cs_last_breakpoint_id st"
  by (induction hs arbitrary: st) (auto simp: callback_breakpoint_persists)

end
