(* ===== verification/Windbg_Factory.thy ===== *)
theory Windbg_Factory
  imports Windbg_Backend Dbgeng_Callbacks
begin

text \<open>
  \<open>windbg-backend/src/factory.rs\<close>: connecting, and the stream of events made of the engine's output
  and the two signals that end it.

  The stream is a state that is polled: a poll finds it not ready, ended, or with an event.  Between
  polls the engine may send output, fire or drop its terminated signal, and the backend may be dropped.
\<close>

section \<open>Connecting\<close>

text \<open>
  \<open>None\<close>: the engine thread has not signalled yet.  \<open>sink_sent\<close> tells whether the command that
  installs the output sink could be sent.
\<close>

definition wd_connect :: "(engine_error + unit) oneshot \<Rightarrow> bool \<Rightarrow> 'e \<Rightarrow> (backend_error + 'e windbg) option" where
  "wd_connect ready_rx sink_sent engine =
     (case ready_rx of
        Waiting \<Rightarrow> None
      | Sent (Inl e) \<Rightarrow> Some (Inl (Detect (''failed to initialize DbgEng: '' @ engine_error_text e)))
      | Hung_up \<Rightarrow> Some (Inl (Spawn ''failed to initialize DbgEng: engine thread exited before readiness''))
      | Sent (Inr _) \<Rightarrow>
          (if sink_sent then Some (Inr (windbg_new engine None))
           else Some (Inl (Spawn ''failed to initialize DbgEng: engine thread closed before sink install''))))"

section \<open>The event stream\<close>

fun category_for :: "output_kind \<Rightarrow> string" where
  "category_for Out_Normal = ''stdout''"
| "category_for Out_Error = ''stderr''"
| "category_for Out_Warning = ''stderr''"
| "category_for Out_Prompt = ''console''"
| "category_for (Out_Other _) = ''console''"

record stream_state =
  es_out :: "(output_kind \<times> string) list"
  es_term :: "i64 option oneshot"
  es_dropped :: bool
  es_terminated :: bool

definition build_event_stream :: stream_state where
  "build_event_stream = \<lparr>es_out = [], es_term = Waiting, es_dropped = False, es_terminated = False\<rparr>"

definition terminate_code :: "stream_state \<Rightarrow> i64 option option" where
  "terminate_code st =
     (case es_term st of
        Sent code \<Rightarrow> Some code
      | Hung_up \<Rightarrow> Some None
      | Waiting \<Rightarrow> (if es_dropped st then Some None else None))"

definition poll_next :: "stream_state \<Rightarrow> backend_event option option \<times> stream_state" where
  "poll_next st =
     (if es_terminated st then (Some None, st)
      else case es_out st of
             (kind, text) # rest \<Rightarrow> (Some (Some (Ev_Output (category_for kind) text)), st\<lparr>es_out := rest\<rparr>)
           | [] \<Rightarrow>
               (case terminate_code st of
                  Some code \<Rightarrow> (Some (Some (Ev_Terminated code)), st\<lparr>es_terminated := True\<rparr>)
                | None \<Rightarrow> (None, st)))"

text \<open>What can happen, the engine's part first; a signal is sent once.\<close>

datatype stream_action =
    Engine_Output output_kind string
  | Engine_Terminated "i64 option"
  | Engine_Gone
  | Backend_Dropped
  | Poll

fun stream_step :: "stream_action \<Rightarrow> stream_state \<Rightarrow> backend_event list \<times> stream_state" where
  "stream_step (Engine_Output kind text) st = ([], st\<lparr>es_out := es_out st @ [(kind, text)]\<rparr>)"
| "stream_step (Engine_Terminated code) st =
     ([], if es_term st = Waiting then st\<lparr>es_term := Sent code\<rparr> else st)"
| "stream_step Engine_Gone st = ([], if es_term st = Waiting then st\<lparr>es_term := Hung_up\<rparr> else st)"
| "stream_step Backend_Dropped st = ([], st\<lparr>es_dropped := True\<rparr>)"
| "stream_step Poll st =
     (case poll_next st of (Some (Some e), st') \<Rightarrow> ([e], st') | (_, st') \<Rightarrow> ([], st'))"

fun stream_run :: "stream_action list \<Rightarrow> stream_state \<Rightarrow> backend_event list \<times> stream_state" where
  "stream_run [] st = ([], st)"
| "stream_run (a # acts) st =
     (let (es, st1) = stream_step a st; (fs, st2) = stream_run acts st1 in (es @ fs, st2))"

fun sent_outputs :: "stream_action list \<Rightarrow> (output_kind \<times> string) list" where
  "sent_outputs [] = []"
| "sent_outputs (Engine_Output kind text # acts) = (kind, text) # sent_outputs acts"
| "sent_outputs (_ # acts) = sent_outputs acts"

definition output_event :: "output_kind \<times> string \<Rightarrow> backend_event" where
  "output_event o' = Ev_Output (category_for (fst o')) (snd o')"

lemma stream_after_end:
  "es_terminated st \<Longrightarrow> fst (stream_run acts st) = [] \<and> es_terminated (snd (stream_run acts st))"
proof (induction acts arbitrary: st)
  case (Cons a acts)
  have "fst (stream_step a st) = []" "es_terminated (snd (stream_step a st))"
    using Cons.prems by (cases a; simp add: poll_next_def)+
  then show ?case using Cons.IH [of "snd (stream_step a st)"] by (simp add: Let_def case_prod_unfold)
qed simp

text \<open>
  What a run emits: output in order, and at its end, at a poll, the terminated event once; by then
  everything sent before that poll has been emitted.
\<close>

definition stream_emitted ::
  "stream_state \<Rightarrow> stream_action list \<Rightarrow> backend_event list \<Rightarrow> stream_state \<Rightarrow> bool" where
  "stream_emitted st acts evs st' \<longleftrightarrow>
     (if es_terminated st'
      then \<exists>pre post code. acts = pre @ Poll # post \<and>
             evs = map output_event (es_out st @ sent_outputs pre) @ [Ev_Terminated code]
      else \<exists>outs. evs = map output_event outs \<and> outs @ es_out st' = es_out st @ sent_outputs acts)"

lemma stream_emitted_step:
  assumes "stream_emitted st1 acts fs st'" "es_out st @ sent_outputs [a] = map id outs @ es_out st1"
    and "es = map output_event outs"
  shows "stream_emitted st (a # acts) (es @ fs) st'"
proof (cases "es_terminated st'")
  case True
  then obtain pre post code where "acts = pre @ Poll # post"
      "fs = map output_event (es_out st1 @ sent_outputs pre) @ [Ev_Terminated code]"
    using assms(1) by (auto simp: stream_emitted_def)
  moreover have "es_out st @ sent_outputs (a # pre) = outs @ es_out st1 @ sent_outputs pre"
    using assms(2) by (cases a) simp_all
  ultimately have "a # acts = (a # pre) @ Poll # post"
      "es @ fs = map output_event (es_out st @ sent_outputs (a # pre)) @ [Ev_Terminated code]"
    using assms(3) by simp_all
  then show ?thesis using True unfolding stream_emitted_def by (simp only: if_True) blast
next
  case False
  then obtain os where "fs = map output_event os" "os @ es_out st' = es_out st1 @ sent_outputs acts"
    using assms(1) by (auto simp: stream_emitted_def)
  moreover have "sent_outputs (a # acts) = sent_outputs [a] @ sent_outputs acts" by (cases a) simp_all
  ultimately show ?thesis
    using False assms(2,3) by (auto simp: stream_emitted_def intro!: exI [of _ "outs @ os"])
qed

lemma stream_run_emitted:
  "\<not> es_terminated st \<Longrightarrow> stream_run acts st = (evs, st') \<Longrightarrow> stream_emitted st acts evs st'"
proof (induction acts arbitrary: st evs)
  case Nil
  then show ?case by (simp add: stream_emitted_def)
next
  case (Cons a acts)
  obtain es st1 where s: "stream_step a st = (es, st1)" by (rule prod.exhaust)
  obtain fs where r: "stream_run acts st1 = (fs, st')" and evs: "evs = es @ fs"
    using Cons.prems(2) s by (auto simp: Let_def case_prod_unfold prod_eq_iff)
  show ?case
  proof (cases "es_terminated st1")
    case True
    then have a: "a = Poll" and out: "es_out st = []" and es: "\<exists>code. es = [Ev_Terminated code]"
      using s Cons.prems(1) by (cases a; auto simp: poll_next_def split: list.splits option.splits if_splits)+
    have "fs = []" "es_terminated st'" using stream_after_end [OF True, of acts] r by simp_all
    then show ?thesis
      using es evs out a unfolding stream_emitted_def
      by (simp, intro exI [of _ "[]"] exI [of _ acts]) auto
  next
    case False
    have IH: "stream_emitted st1 acts fs st'" by (rule Cons.IH [OF False r])
    have "\<exists>outs. es_out st @ sent_outputs [a] = map id outs @ es_out st1 \<and> es = map output_event outs"
      using s False Cons.prems(1)
      by (cases a; auto simp: poll_next_def output_event_def split: list.splits option.splits if_splits
          intro!: exI [of _ "[]"] exI [of _ "[(x, y)]" for x y])
    then show ?thesis using stream_emitted_step [OF IH] evs by blast
  qed
qed

end
