(* ===== verification/Windbg_Properties.thy ===== *)
theory Windbg_Properties
  imports Windbg_Facts Windbg_Factory
begin

text \<open>
  The properties of the WinDbg backend: its breakpoint table agrees with the engine, the locations
  it refuses never reach the engine, a dead engine thread is final.
\<close>

section \<open>Slots of the two setters\<close>

lemma as_u32_Some: "as_u32 l = Some n \<longleftrightarrow> l = int n \<and> n < 2 ^ 32"
  by (auto simp: as_u32_def nat_less_iff)

lemma source_keys: "set (slot_keys (map (source_slot file) bps)) = {n. \<exists>bp \<in> set bps. as_u32 (sb_line bp) = Some n}"
  by (induction bps) (auto split: option.splits)

lemma source_keys_distinct:
  "distinct (map sb_line bps) \<Longrightarrow> distinct (slot_keys (map (source_slot file) bps))"
  by (induction bps) (force simp: source_keys as_u32_Some split: option.splits)+

lemma function_keys:
  "set (slot_keys (map function_slot bps)) = {n \<in> fb_name ` set bps. \<not> is_bare_address_name n}"
  by (induction bps) auto

lemma function_keys_distinct:
  "distinct (map fb_name bps) \<Longrightarrow> distinct (slot_keys (map function_slot bps))"
  by (induction bps) (auto simp: function_keys)

section \<open>The table and the engine\<close>

text \<open>
  An engine that numbers its breakpoints upwards from \<open>k\<close>, and refuses to remove an unknown one.
  DbgEng itself numbers from 0.
\<close>

type_synonym demo_engine = "(i64 \<times> bp_loc) list"

definition demo_set :: "i64 \<Rightarrow> bp_loc \<Rightarrow> string \<Rightarrow> (demo_engine, breakpoint_result) engine_op" where
  "demo_set k l c e =
     (let i = fold max (map fst e) (k - 1) + 1
      in (Some (Inr \<lparr>br_id = i, br_verified = True, br_line = 0, br_message = [], br_rejected = False\<rparr>),
          e @ [(i, l)]))"

definition demo_remove :: "i64 \<Rightarrow> (demo_engine, unit) engine_op" where
  "demo_remove i e =
     (if i \<in> fst ` set e then (Some (Inr ()), filter (\<lambda>p. fst p \<noteq> i) e)
      else (Some (Inl (EE_Engine ''no such breakpoint'')), e))"

definition panics :: "('e, 'a) engine_op" where
  "panics e = (None, e)"

definition demo_ops :: "i64 \<Rightarrow> demo_engine engine_ops" where
  "demo_ops k =
     \<lparr>eo_launch = \<lambda>_. panics, eo_attach_pid = \<lambda>_. panics, eo_detach = \<lambda>_. panics, eo_go = \<lambda>_. panics,
      eo_step = \<lambda>_. panics, eo_break_in = panics, eo_set_breakpoint = demo_set k,
      eo_remove_breakpoint = demo_remove, eo_list_breakpoints = panics, eo_threads = panics,
      eo_stack_trace = \<lambda>_ _. panics, eo_locals = \<lambda>_. panics, eo_evaluate = \<lambda>_. panics,
      eo_read_memory = \<lambda>_ _. panics, eo_disassemble = \<lambda>_ _. panics, eo_execute = \<lambda>_. panics,
      eo_modules = panics, eo_current_source_location = panics, eo_open_dump = \<lambda>_. panics,
      eo_attach_kernel = \<lambda>_. panics, eo_analyze = panics, eo_interrupt = id\<rparr>"

lemma fold_max_ge: "a \<le> fold max xs (a :: i64)"
  by (induction xs arbitrary: a) (auto intro: order_trans [OF max.cobounded2])

lemma fold_max_upper: "x \<in> set xs \<Longrightarrow> x \<le> fold max xs (a :: i64)"
  by (induction xs arbitrary: a) (auto intro: order_trans [OF max.cobounded1 fold_max_ge])

lemma demo_pool_engine: "pool_engine (demo_ops k) set"
proof -
  have "fold max (map fst e) (k - 1) + 1 \<notin> fst ` set e" for e :: demo_engine
    using fold_max_upper [of _ "map fst e" "k - 1"] by fastforce
  then show ?thesis
    unfolding pool_engine_def
    by (auto simp: demo_ops_def demo_set_def demo_remove_def Let_def split: if_splits)
qed

text \<open>C22: \<open>setBreakpoints\<close> is a replacement.  Where the table agrees with the engine's pool, it does
  again after a call that succeeds: for the file it then holds exactly locations asked for, those held
  before keep their engine id, every other file and the functions are untouched, and the answers are
  one per request, each what is tracked for it.  It supposes that the breakpoints to be removed have
  positive ids and that no line is asked for twice.\<close>

theorem source_breakpoints_replace_all:
  assumes "pool_engine ops pool" and "table_exact pool w"
    and "\<forall>(line, r) \<in> set (source_prior file (wd_table w)). 0 < br_id r"
    and "distinct (map sb_line bps)"
    and "wd_set_source_breakpoints ops file bps w = (Inr results, w')"
  shows "table_exact pool w' \<and>
    list_all2 (answers (source_prior file (wd_table w'))) (map (source_slot file) bps) results \<and>
    set (map fst (source_prior file (wd_table w'))) \<subseteq> {n. \<exists>bp \<in> set bps. as_u32 (sb_line bp) = Some n} \<and>
    (\<forall>bp \<in> set bps. \<forall>n r. as_u32 (sb_line bp) = Some n \<longrightarrow>
       map_of (source_prior file (wd_table w)) n = Some r \<longrightarrow>
       map_of (source_prior file (wd_table w')) n = Some r) \<and>
    (\<forall>f. f \<noteq> file \<longrightarrow> source_prior f (wd_table w') = source_prior f (wd_table w)) \<and>
    bt_function (wd_table w') = bt_function (wd_table w)"
proof -
  have "\<forall>(n, r) \<in> set (source_prior file (wd_table w)). 0 < br_id r \<longleftrightarrow> True" using assms(3) by simp
  note all = source_lines.replace_all [of "\<lambda>_. True", unfolded pool_engine_all table_exact_all,
      OF assms(1,2) this source_keys_distinct [OF assms(4)] assms(5) [unfolded wd_set_source_breakpoints_def]]
  have prior: "source_prior f (wd_table w') = source_prior f (wd_table w)" if "f \<noteq> file" for f
    by (subst all(2)) (simp add: source_prior_commit that)
  have funs: "bt_function (wd_table w') = bt_function (wd_table w)"
    by (subst all(2)) (simp add: source_prior_commit)
  show ?thesis using all(1,3-5) by (auto simp: prior funs source_keys)
qed

text \<open>Two breakpoints set on a fresh engine, and the call that keeps one of them and adds another.\<close>

definition demo_bp :: "i64 \<Rightarrow> source_bp" where
  "demo_bp l = \<lparr>sb_line = l, sb_condition = []\<rparr>"

definition demo_result :: "i64 \<Rightarrow> breakpoint_result" where
  "demo_result i = \<lparr>br_id = i, br_verified = True, br_line = 0, br_message = [], br_rejected = False\<rparr>"

definition demo_state :: "(i64 \<times> nat) list \<Rightarrow> (nat \<times> i64) list \<Rightarrow> demo_engine windbg" where
  "demo_state es ts =
     \<lparr>wd_thread = \<lparr>et_engine = map (\<lambda>(i, n). (i, Loc_FileLine ''a.c'' n)) es, et_running = True\<rparr>,
      wd_target_pid = None,
      wd_table = \<lparr>bt_source = (if ts = [] then [] else [(''a.c'', map (\<lambda>(n, i). (n, demo_result i)) ts)]),
                  bt_function = []\<rparr>\<rparr>"

lemmas demo_run = demo_state_def demo_bp_def demo_result_def demo_ops_def demo_set_def demo_remove_def
  wd_set_source_breakpoints_def reconcile_def engine_call_def dispatch_cmd_def remove_engine_breakpoint_def
  source_prior_def commit_source_def as_u32_def Let_def

lemma demo_first_call:
  "wd_set_source_breakpoints (demo_ops k) ''a.c'' [demo_bp 10, demo_bp 20] (demo_state [] []) =
     (Inr [demo_result k, demo_result (k + 1)], demo_state [(k, 10), (k + 1, 20)] [(10, k), (20, k + 1)])"
  by (simp add: demo_run)

lemma demo_second_call:
  "wd_set_source_breakpoints (demo_ops 1) ''a.c'' [demo_bp 30, demo_bp 20] (demo_state [(1, 10), (2, 20)] [(10, 1), (20, 2)]) =
     (Inr [demo_result 3, demo_result 2], demo_state [(2, 20), (3, 30)] [(30, 3), (20, 2)])"
  by (simp add: demo_run)

lemma demo_exact: "table_exact set (demo_state [] [])"
  by (simp add: table_exact_def tracked_def demo_state_def source_prior_def)

theorem source_breakpoints_replace_all_witness:
  "table_exact set (demo_state [(1, 10), (2, 20)] [(10, 1), (20, 2)]) \<and>
   table_exact set (demo_state [(2, 20), (3, 30)] [(30, 3), (20, 2)])"
proof -
  have first: "table_exact set (demo_state [(1, 10), (2, 20)] [(10, 1), (20, 2)])"
    using source_breakpoints_replace_all [OF demo_pool_engine demo_exact _ _ demo_first_call [of 1]]
    by (simp add: demo_state_def demo_bp_def source_prior_def)
  then show ?thesis
    using source_breakpoints_replace_all [OF demo_pool_engine first _ _ demo_second_call]
    by (simp add: demo_state_def demo_bp_def source_prior_def demo_result_def)
qed

text \<open>\<open>setFunctionBreakpoints\<close> is a replacement in the same way, over all functions: it keeps the
  agreement of table and engine, tracks only names asked for that are not bare addresses, keeps the
  engine id of those it had, and leaves every source breakpoint as it was.\<close>

theorem function_breakpoints_replace_all:
  assumes "pool_engine ops pool" and "table_exact pool w"
    and "\<forall>(name, r) \<in> set (bt_function (wd_table w)). 0 < br_id r"
    and "distinct (map fb_name bps)"
    and "wd_set_function_breakpoints ops bps w = (Inr results, w')"
  shows "table_exact pool w' \<and>
    list_all2 (answers (bt_function (wd_table w'))) (map function_slot bps) results \<and>
    set (map fst (bt_function (wd_table w'))) \<subseteq> {n \<in> fb_name ` set bps. \<not> is_bare_address_name n} \<and>
    (\<forall>n r. n \<in> fb_name ` set bps \<longrightarrow> \<not> is_bare_address_name n \<longrightarrow>
       map_of (bt_function (wd_table w)) n = Some r \<longrightarrow> map_of (bt_function (wd_table w')) n = Some r) \<and>
    (\<forall>f. source_prior f (wd_table w') = source_prior f (wd_table w))"
proof -
  have "\<forall>(name, r) \<in> set (bt_function (wd_table w)). 0 < br_id r \<longleftrightarrow> True" using assms(3) by simp
  note all = function_names.replace_all [of "\<lambda>_. True", unfolded pool_engine_all table_exact_all,
      OF assms(1,2) this function_keys_distinct [OF assms(4)] assms(5) [unfolded wd_set_function_breakpoints_def]]
  have prior: "source_prior f (wd_table w') = source_prior f (wd_table w)" for f
    by (subst all(2)) (simp add: source_prior_commit)
  show ?thesis using all(1,3-5) by (auto simp: prior function_keys)
qed

definition demo_fn :: "string \<Rightarrow> function_bp" where
  "demo_fn n = \<lparr>fb_name = n, fb_condition = []\<rparr>"

definition demo_functions :: "demo_engine windbg" where
  "demo_functions =
     \<lparr>wd_thread = \<lparr>et_engine = [(1, Loc_Function ''main'')], et_running = True\<rparr>, wd_target_pid = None,
      wd_table = \<lparr>bt_source = [], bt_function = [(''main'', demo_result 1)]\<rparr>\<rparr>"

lemma demo_bare: "is_bare_address_name ''0x401000''" "\<not> is_bare_address_name ''main''"
  by code_simp+

lemma demo_functions_call:
  "wd_set_function_breakpoints (demo_ops 1) [demo_fn ''main'', demo_fn ''0x401000''] (demo_state [] []) =
     (Inr [demo_result 1, unverified 0 address_bp_guidance True], demo_functions)"
  by (simp add: demo_run demo_functions_def demo_fn_def wd_set_function_breakpoints_def commit_function_def demo_bare)

theorem function_breakpoints_replace_all_witness: "table_exact set demo_functions"
  using function_breakpoints_replace_all [OF demo_pool_engine demo_exact _ _ demo_functions_call]
  by (simp add: demo_state_def demo_fn_def)

text \<open>C23: A breakpoint with id 0, which is the first id DbgEng gives, is never removed: when the file's
  list is emptied the call succeeds and forgets it, and sends the engine nothing, so that the breakpoint
  stays in the engine and the table no longer agrees with it.\<close>

theorem breakpoint_zero_is_leaked:
  assumes "source_prior file (wd_table w) = [(line, r)]" and "br_id r = 0"
    and "(0, Loc_FileLine file line) \<in> pool (wd_engine w)"
    and "wd_set_source_breakpoints ops file [] w = (results, w')"
  shows "results = Inr [] \<and> wd_thread w' = wd_thread w \<and> source_prior file (wd_table w') = [] \<and>
         \<not> table_exact pool w'"
proof -
  have "results = Inr []" "wd_thread w' = wd_thread w" "source_prior file (wd_table w') = []"
    using assms by (auto simp: wd_set_source_breakpoints_def reconcile_def remove_engine_breakpoint_def source_prior_commit)
  moreover from this have "\<not> tracked (Loc_FileLine file) (source_prior file (wd_table w')) (pool (wd_engine w'))"
    using assms(3) by (auto simp: tracked_def)
  ultimately show ?thesis unfolding table_exact_def by blast
qed

lemma demo_zero_call:
  "wd_set_source_breakpoints (demo_ops 0) ''a.c'' [demo_bp 10] (demo_state [] []) =
     (Inr [demo_result 0], demo_state [(0, 10)] [(10, 0)])"
  "wd_set_source_breakpoints (demo_ops 0) ''a.c'' [] (demo_state [(0, 10)] [(10, 0)]) = (Inr [], demo_state [(0, 10)] [])"
  by (simp_all add: demo_run)

theorem breakpoint_zero_is_leaked_witness: "\<not> table_exact set (demo_state [(0, 10)] [])"
  using breakpoint_zero_is_leaked [OF _ _ _ demo_zero_call(2), of 10 "demo_result 0" set]
  by (simp add: demo_state_def demo_result_def source_prior_def)

text \<open>Two pending breakpoints on one line, which the session buffers as they come, are both set at
  launch; the table keeps the second only, so the first stays in the engine untracked.\<close>

theorem duplicate_pending_is_leaked:
  assumes "pool_engine ops pool" and "as_u32 (sb_line bp) = Some line" and "sb_line bp' = sb_line bp"
    and "engine_call (eo_set_breakpoint ops (Loc_FileLine file line) (sb_condition bp)) w = (Inr r, w1)"
    and "engine_call (eo_set_breakpoint ops (Loc_FileLine file line) (sb_condition bp'))
           (w1\<lparr>wd_table := (wd_table w1)\<lparr>bt_source := AList.update file
              (AList.update line r (source_prior file (wd_table w1))) (bt_source (wd_table w1))\<rparr>\<rparr>) = (Inr r', w2)"
  shows "br_id r \<noteq> br_id r' \<and>
    {(br_id r, Loc_FileLine file line), (br_id r', Loc_FileLine file line)}
      \<subseteq> pool (wd_engine (flush_source ops file [bp, bp'] w)) \<and>
    map_of (source_prior file (wd_table (flush_source ops file [bp, bp'] w))) line = Some r' \<and>
    \<not> table_exact pool (flush_source ops file [bp, bp'] w)"
proof -
  let ?w = "w2\<lparr>wd_table := (wd_table w2)\<lparr>bt_source := AList.update file
              (AList.update line r' (source_prior file (wd_table w2))) (bt_source (wd_table w2))\<rparr>\<rparr>"
  have set1: "br_verified r" "pool (wd_engine w1) = insert (br_id r, Loc_FileLine file line) (pool (wd_engine w))"
    using engine_call_set [of "\<lambda>_. True", unfolded pool_engine_all if_True, OF assms(1,4)] by simp_all
  have set2: "br_verified r'" "br_id r' \<notin> fst ` pool (wd_engine w1)"
      "pool (wd_engine w2) = insert (br_id r', Loc_FileLine file line) (pool (wd_engine w1))"
    using engine_call_set [of "\<lambda>_. True", unfolded pool_engine_all if_True, OF assms(1,5)] by simp_all
  have w: "flush_source ops file [bp, bp'] w = ?w" using assms(2-5) set1(1) set2(1) by simp
  have tab: "map_of (source_prior file (wd_table ?w)) line = Some r'"
    by (simp add: source_prior_def update_conv')
  have pools: "{(br_id r, Loc_FileLine file line), (br_id r', Loc_FileLine file line)} \<subseteq> pool (wd_engine ?w)"
    using set1 set2 by simp
  have diff: "br_id r \<noteq> br_id r'" using set1(2) set2(2) by auto
  then have "\<not> tracked (Loc_FileLine file) (source_prior file (wd_table ?w)) (pool (wd_engine ?w))"
    using pools tab unfolding tracked_def by (metis insert_subset option.inject)
  then have "\<not> table_exact pool ?w" unfolding table_exact_def by blast
  then show ?thesis unfolding w using diff pools tab by blast
qed

lemma demo_duplicates:
  "flush_source (demo_ops 1) ''a.c'' [demo_bp 10, demo_bp 10] (demo_state [] []) =
     demo_state [(1, 10), (2, 10)] [(10, 2)]"
  by (simp add: demo_run)

theorem duplicate_pending_is_leaked_witness:
  "\<not> table_exact set (demo_state [(1, 10), (2, 10)] [(10, 2)])"
  using duplicate_pending_is_leaked [OF demo_pool_engine, of "demo_bp 10" 10 "demo_bp 10" 1 "''a.c''" "demo_state [] []"
      "demo_result 1" "demo_state [(1, 10)] []" "demo_result 2" "demo_state [(1, 10), (2, 10)] [(10, 1)]"]
    demo_duplicates
  by (simp add: demo_run)

text \<open>Without such a repetition the flush keeps the table exact: from an empty table, pending
  breakpoints with one list per file, one entry per line and one per function name leave a table that
  names exactly the engine's breakpoints, whichever of them the engine refuses.\<close>

theorem pending_flush_is_exact:
  assumes "pool_engine ops pool" and "table_exact pool w" and "wd_table w = \<lparr>bt_source = [], bt_function = []\<rparr>"
    and "distinct (map fst (ls_source_breakpoints spec))"
    and "\<forall>(file, bps) \<in> set (ls_source_breakpoints spec). distinct (map sb_line bps)"
    and "distinct (map fb_name (ls_function_breakpoints spec))"
  shows "table_exact pool (flush_pending ops spec w)"
proof -
  have "\<forall>(file, bps) \<in> set (ls_source_breakpoints spec). source_prior file (wd_table w) = []"
    by (simp add: assms(3) source_prior_def)
  then show ?thesis
    using flush_files_exact [of "\<lambda>_. True", unfolded pool_engine_all table_exact_all, OF assms(1,2,4,5)]
      flush_functions_exact [of "\<lambda>_. True", unfolded pool_engine_all table_exact_all, OF assms(1) _ assms(6)]
    by (simp add: flush_pending_def assms(3))
qed

definition demo_spec :: launch_spec where
  "demo_spec = \<lparr>ls_program = ''app'', ls_args = [], ls_cwd = None, ls_env = [], ls_stop_on_entry = False,
     ls_source_breakpoints = [(''a.c'', [demo_bp 10, demo_bp 20])], ls_function_breakpoints = []\<rparr>"

theorem pending_flush_is_exact_witness:
  "table_exact set (demo_state [(1, 10), (2, 20)] [(10, 1), (20, 2)])"
proof -
  have "flush_pending (demo_ops 1) demo_spec (demo_state [] []) = demo_state [(1, 10), (2, 20)] [(10, 1), (20, 2)]"
    by (simp add: flush_pending_def demo_spec_def demo_run)
  then show ?thesis
    using pending_flush_is_exact [OF demo_pool_engine demo_exact, of demo_spec 1]
    by (simp add: demo_state_def demo_spec_def demo_bp_def)
qed

section \<open>Addresses\<close>

text \<open>A bare address given as a function name never reaches the engine, neither from the setter nor
  from the flush at launch: whatever the engine would do with such a location, the outcome is the same.\<close>

theorem address_names_never_reach_the_engine:
  fixes ops anything
  defines "ops' \<equiv> ops\<lparr>eo_set_breakpoint := \<lambda>loc c.
      (case loc of Loc_Function n \<Rightarrow> if is_bare_address_name n then anything n c else eo_set_breakpoint ops loc c
       | _ \<Rightarrow> eo_set_breakpoint ops loc c)\<rparr>"
  shows "wd_set_function_breakpoints ops' bps w = wd_set_function_breakpoints ops bps w \<and>
         flush_functions ops' bps w = flush_functions ops bps w"
proof -
  have set: "eo_set_breakpoint ops' (Loc_Function n) c = eo_set_breakpoint ops (Loc_Function n) c"
    if "\<not> is_bare_address_name n" for n c using that by (simp add: ops'_def)
  have add: "reconcile_add ops' prior (map function_slot bps) p w = reconcile_add ops prior (map function_slot bps) p w"
    for prior p w
    by (induction bps arbitrary: p w) (auto simp: Let_def set split: option.splits prod.splits sum.splits)
  have rem: "reconcile_remove ops' desired prior w = reconcile_remove ops desired prior w" for desired prior w
    by (induction prior arbitrary: w) (auto simp: remove_engine_breakpoint_def ops'_def split: prod.splits sum.splits)
  have "flush_functions ops' bps w = flush_functions ops bps w"
    by (induction bps arbitrary: w) (auto simp: set split: sum.splits prod.splits)
  then show ?thesis
    by (simp add: wd_set_function_breakpoints_def reconcile_def add rem [abs_def] split: prod.splits sum.splits)
qed

section \<open>The end of the engine thread\<close>

text \<open>On a dead thread the reconciliation reuses entries and forgets them; it gives up at the first new one.\<close>

lemma dead_reconcile_add:
  assumes "\<not> wd_running w" and "reconcile_add ops prior slots p w = (q, w')"
  shows "w' = w" "q = Inl e \<Longrightarrow> e = Closed"
    "q = Inr p' \<Longrightarrow> map_of (pg_map p') k = Some r \<Longrightarrow> map_of (pg_map p) k = Some r \<or> map_of prior k = Some r"
    "\<exists>k \<in> set (slot_keys slots). map_of prior k = None \<Longrightarrow> q = Inl Closed"
  using assms
proof (induction ops prior slots p w rule: reconcile_add.induct)
  case (3 ops prior key loc condition line slots p w)
  {
    case 1
    then show ?case using 3 by (auto simp: engine_call_def Let_def split: option.splits)
  next
    case 2
    then show ?case using 3 by (auto simp: engine_call_def Let_def split: option.splits)
  next
    case 3
    then show ?case using "3.IH" by (fastforce simp: engine_call_def Let_def update_conv' split: option.splits if_splits)
  next
    case 4
    then show ?case using 3 by (auto simp: engine_call_def Let_def split: option.splits)
  }
qed auto

lemma dead_reconcile_remove:
  "\<not> wd_running w \<Longrightarrow> reconcile_remove ops desired prior w = (q, w') \<Longrightarrow> w' = w"
  by (induction ops desired prior w rule: reconcile_remove.induct)
    (auto simp: remove_engine_breakpoint_def engine_call_def split: if_splits prod.splits sum.splits)

lemma dead_reconcile:
  assumes "\<not> wd_running w" and "reconcile ops prior slots commit w = (q, w')"
  shows "(\<exists>e. q = Inl e \<and> w' = w) \<or>
    (\<exists>m. w' = w\<lparr>wd_table := commit m (wd_table w)\<rparr> \<and> (\<forall>k r. map_of m k = Some r \<longrightarrow> map_of prior k = Some r))"
    "\<exists>k \<in> set (slot_keys slots). map_of prior k = None \<Longrightarrow> q = Inl Closed \<and> w' = w"
proof -
  obtain a w1 where add: "reconcile_add ops prior slots \<lparr>pg_desired = [], pg_results = [], pg_map = []\<rparr> w = (a, w1)"
    by (rule prod.exhaust)
  note added = dead_reconcile_add [OF assms(1) add]
  show "(\<exists>e. q = Inl e \<and> w' = w) \<or>
    (\<exists>m. w' = w\<lparr>wd_table := commit m (wd_table w)\<rparr> \<and> (\<forall>k r. map_of m k = Some r \<longrightarrow> map_of prior k = Some r))"
  proof (cases a)
    case (Inl e)
    then have "q = Inl e \<and> w' = w" using assms(2) add added(1) by (auto simp: reconcile_def)
    then show ?thesis by blast
  next
    case (Inr p)
    obtain b w2 where rem: "reconcile_remove ops (pg_desired p) prior w = (b, w2)" by (rule prod.exhaust)
    have "w' = w\<lparr>wd_table := commit (pg_map p) (wd_table w)\<rparr>"
      using assms(2) add added(1) rem dead_reconcile_remove [OF assms(1) rem] Inr
      by (auto simp: reconcile_def Let_def split: sum.splits)
    moreover have "\<forall>k r. map_of (pg_map p) k = Some r \<longrightarrow> map_of prior k = Some r" using added(3) [OF Inr] by auto
    ultimately show ?thesis by blast
  qed
  show "q = Inl Closed \<and> w' = w" if "\<exists>k \<in> set (slot_keys slots). map_of prior k = None"
    using assms(2) add added(1) added(4) [OF that] by (simp add: reconcile_def)
qed

text \<open>What the handle answers when the thread is gone.\<close>

lemma dead_calls:
  assumes "\<not> wd_running w"
  shows "engine_call cmd w = (Inl Closed, w)" "wd_launch ops spec w = (Inl Closed, w)"
    "resolve_attach_pid procs target = Inr pid \<Longrightarrow>
       wd_attach ops procs target w = (Inl Closed, set_target_pid (Some (int pid)) w)"
    "wd_attach_kernel ops connection w = (Inl Closed, w)" "wd_cont ops tid w = (Inl Closed, w)"
    "wd_step ops kind tid gran w = (Inl Closed, w)" "wd_threads ops w = (Inl Closed, w)"
    "wd_stack_trace ops tid start levels w = (Inl Closed, w)" "wd_evaluate ops expr frame_id mode w = (Inl Closed, w)"
    "0 < reference \<Longrightarrow> reference \<le> max_frame_reference \<Longrightarrow> wd_variables ops reference w = (Inl Closed, w)"
    "parse_address address = Inr a \<Longrightarrow> wd_read_memory ops address n w = (Inl Closed, w)"
    "parse_address address = Inr a \<Longrightarrow> wd_disassemble ops address n w = (Inl Closed, w)"
  using assms
  by (simp_all add: engine_call_def wd_launch_def wd_attach_def set_target_pid_def wd_attach_kernel_def wd_cont_def
      wd_step_def wd_threads_def wd_stack_trace_def wd_evaluate_def wd_variables_def wd_read_memory_def wd_disassemble_def
      Let_def split: eval_mode.split)

lemma dead_setters:
  assumes "\<not> wd_running w"
  shows "\<exists>n \<in> set (slot_keys (map (source_slot file) bps)). map_of (source_prior file (wd_table w)) n = None \<Longrightarrow>
      wd_set_source_breakpoints ops file bps w = (Inl Closed, w)"
    "\<exists>n \<in> set (slot_keys (map function_slot fbs)). map_of (bt_function (wd_table w)) n = None \<Longrightarrow>
      wd_set_function_breakpoints ops fbs w = (Inl Closed, w)"
  unfolding wd_set_source_breakpoints_def wd_set_function_breakpoints_def
  by (metis dead_reconcile(2) [OF assms] surj_pair)+

lemma dead_setters_keep:
  assumes "\<not> wd_running w" and "wd_set_source_breakpoints ops file bps w = (r, w') \<or> wd_set_function_breakpoints ops fbs w = (r, w')"
  shows "wd_thread w' = wd_thread w"
    "map_of (source_prior f (wd_table w')) n = Some b \<Longrightarrow> map_of (source_prior f (wd_table w)) n = Some b"
    "map_of (bt_function (wd_table w')) m = Some c \<Longrightarrow> map_of (bt_function (wd_table w)) m = Some c"
proof -
  have "w' = w \<or>
      (\<exists>l. w' = w\<lparr>wd_table := commit_source file l (wd_table w)\<rparr> \<and>
        (\<forall>k r. map_of l k = Some r \<longrightarrow> map_of (source_prior file (wd_table w)) k = Some r)) \<or>
      (\<exists>l. w' = w\<lparr>wd_table := commit_function l (wd_table w)\<rparr> \<and>
        (\<forall>k r. map_of l k = Some r \<longrightarrow> map_of (bt_function (wd_table w)) k = Some r))"
    using assms(2) dead_reconcile(1) [OF assms(1)]
    unfolding wd_set_source_breakpoints_def wd_set_function_breakpoints_def by metis
  then show "wd_thread w' = wd_thread w"
    "map_of (source_prior f (wd_table w')) n = Some b \<Longrightarrow> map_of (source_prior f (wd_table w)) n = Some b"
    "map_of (bt_function (wd_table w')) m = Some c \<Longrightarrow> map_of (bt_function (wd_table w)) m = Some c"
    by (auto simp: source_prior_commit split: if_splits)
qed

text \<open>C24: A panic on the engine's thread is final.  The call during which it happens answers \<open>Closed\<close> and leaves the
  breakpoint table; from then on every command to the thread answers \<open>Closed\<close> and changes nothing.  So do the operations
  that begin with a command: launch, attach (which has stored the process id by then), kernel attach, continue, step,
  threads, stack trace, evaluation and raw commands, the variables of a reference in range, memory and disassembly at an
  address that can be read, and a \<open>setBreakpoints\<close> or \<open>setFunctionBreakpoints\<close> that names something not tracked.  What
  needs no command still answers: the scopes, and a breakpoint request of tracked lines or names only, which may say
  success but never reaches the thread and adds nothing to the table; it can only forget entries.\<close>

theorem engine_death_is_final:
  assumes "wd_running w" and "cmd (wd_engine w) = (None, e)" and "engine_call cmd w = (reply, w')"
  shows "reply = Inl Closed \<and> wd_table w' = wd_table w \<and> engine_call cmd' w' = (Inl Closed, w') \<and>
    wd_launch ops spec w' = (Inl Closed, w') \<and>
    (resolve_attach_pid procs target = Inr pid \<longrightarrow>
       wd_attach ops procs target w' = (Inl Closed, set_target_pid (Some (int pid)) w')) \<and>
    wd_attach_kernel ops connection w' = (Inl Closed, w') \<and>
    wd_cont ops tid w' = (Inl Closed, w') \<and> wd_step ops kind tid gran w' = (Inl Closed, w') \<and>
    wd_threads ops w' = (Inl Closed, w') \<and> wd_stack_trace ops tid start levels w' = (Inl Closed, w') \<and>
    wd_evaluate ops expr frame_id mode w' = (Inl Closed, w') \<and>
    (0 < reference \<and> reference \<le> max_frame_reference \<longrightarrow> wd_variables ops reference w' = (Inl Closed, w')) \<and>
    (parse_address address = Inr a \<longrightarrow> wd_read_memory ops address n w' = (Inl Closed, w') \<and>
       wd_disassemble ops address n w' = (Inl Closed, w')) \<and>
    ((\<exists>l \<in> set (slot_keys (map (source_slot path) bps)). map_of (source_prior path (wd_table w')) l = None) \<longrightarrow>
       wd_set_source_breakpoints ops path bps w' = (Inl Closed, w')) \<and>
    ((\<exists>m \<in> set (slot_keys (map function_slot fbs)). map_of (bt_function (wd_table w')) m = None) \<longrightarrow>
       wd_set_function_breakpoints ops fbs w' = (Inl Closed, w')) \<and>
    (\<forall>r v. wd_set_source_breakpoints ops path bps w' = (r, v) \<or> wd_set_function_breakpoints ops fbs w' = (r, v) \<longrightarrow>
       wd_thread v = wd_thread w' \<and>
       (\<forall>f l b. map_of (source_prior f (wd_table v)) l = Some b \<longrightarrow> map_of (source_prior f (wd_table w')) l = Some b) \<and>
       (\<forall>m b. map_of (bt_function (wd_table v)) m = Some b \<longrightarrow> map_of (bt_function (wd_table w')) m = Some b)) \<and>
    wd_scopes frame_id' w' = (Inr [\<lparr>sc_name = ''Locals'', sc_variables_reference = saturating_add frame_id' 1\<rparr>], w')"
proof -
  have w': "reply = Inl Closed" "\<not> wd_running w'" "wd_table w' = wd_table w"
    using assms by (auto simp: engine_call_def dispatch_cmd_def)
  note dead = dead_calls [OF w'(2)] dead_setters(1,2) [OF w'(2)]
  have setters: "\<forall>r v. wd_set_source_breakpoints ops path bps w' = (r, v) \<or> wd_set_function_breakpoints ops fbs w' = (r, v) \<longrightarrow>
      wd_thread v = wd_thread w' \<and>
      (\<forall>f l b. map_of (source_prior f (wd_table v)) l = Some b \<longrightarrow> map_of (source_prior f (wd_table w')) l = Some b) \<and>
      (\<forall>m b. map_of (bt_function (wd_table v)) m = Some b \<longrightarrow> map_of (bt_function (wd_table w')) m = Some b)"
  proof (intro allI impI)
    fix r v
    assume "wd_set_source_breakpoints ops path bps w' = (r, v) \<or> wd_set_function_breakpoints ops fbs w' = (r, v)"
    note keep = dead_setters_keep [OF w'(2) this]
    show "wd_thread v = wd_thread w' \<and>
      (\<forall>f l b. map_of (source_prior f (wd_table v)) l = Some b \<longrightarrow> map_of (source_prior f (wd_table w')) l = Some b) \<and>
      (\<forall>m b. map_of (bt_function (wd_table v)) m = Some b \<longrightarrow> map_of (bt_function (wd_table w')) m = Some b)"
      by (intro conjI allI impI) (rule keep(1), erule keep(2), erule keep(3))
  qed
  show ?thesis
    by (intro conjI) (rule setters | simp add: w'(1,3) dead wd_scopes_def)+
qed

theorem engine_death_is_final_witness:
  "engine_call (eo_threads (demo_ops 1)) (demo_state [] []) =
     (Inl Closed, (demo_state [] [])\<lparr>wd_thread := \<lparr>et_engine = [], et_running = False\<rparr>\<rparr>) \<and>
   wd_set_source_breakpoints (demo_ops 1) ''a.c'' [demo_bp 10]
     ((demo_state [] [])\<lparr>wd_thread := \<lparr>et_engine = [], et_running = False\<rparr>\<rparr>) =
     (Inl Closed, (demo_state [] [])\<lparr>wd_thread := \<lparr>et_engine = [], et_running = False\<rparr>\<rparr>)"
proof -
  let ?w = "(demo_state [] [])\<lparr>wd_thread := \<lparr>et_engine = [], et_running = False\<rparr>\<rparr>"
  have c: "engine_call (eo_threads (demo_ops 1)) (demo_state [] []) = (Inl Closed, ?w)"
    and p: "wd_running (demo_state [] [])" "eo_threads (demo_ops 1) (wd_engine (demo_state [] [])) = (None, [])"
    by (simp_all add: engine_call_def dispatch_cmd_def panics_def demo_state_def demo_ops_def)
  let ?new = "\<exists>l \<in> set (slot_keys (map (source_slot ''a.c'') [demo_bp 10])). map_of (source_prior ''a.c'' (wd_table ?w)) l = None"
  have "?new \<longrightarrow> wd_set_source_breakpoints (demo_ops 1) ''a.c'' [demo_bp 10] ?w = (Inl Closed, ?w)"
    by (rule engine_death_is_final [OF p c, THEN conjunct2, THEN conjunct2, THEN conjunct2, THEN conjunct2, THEN conjunct2,
          THEN conjunct2, THEN conjunct2, THEN conjunct2, THEN conjunct2, THEN conjunct2, THEN conjunct2, THEN conjunct2,
          THEN conjunct2, THEN conjunct1])
  moreover have ?new by (simp add: demo_state_def source_prior_def demo_bp_def as_u32_def)
  ultimately show ?thesis using c by simp
qed

section \<open>The event stream\<close>

text \<open>C25: However the engine's output, its terminated signal, the drop of the backend and the polls of
  the session interleave, the stream gives the output in the order it was sent, then at most one
  terminated event and nothing after it; when that event comes, everything sent before it has been
  given.  Once the thread has signalled, is gone, or the backend was dropped, even with an engine that
  never ends, as many polls as there is output left, and one more, bring it.\<close>

theorem event_stream_is_ordered_and_ends:
  assumes "stream_run acts build_event_stream = (evs, st)"
  shows "(if es_terminated st
          then \<exists>pre post code. acts = pre @ Poll # post \<and>
                 evs = map output_event (sent_outputs pre) @ [Ev_Terminated code]
          else (\<exists>outs. evs = map output_event outs \<and> outs @ es_out st = sent_outputs acts) \<and>
               (\<forall>code. terminate_code st = Some code \<longrightarrow>
                  fst (stream_run (replicate (length (es_out st)) Poll @ [Poll]) st) =
                    map output_event (es_out st) @ [Ev_Terminated code])) \<and>
         (es_term st \<noteq> Waiting \<or> es_dropped st \<longleftrightarrow> terminate_code st \<noteq> None)"
proof -
  have "stream_emitted build_event_stream acts evs st"
    using assms by (rule stream_run_emitted [rotated]) (simp add: build_event_stream_def)
  moreover have "fst (stream_run (replicate (length (es_out st)) Poll @ [Poll]) st) =
      map output_event (es_out st) @ [Ev_Terminated code]"
    if "\<not> es_terminated st" "terminate_code st = Some code" for st code
    using that
  proof (induction "es_out st" arbitrary: st)
    case Nil
    then show ?case by (simp add: poll_next_def)
  next
    case (Cons o' os)
    have "terminate_code (st\<lparr>es_out := os\<rparr>) = Some code"
      using Cons.prems by (simp add: terminate_code_def split: oneshot.splits if_splits)
    then show ?case
      using Cons.hyps(1) [of "st\<lparr>es_out := os\<rparr>"] Cons.prems Cons.hyps(2) [symmetric]
      by (cases o') (simp add: poll_next_def output_event_def Let_def case_prod_unfold)
  qed
  ultimately show ?thesis
    by (auto simp: stream_emitted_def build_event_stream_def terminate_code_def split: oneshot.splits)
qed

theorem event_stream_is_ordered_and_ends_witness:
  "\<exists>outs. [Ev_Output ''stdout'' ''hi''] = map output_event outs \<and> outs @ [(Out_Error, ''oops!'')] =
     [(Out_Normal, ''hi''), (Out_Error, ''oops!'')]"
  using event_stream_is_ordered_and_ends [of "[Engine_Output Out_Normal ''hi'', Poll, Engine_Output Out_Error ''oops!'', Backend_Dropped]"]
  by (simp add: build_event_stream_def poll_next_def)

end
