(* ===== verification/Lldb_Requests.thy ===== *)
theory Lldb_Requests
  imports Wire
begin

text \<open>
  What the LLDB backend sends: the launch and attach arguments with their omission rules,
  \<open>lldb-backend/src/args.rs\<close>, and the request of each command, \<open>requests.rs\<close>.  An object built key by
  key is a \<open>serde_json\<close> map, sorted and with the last value of a key.
\<close>

definition json_map :: "(string \<times> json) list \<Rightarrow> json" where
  "json_map kvs = JObj (fold (\<lambda>(k, v). obj_insert k v) kvs [])"

lemma json_map_get: "jget (json_map kvs) k = map_of (rev kvs) k"
proof -
  have "map_of (fold (\<lambda>(k, v). obj_insert k v) kvs m) k = (map_of m ++ map_of (rev kvs)) k" for m
    by (induction kvs arbitrary: m) (auto simp: map_add_def split: option.splits)
  then show ?thesis by (simp add: json_map_def)
qed

text \<open>An entry that is left out under a condition.\<close>

definition entry_if :: "bool \<Rightarrow> string \<Rightarrow> json \<Rightarrow> (string \<times> json) list" where
  "entry_if c k v = (if c then [(k, v)] else [])"

lemma map_of_entry_if [simp]:
  "map_of (entry_if c k v) k' = (if c \<and> k' = k then Some v else None)"
  by (simp add: entry_if_def)

lemma entry_if_False [simp]: "entry_if False k v = []"
  by (simp add: entry_if_def)

lemma rev_entry_if [simp]: "rev (entry_if c k v) = entry_if c k v"
  by (simp add: entry_if_def)

section \<open>Launch and attach arguments\<close>

record lldb_launch_args =
  la_program :: string
  la_args :: "string list"
  la_cwd :: string
  la_env :: "(string \<times> string) list"
  la_stop_on_entry :: bool
  la_init_commands :: "string list"
  la_pre_run_commands :: "string list"
  la_post_run_commands :: "string list"
  la_stop_commands :: "string list"
  la_exit_commands :: "string list"
  la_terminate_commands :: "string list"

definition lldb_launch_args_new ::
  "string \<Rightarrow> string list \<Rightarrow> string option \<Rightarrow> (string \<times> string) list \<Rightarrow> bool \<Rightarrow> lldb_launch_args" where
  "lldb_launch_args_new program args cwd env stop_on_entry =
     \<lparr>la_program = program, la_args = args, la_cwd = (case cwd of Some c \<Rightarrow> c | None \<Rightarrow> []), la_env = env,
      la_stop_on_entry = stop_on_entry, la_init_commands = [], la_pre_run_commands = [],
      la_post_run_commands = [], la_stop_commands = [], la_exit_commands = [], la_terminate_commands = []\<rparr>"

record lldb_attach_args =
  aa_pid :: i64
  aa_program :: string
  aa_wait_for :: bool
  aa_stop_on_entry :: bool
  aa_attach_commands :: "string list"
  aa_core_file :: string

definition lldb_attach_args_new :: "i64 option \<Rightarrow> string option \<Rightarrow> lldb_attach_args" where
  "lldb_attach_args_new pid wait_for_name =
     (let a = \<lparr>aa_pid = 0, aa_program = [], aa_wait_for = False, aa_stop_on_entry = True,
               aa_attach_commands = [], aa_core_file = []\<rparr>;
          waiting_args = a\<lparr>aa_wait_for := True,
               aa_program := (case wait_for_name of Some n \<Rightarrow> n | None \<Rightarrow> [])\<rparr>
      in case pid of
           Some p \<Rightarrow> (if 0 < p then a\<lparr>aa_pid := p\<rparr> else waiting_args)
         | None \<Rightarrow> waiting_args)"

definition str_list :: "string list \<Rightarrow> json" where
  "str_list xs = JArr (map JStr xs)"

definition insert_str_list :: "string \<Rightarrow> string list \<Rightarrow> (string \<times> json) list" where
  "insert_str_list key xs = entry_if (xs \<noteq> []) key (str_list xs)"

definition launch_args_to_value :: "lldb_launch_args \<Rightarrow> json" where
  "launch_args_to_value a =
     json_map ([(''program'', JStr (la_program a))] @
       entry_if (la_args a \<noteq> []) ''args'' (str_list (la_args a)) @
       entry_if (la_cwd a \<noteq> []) ''cwd'' (JStr (la_cwd a)) @
       entry_if (la_env a \<noteq> []) ''env'' (json_map (map (\<lambda>(k, v). (k, JStr v)) (la_env a))) @
       entry_if (la_stop_on_entry a) ''stopOnEntry'' (JBool True) @
       insert_str_list ''initCommands'' (la_init_commands a) @
       insert_str_list ''preRunCommands'' (la_pre_run_commands a) @
       insert_str_list ''postRunCommands'' (la_post_run_commands a) @
       insert_str_list ''stopCommands'' (la_stop_commands a) @
       insert_str_list ''exitCommands'' (la_exit_commands a) @
       insert_str_list ''terminateCommands'' (la_terminate_commands a))"

definition attach_args_to_value :: "lldb_attach_args \<Rightarrow> json" where
  "attach_args_to_value a =
     json_map (entry_if (aa_pid a \<noteq> 0) ''pid'' (json_int (aa_pid a)) @
       entry_if (aa_program a \<noteq> []) ''program'' (JStr (aa_program a)) @
       entry_if (aa_wait_for a) ''waitFor'' (JBool True) @
       entry_if (aa_stop_on_entry a) ''stopOnEntry'' (JBool True) @
       insert_str_list ''attachCommands'' (aa_attach_commands a) @
       entry_if (aa_core_file a \<noteq> []) ''coreFile'' (JStr (aa_core_file a)))"

section \<open>Requests\<close>

definition rq_initialize :: request where
  "rq_initialize = request_new ''initialize'' (Some (json_map
     [(''clientID'', JStr ''lldb-debug-mcp''), (''adapterID'', JStr ''lldb-dap''), (''pathFormat'', JStr ''path''),
      (''linesStartAt1'', JBool True), (''columnsStartAt1'', JBool True), (''supportsVariableType'', JBool True),
      (''supportsRunInTerminalRequest'', JBool False)]))"

definition rq_launch :: "json \<Rightarrow> request" where
  "rq_launch args = request_new ''launch'' (Some args)"

definition rq_attach :: "json \<Rightarrow> request" where
  "rq_attach args = request_new ''attach'' (Some args)"

definition rq_set_breakpoints :: "string \<Rightarrow> source_bp list \<Rightarrow> request" where
  "rq_set_breakpoints file bps = request_new ''setBreakpoints'' (Some (json_map
     [(''source'', json_map [(''path'', JStr file)]),
      (''breakpoints'', JArr (map (\<lambda>b. json_map ([(''line'', json_int (sb_line b))] @
         entry_if (sb_condition b \<noteq> []) ''condition'' (JStr (sb_condition b)))) bps))]))"

definition rq_set_function_breakpoints :: "function_bp list \<Rightarrow> request" where
  "rq_set_function_breakpoints bps = request_new ''setFunctionBreakpoints'' (Some (json_map
     [(''breakpoints'', JArr (map (\<lambda>b. json_map ([(''name'', JStr (fb_name b))] @
         entry_if (fb_condition b \<noteq> []) ''condition'' (JStr (fb_condition b)))) bps))]))"

definition rq_set_exception_breakpoints :: request where
  "rq_set_exception_breakpoints =
     request_new ''setExceptionBreakpoints'' (Some (json_map [(''filters'', JArr [])]))"

definition rq_configuration_done :: request where
  "rq_configuration_done = request_new ''configurationDone'' None"

definition rq_cont :: "i64 \<Rightarrow> request" where
  "rq_cont thread_id = request_new ''continue'' (Some (json_map [(''threadId'', json_int thread_id)]))"

definition rq_step :: "string \<Rightarrow> i64 \<Rightarrow> string option \<Rightarrow> request" where
  "rq_step command thread_id gran = request_new command (Some (json_map
     ([(''threadId'', json_int thread_id)] @
      (case gran of Some g \<Rightarrow> [(''granularity'', JStr g)] | None \<Rightarrow> []))))"

definition rq_pause :: request where
  "rq_pause = request_new ''pause'' (Some (json_map [(''threadId'', json_int 0)]))"

definition rq_threads :: request where
  "rq_threads = request_new ''threads'' None"

definition rq_stack_trace :: "i64 \<Rightarrow> i64 \<Rightarrow> i64 \<Rightarrow> request" where
  "rq_stack_trace thread_id start levels = request_new ''stackTrace'' (Some (json_map
     [(''threadId'', json_int thread_id), (''startFrame'', json_int start), (''levels'', json_int levels)]))"

definition rq_scopes :: "i64 \<Rightarrow> request" where
  "rq_scopes frame_id = request_new ''scopes'' (Some (json_map [(''frameId'', json_int frame_id)]))"

definition rq_variables :: "i64 \<Rightarrow> request" where
  "rq_variables reference =
     request_new ''variables'' (Some (json_map [(''variablesReference'', json_int reference)]))"

definition rq_evaluate :: "string \<Rightarrow> i64 option \<Rightarrow> string \<Rightarrow> request" where
  "rq_evaluate expression frame_id eval_context = request_new ''evaluate'' (Some (json_map
     ([(''expression'', JStr expression)] @
      (case frame_id of Some f \<Rightarrow> [(''frameId'', json_int f)] | None \<Rightarrow> []) @
      [(''context'', JStr eval_context)])))"

definition rq_read_memory :: "string \<Rightarrow> i64 \<Rightarrow> request" where
  "rq_read_memory address count = request_new ''readMemory''
     (Some (json_map [(''memoryReference'', JStr address), (''count'', json_int count)]))"

definition rq_disassemble :: "string \<Rightarrow> i64 \<Rightarrow> request" where
  "rq_disassemble address count = request_new ''disassemble''
     (Some (json_map [(''memoryReference'', JStr address), (''instructionCount'', json_int count)]))"

definition rq_disconnect :: "bool \<Rightarrow> request" where
  "rq_disconnect terminate =
     request_new ''disconnect'' (Some (json_map [(''terminateDebuggee'', JBool terminate)]))"

end
