(* ===== verification/Lldb_Body.thy ===== *)
theory Lldb_Body
  imports Wire
begin

text \<open>
  The decoding of response bodies into the neutral types, \<open>lldb-backend/src/body.rs\<close>.

  A body is a \<open>serde_json\<close> value; an object that was written with a key twice has its last value.  A
  struct is read from an object, whose unknown keys are ignored, or from an array by position.
  Base64 decoding is a third-party parameter, \<open>b64\<close>; the wording of a decoding error is one as well.
\<close>

fun canonical :: "json \<Rightarrow> json" where
  "canonical (JArr js) = JArr (map canonical js)"
| "canonical (JObj m) = JObj (fold (\<lambda>(k, v). obj_insert k v) (map (\<lambda>(k, v). (k, canonical v)) m) [])"
| "canonical j = j"

fun as_fields :: "string list \<Rightarrow> json \<Rightarrow> (string \<times> json) list option" where
  "as_fields names (JObj m) = Some m"
| "as_fields names (JArr js) = (if length js \<le> length names then Some (zip names js) else None)"
| "as_fields names _ = None"

fun json_list :: "(json \<Rightarrow> 'a option) \<Rightarrow> json \<Rightarrow> 'a list option" where
  "json_list dec (JArr js) = those (map dec js)"
| "json_list dec _ = None"

text \<open>A string that is absent when empty.\<close>

definition non_empty :: "string \<Rightarrow> string option" where
  "non_empty s = (if s = [] then None else Some s)"

definition dec_source :: "json \<Rightarrow> string option" where
  "dec_source j = Option.bind (as_fields [''path''] j) (\<lambda>m. field_or as_str [] m ''path'')"

record dap_frame =
  df_id :: i64
  df_name :: string
  df_source :: "string option"
  df_line :: i64
  df_ip :: string

definition dec_frame :: "json \<Rightarrow> dap_frame option" where
  "dec_frame j =
     Option.bind (as_fields [''id'', ''name'', ''source'', ''line'', ''instructionPointerReference''] j) (\<lambda>m.
     case (field json_i64 m ''id'', field_or as_str [] m ''name'', field_opt dec_source m ''source'',
           field_or json_i64 0 m ''line'', field_or as_str [] m ''instructionPointerReference'') of
       (Some i, Some n, Some s, Some l, Some ip) \<Rightarrow>
         Some \<lparr>df_id = i, df_name = n, df_source = s, df_line = l, df_ip = ip\<rparr>
     | _ \<Rightarrow> None)"

definition dec_thread :: "json \<Rightarrow> thread_info option" where
  "dec_thread j =
     Option.bind (as_fields [''id'', ''name''] j) (\<lambda>m.
     case (field json_i64 m ''id'', field_or as_str [] m ''name'') of
       (Some i, Some n) \<Rightarrow> Some \<lparr>th_id = i, th_name = n\<rparr>
     | _ \<Rightarrow> None)"

definition dec_scope :: "json \<Rightarrow> scope option" where
  "dec_scope j =
     Option.bind (as_fields [''name'', ''variablesReference''] j) (\<lambda>m.
     case (field_or as_str [] m ''name'', field_or json_i64 0 m ''variablesReference'') of
       (Some n, Some r) \<Rightarrow> Some \<lparr>sc_name = n, sc_variables_reference = r\<rparr>
     | _ \<Rightarrow> None)"

definition dec_variable :: "json \<Rightarrow> variable option" where
  "dec_variable j =
     Option.bind (as_fields [''name'', ''value'', ''type'', ''variablesReference'', ''namedVariables'',
       ''indexedVariables''] j) (\<lambda>m.
     case (field_or as_str [] m ''name'', field_or as_str [] m ''value'', field_or as_str [] m ''type'',
           field_or json_i64 0 m ''variablesReference'', field_or json_i64 0 m ''namedVariables'',
           field_or json_i64 0 m ''indexedVariables'') of
       (Some n, Some v, Some t, Some r, Some nv, Some iv) \<Rightarrow>
         Some \<lparr>va_name = n, va_value = v, va_ty = t, va_variables_reference = r, va_named = nv, va_indexed = iv\<rparr>
     | _ \<Rightarrow> None)"

definition dec_evaluate :: "json \<Rightarrow> eval_result option" where
  "dec_evaluate j =
     Option.bind (as_fields [''result'', ''type'', ''variablesReference''] j) (\<lambda>m.
     case (field_or as_str [] m ''result'', field_or as_str [] m ''type'',
           field_or json_i64 0 m ''variablesReference'') of
       (Some r, Some t, Some v) \<Rightarrow> Some \<lparr>er_result = r, er_ty = t, er_variables_reference = v\<rparr>
     | _ \<Rightarrow> None)"

definition dec_read_memory :: "json \<Rightarrow> (string \<times> string) option" where
  "dec_read_memory j =
     Option.bind (as_fields [''address'', ''data''] j) (\<lambda>m.
     case (field_or as_str [] m ''address'', field_or as_str [] m ''data'') of
       (Some a, Some d) \<Rightarrow> Some (a, d)
     | _ \<Rightarrow> None)"

definition dec_instruction :: "json \<Rightarrow> instruction option" where
  "dec_instruction j =
     Option.bind (as_fields [''address'', ''instruction'', ''instructionBytes'', ''symbol'', ''location'', ''line''] j) (\<lambda>m.
     case (field_or as_str [] m ''address'', field_or as_str [] m ''instruction'',
           field_or as_str [] m ''instructionBytes'', field_or as_str [] m ''symbol'',
           field_opt dec_source m ''location'', field_or json_i64 0 m ''line'') of
       (Some a, Some i, Some b, Some s, Some l, Some n) \<Rightarrow>
         Some \<lparr>in_address = a, in_instruction = i, in_bytes = b, in_symbol = s,
               in_source_path = Option.bind l non_empty, in_line = n\<rparr>
     | _ \<Rightarrow> None)"

definition dec_breakpoint :: "json \<Rightarrow> breakpoint_result option" where
  "dec_breakpoint j =
     Option.bind (as_fields [''id'', ''verified'', ''line'', ''message''] j) (\<lambda>m.
     case (field_or json_i64 0 m ''id'', field_or json_bool False m ''verified'',
           field_or json_i64 0 m ''line'', field_or as_str [] m ''message'') of
       (Some i, Some v, Some l, Some msg) \<Rightarrow>
         Some \<lparr>br_id = i, br_verified = v, br_line = l, br_message = msg, br_rejected = False\<rparr>
     | _ \<Rightarrow> None)"

text \<open>A collection body: a list under one key, empty when absent.\<close>

definition dec_collection :: "string \<Rightarrow> (json \<Rightarrow> 'a option) \<Rightarrow> json \<Rightarrow> 'a list option" where
  "dec_collection key dec j =
     Option.bind (as_fields [key] j) (\<lambda>m. field_or (json_list dec) [] m key)"

definition dec_stack_trace :: "json \<Rightarrow> (dap_frame list \<times> i64) option" where
  "dec_stack_trace j =
     Option.bind (as_fields [''stackFrames'', ''totalFrames''] j) (\<lambda>m.
     case (field_or (json_list dec_frame) [] m ''stackFrames'', field_or json_i64 0 m ''totalFrames'') of
       (Some fs, Some n) \<Rightarrow> Some (fs, n)
     | _ \<Rightarrow> None)"

section \<open>Bodies\<close>

definition decode_body :: "(json \<Rightarrow> string) \<Rightarrow> (json \<Rightarrow> 'a option) \<Rightarrow> json option \<Rightarrow> backend_error + 'a" where
  "decode_body wording dec body =
     (let v = (case body of Some v \<Rightarrow> canonical v | None \<Rightarrow> JObj [])
      in case dec v of
           Some a \<Rightarrow> Inr a
         | None \<Rightarrow> Inl (Dap (''malformed response body: '' @ wording v)))"

definition on_body :: "('a \<Rightarrow> 'b) \<Rightarrow> backend_error + 'a \<Rightarrow> backend_error + 'b" where
  "on_body f r = map_sum id f r"

fun neutral_frames :: "i64 \<Rightarrow> dap_frame list \<Rightarrow> frame list" where
  "neutral_frames i [] = []"
| "neutral_frames i (f # fs) =
     \<lparr>fr_index = i, fr_id = df_id f, fr_name = df_name f,
      fr_source_path = Option.bind (df_source f) non_empty, fr_line = df_line f,
      fr_instruction_pointer = non_empty (df_ip f)\<rparr> # neutral_frames (i + 1) fs"

definition body_stack_trace :: "(json \<Rightarrow> string) \<Rightarrow> json option \<Rightarrow> backend_error + (frame list \<times> i64)" where
  "body_stack_trace wording body =
     on_body (\<lambda>(fs, n). (neutral_frames 0 fs, n)) (decode_body wording dec_stack_trace body)"

definition body_threads :: "(json \<Rightarrow> string) \<Rightarrow> json option \<Rightarrow> backend_error + thread_info list" where
  "body_threads wording = decode_body wording (dec_collection ''threads'' dec_thread)"

definition body_scopes :: "(json \<Rightarrow> string) \<Rightarrow> json option \<Rightarrow> backend_error + scope list" where
  "body_scopes wording = decode_body wording (dec_collection ''scopes'' dec_scope)"

definition body_variables :: "(json \<Rightarrow> string) \<Rightarrow> json option \<Rightarrow> backend_error + variable list" where
  "body_variables wording = decode_body wording (dec_collection ''variables'' dec_variable)"

definition body_evaluate :: "(json \<Rightarrow> string) \<Rightarrow> json option \<Rightarrow> backend_error + eval_result" where
  "body_evaluate wording = decode_body wording dec_evaluate"

definition body_read_memory ::
  "(json \<Rightarrow> string) \<Rightarrow> (string \<Rightarrow> string + 8 word list) \<Rightarrow> json option \<Rightarrow> backend_error + memory_read" where
  "body_read_memory wording b64 body =
     (case decode_body wording dec_read_memory body of
        Inl e \<Rightarrow> Inl e
      | Inr (address, data) \<Rightarrow>
          (if data = [] then Inr \<lparr>mr_address = address, mr_data = []\<rparr>
           else case b64 data of
                  Inl e \<Rightarrow> Inl (Dap (''failed to decode memory data: '' @ e))
                | Inr bytes \<Rightarrow> Inr \<lparr>mr_address = address, mr_data = bytes\<rparr>))"

definition body_disassemble :: "(json \<Rightarrow> string) \<Rightarrow> json option \<Rightarrow> backend_error + instruction list" where
  "body_disassemble wording = decode_body wording (dec_collection ''instructions'' dec_instruction)"

definition body_breakpoints :: "(json \<Rightarrow> string) \<Rightarrow> json option \<Rightarrow> backend_error + breakpoint_result list" where
  "body_breakpoints wording = decode_body wording (dec_collection ''breakpoints'' dec_breakpoint)"

end
