(* ===== verification/Lldb_Backend.thy ===== *)
theory Lldb_Backend
  imports Lldb_Requests Lldb_Body Dap_Client
begin

text \<open>
  The LLDB backend, \<open>lldb-backend/src/backend.rs\<close>: the launch and attach handshakes and every
  operation of the trait, over the client it was given.

  What the backend uses of its surroundings is a record of operations on a world \<open>'w\<close>: the DAP
  client, the stderr ring and the child process.  An operation that awaits gives a value when the
  await ends and \<open>None\<close> when it never does, so that a call that hangs is visible as such.  A receiver
  of which the sender was dropped yields \<open>None\<close> as its value.
\<close>

type_synonym ('w, 'a) await = "'w \<Rightarrow> 'a option \<times> 'w"

record 'w lldb_env =
  le_send :: "request \<Rightarrow> ('w, backend_error + dap_message) await"
  le_send_async :: "request \<Rightarrow> ('w, backend_error + sending) await"
  le_reply :: "sending \<Rightarrow> ('w, pending_result option) await"
  le_wait_initialized :: "('w, unit) await"
  le_register_stop :: "'w \<Rightarrow> nat \<times> 'w"
  le_await_stop :: "nat \<Rightarrow> ('w, stop_outcome option) await"
  le_stderr :: "'w \<Rightarrow> string option"
  le_take_child :: "'w \<Rightarrow> bool \<times> 'w"
  le_kill_and_wait :: "('w, unit) await"

text \<open>Sequencing: awaiting, and the question mark operator after an await.\<close>

definition awaiting :: "('w, 'a) await \<Rightarrow> ('a \<Rightarrow> ('w, 'b) await) \<Rightarrow> ('w, 'b) await" where
  "awaiting m f w = (case m w of (None, w') \<Rightarrow> (None, w') | (Some a, w') \<Rightarrow> f a w')"

definition ready :: "'a \<Rightarrow> ('w, 'a) await" where
  "ready a w = (Some a, w)"

definition try_await ::
  "('w, 'e + 'a) await \<Rightarrow> ('a \<Rightarrow> ('w, 'e + 'b) await) \<Rightarrow> ('w, 'e + 'b) await" where
  "try_await m f = awaiting m (\<lambda>r. case r of Inl e \<Rightarrow> ready (Inl e) | Inr a \<Rightarrow> f a)"

definition with_err :: "('e \<Rightarrow> 'f) \<Rightarrow> ('w, 'e + 'a) await \<Rightarrow> ('w, 'f + 'a) await" where
  "with_err f m = awaiting m (\<lambda>r. ready (map_sum f id r))"

fun try_each :: "('x \<Rightarrow> ('w, 'e + unit) await) \<Rightarrow> 'x list \<Rightarrow> ('w, 'e + unit) await" where
  "try_each f [] = ready (Inr ())"
| "try_each f (x # xs) = try_await (f x) (\<lambda>_. try_each f xs)"

section \<open>Labels and diagnostics\<close>

definition response_type_label :: "response \<Rightarrow> string" where
  "response_type_label r = ''response:'' @ rs_command r"

fun message_type_label :: "dap_message \<Rightarrow> string" where
  "message_type_label (DapResponse r) = response_type_label r"
| "message_type_label (DapEvent _) = ''event''"
| "message_type_label (DapOther en) =
     (case en_event en of
        Some event \<Rightarrow> ''event:'' @ event
      | None \<Rightarrow> (case en_command en of Some c \<Rightarrow> en_ty en @ '':'' @ c | None \<Rightarrow> en_ty en))"

definition stderr_snapshot :: "'w lldb_env \<Rightarrow> 'w \<Rightarrow> string" where
  "stderr_snapshot env w = (case le_stderr env w of Some s \<Rightarrow> trim s | None \<Rightarrow> [])"

definition diagnostic :: "'w lldb_env \<Rightarrow> string \<Rightarrow> 'w \<Rightarrow> string" where
  "diagnostic env dap_message w =
     (if dap_message \<noteq> [] then dap_message
      else if stderr_snapshot env w \<noteq> [] then stderr_snapshot env w
      else ''no error message provided by lldb-dap'')"

definition check_response ::
  "'w lldb_env \<Rightarrow> string \<Rightarrow> string \<Rightarrow> dap_message \<Rightarrow> ('w, backend_error + response) await" where
  "check_response env op failed_op message w =
     (case message of
        DapResponse r \<Rightarrow>
          ready (if rs_success r then Inr r
                 else Inl (Dap (failed_op @ '' failed: '' @ diagnostic env (rs_message r) w))) w
      | other \<Rightarrow> ready (Inl (Protocol (op @ '':'' @ message_type_label other))) w)"

definition failed_with :: "string \<Rightarrow> backend_error \<Rightarrow> backend_error" where
  "failed_with what e = Dap (what @ '': '' @ error_text e)"

definition send_checked :: "'w lldb_env \<Rightarrow> string \<Rightarrow> request \<Rightarrow> ('w, backend_error + response) await" where
  "send_checked env op r =
     try_await (with_err (failed_with (op @ '' request failed'')) (le_send env r)) (check_response env op op)"

section \<open>The handshakes\<close>

definition lb_initialize :: "'w lldb_env \<Rightarrow> ('w, backend_error + unit) await" where
  "lb_initialize env =
     try_await (with_err (failed_with ''initialize request failed'') (le_send env rq_initialize)) (\<lambda>msg.
     try_await (check_response env ''initialize'' ''initialize'' msg) (\<lambda>_. ready (Inr ())))"

definition send_checked_breakpoints_for_file ::
  "'w lldb_env \<Rightarrow> string \<Rightarrow> source_bp list \<Rightarrow> ('w, backend_error + unit) await" where
  "send_checked_breakpoints_for_file env file bps =
     try_await (with_err (failed_with (''setBreakpoints failed for '' @ file)) (le_send env (rq_set_breakpoints file bps)))
       (\<lambda>msg w. ready (case msg of
          DapResponse r \<Rightarrow>
            (if rs_command r = ''setBreakpoints'' then
               (if rs_success r then Inr ()
                else Inl (Dap (''setBreakpoints failed for '' @ file @ '': '' @ diagnostic env (rs_message r) w)))
             else Inl (Protocol (response_type_label r)))
        | other \<Rightarrow> Inl (Protocol (message_type_label other))) w)"

text \<open>The reply that may be deferred to after \<open>configurationDone\<close>.\<close>

definition deferred_reply ::
  "'w lldb_env \<Rightarrow> string \<Rightarrow> sending \<Rightarrow> ('w, backend_error + response) await" where
  "deferred_reply env what rx =
     try_await (awaiting (le_reply env rx) (\<lambda>r. ready (case r of
         Some result \<Rightarrow> map_sum (failed_with (what @ '' request failed'')) id result
       | None \<Rightarrow> Inl Closed)))
       (check_response env what what)"

fun launch_stop :: "stop_outcome option \<Rightarrow> launch_outcome" where
  "launch_stop (Some (SO_Stopped info)) = LO_Stopped info"
| "launch_stop (Some (SO_Exited code)) = LO_Exited code"
| "launch_stop (Some SO_Terminated) = LO_Exited None"
| "launch_stop None = LO_Exited None"

fun attach_stop :: "stop_outcome option \<Rightarrow> attach_outcome" where
  "attach_stop (Some (SO_Stopped info)) = AO_Stopped info"
| "attach_stop (Some (SO_Exited code)) = AO_Exited code"
| "attach_stop (Some SO_Terminated) = AO_Terminated"
| "attach_stop None = AO_Terminated"

definition flush_functions_request ::
  "'w lldb_env \<Rightarrow> function_bp list \<Rightarrow> ('w, backend_error + unit) await" where
  "flush_functions_request env bps =
     (if bps = [] then ready (Inr ())
      else try_await (with_err (failed_with ''setFunctionBreakpoints failed'') (le_send env (rq_set_function_breakpoints bps)))
        (\<lambda>msg. try_await (check_response env ''setFunctionBreakpoints'' ''setFunctionBreakpoints'' msg) (\<lambda>_. ready (Inr ()))))"

text \<open>A request of which only a failure to send is looked at.\<close>

definition send_only :: "'w lldb_env \<Rightarrow> string \<Rightarrow> request \<Rightarrow> ('w, backend_error + unit) await" where
  "send_only env what r =
     try_await (with_err (failed_with what) (le_send env r)) (\<lambda>_. ready (Inr ()))"

definition register_if :: "'w lldb_env \<Rightarrow> bool \<Rightarrow> ('w, nat option) await" where
  "register_if env c w =
     (if c then (let (rx, w') = le_register_stop env w in (Some (Some rx), w')) else (Some None, w))"

definition run_launch :: "'w lldb_env \<Rightarrow> launch_spec \<Rightarrow> ('w, backend_error + launch_outcome) await" where
  "run_launch env spec =
     try_await (lb_initialize env) (\<lambda>_.
     try_await (with_err (failed_with ''launch request failed'')
        (le_send_async env (rq_launch (launch_args_to_value
           (lldb_launch_args_new (ls_program spec) (ls_args spec) (ls_cwd spec) (ls_env spec) (ls_stop_on_entry spec))))))
       (\<lambda>launch_rx.
     awaiting (le_wait_initialized env) (\<lambda>_.
     try_await (try_each (\<lambda>(file, bps). send_checked_breakpoints_for_file env file bps) (ls_source_breakpoints spec)) (\<lambda>_.
     try_await (flush_functions_request env (ls_function_breakpoints spec)) (\<lambda>_.
     try_await (send_only env ''setExceptionBreakpoints failed'' rq_set_exception_breakpoints) (\<lambda>_.
     awaiting (register_if env (ls_stop_on_entry spec)) (\<lambda>waiter.
     try_await (send_only env ''configurationDone failed'' rq_configuration_done) (\<lambda>_.
     try_await (deferred_reply env ''launch'' launch_rx) (\<lambda>_.
     case waiter of
       Some rx \<Rightarrow> awaiting (le_await_stop env rx) (\<lambda>s. ready (Inr (launch_stop s)))
     | None \<Rightarrow> ready (Inr LO_Running))))))))))"

definition run_attach :: "'w lldb_env \<Rightarrow> attach_spec \<Rightarrow> ('w, backend_error + attach_outcome) await" where
  "run_attach env spec =
     try_await (lb_initialize env) (\<lambda>_.
     try_await (with_err (failed_with ''attach request failed'')
        (le_send_async env (rq_attach (attach_args_to_value (lldb_attach_args_new (as_pid spec) (as_wait_for spec))))))
       (\<lambda>attach_rx.
     awaiting (le_wait_initialized env) (\<lambda>_.
     try_await (send_only env ''setExceptionBreakpoints failed'' rq_set_exception_breakpoints) (\<lambda>_.
     try_await (send_only env ''configurationDone failed'' rq_configuration_done) (\<lambda>_.
     try_await (deferred_reply env ''attach'' attach_rx) (\<lambda>_.
     (\<lambda>w. case le_register_stop env w of (rx, w') \<Rightarrow>
        awaiting (le_await_stop env rx) (\<lambda>s. ready (Inr (attach_stop s))) w')))))))"

section \<open>Operations\<close>

definition lb_disconnect :: "'w lldb_env \<Rightarrow> bool \<Rightarrow> ('w, unit) await" where
  "lb_disconnect env terminate =
     awaiting (le_send env (rq_disconnect terminate)) (\<lambda>_ w.
       case le_take_child env w of
         (True, w') \<Rightarrow> le_kill_and_wait env w'
       | (False, w') \<Rightarrow> ready () w')"

definition step_command :: "step_kind \<Rightarrow> string" where
  "step_command kind = (case kind of Over \<Rightarrow> ''next'' | Into \<Rightarrow> ''stepIn'' | Out \<Rightarrow> ''stepOut'')"

definition granularity_str :: "granularity \<Rightarrow> string" where
  "granularity_str g = (case g of GranLine \<Rightarrow> ''line'' | GranInstruction \<Rightarrow> ''instruction'')"

definition resume_and_wait :: "'w lldb_env \<Rightarrow> request \<Rightarrow> ('w, backend_error + stop_outcome) await" where
  "resume_and_wait env r w =
     (case le_register_stop env w of (rx, w1) \<Rightarrow>
        try_await (with_err (\<lambda>e. Send (error_text e)) (le_send env r)) (\<lambda>_.
        awaiting (le_await_stop env rx) (\<lambda>s.
        ready (Inr (case s of Some outcome \<Rightarrow> outcome | None \<Rightarrow> SO_Terminated)))) w1)"

definition lb_cont :: "'w lldb_env \<Rightarrow> i64 \<Rightarrow> ('w, backend_error + stop_outcome) await" where
  "lb_cont env thread_id = resume_and_wait env (rq_cont thread_id)"

definition lb_step ::
  "'w lldb_env \<Rightarrow> step_kind \<Rightarrow> i64 \<Rightarrow> granularity option \<Rightarrow> ('w, backend_error + stop_outcome) await" where
  "lb_step env kind thread_id gran =
     resume_and_wait env (rq_step (step_command kind) thread_id
       (case kind of Out \<Rightarrow> None | _ \<Rightarrow> map_option granularity_str gran))"

text \<open>A checked request whose body is decoded.\<close>

definition send_decoded ::
  "'w lldb_env \<Rightarrow> string \<Rightarrow> request \<Rightarrow> (json option \<Rightarrow> backend_error + 'a) \<Rightarrow> ('w, backend_error + 'a) await" where
  "send_decoded env op r dec = try_await (send_checked env op r) (\<lambda>resp. ready (dec (rs_body resp)))"

definition lb_set_source_breakpoints where
  "lb_set_source_breakpoints env wording file bps =
     send_decoded env ''setBreakpoints'' (rq_set_breakpoints file bps) (body_breakpoints wording)"

definition lb_set_function_breakpoints where
  "lb_set_function_breakpoints env wording bps =
     send_decoded env ''setFunctionBreakpoints'' (rq_set_function_breakpoints bps) (body_breakpoints wording)"

definition lb_pause :: "'w lldb_env \<Rightarrow> ('w, backend_error + unit) await" where
  "lb_pause env = try_await (send_checked env ''pause'' rq_pause) (\<lambda>_. ready (Inr ()))"

definition lb_threads where
  "lb_threads env wording = send_decoded env ''threads'' rq_threads (body_threads wording)"

definition lb_stack_trace where
  "lb_stack_trace env wording thread_id start levels =
     send_decoded env ''stackTrace'' (rq_stack_trace thread_id start levels) (body_stack_trace wording)"

definition lb_scopes where
  "lb_scopes env wording frame_id = send_decoded env ''scopes'' (rq_scopes frame_id) (body_scopes wording)"

definition lb_variables where
  "lb_variables env wording reference =
     send_decoded env ''variables'' (rq_variables reference) (body_variables wording)"

definition evaluate_request :: "bool \<Rightarrow> string \<Rightarrow> i64 option \<Rightarrow> eval_mode \<Rightarrow> request" where
  "evaluate_request is_lldb_dap expr frame_id mode =
     (case mode of
        EvalExpression \<Rightarrow> rq_evaluate expr frame_id ''variables''
      | EvalRepl \<Rightarrow> rq_evaluate (if is_lldb_dap then expr else CHR 0x60 # expr) None ''repl'')"

definition lb_evaluate where
  "lb_evaluate env wording is_lldb_dap expr frame_id mode =
     send_decoded env ''evaluate'' (evaluate_request is_lldb_dap expr frame_id mode) (body_evaluate wording)"

definition lb_read_memory where
  "lb_read_memory env wording b64 address count =
     send_decoded env ''readMemory'' (rq_read_memory address count) (body_read_memory wording b64)"

definition lb_disassemble where
  "lb_disassemble env wording address count =
     send_decoded env ''disassemble'' (rq_disassemble address count) (body_disassemble wording)"

end
