(* ===== verification/Lldb_Detect.thy ===== *)
theory Lldb_Detect
  imports Core_Types Text
begin

text \<open>
  Finding and starting the adapter: \<open>lldb-backend/src/detect.rs\<close>, and the ring that keeps the end of
  its standard error, \<open>subprocess.rs\<close>.  The process environment and the file system are the fields of
  \<open>dap_env\<close>, the trait \<open>Env\<close> of the source; the search of \<open>PATH\<close> is \<open>look_path_in\<close>, over a predicate
  for the executable files.
\<close>

section \<open>Detection\<close>

record detected =
  dt_path :: string
  dt_is_lldb_dap :: bool

record dap_env =
  dv_var :: "string \<Rightarrow> string option"
  dv_look_path :: "string \<Rightarrow> string option"
  dv_path_exists :: "string \<Rightarrow> bool"
  dv_xcrun :: "string option"
  dv_is_macos :: bool

definition is_capable_basename :: "string \<Rightarrow> bool" where
  "is_capable_basename name \<longleftrightarrow> str_find ''lldb-dap'' name \<noteq> None"

fun split_on :: "char \<Rightarrow> string \<Rightarrow> string list" where
  "split_on c [] = [[]]"
| "split_on c (x # xs) =
     (if x = c then [] # split_on c xs
      else case split_on c xs of [] \<Rightarrow> [[x]] | p # ps \<Rightarrow> (x # p) # ps)"

text \<open>\<open>Path::file_name\<close>: the last component, when it is a name.\<close>

definition path_file_name :: "string \<Rightarrow> string option" where
  "path_file_name path =
     (let cs = filter (\<lambda>c. c \<noteq> [] \<and> c \<noteq> ''.'') (split_on (CHR ''/'') path)
      in if cs = [] \<or> last cs = ''..'' then None else Some (last cs))"

definition path_basename :: "string \<Rightarrow> string" where
  "path_basename path = (case path_file_name path of Some n \<Rightarrow> n | None \<Rightarrow> path)"

definition versioned_names :: "string list" where
  "versioned_names = map (\<lambda>v. ''lldb-dap-'' @ show_nat v) (rev [15 ..< 21])"

fun first_found :: "(string \<Rightarrow> string option) \<Rightarrow> string list \<Rightarrow> string option" where
  "first_found look [] = None"
| "first_found look (n # ns) = (case look n of Some p \<Rightarrow> Some p | None \<Rightarrow> first_found look ns)"

fun join_with :: "string \<Rightarrow> string list \<Rightarrow> string" where
  "join_with sep [] = []"
| "join_with sep [x] = x"
| "join_with sep (x # y # ys) = x @ sep @ join_with sep (y # ys)"

definition not_found :: "string list \<Rightarrow> backend_error" where
  "not_found searched = Detect (''lldb-dap binary not found; searched: '' @ join_with '', '' searched)"

definition find_xcrun :: "dap_env \<Rightarrow> detected option" where
  "find_xcrun env =
     (if dv_is_macos env then
        (case dv_xcrun env of
           Some p \<Rightarrow> (if trim p \<noteq> [] then Some \<lparr>dt_path = trim p, dt_is_lldb_dap = True\<rparr> else None)
         | None \<Rightarrow> None)
      else None)"

definition find_lldb_dap_with :: "dap_env \<Rightarrow> backend_error + detected" where
  "find_lldb_dap_with env =
     (let env_path = (case dv_var env ''LLDB_DAP_PATH'' of Some p \<Rightarrow> p | None \<Rightarrow> []);
          searched = (if env_path = [] then [] else [''LLDB_DAP_PATH='' @ env_path])
      in if env_path \<noteq> [] \<and> (dv_look_path env env_path \<noteq> None \<or> dv_path_exists env env_path)
         then Inr \<lparr>dt_path = env_path, dt_is_lldb_dap = is_capable_basename (path_basename env_path)\<rparr>
         else case first_found (dv_look_path env) (''lldb-dap'' # versioned_names) of
           Some p \<Rightarrow> Inr \<lparr>dt_path = p, dt_is_lldb_dap = True\<rparr>
         | None \<Rightarrow>
        (case dv_look_path env ''lldb-vscode'' of
           Some p \<Rightarrow> Inr \<lparr>dt_path = p, dt_is_lldb_dap = False\<rparr>
         | None \<Rightarrow>
        (case find_xcrun env of
           Some d \<Rightarrow> Inr d
         | None \<Rightarrow> Inl (not_found (searched @ ''lldb-dap'' # versioned_names @ [''lldb-vscode''] @
                     (if dv_is_macos env then [''xcrun --find lldb-dap''] else []))))))"

text \<open>\<open>Path::join\<close> with a relative name, and the search of the entries of \<open>PATH\<close>.\<close>

definition path_join :: "string \<Rightarrow> string \<Rightarrow> string" where
  "path_join dir name = (if dir \<noteq> [] \<and> last dir = CHR ''/'' then dir @ name else dir @ ''/'' @ name)"

definition look_path_in :: "(string \<Rightarrow> bool) \<Rightarrow> string \<Rightarrow> string option \<Rightarrow> string option" where
  "look_path_in executable name path_var =
     (if CHR ''/'' \<in> set name then (if executable name then Some name else None)
      else case path_var of
             None \<Rightarrow> None
           | Some dirs \<Rightarrow>
               find executable (map (\<lambda>d. path_join d name) (filter (\<lambda>d. d \<noteq> []) (split_on (CHR '':'') dirs))))"

text \<open>
  The environment of the running program, \<open>SystemEnv\<close>: its variables, the metadata of the file system (whether a
  regular file, and its mode, of which 0x49 are the three executable bits), and what \<open>xcrun --find lldb-dap\<close> gives when it can be run.
\<close>

record os_env =
  os_var :: "string \<Rightarrow> string option"
  os_metadata :: "string \<Rightarrow> (bool \<times> 32 word) option"
  os_xcrun :: "(bool \<times> string) option"
  os_unix :: bool
  os_macos :: bool

unbundle bit_operations_syntax

definition is_executable_file :: "os_env \<Rightarrow> string \<Rightarrow> bool" where
  "is_executable_file os path =
     (case os_metadata os path of
        Some (is_file, mode) \<Rightarrow> is_file \<and> (os_unix os \<longrightarrow> mode AND 0x49 \<noteq> 0)
      | None \<Rightarrow> False)"

definition system_env :: "os_env \<Rightarrow> dap_env" where
  "system_env os =
     \<lparr>dv_var = os_var os,
      dv_look_path = (\<lambda>name. look_path_in (is_executable_file os) name (os_var os ''PATH'')),
      dv_path_exists = (\<lambda>path. case os_metadata os path of Some (is_file, _) \<Rightarrow> is_file | None \<Rightarrow> False),
      dv_xcrun = (case os_xcrun os of Some (True, out) \<Rightarrow> Some (utf8_lossy out) | _ \<Rightarrow> None),
      dv_is_macos = os_macos os\<rparr>"

definition find_lldb_dap :: "os_env \<Rightarrow> backend_error + detected" where
  "find_lldb_dap os = find_lldb_dap_with (system_env os)"

section \<open>The subprocess\<close>

definition spawn_args :: "bool \<Rightarrow> string list" where
  "spawn_args is_lldb_dap = (if is_lldb_dap then [''--repl-mode=command''] else [])"

definition DEFAULT_STDERR_CAP :: nat where
  "DEFAULT_STDERR_CAP = 4096"

record stderr_buffer =
  eb_inner :: string
  eb_size :: nat

definition stderr_new :: "nat \<Rightarrow> stderr_buffer" where
  "stderr_new cap = \<lparr>eb_inner = [], eb_size = (if cap = 0 then DEFAULT_STDERR_CAP else cap)\<rparr>"

definition stderr_write :: "string \<Rightarrow> stderr_buffer \<Rightarrow> nat \<times> stderr_buffer" where
  "stderr_write data b =
     (let n = length data; buf = eb_inner b @ data
      in if eb_size b \<le> n then (n, b\<lparr>eb_inner := drop (n - eb_size b) data\<rparr>)
         else if eb_size b < length buf then (n, b\<lparr>eb_inner := drop (length buf - eb_size b) buf\<rparr>)
         else (n, b\<lparr>eb_inner := buf\<rparr>))"

definition stderr_contents :: "stderr_buffer \<Rightarrow> string" where
  "stderr_contents b = utf8_lossy (eb_inner b)"

text \<open>The drain writes what each read gives, up to the end or an error.\<close>

fun stderr_drain :: "string option list \<Rightarrow> stderr_buffer \<Rightarrow> stderr_buffer" where
  "stderr_drain (Some chunk # reads) b =
     (if chunk = [] then b else stderr_drain reads (snd (stderr_write chunk b)))"
| "stderr_drain _ b = b"

text \<open>
  Starting the program: the system gives an error, or the three pipes, each of which may be missing.
  \<open>debug_path\<close> is the formatting \<open>{:?}\<close> of a path.
\<close>

record subprocess =
  sp_stdout :: string
  sp_stderr :: stderr_buffer
  sp_is_lldb_dap :: bool

record spawned =
  sd_stdin :: bool
  sd_stdout :: "string option"
  sd_stderr :: "string option list option"

definition spawn ::
  "(string \<Rightarrow> string) \<Rightarrow> (string \<Rightarrow> string list \<Rightarrow> string + spawned) \<Rightarrow> string \<Rightarrow> bool \<Rightarrow> backend_error + subprocess" where
  "spawn debug_path os path is_lldb_dap =
     (case os path (spawn_args is_lldb_dap) of
        Inl e \<Rightarrow> Inl (Spawn (''starting subprocess '' @ debug_path path @ '': '' @ e))
      | Inr child \<Rightarrow>
          if \<not> sd_stdin child then Inl (Spawn ''creating stdin pipe: no handle'')
          else case sd_stdout child of
                 None \<Rightarrow> Inl (Spawn ''creating stdout pipe: no handle'')
               | Some out \<Rightarrow>
                   (case sd_stderr child of
                      None \<Rightarrow> Inl (Spawn ''creating stderr pipe: no handle'')
                    | Some reads \<Rightarrow>
                        Inr \<lparr>sp_stdout = out, sp_stderr = stderr_drain reads (stderr_new DEFAULT_STDERR_CAP),
                             sp_is_lldb_dap = is_lldb_dap\<rparr>))"

definition last_bytes :: "nat \<Rightarrow> string \<Rightarrow> string" where
  "last_bytes n s = drop (length s - n) s"

lemma stderr_write_last:
  assumes "eb_inner b = last_bytes (eb_size b) s" "0 < eb_size b"
  shows "snd (stderr_write data b) = b\<lparr>eb_inner := last_bytes (eb_size b) (s @ data)\<rparr>"
proof (cases "length s \<le> eb_size b")
  case True
  then show ?thesis using assms by (cases b) (auto simp: stderr_write_def last_bytes_def Let_def)
next
  case False
  then show ?thesis using assms by (cases b) (auto simp: stderr_write_def last_bytes_def Let_def add.commute)
qed

end
