(* ===== verification/Lldb_Link.thy ===== *)
theory Lldb_Link
  imports Lldb_Backend Lldb_Detect Read_Loop
begin

text \<open>
  The LLDB backend on the transport: \<open>lldb-backend/src/factory.rs\<close>, and the surroundings of the
  backend made of the DAP client, the read loop and the stderr ring.

  While an operation awaits, the read loop runs.  What it meets is an oracle, a list of batches: at
  every await it takes the turns of one batch, and of the next as long as the await is not over; when
  the batches are used up, an await that is not over never ends.  A batch may go on past the message
  that ends the await, since the loop is a task of its own.  The faults are the outcomes of the writes,
  in order; a write past their end succeeds.
\<close>

datatype turn = Got dap_message | Transport_End wire_error

fun take_turn :: "turn \<Rightarrow> read_loop \<Rightarrow> read_loop" where
  "take_turn (Got m) rl = (if rl_running rl then dispatch_message m rl else rl)"
| "take_turn (Transport_End e) rl = (if rl_running rl then (recover e rl)\<lparr>rl_running := False\<rparr> else rl)"

record lldb_link =
  lk_loop :: read_loop
  lk_batches :: "turn list list"
  lk_faults :: "(nat \<times> string) option list"
  lk_stderr :: "stderr_buffer option"
  lk_child :: bool

abbreviation lk_shared :: "lldb_link \<Rightarrow> shared" where
  "lk_shared lk \<equiv> rl_shared (lk_loop lk)"

definition set_shared :: "shared \<Rightarrow> lldb_link \<Rightarrow> lldb_link" where
  "set_shared sh lk = lk\<lparr>lk_loop := (lk_loop lk)\<lparr>rl_shared := sh\<rparr>\<rparr>"

fun await_on :: "(read_loop \<Rightarrow> 'a option) \<Rightarrow> turn list list \<Rightarrow> read_loop \<Rightarrow> 'a option \<times> turn list list \<times> read_loop" where
  "await_on f [] rl = (f rl, [], rl)"
| "await_on f (b # bs) rl =
     (let rl' = fold take_turn b rl
      in case f rl' of Some a \<Rightarrow> (Some a, bs, rl') | None \<Rightarrow> await_on f bs rl')"

definition link_await :: "(shared \<Rightarrow> 'a option) \<Rightarrow> (lldb_link, 'a) await" where
  "link_await f lk =
     (let (r, bs, rl) = await_on (\<lambda>rl. f (rl_shared rl)) (lk_batches lk) (lk_loop lk)
      in (r, lk\<lparr>lk_batches := bs, lk_loop := rl\<rparr>))"

definition next_fault :: "lldb_link \<Rightarrow> (nat \<times> string) option \<times> lldb_link" where
  "next_fault lk =
     (case lk_faults lk of [] \<Rightarrow> (None, lk) | f # fs \<Rightarrow> (f, lk\<lparr>lk_faults := fs\<rparr>))"

definition link_send_async ::
  "(json \<Rightarrow> string) \<Rightarrow> request \<Rightarrow> (lldb_link, backend_error + sending) await" where
  "link_send_async to_vec r lk =
     (let (fault, lk1) = next_fault lk; (res, sh) = send_async to_vec fault r (lk_shared lk1)
      in (Some res, set_shared sh lk1))"

definition link_send :: "(json \<Rightarrow> string) \<Rightarrow> request \<Rightarrow> (lldb_link, backend_error + dap_message) await" where
  "link_send to_vec r = try_await (link_send_async to_vec r) (\<lambda>sd. link_await (send_result sd))"

fun received :: "'a oneshot \<Rightarrow> 'a option option" where
  "received Waiting = None"
| "received (Sent a) = Some (Some a)"
| "received Hung_up = Some None"

definition link_env :: "(json \<Rightarrow> string) \<Rightarrow> lldb_link lldb_env" where
  "link_env to_vec =
     \<lparr>le_send = link_send to_vec,
      le_send_async = link_send_async to_vec,
      le_reply = (\<lambda>sd. link_await (\<lambda>sh. received (sh_replies sh ! sd_channel sd))),
      le_wait_initialized = (\<lambda>lk. let (c, sh) = wait_initialized (lk_shared lk)
         in link_await (\<lambda>sh. if initialized_done c sh then Some () else None) (set_shared sh lk)),
      le_register_stop = (\<lambda>lk. let (c, sw) = sw_register (sh_stop_waiter (lk_shared lk))
         in (c, set_shared ((lk_shared lk)\<lparr>sh_stop_waiter := sw\<rparr>) lk)),
      le_await_stop = (\<lambda>c. link_await (\<lambda>sh. received (sw_channels (sh_stop_waiter sh) ! c))),
      le_stderr = (\<lambda>lk. map_option stderr_contents (lk_stderr lk)),
      le_take_child = (\<lambda>lk. (lk_child lk, lk\<lparr>lk_child := False\<rparr>)),
      le_kill_and_wait = ready ()\<rparr>"

section \<open>Connecting and the event stream\<close>

text \<open>
  The operating system starts the program with the arguments, or says why not; \<open>stdout\<close> is what the
  adapter will write.
\<close>

definition lldb_connect ::
  "dap_env \<Rightarrow> (string \<Rightarrow> string list \<Rightarrow> string option) \<Rightarrow> string \<Rightarrow> backend_error + (bool \<times> read_loop \<times> stderr_buffer)" where
  "lldb_connect env os stdout =
     (case find_lldb_dap_with env of
        Inl e \<Rightarrow> Inl e
      | Inr d \<Rightarrow>
          (case os (dt_path d) (spawn_args (dt_is_lldb_dap d)) of
             Some err \<Rightarrow> Inl (Spawn err)
           | None \<Rightarrow> Inr (dt_is_lldb_dap d, read_loop_new stdout shared_new, stderr_new DEFAULT_STDERR_CAP)))"

text \<open>
  The merge of the two channels, \<open>stream::select\<close>: any interleaving of the output chunks with the
  terminated event, when there is one.
\<close>

definition chunk_event :: "output_chunk \<Rightarrow> backend_event" where
  "chunk_event c = Ev_Output (oc_category c) (oc_text c)"

definition terminated_events :: "sinks \<Rightarrow> backend_event list" where
  "terminated_events sk = (case sk_signals sk ! 0 of Sent code \<Rightarrow> [Ev_Terminated code] | _ \<Rightarrow> [])"

definition lldb_event_streams :: "sinks \<Rightarrow> backend_event list set" where
  "lldb_event_streams sk = shuffles (map chunk_event (sk_output sk)) (terminated_events sk)"

section \<open>Awaiting on the transport\<close>

lemma await_on_keeps:
  assumes "await_on f bs rl = (r, bs', rl')" and "P rl" and "\<And>t rl. P rl \<Longrightarrow> P (take_turn t rl)"
  shows "P rl'"
proof -
  have fold: "P (fold take_turn b rl)" if "P rl" for b rl
    using that assms(3) by (induction b arbitrary: rl) auto
  from assms(1,2) show ?thesis
    by (induction f bs rl rule: await_on.induct) (auto simp: Let_def fold split: option.splits)
qed

text \<open>An await that never ends has seen every batch, and its condition does not hold at the end.\<close>

lemma await_on_never:
  "await_on f bs rl = (None, bs', rl') \<Longrightarrow> bs' = [] \<and> rl' = fold take_turn (concat bs) rl \<and> f rl' = None"
proof (induction f bs rl rule: await_on.induct)
  case (2 f b bs rl)
  then show ?case by (auto simp: Let_def split: option.splits)
qed simp

text \<open>An await ends when its condition, once true, stays true and is true after all batches.\<close>

lemma await_on_ends:
  assumes "f (fold take_turn (concat bs) rl) \<noteq> None"
  obtains a bs' rl' where "await_on f bs rl = (Some a, bs', rl')" "f rl' = Some a"
proof -
  obtain r bs' rl' where e: "await_on f bs rl = (r, bs', rl')" by (metis prod.exhaust)
  have "r \<noteq> None"
  proof
    assume "r = None"
    then have "rl' = fold take_turn (concat bs) rl" "f rl' = None" using await_on_never e by blast+
    then show False using assms by metis
  qed
  moreover have "\<And>a. r = Some a \<Longrightarrow> f rl' = Some a"
    using e by (induction f bs rl rule: await_on.induct) (auto simp: Let_def split: option.splits)
  ultimately show ?thesis using e that by blast
qed

end
