(* ===== verification/Lldb_Facts.thy ===== *)
theory Lldb_Facts
  imports Lldb_Link
begin

text \<open>
  What the proofs about the LLDB backend share: the requests an operation sends, compared with a
  script, and what the turns of the read loop do to the channels an operation awaits.
\<close>

section \<open>What is said\<close>

text \<open>
  What the handshakes make of the end of a request: whether they go on.  The answers to \<open>initialize\<close> and
  \<open>setFunctionBreakpoints\<close> must be successful responses, those to \<open>setBreakpoints\<close> carry its name as well; of every other
  request only a failure to send ends the handshake.
\<close>

fun fulfils :: "request \<Rightarrow> (backend_error + dap_message) option \<Rightarrow> bool" where
  "fulfils r (Some (Inr (DapResponse a))) \<longleftrightarrow>
     (if rq_command r = ''initialize'' \<or> rq_command r = ''setFunctionBreakpoints'' then rs_success a
      else rq_command r = ''setBreakpoints'' \<longrightarrow> rs_command a = ''setBreakpoints'' \<and> rs_success a)"
| "fulfils r (Some (Inr _)) \<longleftrightarrow> rq_command r \<notin> {''initialize'', ''setFunctionBreakpoints'', ''setBreakpoints''}"
| "fulfils r _ \<longleftrightarrow> False"

fun succeeded :: "('e + 'a) option \<Rightarrow> bool" where
  "succeeded (Some (Inr _)) = True"
| "succeeded _ = False"

text \<open>
  A recording of the surroundings: the same, with a list of the requests that were sent, each with whether it was
  fulfilled.
\<close>

type_synonym log = "(request \<times> bool) list"

definition recorded ::
  "request \<Rightarrow> ('a option \<Rightarrow> bool) \<Rightarrow> ('w, 'a) await \<Rightarrow> ('w \<times> log, 'a) await" where
  "recorded r fulfilled m wl = (let (x, w') = m (fst wl) in (x, (w', snd wl @ [(r, fulfilled x)])))"

definition unrecorded :: "('w, 'a) await \<Rightarrow> ('w \<times> 'l list, 'a) await" where
  "unrecorded m wl = (let (x, w') = m (fst wl) in (x, (w', snd wl)))"

definition recording :: "'w lldb_env \<Rightarrow> ('w \<times> log) lldb_env" where
  "recording env =
     \<lparr>le_send = (\<lambda>r. recorded r (fulfils r) (le_send env r)),
      le_send_async = (\<lambda>r. recorded r succeeded (le_send_async env r)),
      le_reply = (\<lambda>sd. unrecorded (le_reply env sd)),
      le_wait_initialized = unrecorded (le_wait_initialized env),
      le_register_stop = (\<lambda>wl. let (c, w') = le_register_stop env (fst wl) in (c, (w', snd wl))),
      le_await_stop = (\<lambda>c. unrecorded (le_await_stop env c)),
      le_stderr = (\<lambda>wl. le_stderr env (fst wl)),
      le_take_child = (\<lambda>wl. let (c, w') = le_take_child env (fst wl) in (c, (w', snd wl))),
      le_kill_and_wait = unrecorded (le_kill_and_wait env)\<rparr>"

text \<open>
  An operation and its recording agree, and the requests it sends are a part, from the start, of the
  script; all of them but the last were good, and when the operation succeeds it has sent the whole script and all were
  good.  What a list keeps of a request, and what is good, are parameters.
\<close>

definition speaks_for ::
  "('l \<Rightarrow> request) \<Rightarrow> ('l \<Rightarrow> bool) \<Rightarrow> ('w, 'e + 'a) await \<Rightarrow> ('w \<times> 'l list, 'e + 'a) await \<Rightarrow> request list \<Rightarrow> bool" where
  "speaks_for req good m n script \<longleftrightarrow>
     (\<forall>w sent. \<exists>said rest. n (w, sent) = (fst (m w), (snd (m w), sent @ said)) \<and> script = map req said @ rest \<and>
        list_all good (butlast said) \<and> (succeeded (fst (m w)) \<longrightarrow> rest = [] \<and> list_all good said))"

abbreviation speaks ::
  "('w, 'e + 'a) await \<Rightarrow> ('w \<times> request list, 'e + 'a) await \<Rightarrow> request list \<Rightarrow> bool" where
  "speaks \<equiv> speaks_for id (\<lambda>_. True)"

abbreviation speaks_well :: "('w, 'e + 'a) await \<Rightarrow> ('w \<times> log, 'e + 'a) await \<Rightarrow> request list \<Rightarrow> bool" where
  "speaks_well \<equiv> speaks_for fst snd"

definition silent :: "('w, 'a) await \<Rightarrow> ('w \<times> 'l list, 'a) await \<Rightarrow> bool" where
  "silent m n \<longleftrightarrow> (\<forall>w sent. n (w, sent) = (fst (m w), (snd (m w), sent)))"

lemma speaksE:
  assumes "speaks_for req good m n script"
  obtains said rest where "n (w, sent) = (fst (m w), (snd (m w), sent @ said))" "script = map req said @ rest"
    "list_all good (butlast said)" "succeeded (fst (m w)) \<longrightarrow> rest = [] \<and> list_all good said"
  using assms unfolding speaks_for_def by meson

lemma speaks_one:
  assumes "\<And>w sent. \<exists>x. n (w, sent) = (fst (m w), (snd (m w), sent @ [x])) \<and> req x = r \<and> (succeeded (fst (m w)) \<longrightarrow> good x)"
  shows "speaks_for req good m n [r]"
  unfolding speaks_for_def
proof (intro allI)
  fix w sent
  from assms [of w sent] obtain x where "n (w, sent) = (fst (m w), (snd (m w), sent @ [x]))" "req x = r"
      "succeeded (fst (m w)) \<longrightarrow> good x"
    by blast
  then show "\<exists>said rest. n (w, sent) = (fst (m w), snd (m w), sent @ said) \<and> [r] = map req said @ rest \<and>
      list_all good (butlast said) \<and> (succeeded (fst (m w)) \<longrightarrow> rest = [] \<and> list_all good said)"
    by (intro exI [of _ "[x]"] exI [of _ "[]"]) simp
qed

named_theorems speaks_rules

lemma silent_rules [speaks_rules]:
  "silent (le_reply env sd) (le_reply (recording env) sd)"
  "silent (le_wait_initialized env) (le_wait_initialized (recording env))"
  "silent (le_await_stop env c) (le_await_stop (recording env) c)"
  "silent (register_if env b) (register_if (recording env) b)"
  "silent (ready a) (ready a)"
  "silent (check_response env op failed_op msg) (check_response (recording env) op failed_op msg)"
  by (auto simp: silent_def recording_def unrecorded_def register_if_def ready_def check_response_def
      diagnostic_def stderr_snapshot_def case_prod_unfold Let_def split: dap_message.split option.split)

lemma speaks_silent: "silent m n \<Longrightarrow> speaks_for req good m n []"
  by (simp add: speaks_for_def silent_def)

lemma silent_awaiting [speaks_rules]:
  "silent m n \<Longrightarrow> (\<And>a. silent (f a) (g a)) \<Longrightarrow> silent (awaiting m f) (awaiting n g)"
  by (simp add: silent_def awaiting_def case_prod_unfold split: option.split)

lemma speaks_awaiting [speaks_rules]:
  assumes "silent m n" "\<And>a. speaks_for req good (f a) (g a) script"
  shows "speaks_for req good (awaiting m f) (awaiting n g) script"
  unfolding speaks_for_def
proof (intro allI)
  fix w sent
  have n: "n (w, sent) = (fst (m w), (snd (m w), sent))" using assms(1) by (simp add: silent_def)
  show "\<exists>said rest. awaiting n g (w, sent) = (fst (awaiting m f w), snd (awaiting m f w), sent @ said) \<and>
      script = map req said @ rest \<and> list_all good (butlast said) \<and>
      (succeeded (fst (awaiting m f w)) \<longrightarrow> rest = [] \<and> list_all good said)"
  proof (cases "fst (m w)")
    case None
    then show ?thesis by (intro exI [of _ "[]"] exI [of _ script]) (simp add: awaiting_def n case_prod_unfold)
  next
    case (Some a)
    from assms(2) [of a] obtain said rest where
      "g a (snd (m w), sent) = (fst (f a (snd (m w))), (snd (f a (snd (m w))), sent @ said))"
      "script = map req said @ rest" "list_all good (butlast said)"
      "succeeded (fst (f a (snd (m w)))) \<longrightarrow> rest = [] \<and> list_all good said"
      by (rule speaksE [where w = "snd (m w)" and sent = sent])
    then show ?thesis using Some by (intro exI [of _ said] exI [of _ rest]) (simp add: awaiting_def n case_prod_unfold)
  qed
qed

lemma speaks_try [speaks_rules]:
  assumes "speaks_for req good m n xs" "\<And>a. speaks_for req good (f a) (g a) ys"
  shows "speaks_for req good (try_await m f) (try_await n g) (xs @ ys)"
  unfolding speaks_for_def
proof (intro allI)
  fix w sent
  from assms(1) obtain said rest where n: "n (w, sent) = (fst (m w), (snd (m w), sent @ said))" "xs = map req said @ rest"
      "list_all good (butlast said)" "succeeded (fst (m w)) \<longrightarrow> rest = [] \<and> list_all good said"
    by (rule speaksE [where w = w and sent = sent])
  show "\<exists>said rest. try_await n g (w, sent) = (fst (try_await m f w), snd (try_await m f w), sent @ said) \<and>
      xs @ ys = map req said @ rest \<and> list_all good (butlast said) \<and>
      (succeeded (fst (try_await m f w)) \<longrightarrow> rest = [] \<and> list_all good said)"
  proof (cases "succeeded (fst (m w))")
    case True
    then obtain a where a: "fst (m w) = Some (Inr a)" by (cases "fst (m w)" rule: succeeded.cases) auto
    from assms(2) [of a] obtain said' rest' where
      "g a (snd (m w), sent @ said) = (fst (f a (snd (m w))), (snd (f a (snd (m w))), (sent @ said) @ said'))"
      "ys = map req said' @ rest'" "list_all good (butlast said')"
      "succeeded (fst (f a (snd (m w)))) \<longrightarrow> rest' = [] \<and> list_all good said'"
      by (rule speaksE [where w = "snd (m w)" and sent = "sent @ said"])
    then show ?thesis
      using a n by (intro exI [of _ "said @ said'"] exI [of _ rest'])
        (auto simp: try_await_def awaiting_def case_prod_unfold butlast_append)
  next
    case False
    then show ?thesis
      using n by (intro exI [of _ said] exI [of _ "rest @ ys"], cases "fst (m w)" rule: succeeded.cases)
        (simp_all add: try_await_def awaiting_def ready_def case_prod_unfold)
  qed
qed

lemma succeeded_map: "succeeded (map_option (map_sum f id) r) = succeeded r"
  by (cases r rule: succeeded.cases) auto

lemma with_err_run: "with_err f m w = (map_option (map_sum f id) (fst (m w)), snd (m w))"
  by (simp add: with_err_def awaiting_def ready_def case_prod_unfold split: option.split)

lemma speaks_with_err [speaks_rules]:
  assumes "speaks_for req good m n xs" shows "speaks_for req good (with_err f m) (with_err f n) xs"
  unfolding speaks_for_def
proof (intro allI)
  fix w sent
  from assms obtain said rest where "n (w, sent) = (fst (m w), (snd (m w), sent @ said))" "xs = map req said @ rest"
      "list_all good (butlast said)" "succeeded (fst (m w)) \<longrightarrow> rest = [] \<and> list_all good said"
    by (rule speaksE [where w = w and sent = sent])
  then show "\<exists>said rest. with_err f n (w, sent) = (fst (with_err f m w), snd (with_err f m w), sent @ said) \<and>
      xs = map req said @ rest \<and> list_all good (butlast said) \<and>
      (succeeded (fst (with_err f m w)) \<longrightarrow> rest = [] \<and> list_all good said)"
    by (intro exI [of _ said] exI [of _ rest]) (simp add: with_err_run succeeded_map)
qed

lemma speaks_each [speaks_rules]:
  "(\<And>x. speaks_for req good (f x) (g x) (s x)) \<Longrightarrow>
   speaks_for req good (try_each f xs) (try_each g xs) (concat (map s xs))"
  by (induction xs) (auto intro: speaks_rules speaks_silent)

text \<open>A last part that sends nothing.\<close>

lemma speaks_end:
  "speaks_for req good m n xs \<Longrightarrow> (\<And>a. silent (f a) (g a)) \<Longrightarrow> speaks_for req good (try_await m f) (try_await n g) xs"
  using speaks_try [of req good m n xs f g "[]"] speaks_silent by fastforce

lemma silent_try [speaks_rules]:
  assumes "silent m n" "\<And>a. silent (f a) (g a)"
  shows "silent (try_await m f) (try_await n g)"
proof -
  have "silent (case r of Inl e \<Rightarrow> ready (Inl e) | Inr a \<Rightarrow> f a) (case r of Inl e \<Rightarrow> ready (Inl e) | Inr a \<Rightarrow> g a)" for r
    using assms(2) silent_rules(5) by (cases r) simp_all
  then show ?thesis unfolding try_await_def by (intro silent_awaiting assms(1))
qed

text \<open>One request of the script, with its checks: the operation succeeds exactly when the request was fulfilled.\<close>

lemmas request_runs = try_await_def awaiting_def with_err_def ready_def check_response_def recording_def recorded_def
  diagnostic_def stderr_snapshot_def

lemma speaks_checked:
  assumes "rq_command r = ''initialize'' \<or> rq_command r = ''setFunctionBreakpoints''"
  shows "speaks_well
    (try_await (with_err f (le_send env r)) (\<lambda>msg. try_await (check_response env op op msg) (\<lambda>_. ready (Inr ()))))
    (try_await (with_err f (le_send (recording env) r))
      (\<lambda>msg. try_await (check_response (recording env) op op msg) (\<lambda>_. ready (Inr ())))) [r]"
proof (rule speaks_one)
  fix w sent
  obtain x w' where x: "le_send env r w = (x, w')" by (rule prod.exhaust)
  show "\<exists>y. try_await (with_err f (le_send (recording env) r))
        (\<lambda>msg. try_await (check_response (recording env) op op msg) (\<lambda>_. ready (Inr ()))) (w, sent) =
      (fst (try_await (with_err f (le_send env r)) (\<lambda>msg. try_await (check_response env op op msg) (\<lambda>_. ready (Inr ()))) w),
       snd (try_await (with_err f (le_send env r)) (\<lambda>msg. try_await (check_response env op op msg) (\<lambda>_. ready (Inr ()))) w),
       sent @ [y]) \<and> fst y = r \<and>
      (succeeded (fst (try_await (with_err f (le_send env r))
         (\<lambda>msg. try_await (check_response env op op msg) (\<lambda>_. ready (Inr ()))) w)) \<longrightarrow> snd y)"
    using assms
    by (intro exI [of _ "(r, fulfils r x)"], cases "(r, x)" rule: fulfils.cases) (auto simp: request_runs x)
qed

lemma speaks_send_only: 
  assumes "rq_command r \<notin> {''initialize'', ''setFunctionBreakpoints'', ''setBreakpoints''}"
  shows "speaks_well (send_only env what r) (send_only (recording env) what r) [r]"
proof (rule speaks_one)
  fix w sent
  obtain x w' where x: "le_send env r w = (x, w')" by (rule prod.exhaust)
  show "\<exists>y. send_only (recording env) what r (w, sent) =
      (fst (send_only env what r w), snd (send_only env what r w), sent @ [y]) \<and> fst y = r \<and>
      (succeeded (fst (send_only env what r w)) \<longrightarrow> snd y)"
    using assms
    by (intro exI [of _ "(r, fulfils r x)"], cases "(r, x)" rule: fulfils.cases) (auto simp: send_only_def request_runs x)
qed

lemma speaks_async: "speaks_well (le_send_async env r) (le_send_async (recording env) r) [r]"
proof (rule speaks_one)
  fix w sent
  obtain x w' where x: "le_send_async env r w = (x, w')" by (rule prod.exhaust)
  show "\<exists>y. le_send_async (recording env) r (w, sent) =
      (fst (le_send_async env r w), snd (le_send_async env r w), sent @ [y]) \<and> fst y = r \<and>
      (succeeded (fst (le_send_async env r w)) \<longrightarrow> snd y)"
    by (intro exI [of _ "(r, succeeded x)"]) (simp add: request_runs x)
qed

lemma speaks_file:
  "speaks_well (send_checked_breakpoints_for_file env f bs) (send_checked_breakpoints_for_file (recording env) f bs)
     [rq_set_breakpoints f bs]"
proof (rule speaks_one)
  fix w sent
  let ?r = "rq_set_breakpoints f bs"
  obtain x w' where x: "le_send env ?r w = (x, w')" by (rule prod.exhaust)
  have command: "rq_command ?r = ''setBreakpoints''" by (simp add: rq_set_breakpoints_def request_new_def)
  show "\<exists>y. send_checked_breakpoints_for_file (recording env) f bs (w, sent) =
      (fst (send_checked_breakpoints_for_file env f bs w), snd (send_checked_breakpoints_for_file env f bs w), sent @ [y]) \<and>
      fst y = ?r \<and> (succeeded (fst (send_checked_breakpoints_for_file env f bs w)) \<longrightarrow> snd y)"
    by (intro exI [of _ "(?r, fulfils ?r x)"], cases "(?r, x)" rule: fulfils.cases)
      (auto simp: send_checked_breakpoints_for_file_def request_runs x command)
qed

lemma speaks_parts:
  "speaks_well (lb_initialize env) (lb_initialize (recording env)) [rq_initialize]"
  "speaks_well (flush_functions_request env bps) (flush_functions_request (recording env) bps)
     (if bps = [] then [] else [rq_set_function_breakpoints bps])"
  "speaks_well (send_only env what rq_set_exception_breakpoints)
     (send_only (recording env) what rq_set_exception_breakpoints) [rq_set_exception_breakpoints]"
  "speaks_well (send_only env what rq_configuration_done)
     (send_only (recording env) what rq_configuration_done) [rq_configuration_done]"
proof -
  show "speaks_well (lb_initialize env) (lb_initialize (recording env)) [rq_initialize]"
    unfolding lb_initialize_def by (rule speaks_checked) (simp add: rq_initialize_def request_new_def)
  show "speaks_well (flush_functions_request env bps) (flush_functions_request (recording env) bps)
     (if bps = [] then [] else [rq_set_function_breakpoints bps])"
  proof (cases "bps = []")
    case True
    then show ?thesis by (simp add: flush_functions_request_def speaks_silent silent_rules(5))
  next
    case False
    then show ?thesis
      unfolding flush_functions_request_def
      by (simp, intro speaks_checked) (simp add: rq_set_function_breakpoints_def request_new_def)
  qed
qed (rule speaks_send_only; simp add: rq_set_exception_breakpoints_def rq_configuration_done_def request_new_def)+

lemma silent_deferred: "silent (deferred_reply env what rx) (deferred_reply (recording env) what rx)"
  unfolding deferred_reply_def by (intro silent_try silent_awaiting silent_rules)

definition launch_script :: "launch_spec \<Rightarrow> request list" where
  "launch_script spec =
     [rq_initialize] @
     [rq_launch (launch_args_to_value (lldb_launch_args_new (ls_program spec) (ls_args spec) (ls_cwd spec)
        (ls_env spec) (ls_stop_on_entry spec)))] @
     concat (map (\<lambda>(file, bps). [rq_set_breakpoints file bps]) (ls_source_breakpoints spec)) @
     (if ls_function_breakpoints spec = [] then [] else [rq_set_function_breakpoints (ls_function_breakpoints spec)]) @
     [rq_set_exception_breakpoints] @ [rq_configuration_done]"

lemma speaks_launch: "speaks_well (run_launch env spec) (run_launch (recording env) spec) (launch_script spec)"
proof -
  have last: "silent (case waiter of Some rx \<Rightarrow> awaiting (le_await_stop env rx) (\<lambda>s. ready (Inr (launch_stop s)))
                | None \<Rightarrow> ready (Inr LO_Running))
       (case waiter of Some rx \<Rightarrow> awaiting (le_await_stop (recording env) rx) (\<lambda>s. ready (Inr (launch_stop s)))
                | None \<Rightarrow> ready (Inr LO_Running))" for waiter
    by (cases waiter) (auto intro: speaks_rules)
  have files: "speaks_well (case fb of (file, bps) \<Rightarrow> send_checked_breakpoints_for_file env file bps)
      (case fb of (file, bps) \<Rightarrow> send_checked_breakpoints_for_file (recording env) file bps)
      (case fb of (file, bps) \<Rightarrow> [rq_set_breakpoints file bps])" for fb
    by (cases fb) (simp add: speaks_file)
  show ?thesis
    unfolding run_launch_def launch_script_def
    by (rule speaks_try [OF speaks_parts(1)], rule speaks_try [OF speaks_with_err [OF speaks_async]],
        rule speaks_awaiting [OF silent_rules(2)], rule speaks_try [OF speaks_each [OF files]],
        rule speaks_try [OF speaks_parts(2)], rule speaks_try [OF speaks_parts(3)],
        rule speaks_awaiting [OF silent_rules(4)], rule speaks_end [OF speaks_parts(4)],
        rule silent_try [OF silent_deferred last])
qed

definition attach_script :: "attach_spec \<Rightarrow> request list" where
  "attach_script spec =
     [rq_initialize] @ [rq_attach (attach_args_to_value (lldb_attach_args_new (as_pid spec) (as_wait_for spec)))] @
     [rq_set_exception_breakpoints] @ [rq_configuration_done]"

lemma speaks_attach: "speaks_well (run_attach env spec) (run_attach (recording env) spec) (attach_script spec)"
proof -
  have last: "silent (\<lambda>w. case le_register_stop env w of (rx, w') \<Rightarrow>
          awaiting (le_await_stop env rx) (\<lambda>s. ready (Inr (attach_stop s))) w')
       (\<lambda>w. case le_register_stop (recording env) w of (rx, w') \<Rightarrow>
          awaiting (le_await_stop (recording env) rx) (\<lambda>s. ready (Inr (attach_stop s))) w')"
    by (auto simp: silent_def recording_def unrecorded_def awaiting_def ready_def case_prod_unfold Let_def
        split: option.split)
  show ?thesis
    unfolding run_attach_def attach_script_def
    by (rule speaks_try [OF speaks_parts(1)], rule speaks_try [OF speaks_with_err [OF speaks_async]],
        rule speaks_awaiting [OF silent_rules(2)], rule speaks_try [OF speaks_parts(3)],
        rule speaks_end [OF speaks_parts(4)], rule silent_try [OF silent_deferred last])
qed

section \<open>What the read loop does while an operation awaits\<close>

lemma await_on_prefix:
  "await_on f bs rl = (r, bs', rl') \<Longrightarrow> \<exists>pre. bs = pre @ bs' \<and> rl' = fold take_turn (concat pre) rl"
proof (induction f bs rl rule: await_on.induct)
  case (2 f b bs rl)
  show ?case
  proof (cases "f (fold take_turn b rl)")
    case None
    then obtain pre where "bs = pre @ bs'" "rl' = fold take_turn (concat pre) (fold take_turn b rl)"
      using 2 by (auto simp: Let_def)
    then show ?thesis by (intro exI [of _ "b # pre"]) simp
  next
    case (Some x)
    then show ?thesis using 2 by (intro exI [of _ "[b]"]) (simp add: Let_def)
  qed
qed simp

text \<open>Entries of the pending table are only taken out, and the stop waiter only answers.\<close>

lemma take_turn_pending:
  "set (sh_pending (rl_shared (take_turn t rl))) \<subseteq> set (sh_pending (rl_shared rl))"
proof (cases "rl_running rl")
  case True
  show ?thesis
  proof (cases t)
    case (Transport_End e)
    then show ?thesis by (simp add: recover_def on_stop_waiter_def cancel_all_pending_def Let_def)
  next
    case (Got m)
    have "set (sh_pending (rl_shared (dispatch_message m rl))) \<subseteq> set (sh_pending (rl_shared rl))"
      by (auto simp: dispatch_message_def dispatch_event_def on_stop_waiter_def dispatch_response_def
          remove_pending_def signal_initialized_def log_no_waiter_def log_unhandled_def log_informational_def
          log_line_def Let_def AList.delete_eq
          split: dap_message.splits dap_event.splits option.splits if_splits)
    then show ?thesis using Got by simp
  qed
qed (cases t; simp)

text \<open>The first outcome a registered waiter gets.\<close>

fun turn_stop :: "turn \<Rightarrow> stop_outcome option" where
  "turn_stop (Got (DapEvent (StoppedEvent b))) = Some (SO_Stopped (stop_info_from_event b))"
| "turn_stop (Got (DapEvent (ExitedEvent code))) = Some (SO_Exited (Some code))"
| "turn_stop (Got (DapEvent TerminatedEvent)) = Some SO_Terminated"
| "turn_stop (Got _) = None"
| "turn_stop (Transport_End e) = Some SO_Terminated"

fun first_stop :: "turn list \<Rightarrow> stop_outcome option" where
  "first_stop [] = None"
| "first_stop (t # ts) = (case turn_stop t of Some o' \<Rightarrow> Some o' | None \<Rightarrow> first_stop ts)"

abbreviation stop_waiter_of :: "read_loop \<Rightarrow> stop_waiter" where
  "stop_waiter_of rl \<equiv> sh_stop_waiter (rl_shared rl)"

lemma take_turn_stop:
  assumes "rl_running rl"
  shows "stop_waiter_of (take_turn t rl) =
    (case turn_stop t of Some o' \<Rightarrow> sw_send o' (stop_waiter_of rl) | None \<Rightarrow> stop_waiter_of rl)"
  using assms
  by (cases t rule: turn_stop.cases)
    (auto simp: dispatch_message_def dispatch_event_def on_stop_waiter_def dispatch_response_def
      remove_pending_def signal_initialized_def log_no_waiter_def log_unhandled_def log_informational_def
      log_line_def recover_def cancel_all_pending_def sw_deliver_def sw_deliver_exit_def sw_cancel_def Let_def
      split: option.splits if_splits)

lemma take_turn_stopped: "\<not> rl_running rl \<Longrightarrow> take_turn t rl = rl"
  by (cases t) simp_all

lemma take_turns_stopped: "\<not> rl_running rl \<Longrightarrow> fold take_turn ts rl = rl"
  by (induction ts) (simp_all add: take_turn_stopped)

lemma take_turns_slot_free:
  "sw_slot (stop_waiter_of rl) = None \<Longrightarrow> stop_waiter_of (fold take_turn ts rl) = stop_waiter_of rl"
proof (induction ts arbitrary: rl)
  case (Cons t ts)
  have "stop_waiter_of (take_turn t rl) = stop_waiter_of rl"
    using Cons.prems
    by (cases "rl_running rl") (auto simp: take_turn_stop take_turn_stopped sw_send_def split: option.splits)
  then show ?case using Cons by simp
qed simp

lemma take_turn_running: "rl_running (take_turn t rl) \<longleftrightarrow> rl_running rl \<and> (\<forall>e. t \<noteq> Transport_End e)"
  by (cases t) simp_all

lemma take_turns_stop:
  "rl_running rl \<Longrightarrow> sw_slot (stop_waiter_of rl) = Some k \<Longrightarrow> k < length (sw_channels (stop_waiter_of rl)) \<Longrightarrow>
   sw_channels (stop_waiter_of rl) ! k = Waiting \<Longrightarrow> first_stop ts = Some o' \<Longrightarrow>
   sw_channels (stop_waiter_of (fold take_turn ts rl)) ! k = Sent o'"
proof (induction ts arbitrary: rl)
  case (Cons t ts)
  show ?case
  proof (cases "turn_stop t")
    case None
    then have "rl_running (take_turn t rl)" "stop_waiter_of (take_turn t rl) = stop_waiter_of rl"
      using Cons.prems by (auto simp: take_turn_running take_turn_stop)
    then show ?thesis using Cons.IH [of "take_turn t rl"] Cons.prems None by simp
  next
    case (Some s)
    then have sw: "stop_waiter_of (take_turn t rl) = sw_send o' (stop_waiter_of rl)"
      using Cons.prems by (simp add: take_turn_stop)
    then have "stop_waiter_of (fold take_turn ts (take_turn t rl)) = sw_send o' (stop_waiter_of rl)"
      using Cons.prems(2) take_turns_slot_free [of "take_turn t rl" ts] by (simp add: sw_send_def)
    then show ?thesis using Cons.prems by (simp add: sw_send_def settle_def)
  qed
qed simp

text \<open>The turns are steps on the shared state, so that a settled channel stays as it is.\<close>

lemma take_turns_steps: "(shared_step to_vec)\<^sup>*\<^sup>* (rl_shared rl) (rl_shared (fold take_turn ts rl))"
proof (induction ts arbitrary: rl)
  case (Cons t ts)
  have "(shared_step to_vec)\<^sup>*\<^sup>* (rl_shared rl) (rl_shared (take_turn t rl))"
    by (cases t) (auto intro: dispatch_shared recover_shared)
  then show ?case using Cons.IH [of "take_turn t rl"] by simp
qed simp

fun answer_turn :: "i64 \<Rightarrow> turn \<Rightarrow> bool" where
  "answer_turn s (Got (DapResponse r)) = (rs_request_seq r = s)"
| "answer_turn s (Got _) = False"
| "answer_turn s (Transport_End _) = True"

lemma take_turns_pending:
  "set (sh_pending (rl_shared (fold take_turn ts rl))) \<subseteq> set (sh_pending (rl_shared rl))"
  by (induction ts arbitrary: rl) (use take_turn_pending in \<open>fastforce+\<close>)

lemma take_turn_answer:
  "answer_turn s t \<Longrightarrow> rl_running rl \<Longrightarrow> s \<notin> fst ` set (sh_pending (rl_shared (take_turn t rl)))"
  by (cases t rule: turn_stop.cases)
    (auto simp: dispatch_message_def dispatch_response_def remove_pending_def log_no_waiter_def log_line_def
      recover_def on_stop_waiter_def cancel_all_pending_def Let_def AList.delete_eq split: option.splits)

lemma take_turns_answer:
  "\<exists>t \<in> set ts. answer_turn s t \<Longrightarrow> rl_running rl \<Longrightarrow>
   s \<notin> fst ` set (sh_pending (rl_shared (fold take_turn ts rl)))"
proof (induction ts arbitrary: rl)
  case (Cons t ts)
  show ?case
  proof (cases "answer_turn s t")
    case True
    then show ?thesis
      using take_turn_answer [OF True Cons.prems(2)] take_turns_pending [of ts "take_turn t rl"] by auto
  next
    case False
    then have "rl_running (take_turn t rl)" using Cons.prems(2) by (cases t) auto
    then show ?thesis using Cons.IH [of "take_turn t rl"] Cons.prems False by simp
  qed
qed simp

lemma take_turns_answered:
  assumes "pending_inv (rl_shared rl)" "rl_running rl" "(s, c) \<in> set (sh_pending (rl_shared rl))"
    and "\<exists>t \<in> set ts. answer_turn s t"
  shows "sh_replies (rl_shared (fold take_turn ts rl)) ! c \<noteq> Waiting"
proof
  let ?e = "rl_shared (fold take_turn ts rl)"
  note steps = take_turns_steps [of "\<lambda>_. []" rl ts]
  assume w: "sh_replies ?e ! c = Waiting"
  have inj: "distinct (map snd (sh_pending (rl_shared rl)))" and "c \<in> waiting (sh_replies (rl_shared rl))"
    using assms(1,3) by (auto simp: pending_inv_def pending_senders_def wired_def image_iff) force
  then have "c < length (sh_replies (rl_shared rl))" by (simp add: waiting_less)
  then have len: "c < length (sh_replies ?e)"
    using replies.steps_extends [OF steps] by (simp add: extends_def)
  have "c \<in> set (pending_senders ?e)"
    by (rule replies.waiting_has_sender [OF replies.steps_inv [OF steps assms(1)] len w])
  then obtain s' where s': "(s', c) \<in> set (sh_pending ?e)" by (auto simp: pending_senders_def)
  then have "(s', c) \<in> set (sh_pending (rl_shared rl))" using take_turns_pending by blast
  then have "s' = s" using inj assms(3) unfolding distinct_map inj_on_def by (metis prod.inject snd_conv)
  then show False using s' take_turns_answer [OF assms(4,2)] by force
qed

text \<open>An await that is answered by the turns ends, and the turns of what is left lead to the same end.\<close>

lemma link_await_ends:
  assumes "f (rl_shared (fold take_turn (concat (lk_batches lk)) (lk_loop lk))) \<noteq> None"
  obtains a bs rl pre where "link_await f lk = (Some a, lk\<lparr>lk_batches := bs, lk_loop := rl\<rparr>)"
    "f (rl_shared rl) = Some a" "lk_batches lk = pre @ bs" "rl = fold take_turn (concat pre) (lk_loop lk)"
proof -
  let ?f = "\<lambda>rl. f (rl_shared rl)"
  obtain a bs rl where e: "await_on ?f (lk_batches lk) (lk_loop lk) = (Some a, bs, rl)" and "f (rl_shared rl) = Some a"
    by (rule await_on_ends [of ?f "lk_batches lk" "lk_loop lk"]) (use assms in auto)
  moreover have "link_await f lk = (Some a, lk\<lparr>lk_batches := bs, lk_loop := rl\<rparr>)"
    by (simp add: link_await_def e)
  ultimately show ?thesis using await_on_prefix [OF e] that by blast
qed

lemma await_on_blocked:
  assumes "P rl" "\<And>t rl. t \<in> set (concat bs) \<Longrightarrow> P rl \<Longrightarrow> P (take_turn t rl)" "\<And>rl. P rl \<Longrightarrow> f rl = None"
  shows "fst (await_on f bs rl) = None"
  using assms
proof (induction f bs rl rule: await_on.induct)
  case (2 f b bs rl)
  have "P (fold take_turn b rl)" using "2.prems"(1,2) by (induction b arbitrary: rl) auto
  moreover from this have "f (fold take_turn b rl) = None" by (rule "2.prems"(3))
  ultimately show ?case using 2 by (simp add: Let_def)
qed simp

text \<open>Without an end of the transport a reply is a message.\<close>

lemma take_turn_reply:
  assumes "\<forall>e. t \<noteq> Transport_End e"
  shows "sh_replies (rl_shared (take_turn t rl)) ! c = sh_replies (rl_shared rl) ! c \<or>
    (\<exists>m. sh_replies (rl_shared (take_turn t rl)) ! c = Sent (Inr m))"
  using assms
  by (cases t rule: turn_stop.cases)
    (auto simp: dispatch_message_def dispatch_event_def on_stop_waiter_def dispatch_response_def
      remove_pending_def signal_initialized_def log_no_waiter_def log_unhandled_def log_informational_def
      log_line_def settle_def nth_list_update Let_def split: option.splits)

lemma take_turns_reply:
  "\<forall>t \<in> set ts. \<forall>e. t \<noteq> Transport_End e \<Longrightarrow>
   sh_replies (rl_shared (fold take_turn ts rl)) ! c = sh_replies (rl_shared rl) ! c \<or>
   (\<exists>m. sh_replies (rl_shared (fold take_turn ts rl)) ! c = Sent (Inr m))"
proof (induction ts arbitrary: rl)
  case (Cons t ts)
  from Cons.prems have "\<forall>e. t \<noteq> Transport_End e" "\<forall>t \<in> set ts. \<forall>e. t \<noteq> Transport_End e" by simp_all
  from take_turn_reply [OF this(1), of rl c] Cons.IH [OF this(2), of "take_turn t rl"] show ?case by fastforce
qed simp

text \<open>A send whose write succeeds, and the state in which it awaits its reply.\<close>

lemma link_send_async_ok:
  assumes "lk_faults lk = []" "pending_inv (lk_shared lk)"
  obtains sd sh where "link_send_async to_vec r lk = (Some (Inr sd), set_shared sh lk)"
    "pending_inv sh" "(sd_seq sd, sd_channel sd) \<in> set (sh_pending sh)"
    "sd_seq sd = wrap_i64 (sh_seq (lk_shared lk) + 1)" "sh_replies sh ! sd_channel sd = Waiting"
    "sh_stop_waiter sh = sh_stop_waiter (lk_shared lk)" "sh_initialized sh = sh_initialized (lk_shared lk)"
proof -
  obtain s sh1 where n: "next_seq (lk_shared lk) = (s, sh1)" by (rule prod.exhaust)
  obtain c sh2 where c: "register_pending s sh1 = (c, sh2)" by (rule prod.exhaust)
  let ?sd = "\<lparr>sd_seq = s, sd_channel = c, sd_request = request_set_seq s r\<rparr>"
  let ?sh = "sh2\<lparr>sh_out := write_message to_vec (request_json (request_set_seq s r)) (sh_out sh2)\<rparr>"
  have "pending_inv sh1" using n assms(2) by (auto simp: next_seq_def pending_inv_def pending_senders_def Let_def)
  then have "pending_inv sh2" using pending_inv_register [OF c] by simp
  then have "pending_inv ?sh" by (simp add: pending_inv_def pending_senders_def)
  moreover have "link_send_async to_vec r lk = (Some (Inr ?sd), set_shared ?sh lk)"
    by (simp add: link_send_async_def next_fault_def assms(1) send_async_def send_begin_def send_write_def
        write_request_def n c Let_def)
  ultimately show ?thesis
    using n c by (intro that [of ?sd ?sh]) (auto simp: next_seq_def register_pending_def nth_append Let_def)
qed

text \<open>A send whose answer is among the turns returns; what is left of them leads to the same end.\<close>

lemma link_send_answered:
  assumes "lk_faults lk = []" "pending_inv (lk_shared lk)" "rl_running (lk_loop lk)"
    and "\<exists>t \<in> set (concat (lk_batches lk)). answer_turn (wrap_i64 (sh_seq (lk_shared lk) + 1)) t"
  obtains a lk' sh where "link_send to_vec r lk = (Some a, lk')"
    "\<forall>e. Transport_End e \<notin> set (concat (lk_batches lk)) \<Longrightarrow> \<exists>m. a = Inr m"
    "sh_stop_waiter sh = sh_stop_waiter (lk_shared lk)"
    "fold take_turn (concat (lk_batches lk')) (lk_loop lk') =
       fold take_turn (concat (lk_batches lk)) ((lk_loop lk)\<lparr>rl_shared := sh\<rparr>)"
    "extends (sw_channels (sh_stop_waiter (lk_shared lk))) (sw_channels (sh_stop_waiter (lk_shared lk')))"
proof -
  obtain sd sh where send: "link_send_async to_vec r lk = (Some (Inr sd), set_shared sh lk)"
      "pending_inv sh" "(sd_seq sd, sd_channel sd) \<in> set (sh_pending sh)"
      "sd_seq sd = wrap_i64 (sh_seq (lk_shared lk) + 1)" "sh_replies sh ! sd_channel sd = Waiting"
      "sh_stop_waiter sh = sh_stop_waiter (lk_shared lk)"
    by (rule link_send_async_ok [OF assms(1,2), of to_vec r]) blast
  let ?lk = "set_shared sh lk" and ?ts = "concat (lk_batches lk)"
  have lk: "lk_batches ?lk = lk_batches lk" "lk_loop ?lk = (lk_loop lk)\<lparr>rl_shared := sh\<rparr>" "lk_shared ?lk = sh"
    by (simp_all add: set_shared_def)
  have "sh_replies (rl_shared (fold take_turn ?ts (lk_loop ?lk))) ! sd_channel sd \<noteq> Waiting"
    using take_turns_answered [of "lk_loop ?lk" "sd_seq sd" "sd_channel sd" ?ts] send(2,3,4) lk assms(3,4) by simp
  then have e: "send_result sd (rl_shared (fold take_turn (concat (lk_batches ?lk)) (lk_loop ?lk))) \<noteq> None"
    by (simp add: lk(1) send_result_def split: oneshot.split)
  obtain a bs rl pre where res: "link_await (send_result sd) ?lk = (Some a, ?lk\<lparr>lk_batches := bs, lk_loop := rl\<rparr>)"
      "send_result sd (rl_shared rl) = Some a" "lk_batches ?lk = pre @ bs" "rl = fold take_turn (concat pre) (lk_loop ?lk)"
    by (rule link_await_ends [where f = "send_result sd" and lk = ?lk, OF e])
  have msg: "\<exists>m. a = Inr m" if "\<forall>e. Transport_End e \<notin> set ?ts"
  proof -
    have "\<forall>t \<in> set (concat pre). \<forall>e. t \<noteq> Transport_End e" using that res(3) lk(1) by auto
    from take_turns_reply [OF this, of "lk_loop ?lk" "sd_channel sd"]
    have "sh_replies (rl_shared rl) ! sd_channel sd = Waiting \<or> (\<exists>m. sh_replies (rl_shared rl) ! sd_channel sd = Sent (Inr m))"
      using res(4) send(5) lk(3) by simp
    then show ?thesis using res(2) by (auto simp: send_result_def)
  qed
  have "extends (sw_channels (sh_stop_waiter sh)) (sw_channels (stop_waiter_of rl))"
    using sw.steps_extends [OF shared_steps_stop_waiter [OF take_turns_steps [of "\<lambda>_. []" "lk_loop ?lk" "concat pre"]]]
      res(4) lk(3) by simp
  moreover have "link_send to_vec r lk = (Some a, ?lk\<lparr>lk_batches := bs, lk_loop := rl\<rparr>)"
    using send(1) res(1) by (simp add: link_send_def try_await_def awaiting_def)
  ultimately show ?thesis
    using that [of a _ sh] msg send(6) res(3,4) lk(1,2) by simp
qed

text \<open>The stop that is there at the end is the one the await yields.\<close>

lemma link_await_stop:
  assumes "sw_channels (stop_waiter_of (fold take_turn (concat (lk_batches lk)) (lk_loop lk))) ! k = Sent o'"
    and "k < length (sw_channels (sh_stop_waiter (lk_shared lk)))"
  shows "fst (link_await (\<lambda>sh. received (sw_channels (sh_stop_waiter sh) ! k)) lk) = Some (Some o')"
proof -
  let ?f = "\<lambda>sh. received (sw_channels (sh_stop_waiter sh) ! k)"
  have e: "?f (rl_shared (fold take_turn (concat (lk_batches lk)) (lk_loop lk))) \<noteq> None" using assms(1) by simp
  obtain b bs rl pre where q: "link_await ?f lk = (Some b, lk\<lparr>lk_batches := bs, lk_loop := rl\<rparr>)"
      "?f (rl_shared rl) = Some b" "lk_batches lk = pre @ bs" "rl = fold take_turn (concat pre) (lk_loop lk)"
    by (rule link_await_ends [where f = ?f and lk = lk, OF e])
  note steps = shared_steps_stop_waiter [OF take_turns_steps [of "\<lambda>_. []"]]
  have "k < length (sw_channels (stop_waiter_of rl))"
    using sw.steps_extends [OF steps [of "lk_loop lk" "concat pre"]] q(4) assms(2) by (simp add: extends_def)
  moreover have "sw_channels (stop_waiter_of rl) ! k \<noteq> Waiting" using q(2) by auto
  ultimately have "sw_channels (stop_waiter_of (fold take_turn (concat bs) rl)) ! k = sw_channels (stop_waiter_of rl) ! k"
    using sw.answer_is_final [OF steps [of rl "concat bs"]] by simp
  then have "sw_channels (stop_waiter_of rl) ! k = Sent o'" using assms(1) q(3,4) by simp
  then show ?thesis using q(1,2) by simp
qed

text \<open>The signal that never comes.\<close>

lemma take_turn_initialized:
  "t \<noteq> Got (DapEvent Initialized) \<Longrightarrow> sh_initialized (rl_shared (take_turn t rl)) = sh_initialized (rl_shared rl)"
  by (cases t rule: turn_stop.cases)
    (auto simp: dispatch_message_def dispatch_event_def on_stop_waiter_def dispatch_response_def
      remove_pending_def log_no_waiter_def log_unhandled_def log_informational_def log_line_def recover_def
      cancel_all_pending_def Let_def split: option.splits dap_event.splits)

lemma take_turns_initialized:
  "Got (DapEvent Initialized) \<notin> set ts \<Longrightarrow>
   sh_initialized (rl_shared (fold take_turn ts rl)) = sh_initialized (rl_shared rl)"
proof (induction ts arbitrary: rl)
  case (Cons t ts)
  then have "t \<noteq> Got (DapEvent Initialized)" by auto
  then show ?case using Cons by (simp add: take_turn_initialized)
qed simp

definition uninitialized :: "lldb_link \<Rightarrow> bool" where
  "uninitialized lk \<longleftrightarrow>
     \<not> is_fired (sh_initialized (lk_shared lk)) \<and> pending_inv (lk_shared lk) \<and> lk_faults lk = [] \<and>
     Got (DapEvent Initialized) \<notin> set (concat (lk_batches lk))"

lemma uninitialized_await:
  assumes "link_await f lk = (r, lk')" "uninitialized lk"
  shows "uninitialized lk' \<and> sh_initialized (lk_shared lk') = sh_initialized (lk_shared lk)"
proof -
  obtain bs rl where e: "await_on (\<lambda>rl. f (rl_shared rl)) (lk_batches lk) (lk_loop lk) = (r, bs, rl)"
    and lk': "lk' = lk\<lparr>lk_batches := bs, lk_loop := rl\<rparr>"
    using assms(1) by (auto simp: link_await_def Let_def split: prod.splits)
  obtain pre where "lk_batches lk = pre @ bs" "rl = fold take_turn (concat pre) (lk_loop lk)"
    using await_on_prefix [OF e] by blast
  then show ?thesis
    using assms(2) lk' replies.steps_inv [OF take_turns_steps [of "\<lambda>_. []" "lk_loop lk" "concat pre"]]
      take_turns_initialized [of "concat pre" "lk_loop lk"]
    by (simp add: uninitialized_def)
qed

lemma uninitialized_send_async:
  assumes "link_send_async to_vec r lk = (res, lk')" "uninitialized lk"
  obtains sd where "res = Some (Inr sd)" "uninitialized lk'"
proof -
  have "lk_faults lk = []" "pending_inv (lk_shared lk)" using assms(2) by (simp_all add: uninitialized_def)
  then obtain sd sh where "link_send_async to_vec r lk = (Some (Inr sd), set_shared sh lk)" "pending_inv sh"
      "sh_initialized sh = sh_initialized (lk_shared lk)"
    by (rule link_send_async_ok)
  then show ?thesis using assms that [of sd] by (auto simp: uninitialized_def set_shared_def)
qed

lemma uninitialized_initialize:
  assumes "lb_initialize (link_env to_vec) lk = (r, lk')" "uninitialized lk"
  shows "uninitialized lk'"
proof -
  obtain res lk1 where s: "link_send_async to_vec rq_initialize lk = (res, lk1)" by (rule prod.exhaust)
  then obtain sd where sd: "res = Some (Inr sd)" "uninitialized lk1" using uninitialized_send_async assms(2) by blast
  obtain q lk2 where q: "link_await (send_result sd) lk1 = (q, lk2)" by (rule prod.exhaust)
  have "lk' = lk2"
    using assms(1) s sd(1) q
    by (auto simp: lb_initialize_def link_env_def link_send_def try_await_def with_err_def awaiting_def ready_def
        check_response_def split: option.splits sum.splits dap_message.splits if_splits)
  then show ?thesis using uninitialized_await [OF q sd(2)] by simp
qed

lemma uninitialized_wait:
  assumes "uninitialized lk"
  shows "fst (le_wait_initialized (link_env to_vec) lk) = None"
proof -
  obtain c sh where w: "wait_initialized (lk_shared lk) = (c, sh)" by (rule prod.exhaust)
  then obtain d where c: "c = Some d" "is_channels (sh_initialized sh) ! d = Waiting"
    using assms by (auto simp: wait_initialized_def uninitialized_def nth_append Let_def split: if_splits)
  let ?f = "\<lambda>rl. if initialized_done c (rl_shared rl) then Some () else None" and ?lk = "set_shared sh lk"
  have no: "Got (DapEvent Initialized) \<notin> set (concat (lk_batches lk))" using assms by (simp add: uninitialized_def)
  have "fst (await_on ?f (lk_batches lk) (lk_loop ?lk)) = None"
  proof (rule await_on_blocked [where P = "\<lambda>rl. sh_initialized (rl_shared rl) = sh_initialized sh"])
    show "sh_initialized (lk_shared ?lk) = sh_initialized sh" by (simp add: set_shared_def)
    show "sh_initialized (rl_shared (take_turn t rl)) = sh_initialized sh"
      if "t \<in> set (concat (lk_batches lk))" "sh_initialized (rl_shared rl) = sh_initialized sh" for t rl
      using that no take_turn_initialized [of t rl] by metis
  qed (simp add: initialized_done_def c)
  then show ?thesis by (simp add: link_env_def w link_await_def set_shared_def case_prod_unfold Let_def)
qed

section \<open>What an attach can still hear\<close>

text \<open>The reply to request \<open>s\<close>, awaited on channel \<open>c\<close>, has not come: the channel waits, or was given up.\<close>

fun reply_turn :: "i64 \<Rightarrow> turn \<Rightarrow> bool" where
  "reply_turn s (Got (DapResponse r)) = (rs_request_seq r = s)"
| "reply_turn s _ = False"

definition unheard :: "i64 \<Rightarrow> nat \<Rightarrow> shared \<Rightarrow> bool" where
  "unheard s c sh \<longleftrightarrow>
     pending_inv sh \<and> (in_flight s c sh \<or> answered s c sh) \<and> (\<forall>m. sh_replies sh ! c \<noteq> Sent (Inr m))"

lemma settle_value: "settle c v cs ! d = cs ! d \<or> settle c v cs ! d = v"
  by (cases "d = c"; cases "c < length cs") (auto simp: settle_def)

lemma hang_up_value: "hang_up_opt o' cs ! d = cs ! d \<or> hang_up_opt o' cs ! d = Hung_up"
  by (cases o') (simp_all add: settle_value)

lemma fold_settle_value: "fold (\<lambda>(_, c). settle c v) es cs ! c = cs ! c \<or> fold (\<lambda>(_, c). settle c v) es cs ! c = v"
proof (induction es arbitrary: cs)
  case (Cons e es)
  from this [of "settle (snd e) v cs"] settle_value [of "snd e" v cs c] show ?case by (cases e) auto
qed simp

lemma take_turn_value:
  "sh_replies (rl_shared (take_turn t rl)) ! c = sh_replies (rl_shared rl) ! c \<or>
   sh_replies (rl_shared (take_turn t rl)) ! c = Sent (Inl Closed) \<or>
   (\<exists>r. t = Got (DapResponse r) \<and> sh_replies (rl_shared (take_turn t rl)) ! c = Sent (Inr (DapResponse r)))"
proof (cases t)
  case (Transport_End e)
  then show ?thesis
    using fold_settle_value [of "Sent (Inl Closed)" "sh_pending (rl_shared rl)" "sh_replies (rl_shared rl)" c]
    by (auto simp: recover_def on_stop_waiter_def cancel_all_pending_def Let_def)
next
  case (Got m)
  show ?thesis
  proof (cases m)
    case (DapResponse r)
    then show ?thesis
      using Got settle_value [of _ "Sent (Inr (DapResponse r))" "sh_replies (rl_shared rl)" c]
      by (auto simp: dispatch_message_def dispatch_response_def remove_pending_def log_no_waiter_def log_line_def
          Let_def split: option.splits)
  qed (use Got in \<open>auto simp: dispatch_message_def dispatch_event_def on_stop_waiter_def signal_initialized_def
      log_unhandled_def log_informational_def log_line_def Let_def split: option.splits dap_event.splits\<close>)
qed

lemma unheard_turn:
  assumes "unheard s c (rl_shared rl)" "\<not> reply_turn s t"
  shows "unheard s c (rl_shared (take_turn t rl))"
proof -
  let ?sh = "rl_shared rl" and ?sh' = "rl_shared (take_turn t rl)"
  have steps: "(shared_step (\<lambda>_. []))\<^sup>*\<^sup>* ?sh ?sh'" using take_turns_steps [of _ rl "[t]"] by simp
  have inv: "pending_inv ?sh'" using replies.steps_inv [OF steps] assms(1) by (simp add: unheard_def)
  have heard: "in_flight s c ?sh' \<or> answered s c ?sh'"
    using assms(1) in_flight_steps [OF steps] answered_stays [OF _ replies.steps_extends [OF steps]]
    by (auto simp: unheard_def)
  have "sh_replies ?sh' ! c \<noteq> Sent (Inr m)" for m
  proof
    assume m: "sh_replies ?sh' ! c = Sent (Inr m)"
    then have "answers s (Sent (Inr m))" using heard by (auto simp: in_flight_def answered_def)
    then obtain r where r: "m = DapResponse r" "rs_request_seq r = s" by (cases m) auto
    have "sh_replies ?sh ! c \<noteq> Sent (Inr m)" using assms(1) by (simp add: unheard_def)
    then have "t = Got (DapResponse r)" using take_turn_value [of t rl c] m r(1) by auto
    then show False using assms(2) r(2) by simp
  qed
  with inv heard show ?thesis by (simp add: unheard_def)
qed

lemma take_turn_seq: "sh_seq (rl_shared (take_turn t rl)) = sh_seq (rl_shared rl)"
  by (cases t rule: turn_stop.cases)
    (auto simp: dispatch_message_def dispatch_event_def on_stop_waiter_def dispatch_response_def
      remove_pending_def signal_initialized_def log_no_waiter_def log_unhandled_def log_informational_def
      log_line_def recover_def cancel_all_pending_def Let_def split: option.splits)

lemma take_turn_inv: "pending_inv (rl_shared rl) \<Longrightarrow> pending_inv (rl_shared (take_turn t rl))"
  using replies.steps_inv [OF take_turns_steps [of "\<lambda>_. []" rl "[t]"]] by simp

text \<open>Sending any request, whether the write fails or not.\<close>

lemma send_async_effects:
  assumes "send_async to_vec fault r sh = (res, sh')"
  shows "pending_inv sh \<Longrightarrow> pending_inv sh'" "sh_seq sh' = wrap_i64 (sh_seq sh + 1)"
    "unheard s c sh \<Longrightarrow> unheard s c sh'"
    "pending_inv sh \<Longrightarrow> res = Inr sd \<Longrightarrow> sd_seq sd = wrap_i64 (sh_seq sh + 1) \<and> unheard (sd_seq sd) (sd_channel sd) sh'"
proof -
  obtain sd0 sh1 where b: "send_begin r sh = (sd0, sh1)" by (rule prod.exhaust)
  obtain q sh2 where w: "send_write to_vec fault sd0 sh1 = (q, sh2)" by (rule prod.exhaust)
  have res: "res = (case q of Inl e \<Rightarrow> Inl e | Inr _ \<Rightarrow> Inr sd0)" "sh' = sh2"
    using assms by (auto simp: send_async_def b w split: sum.splits)
  have step: "(shared_step to_vec)\<^sup>*\<^sup>* sh sh'"
    using Send_Begin [OF b, of to_vec] Send_Write [OF w] res(2) by (meson converse_rtranclp_into_rtranclp r_into_rtranclp)
  show inv: "pending_inv sh \<Longrightarrow> pending_inv sh'" by (rule replies.steps_inv [OF step])
  have seqs: "sd_seq sd0 = wrap_i64 (sh_seq sh + 1)" "sh_seq sh1 = wrap_i64 (sh_seq sh + 1)"
    using b by (auto simp: send_begin_def next_seq_def register_pending_def Let_def)
  then show "sh_seq sh' = wrap_i64 (sh_seq sh + 1)"
    using w res(2) by (auto elim!: send_write_cases simp: drop_pending_def remove_pending_def)
  have begun: "sh_replies sh1 ! d = sh_replies sh ! d \<or> sh_replies sh1 ! d = Hung_up" if "d < length (sh_replies sh)" for d
    using b that hang_up_value [of "map_of (sh_pending sh) (wrap_i64 (sh_seq sh + 1))" "sh_replies sh" d]
    by (auto simp: send_begin_def next_seq_def register_pending_def Let_def nth_append)
  have written: "sh_replies sh2 ! d = sh_replies sh1 ! d \<or> sh_replies sh2 ! d = Hung_up" for d
    using w hang_up_value [of "map_of (sh_pending sh1) (sd_seq sd0)" "sh_replies sh1" d]
    by (auto elim!: send_write_cases simp: drop_pending_def remove_pending_def)
  show "unheard s c sh \<Longrightarrow> unheard s c sh'"
  proof -
    assume u: "unheard s c sh"
    then have "c < length (sh_replies sh)" by (auto simp: unheard_def in_flight_def answered_def)
    then have "sh_replies sh' ! c \<noteq> Sent (Inr m)" for m
      using begun [of c] written [of c] u res(2) by (auto simp: unheard_def)
    moreover have "in_flight s c sh' \<or> answered s c sh'"
      using u in_flight_steps [OF step] answered_stays [OF _ replies.steps_extends [OF step]] by (auto simp: unheard_def)
    ultimately show ?thesis using u inv by (simp add: unheard_def)
  qed
  assume i: "pending_inv sh" and sd: "res = Inr sd"
  then have "sd = sd0" using res(1) by (cases q) auto
  note new = send_begin_in_flight [OF b i, folded this]
  have "in_flight (sd_seq sd) (sd_channel sd) sh' \<or> answered (sd_seq sd) (sd_channel sd) sh'"
    using in_flight_step [OF Send_Write [OF w], of "sd_seq sd" "sd_channel sd"] new res(2) by blast
  moreover have "sh_replies sh' ! sd_channel sd \<noteq> Sent (Inr m)" for m
    using written [of "sd_channel sd"] new res(2) by (auto simp: in_flight_def)
  ultimately show "sd_seq sd = wrap_i64 (sh_seq sh + 1) \<and> unheard (sd_seq sd) (sd_channel sd) sh'"
    using inv [OF i] seqs(1) \<open>sd = sd0\<close> by (simp add: unheard_def)
qed

text \<open>
  Of the batches some early ones come first, then one more, then the late ones: \<open>P\<close> holds while only early batches have
  been taken.
\<close>

definition on_course :: "turn list list \<Rightarrow> turn list \<Rightarrow> turn list list \<Rightarrow> (shared \<Rightarrow> bool) \<Rightarrow> lldb_link \<Rightarrow> bool" where
  "on_course early b late P lk \<longleftrightarrow>
     (\<exists>xs ys. early = xs @ ys \<and> lk_batches lk = ys @ b # late \<and> P (lk_shared lk)) \<or> (\<exists>xs. late = xs @ lk_batches lk)"

lemma await_on_value: "await_on f bs rl = (r, bs', rl') \<Longrightarrow> f rl' = r"
  by (induction f bs rl rule: await_on.induct) (auto simp: Let_def split: option.splits)

lemma on_course_await:
  assumes "link_await f lk = (r, lk')" and course: "on_course early b late P lk"
    and keeps: "\<And>t rl. t \<in> set (concat early) \<Longrightarrow> P (rl_shared rl) \<Longrightarrow> P (rl_shared (take_turn t rl))"
  shows "on_course early b late P lk'" "f (lk_shared lk') = r"
proof -
  obtain bs rl where e: "await_on (\<lambda>rl. f (rl_shared rl)) (lk_batches lk) (lk_loop lk) = (r, bs, rl)"
    and lk': "lk_batches lk' = bs" "lk_loop lk' = rl"
    using assms(1) by (auto simp: link_await_def Let_def split: prod.splits)
  show "f (lk_shared lk') = r" using await_on_value [OF e] lk'(2) by simp
  obtain pre where pre: "lk_batches lk = pre @ bs" "rl = fold take_turn (concat pre) (lk_loop lk)"
    using await_on_prefix [OF e] by blast
  have turns: "P (rl_shared (fold take_turn ts rl0))" if "set ts \<subseteq> set (concat early)" "P (rl_shared rl0)" for ts rl0
    using that
  proof (induction ts arbitrary: rl0)
    case (Cons t ts)
    have "P (rl_shared (take_turn t rl0))" by (rule keeps) (use Cons.prems in auto)
    then show ?case using Cons by simp
  qed simp
  from course show "on_course early b late P lk'"
    unfolding on_course_def
  proof
    assume "\<exists>xs. late = xs @ lk_batches lk"
    then show "(\<exists>xs ys. early = xs @ ys \<and> lk_batches lk' = ys @ b # late \<and> P (lk_shared lk')) \<or> (\<exists>xs. late = xs @ lk_batches lk')"
      using pre(1) lk'(1) by auto
  next
    assume "\<exists>xs ys. early = xs @ ys \<and> lk_batches lk = ys @ b # late \<and> P (lk_shared lk)"
    then obtain xs ys where y: "early = xs @ ys" "ys @ b # late = pre @ bs" "P (lk_shared lk)" using pre(1) by auto
    from y(2) consider us where "ys = pre @ us" "bs = us @ b # late" | us where "pre = ys @ b # us" "late = us @ bs"
      unfolding append_eq_append_conv2 by (metis Cons_eq_append_conv append_Nil2 self_append_conv2)
    then show "(\<exists>xs ys. early = xs @ ys \<and> lk_batches lk' = ys @ b # late \<and> P (lk_shared lk')) \<or> (\<exists>xs. late = xs @ lk_batches lk')"
    proof cases
      case (1 us)
      have "P (lk_shared lk')"
        unfolding lk'(2) pre(2) by (rule turns) (use y(1,3) 1(1) in auto)
      then show ?thesis using 1 y(1) lk'(1) by (intro disjI1 exI [of _ "xs @ pre"] exI [of _ us]) simp
    next
      case (2 us)
      then show ?thesis using lk'(1) by blast
    qed
  qed
qed

lemma on_course_shared:
  "on_course early b late P lk \<Longrightarrow> (P (lk_shared lk) \<Longrightarrow> Q sh) \<Longrightarrow> lk_batches lk' = lk_batches lk \<Longrightarrow>
   lk_shared lk' = sh \<Longrightarrow> on_course early b late Q lk'"
  unfolding on_course_def by auto

lemma link_send_asyncE:
  assumes "link_send_async to_vec r lk = (x, lk')"
  obtains fault res where "x = Some res" "send_async to_vec fault r (lk_shared lk) = (res, lk_shared lk')"
    "lk_batches lk' = lk_batches lk"
  using assms
  by (auto simp: link_send_async_def next_fault_def set_shared_def Let_def split: list.splits prod.splits)

lemma try_awaitE:
  assumes "try_await m f w = (Some (Inr x), w')"
  obtains a w1 where "m w = (Some (Inr a), w1)" "f a w1 = (Some (Inr x), w')"
  using assms by (auto simp: try_await_def awaiting_def ready_def split: prod.splits option.splits sum.splits)

lemma awaitingE:
  assumes "awaiting m f w = (Some x, w')"
  obtains a w1 where "m w = (Some a, w1)" "f a w1 = (Some x, w')"
  using assms by (auto simp: awaiting_def split: prod.splits option.splits)

lemma with_errE: "with_err f m w = (Some (Inr a), w1) \<Longrightarrow> m w = (Some (Inr a), w1)"
  by (cases "fst (m w)"; cases "the (fst (m w))") (auto simp: with_err_run prod_eq_iff)

lemma le_send_async_link: "le_send_async (link_env to_vec) = link_send_async to_vec"
  by (simp add: link_env_def)

lemma map_sum_InrE: "map_sum f id x = Inr y \<Longrightarrow> (x = Inr y \<Longrightarrow> P) \<Longrightarrow> P"
  by (cases x) auto

text \<open>A request and its reply, in the course.\<close>

lemma on_course_send:
  assumes send: "link_send to_vec r lk = (Some (Inr m), lk')" and course: "on_course early b late P lk"
    and begins: "\<And>fault res sh'. send_async to_vec fault r (lk_shared lk) = (res, sh') \<Longrightarrow> P (lk_shared lk) \<Longrightarrow> Q sh'"
    and keeps: "\<And>t rl. t \<in> set (concat early) \<Longrightarrow> Q (rl_shared rl) \<Longrightarrow> Q (rl_shared (take_turn t rl))"
  shows "on_course early b late Q lk'"
proof -
  from send obtain sd lk1 where s: "link_send_async to_vec r lk = (Some (Inr sd), lk1)" "link_await (send_result sd) lk1 = (Some (Inr m), lk')"
    unfolding link_send_def by (rule try_awaitE)
  obtain fault res where a: "send_async to_vec fault r (lk_shared lk) = (res, lk_shared lk1)" "lk_batches lk1 = lk_batches lk"
    by (rule link_send_asyncE [OF s(1)])
  have begun: "on_course early b late Q lk1" by (rule on_course_shared [OF course]) (use begins a in auto)
  show ?thesis by (rule on_course_await(1) [OF s(2) begun keeps])
qed

lemma on_course_send_only:
  assumes send: "send_only (link_env to_vec) what r lk = (Some (Inr u), lk')" and course: "on_course early b late (unheard s c) lk"
    and quiet: "\<forall>t \<in> set (concat early). \<not> reply_turn s t"
  shows "on_course early b late (unheard s c) lk'"
proof -
  obtain m where "link_send to_vec r lk = (Some (Inr m), lk')"
    using send unfolding send_only_def
    by (elim try_awaitE) (auto dest!: with_errE simp: link_env_def ready_def)
  then show ?thesis
    by (rule on_course_send [OF _ course]) (use quiet in \<open>auto dest: send_async_effects(3) intro: unheard_turn\<close>)
qed

lemma stop_waiter_kept: "turn_stop t = None \<Longrightarrow> stop_waiter_of (take_turn t rl) = stop_waiter_of rl"
  by (cases "rl_running rl") (simp_all add: take_turn_stop take_turn_stopped)

text \<open>A waiter registered when no stop is left among the turns waits for ever.\<close>

lemma late_register_waits:
  assumes "le_register_stop (link_env to_vec) lk = (k, lk1)" and "\<forall>t \<in> set (concat (lk_batches lk)). turn_stop t = None"
  shows "fst (le_await_stop (link_env to_vec) k lk1) = None"
proof -
  obtain sw where sw: "sw_register (sh_stop_waiter (lk_shared lk)) = (k, sw)"
      "lk1 = set_shared ((lk_shared lk)\<lparr>sh_stop_waiter := sw\<rparr>) lk"
    using assms(1) by (auto simp: link_env_def split: prod.splits)
  have "fst (await_on (\<lambda>rl. received (sw_channels (stop_waiter_of rl) ! k)) (lk_batches lk1) (lk_loop lk1)) = None"
  proof (rule await_on_blocked [where P = "\<lambda>rl. stop_waiter_of rl = sw"])
    show "stop_waiter_of (lk_loop lk1) = sw" by (simp add: sw(2) set_shared_def)
    show "stop_waiter_of (take_turn t rl) = sw" if "t \<in> set (concat (lk_batches lk1))" "stop_waiter_of rl = sw" for t rl
    proof -
      have "turn_stop t = None" using that(1) assms(2) sw(2) by (auto simp: set_shared_def)
      then show ?thesis using that(2) stop_waiter_kept by metis
    qed
    have "sw_channels sw ! k = Waiting" using sw(1) by (auto simp: sw_register_def nth_append Let_def)
    then show "received (sw_channels (stop_waiter_of rl) ! k) = None" if "stop_waiter_of rl = sw" for rl
      using that by simp
  qed
  then show ?thesis by (simp add: link_env_def link_await_def case_prod_unfold Let_def)
qed

lemma attach_hears_late:
  assumes run: "run_attach (link_env to_vec) spec lk = (Some (Inr o'), lk')"
    and batches: "lk_batches lk = early @ b # late" and inv: "pending_inv (lk_shared lk)"
    and quiet: "\<forall>t \<in> set (concat early). \<not> reply_turn (wrap_i64 (wrap_i64 (sh_seq (lk_shared lk) + 1) + 1)) t"
  shows "\<exists>t \<in> set (concat late). turn_stop t \<noteq> None"
proof -
  let ?env = "link_env to_vec" and ?q = "wrap_i64 (sh_seq (lk_shared lk) + 1)"
  let ?s = "wrap_i64 (?q + 1)" and ?P = "\<lambda>q sh. pending_inv sh \<and> sh_seq sh = q"
  obtain lk1 lk2 lk3 lk4 lk5 lk6 sd res u v x y where
    init: "lb_initialize ?env lk = (Some (Inr u), lk1)" and
    attach: "with_err (failed_with ''attach request failed'') (le_send_async ?env
      (rq_attach (attach_args_to_value (lldb_attach_args_new (as_pid spec) (as_wait_for spec))))) lk1 = (Some (Inr sd), lk2)" and
    wait: "le_wait_initialized ?env lk2 = (Some v, lk3)" and
    exc: "send_only ?env ''setExceptionBreakpoints failed'' rq_set_exception_breakpoints lk3 = (Some (Inr x), lk4)" and
    conf: "send_only ?env ''configurationDone failed'' rq_configuration_done lk4 = (Some (Inr y), lk5)" and
    reply: "deferred_reply ?env ''attach'' sd lk5 = (Some (Inr res), lk6)" and
    last: "(case le_register_stop ?env lk6 of (rx, w') \<Rightarrow>
        awaiting (le_await_stop ?env rx) (\<lambda>s. ready (Inr (attach_stop s))) w') = (Some (Inr o' :: backend_error + attach_outcome), lk')"
    using run unfolding run_attach_def
    by (elim try_awaitE awaitingE) blast
  note async = with_errE [OF attach, unfolded le_send_async_link]
  have keeps: "?P q (rl_shared (take_turn t rl))" if "?P q (rl_shared rl)" for q t rl
    using that by (simp add: take_turn_seq take_turn_inv)
  have start: "on_course early b late (?P (sh_seq (lk_shared lk))) lk"
    using batches inv by (auto simp: on_course_def)
  obtain m where first: "link_send to_vec rq_initialize lk = (Some (Inr m), lk1)"
    using init unfolding lb_initialize_def
    by (elim try_awaitE) (auto dest!: with_errE simp: link_env_def ready_def check_response_def split: dap_message.splits if_splits)
  have "on_course early b late (?P ?q) lk1"
  proof (rule on_course_send [OF first start])
    show "?P ?q sh'" if "send_async to_vec fault rq_initialize (lk_shared lk) = (q, sh')" "?P (sh_seq (lk_shared lk)) (lk_shared lk)"
      for fault q sh'
      using send_async_effects(1,2) [OF that(1)] that(2) by simp
  qed (rule keeps)
  note course1 = this
  obtain fault q where a: "send_async to_vec fault
      (rq_attach (attach_args_to_value (lldb_attach_args_new (as_pid spec) (as_wait_for spec)))) (lk_shared lk1) = (q, lk_shared lk2)"
      "Some q = Some (Inr sd)" "lk_batches lk2 = lk_batches lk1"
    by (rule link_send_asyncE [OF async]) auto
  have course2: "on_course early b late (unheard ?s (sd_channel sd)) lk2"
  proof (rule on_course_shared [OF course1 _ a(3) refl])
    show "unheard ?s (sd_channel sd) (lk_shared lk2)" if "?P ?q (lk_shared lk1)"
      using send_async_effects(4) [OF a(1), of sd] a(2) that by (metis option.inject)
  qed
  obtain d sh where w: "wait_initialized (lk_shared lk2) = (d, sh)" by (rule prod.exhaust)
  have "unheard ?s (sd_channel sd) sh" if "unheard ?s (sd_channel sd) (lk_shared lk2)"
    using that w by (auto simp: wait_initialized_def unheard_def pending_inv_def pending_senders_def in_flight_def answered_def
        Let_def split: if_splits)
  then have course3: "on_course early b late (unheard ?s (sd_channel sd)) (set_shared sh lk2)"
    by (intro on_course_shared [OF course2, of _ sh]) (simp_all add: set_shared_def)
  have waited: "link_await (\<lambda>sh. if initialized_done d sh then Some () else None) (set_shared sh lk2) = (Some v, lk3)"
    using wait by (simp add: link_env_def w)
  have heeds: "unheard ?s (sd_channel sd) (rl_shared (take_turn t rl))"
    if "t \<in> set (concat early)" "unheard ?s (sd_channel sd) (rl_shared rl)" for t rl
    using that quiet by (auto intro: unheard_turn)
  have course4: "on_course early b late (unheard ?s (sd_channel sd)) lk3"
    by (rule on_course_await(1) [OF waited course3 heeds])
  have course: "on_course early b late (unheard ?s (sd_channel sd)) lk5"
    by (rule on_course_send_only [OF conf on_course_send_only [OF exc course4 quiet] quiet])
  obtain m where heard: "link_await (\<lambda>sh. received (sh_replies sh ! sd_channel sd)) lk5 = (Some (Some (Inr m)), lk6)"
    using reply unfolding deferred_reply_def
    by (elim try_awaitE awaitingE)
      (auto simp: ready_def link_env_def check_response_def elim!: map_sum_InrE
        split: option.splits dap_message.splits if_splits)
  note after = on_course_await [OF heard course heeds]
  have "\<not> unheard ?s (sd_channel sd) (lk_shared lk6)"
    using after(2) by (cases "sh_replies (lk_shared lk6) ! sd_channel sd") (auto simp: unheard_def)
  then obtain xs where late: "late = xs @ lk_batches lk6"
    using after(1) unfolding on_course_def by blast
  obtain k lk7 where reg: "le_register_stop ?env lk6 = (k, lk7)" by (rule prod.exhaust)
  have "fst (le_await_stop ?env k lk7) \<noteq> None"
    using last reg by (auto elim!: awaitingE)
  then show ?thesis using late_register_waits [OF reg] late by fastforce
qed

end
