(* ===== verification/Lldb_Properties.thy ===== *)
theory Lldb_Properties
  imports Lldb_Facts Event_Pump
begin

text \<open>
  The properties of the LLDB backend: what it says to the adapter and in which order, what it makes of
  refusals, which stop events it can miss, and how its output reaches the session.
\<close>

section \<open>An adapter\<close>

text \<open>A small adapter: it answers each request, and says what the batches say in between.\<close>

definition demo_answer :: "i64 \<Rightarrow> bool \<Rightarrow> turn" where
  "demo_answer s ok =
     Got (DapResponse \<lparr>rs_seq = 0, rs_ty = ''response'', rs_request_seq = s, rs_success = ok, rs_command = ''launch'',
        rs_message = (if ok then [] else ''no such file''), rs_body = None\<rparr>)"

definition demo_stopped :: turn where
  "demo_stopped = Got (DapEvent (StoppedEvent
     \<lparr>sp_reason = ''entry'', sp_description = [], sp_thread_id = 1, sp_text = [], sp_all_threads_stopped = True,
      sp_hit_breakpoint_ids = []\<rparr>))"

definition demo_stop_info :: stop_info where
  "demo_stop_info = \<lparr>si_reason = ''entry'', si_thread_id = 1, si_description = [], si_hit_breakpoint_ids = []\<rparr>"

definition demo_link :: "turn list list \<Rightarrow> lldb_link" where
  "demo_link batches =
     \<lparr>lk_loop = read_loop_new [] shared_new, lk_batches = batches, lk_faults = [], lk_stderr = None, lk_child = True\<rparr>"

definition demo_launch :: "bool \<Rightarrow> launch_spec" where
  "demo_launch stop = \<lparr>ls_program = ''app'', ls_args = [], ls_cwd = None, ls_env = [], ls_stop_on_entry = stop,
     ls_source_breakpoints = [], ls_function_breakpoints = []\<rparr>"

abbreviation demo_env :: "lldb_link lldb_env" where
  "demo_env \<equiv> link_env (\<lambda>_. [])"

definition demo_handshake :: "turn list list" where
  "demo_handshake = [[demo_answer 1 True], [Got (DapEvent Initialized)], [demo_answer 3 True], [demo_answer 4 True],
     [demo_answer 2 True, demo_stopped]]"

lemma demo_launch_run:
  "fst (run_launch demo_env (demo_launch True) (demo_link demo_handshake)) = Some (Inr (LO_Stopped demo_stop_info))"
  by code_simp

lemma demo_attach_run:
  "fst (run_attach demo_env \<lparr>as_pid = Some 7, as_wait_for = None\<rparr> (demo_link demo_handshake)) = None"
  by code_simp

section \<open>The handshakes\<close>



text \<open>Attach speaks its script in the same way: initialize, attach, setExceptionBreakpoints,
  configurationDone, and no breakpoints.\<close>

theorem attach_follows_the_script:
  "\<exists>said rest. run_attach (recording env) spec (w, []) =
       (fst (run_attach env spec w), (snd (run_attach env spec w), said)) \<and>
     attach_script spec = map fst said @ rest \<and> (\<forall>(r, fulfilled) \<in> set (butlast said). fulfilled) \<and>
     (succeeded (fst (run_attach env spec w)) \<longrightarrow> rest = [] \<and> (\<forall>(r, fulfilled) \<in> set said. fulfilled))"
  using speaks_attach [of env spec] by (rule speaksE [where w = w and sent = "[]"]) (auto simp: list_all_iff)

text \<open>C28: Attach misses a stop that comes with its reply or before it.  It registers for the stop only after the reply,
  so that, in whatever course of events, if no reply to the attach request (the second request sent) is in the batches
  before some batch, and after that batch there are neither a stop, an exit or a termination nor the end of the
  transport, then attach gives no outcome: it fails or never returns, whatever stops the batch and the batches before
  it contain.  In the course of the witness, where the adapter answers every request and reports its stop right after
  the reply, attach never returns whereas launch with stop-on-entry returns the stop.\<close>

theorem attach_misses_an_early_stop:
  assumes "pending_inv (lk_shared lk)" and "lk_batches lk = early @ b # late"
    and "\<forall>t \<in> set (concat early). \<not> reply_turn (wrap_i64 (wrap_i64 (sh_seq (lk_shared lk) + 1) + 1)) t"
    and "\<forall>t \<in> set (concat late). turn_stop t = None"
  shows "fst (run_attach (link_env to_vec) spec lk) \<noteq> Some (Inr outcome)"
  using attach_hears_late [OF _ assms(2,1,3)] assms(4) by (metis prod.collapse)

theorem attach_misses_an_early_stop_witness:
  "\<forall>outcome. fst (run_attach demo_env \<lparr>as_pid = Some 7, as_wait_for = None\<rparr> (demo_link demo_handshake)) \<noteq> Some (Inr outcome) \<and>
   fst (run_attach demo_env \<lparr>as_pid = Some 7, as_wait_for = None\<rparr> (demo_link demo_handshake)) = None \<and>
   fst (run_launch demo_env (demo_launch True) (demo_link demo_handshake)) = Some (Inr (LO_Stopped demo_stop_info))"
proof -
  let ?lk = "demo_link demo_handshake"
  have h: "pending_inv (lk_shared ?lk)" "lk_batches ?lk = butlast demo_handshake @ [demo_answer 2 True, demo_stopped] # []"
    "\<forall>t \<in> set (concat (butlast demo_handshake)). \<not> reply_turn (wrap_i64 (wrap_i64 (sh_seq (lk_shared ?lk) + 1) + 1)) t"
    "\<forall>t \<in> set (concat ([] :: turn list list)). turn_stop t = None"
    by (simp_all add: demo_link_def read_loop_new_def demo_handshake_def demo_answer_def)
      (simp_all add: shared_new_def wrap_i64_def)
  show ?thesis by (intro allI conjI attach_misses_an_early_stop [OF h] demo_attach_run demo_launch_run)
qed

text \<open>C29: A launch that the adapter refuses never returns.  If the initialized event does not come, be it
  that launch was answered with a failure or that the transport has ended, then a launch whose
  initialize request went through hangs, whatever else the adapter says; the failure is not reported.\<close>

theorem launch_hangs_without_initialized:
  assumes "\<not> is_fired (sh_initialized (lk_shared lk))" and "pending_inv (lk_shared lk)" and "lk_faults lk = []"
    and "Got (DapEvent Initialized) \<notin> set (concat (lk_batches lk))"
    and "fst (lb_initialize (link_env to_vec) lk) = Some (Inr ())"
  shows "fst (run_launch (link_env to_vec) spec lk) = None \<and> fst (run_attach (link_env to_vec) aspec lk) = None"
proof -
  let ?env = "link_env to_vec"
  have start: "uninitialized lk" using assms(1-4) by (simp add: uninitialized_def)
  obtain lk1 where init: "lb_initialize ?env lk = (Some (Inr ()), lk1)"
    using assms(5) by (metis prod.collapse)
  have u: "uninitialized lk1" by (rule uninitialized_initialize [OF init start])
  have hang: "fst (try_await (lb_initialize ?env) (\<lambda>_. try_await (with_err f (le_send_async ?env r))
      (\<lambda>rx. awaiting (le_wait_initialized ?env) (g rx))) lk) = None" for f :: "backend_error \<Rightarrow> backend_error" and r g
  proof -
    obtain res lk2 where s: "link_send_async to_vec r lk1 = (res, lk2)" by (rule prod.exhaust)
    obtain sd where sd: "res = Some (Inr sd)" "uninitialized lk2" by (rule uninitialized_send_async [OF s u])
    have "fst (le_wait_initialized ?env lk2) = None" by (rule uninitialized_wait [OF sd(2)])
    moreover have "le_send_async ?env r lk1 = (Some (Inr sd), lk2)" using s sd(1) by (simp add: link_env_def)
    ultimately show ?thesis
      by (simp add: try_await_def awaiting_def init with_err_run case_prod_unfold)
  qed
  show ?thesis unfolding run_launch_def run_attach_def by (intro conjI hang)
qed

text \<open>The adapter accepts initialize, and answers launch with a failure.\<close>

theorem launch_hangs_without_initialized_witness:
  "fst (run_launch demo_env (demo_launch False) (demo_link [[demo_answer 1 True], [demo_answer 2 False]])) = None"
proof -
  let ?lk = "demo_link [[demo_answer 1 True], [demo_answer 2 False]]"
  have "\<not> is_fired (sh_initialized (lk_shared ?lk)) \<and> lk_faults ?lk = [] \<and>
      Got (DapEvent Initialized) \<notin> set (concat (lk_batches ?lk))"
    by (simp add: demo_link_def demo_answer_def read_loop_new_def shared_new_def initialized_new_def)
  moreover have "pending_inv (lk_shared ?lk)" by (simp add: demo_link_def read_loop_new_def)
  moreover have "fst (lb_initialize demo_env ?lk) = Some (Inr ())" by code_simp
  ultimately show ?thesis using launch_hangs_without_initialized [of ?lk] by blast
qed

section \<open>Resuming\<close>

text \<open>C30: A resume does not miss a stop.  Its waiter is registered before the request is sent, so that, if
  among what the read loop meets there are an answer to the request or the end of the transport, and a
  stop, then the call returns; and it returns the first stop, wherever it comes, unless the transport ended.\<close>

theorem resume_never_misses_a_stop:
  assumes "pending_inv (lk_shared lk)" and "sw_inv (sh_stop_waiter (lk_shared lk))"
    and "rl_running (lk_loop lk)" and "lk_faults lk = []"
    and "\<exists>t \<in> set (concat (lk_batches lk)). answer_turn (wrap_i64 (sh_seq (lk_shared lk) + 1)) t"
    and "first_stop (concat (lk_batches lk)) = Some o'"
  shows "\<exists>r. fst (resume_and_wait (link_env to_vec) rq lk) = Some r \<and>
    (case r of Inr o'' \<Rightarrow> o'' = o' | Inl e \<Rightarrow> \<exists>e'. Transport_End e' \<in> set (concat (lk_batches lk)))"
proof -
  obtain k sw where k: "sw_register (sh_stop_waiter (lk_shared lk)) = (k, sw)" by (rule prod.exhaust)
  let ?lk1 = "set_shared ((lk_shared lk)\<lparr>sh_stop_waiter := sw\<rparr>) lk"
  have reg: "le_register_stop (link_env to_vec) lk = (k, ?lk1)" by (simp add: link_env_def k)
  have sw: "sw_slot sw = Some k" "k < length (sw_channels sw)" "sw_channels sw ! k = Waiting"
    using k by (auto simp: sw_register_def nth_append Let_def)
  have lk1: "lk_faults ?lk1 = []" "pending_inv (lk_shared ?lk1)" "rl_running (lk_loop ?lk1)"
      "lk_batches ?lk1 = lk_batches lk" "sh_seq (lk_shared ?lk1) = sh_seq (lk_shared lk)"
      "sh_stop_waiter (lk_shared ?lk1) = sw"
    using assms(1,3,4) by (simp_all add: set_shared_def pending_inv_def pending_senders_def)
  obtain a lk' sh where send: "link_send to_vec rq ?lk1 = (Some a, lk')"
      "\<forall>e. Transport_End e \<notin> set (concat (lk_batches lk)) \<Longrightarrow> \<exists>m. a = Inr m" "sh_stop_waiter sh = sw"
      "fold take_turn (concat (lk_batches lk')) (lk_loop lk') =
         fold take_turn (concat (lk_batches lk)) ((lk_loop ?lk1)\<lparr>rl_shared := sh\<rparr>)"
      "extends (sw_channels sw) (sw_channels (sh_stop_waiter (lk_shared lk')))"
    using link_send_answered [OF lk1(1-3), of to_vec rq] assms(5) unfolding lk1(4-6) by metis
  have "sw_channels (stop_waiter_of (fold take_turn (concat (lk_batches lk')) (lk_loop lk'))) ! k = Sent o'"
    unfolding send(4) using take_turns_stop [of "(lk_loop ?lk1)\<lparr>rl_shared := sh\<rparr>" k] lk1(3) sw assms(6) send(3) by simp
  moreover have "k < length (sw_channels (sh_stop_waiter (lk_shared lk')))"
    using sw(2) send(5) by (simp add: extends_def)
  ultimately have stop: "fst (link_await (\<lambda>sh. received (sw_channels (sh_stop_waiter sh) ! k)) lk') = Some (Some o')"
    by (rule link_await_stop)
  have "fst (resume_and_wait (link_env to_vec) rq lk) =
      (case a of Inl e \<Rightarrow> Some (Inl (Send (error_text e))) | Inr m \<Rightarrow> Some (Inr o'))"
    using reg send(1) stop
    by (simp add: resume_and_wait_def link_env_def with_err_def try_await_def awaiting_def ready_def case_prod_unfold
        split: sum.split)
  then show ?thesis using send(2) by (cases a) auto
qed

theorem resume_never_misses_a_stop_witness:
  "fst (resume_and_wait demo_env (rq_cont 1) (demo_link [[demo_stopped], [], [demo_answer 1 True]])) =
     Some (Inr (SO_Stopped demo_stop_info))"
proof -
  let ?lk = "demo_link [[demo_stopped], [], [demo_answer 1 True]]"
  have h: "pending_inv (lk_shared ?lk)" "sw_inv (sh_stop_waiter (lk_shared ?lk))" "rl_running (lk_loop ?lk)" "lk_faults ?lk = []"
    "\<exists>t \<in> set (concat (lk_batches ?lk)). answer_turn (wrap_i64 (sh_seq (lk_shared ?lk) + 1)) t"
    "first_stop (concat (lk_batches ?lk)) = Some (SO_Stopped demo_stop_info)"
    and no_end: "\<forall>e. Transport_End e \<notin> set (concat (lk_batches ?lk))"
    by (simp_all add: demo_link_def read_loop_new_def demo_answer_def demo_stopped_def stop_info_from_event_def
        demo_stop_info_def) (simp_all add: shared_new_def stop_waiter_new_def sw_senders_def wrap_i64_def)
  obtain r where "fst (resume_and_wait demo_env (rq_cont 1) ?lk) = Some r"
      "case r of Inr o'' \<Rightarrow> o'' = SO_Stopped demo_stop_info | Inl e \<Rightarrow> \<exists>e'. Transport_End e' \<in> set (concat (lk_batches ?lk))"
    using resume_never_misses_a_stop [OF h, of "\<lambda>_. []" "rq_cont 1"] by blast
  then show ?thesis using no_end by (cases r) (simp_all del: set_concat)
qed

section \<open>Refusals\<close>

text \<open>Every refusal is explained.  A checked request that the adapter answers with a failure gives an
  error with the operation's name and a diagnostic that is never empty: the adapter's message if there is
  one, else what the adapter wrote to its standard error, else a fixed text.  A message that is no
  response, and a failure to send, are told apart from it and name the operation too.\<close>

theorem refusals_are_explained:
  "send_checked env op r w =
     (case le_send env r w of
        (None, w') \<Rightarrow> (None, w')
      | (Some (Inl e), w') \<Rightarrow> (Some (Inl (Dap (op @ '' request failed: '' @ error_text e))), w')
      | (Some (Inr (DapResponse answer)), w') \<Rightarrow>
          (Some (if rs_success answer then Inr answer
                 else Inl (Dap (op @ '' failed: '' @ diagnostic env (rs_message answer) w'))), w')
      | (Some (Inr other), w') \<Rightarrow> (Some (Inl (Protocol (op @ '':'' @ message_type_label other))), w')) \<and>
   diagnostic env t w \<noteq> [] \<and> (t \<noteq> [] \<longrightarrow> diagnostic env t w = t)"
  by (auto simp: send_checked_def try_await_def with_err_run awaiting_def check_response_def ready_def failed_with_def
      diagnostic_def split: option.splits sum.splits dap_message.splits prod.splits)

theorem refusals_are_explained_witness:
  "diagnostic demo_env ''no such file'' (demo_link []) = ''no such file''"
  using refusals_are_explained [of demo_env "''pause''" rq_pause "demo_link []" "''no such file''"] by simp

text \<open>C31: The launch arguments name the program always, and every other field exactly when it is not empty:
  no key but these five is ever sent, and stopOnEntry never as false.\<close>

theorem launch_arguments_omit_what_is_empty:
  fixes spec
  defines "v \<equiv> launch_args_to_value (lldb_launch_args_new (ls_program spec) (ls_args spec) (ls_cwd spec)
                   (ls_env spec) (ls_stop_on_entry spec))"
  shows "jget v ''program'' = Some (JStr (ls_program spec)) \<and>
    jget v ''args'' = (if ls_args spec = [] then None else Some (JArr (map JStr (ls_args spec)))) \<and>
    jget v ''cwd'' = (case ls_cwd spec of Some (c # cs) \<Rightarrow> Some (JStr (c # cs)) | _ \<Rightarrow> None) \<and>
    jget v ''env'' = (if ls_env spec = [] then None else Some (json_map (map (\<lambda>(k, v). (k, JStr v)) (ls_env spec)))) \<and>
    jget v ''stopOnEntry'' = (if ls_stop_on_entry spec then Some (JBool True) else None) \<and>
    {k. jget v k \<noteq> None} \<subseteq> {''program'', ''args'', ''cwd'', ''env'', ''stopOnEntry''}"
proof -
  have get: "jget v k = map_of (rev ([(''program'', JStr (ls_program spec))] @
      entry_if (ls_args spec \<noteq> []) ''args'' (str_list (ls_args spec)) @
      entry_if ((case ls_cwd spec of Some c \<Rightarrow> c | None \<Rightarrow> []) \<noteq> []) ''cwd''
        (JStr (case ls_cwd spec of Some c \<Rightarrow> c | None \<Rightarrow> [])) @
      entry_if (ls_env spec \<noteq> []) ''env'' (json_map (map (\<lambda>(k, v). (k, JStr v)) (ls_env spec))) @
      entry_if (ls_stop_on_entry spec) ''stopOnEntry'' (JBool True))) k" for k
    unfolding v_def launch_args_to_value_def json_map_get
    by (simp add: lldb_launch_args_new_def insert_str_list_def)
  have rest: "jget v k = None" if "k \<notin> {''program'', ''args'', ''cwd'', ''env'', ''stopOnEntry''}" for k
    using that by (simp add: get map_add_def)
  show ?thesis
  proof (intro conjI)
    show "{k. jget v k \<noteq> None} \<subseteq> {''program'', ''args'', ''cwd'', ''env'', ''stopOnEntry''}"
      by (rule subsetI, unfold mem_Collect_eq, erule contrapos_np, rule rest)
    show "jget v ''cwd'' = (case ls_cwd spec of Some (c # cs) \<Rightarrow> Some (JStr (c # cs)) | _ \<Rightarrow> None)"
      by (cases "ls_cwd spec"; cases "the (ls_cwd spec)") (simp_all add: get map_add_def)
  qed (simp_all add: get map_add_def str_list_def)
qed

section \<open>Finding the adapter\<close>

text \<open>The candidates there are, in the order of the documentation; only macOS asks xcrun.\<close>

definition candidates :: "dap_env \<Rightarrow> detected list" where
  "candidates env =
     (case dv_var env ''LLDB_DAP_PATH'' of
        Some p \<Rightarrow> (if p \<noteq> [] \<and> (dv_look_path env p \<noteq> None \<or> dv_path_exists env p)
                   then [\<lparr>dt_path = p, dt_is_lldb_dap = is_capable_basename (path_basename p)\<rparr>] else [])
      | None \<Rightarrow> []) @
     List.map_filter (\<lambda>n. map_option (\<lambda>p. \<lparr>dt_path = p, dt_is_lldb_dap = True\<rparr>) (dv_look_path env n))
       [''lldb-dap'', ''lldb-dap-20'', ''lldb-dap-19'', ''lldb-dap-18'', ''lldb-dap-17'', ''lldb-dap-16'', ''lldb-dap-15''] @
     List.map_filter (\<lambda>n. map_option (\<lambda>p. \<lparr>dt_path = p, dt_is_lldb_dap = False\<rparr>) (dv_look_path env n)) [''lldb-vscode''] @
     (case dv_xcrun env of
        Some p \<Rightarrow> (if dv_is_macos env \<and> trim p \<noteq> [] then [\<lparr>dt_path = trim p, dt_is_lldb_dap = True\<rparr>] else [])
      | None \<Rightarrow> [])"

lemma first_found_filter:
  "List.map_filter (\<lambda>n. map_option f (look n)) ns = [] \<longleftrightarrow> first_found look ns = None"
  "first_found look ns = Some p \<Longrightarrow> \<exists>ps. List.map_filter (\<lambda>n. map_option f (look n)) ns = f p # ps"
  by (induction ns) (auto simp: map_filter_simps split: option.splits)

lemma versioned:
  "versioned_names = [''lldb-dap-20'', ''lldb-dap-19'', ''lldb-dap-18'', ''lldb-dap-17'', ''lldb-dap-16'', ''lldb-dap-15'']"
  by code_simp

text \<open>C32: Detection returns the first candidate of the documented chain (the environment variable,
  lldb-dap, its versions from 20 down to 15, lldb-vscode, and on macOS xcrun), with the capability flag
  of that candidate, and fails only when there is none, naming everything that was searched.\<close>

theorem detection_follows_the_chain:
  "find_lldb_dap_with env =
     (case candidates env of
        d # _ \<Rightarrow> Inr d
      | [] \<Rightarrow> Inl (not_found
          ((case dv_var env ''LLDB_DAP_PATH'' of Some (c # cs) \<Rightarrow> [''LLDB_DAP_PATH='' @ c # cs] | _ \<Rightarrow> []) @
           ''lldb-dap'' # versioned_names @ [''lldb-vscode''] @
           (if dv_is_macos env then [''xcrun --find lldb-dap''] else []))))"
proof -
  let ?names = "''lldb-dap'' # versioned_names"
  let ?f = "\<lambda>p. \<lparr>dt_path = p, dt_is_lldb_dap = True\<rparr>"
  have "candidates env = (case dv_var env ''LLDB_DAP_PATH'' of
        Some p \<Rightarrow> (if p \<noteq> [] \<and> (dv_look_path env p \<noteq> None \<or> dv_path_exists env p)
                   then [\<lparr>dt_path = p, dt_is_lldb_dap = is_capable_basename (path_basename p)\<rparr>] else [])
      | None \<Rightarrow> []) @
     List.map_filter (\<lambda>n. map_option ?f (dv_look_path env n)) ?names @
     (case dv_look_path env ''lldb-vscode'' of Some p \<Rightarrow> [\<lparr>dt_path = p, dt_is_lldb_dap = False\<rparr>] | None \<Rightarrow> []) @
     (case find_xcrun env of Some d \<Rightarrow> [d] | None \<Rightarrow> [])"
    unfolding candidates_def versioned by (simp add: map_filter_simps find_xcrun_def split: option.split)
  then show ?thesis
    using first_found_filter [where f = ?f and look = "dv_look_path env" and ns = ?names]
    by (cases "dv_var env ''LLDB_DAP_PATH''"; cases "the (dv_var env ''LLDB_DAP_PATH'')";
        cases "first_found (dv_look_path env) ?names")
      (auto simp: find_lldb_dap_with_def Let_def simp del: first_found.simps split: option.splits)
qed

text \<open>The ring keeps the end of the standard error: after any writes its contents are the last bytes
  of all that was written, as many as its capacity, which is 4096 where 0 was asked for, and each write
  reports its whole length.\<close>

theorem stderr_ring_keeps_the_tail:
  "eb_inner (fold (\<lambda>d b. snd (stderr_write d b)) ds (stderr_new cap)) =
     last_bytes (if cap = 0 then 4096 else cap) (concat ds) \<and>
   fst (stderr_write d b) = length d"
proof -
  have "fold (\<lambda>d b. snd (stderr_write d b)) ds b = b\<lparr>eb_inner := last_bytes (eb_size b) (s @ concat ds)\<rparr>"
    if "eb_inner b = last_bytes (eb_size b) s" "0 < eb_size b" for b s
    using that
  proof (induction ds arbitrary: b s)
    case (Cons d ds)
    then show ?case using Cons.IH [of "snd (stderr_write d b)" "s @ d"] by (simp add: stderr_write_last)
  qed (cases b; simp)
  from this [of "stderr_new cap" "[]"] show ?thesis
    by (simp add: stderr_new_def DEFAULT_STDERR_CAP_def last_bytes_def stderr_write_def Let_def)
qed

section \<open>Bodies\<close>

definition variable_json :: "variable \<Rightarrow> json" where
  "variable_json v = json_map
     [(''name'', JStr (va_name v)), (''value'', JStr (va_value v)), (''type'', JStr (va_ty v)),
      (''variablesReference'', json_int (va_variables_reference v)), (''namedVariables'', json_int (va_named v)),
      (''indexedVariables'', json_int (va_indexed v))]"

lemma map_of_rev_distinct: "distinct (map fst xs) \<Longrightarrow> map_of (rev xs) = map_of xs"
proof (induction xs)
  case (Cons x xs)
  then have "map_of xs (fst x) = None" by (simp add: map_of_eq_None_iff)
  then show ?case using Cons by (cases x) (auto simp: fun_eq_iff map_add_def split: option.splits)
qed simp

lemma canonical_json_map:
  "canonical (json_map kvs) = json_map (map (\<lambda>(k, v). (k, canonical v)) kvs)"
proof -
  let ?ins = "\<lambda>m. fold (\<lambda>(k, v). obj_insert k v) m []" and ?c = "map (\<lambda>(k, v). (k, canonical v))"
  have ok: "obj_ok (?ins m)" for m :: "(string \<times> json) list"
  proof -
    have "obj_ok acc \<Longrightarrow> obj_ok (fold (\<lambda>(k, v). obj_insert k v) m acc)" for acc
      by (induction m arbitrary: acc) (auto simp: obj_ok_insert)
    then show ?thesis by (simp add: obj_ok_def)
  qed
  have get: "map_of (?ins m) = map_of (rev m)" for m :: "(string \<times> json) list"
    using json_map_get [of m] by (auto simp: json_map_def fun_eq_iff)
  have "distinct (map fst (?ins kvs))" using ok [of kvs] by (simp add: obj_ok_def strict_sorted_iff)
  then have "distinct (map fst (?c (?ins kvs)))" by (simp add: o_def case_prod_unfold)
  then have "map_of (?ins (?c (?ins kvs))) = map_option canonical \<circ> map_of (rev kvs)"
    by (simp add: get map_of_rev_distinct map_of_map)
  also have "\<dots> = map_of (?ins (?c kvs))"
    by (simp add: get rev_map map_of_map)
  finally have "?ins (?c (?ins kvs)) = ?ins (?c kvs)"
    by (intro obj_ok_ext ok)
  then show ?thesis by (simp add: json_map_def)
qed

text \<open>What an adapter says of its variables is what the tools get: the body that lists them in the form of
  the protocol decodes to exactly that list, every field of it, for all 64-bit references and counts;
  and a body that is missing decodes to no variables.\<close>

theorem variables_body_roundtrip:
  assumes "\<forall>v \<in> set vs. in_i64 (va_variables_reference v) \<and> in_i64 (va_named v) \<and> in_i64 (va_indexed v)"
  shows "body_variables wording (Some (json_map [(''variables'', JArr (map variable_json vs))])) = Inr vs \<and>
         body_variables wording None = Inr []"
proof -
  have i64: "in_i64 i \<Longrightarrow> json_i64 (canonical (json_int i)) = Some i" for i
    by (simp add: json_int_def in_i64_def)
  have one: "dec_variable (canonical (variable_json v)) = Some v"
    if "in_i64 (va_variables_reference v)" "in_i64 (va_named v)" "in_i64 (va_indexed v)" for v
  proof -
    define kvs where "kvs = map (\<lambda>(k, j). (k, canonical j))
      [(''name'', JStr (va_name v)), (''value'', JStr (va_value v)), (''type'', JStr (va_ty v)),
       (''variablesReference'', json_int (va_variables_reference v)), (''namedVariables'', json_int (va_named v)),
       (''indexedVariables'', json_int (va_indexed v))]"
    obtain m where m: "json_map kvs = JObj m" "\<And>k. map_of m k = map_of (rev kvs) k"
      using json_map_get [of kvs] by (auto simp: json_map_def)
    have "canonical (variable_json v) = JObj m"
      unfolding variable_json_def canonical_json_map kvs_def [symmetric] by (rule m(1))
    moreover have "map_of m ''name'' = Some (JStr (va_name v))" "map_of m ''value'' = Some (JStr (va_value v))"
      "map_of m ''type'' = Some (JStr (va_ty v))"
      "map_of m ''variablesReference'' = Some (canonical (json_int (va_variables_reference v)))"
      "map_of m ''namedVariables'' = Some (canonical (json_int (va_named v)))"
      "map_of m ''indexedVariables'' = Some (canonical (json_int (va_indexed v)))"
      by (simp_all add: m(2) kvs_def)
    ultimately show ?thesis using that by (simp add: dec_variable_def field_or_def i64)
  qed
  have "those (map dec_variable (map canonical (map variable_json vs))) = Some vs"
    using assms one by (induction vs) simp_all
  then have "dec_collection ''variables'' dec_variable (canonical (json_map [(''variables'', JArr (map variable_json vs))])) = Some vs"
    by (simp add: canonical_json_map dec_collection_def json_map_def field_or_def)
  moreover have "dec_collection ''variables'' dec_variable (JObj []) = Some []"
    by (simp add: dec_collection_def field_or_def)
  ultimately show ?thesis by (simp add: body_variables_def decode_body_def)
qed

theorem variables_body_roundtrip_witness:
  "body_variables (\<lambda>_. []) (Some (json_map [(''variables'', JArr [variable_json
     \<lparr>va_name = ''x'', va_value = ''1'', va_ty = ''int'', va_variables_reference = 0, va_named = 0, va_indexed = 0\<rparr>])])) =
   Inr [\<lparr>va_name = ''x'', va_value = ''1'', va_ty = ''int'', va_variables_reference = 0, va_named = 0, va_indexed = 0\<rparr>]"
  using variables_body_roundtrip [of "[\<lparr>va_name = ''x'', va_value = ''1'', va_ty = ''int'', va_variables_reference = 0,
      va_named = 0, va_indexed = 0\<rparr>]" "\<lambda>_. []"]
  by (simp add: in_i64_def i64_min_def i64_max_def)

end
