(* ===== verification/Pipeline_Properties.thy ===== *)
theory Pipeline_Properties
  imports Transport_Properties Lldb_Link Event_Pump
begin

text \<open>
  From the adapter's bytes to the session: the read loop, the merged event stream of the LLDB factory
  and the session's event pump together.
\<close>

lemma outputs_of_chunks: "outputs_of (map chunk_event cs) = map (\<lambda>c. \<lparr>oe_category = oc_category c, oe_text = oc_text c\<rparr>) cs"
  by (induction cs) (simp_all add: chunk_event_def)

lemma outputs_of_shuffles:
  "evs \<in> shuffles xs ys \<Longrightarrow> \<forall>y \<in> set ys. \<exists>code. y = Ev_Terminated code \<Longrightarrow> outputs_of evs = outputs_of xs"
proof (induction xs ys arbitrary: evs rule: shuffles.induct)
  case (1 ys)
  have "\<forall>y \<in> set ys. \<exists>code. y = Ev_Terminated code \<Longrightarrow> outputs_of ys = []" by (induction ys) auto
  then show ?case using 1 by simp
next
  case (3 x xs y ys)
  from 3(3) consider es where "evs = x # es" "es \<in> shuffles xs (y # ys)" | es where "evs = y # es" "es \<in> shuffles (x # xs) ys"
    by auto
  then show ?case
  proof cases
    case 1
    then show ?thesis using "3.IH"(1) [of es] "3.prems"(2) by (cases x) auto
  next
    case 2
    then show ?thesis using "3.IH"(2) [of es] "3.prems"(2) by auto
  qed
qed simp

lemma stream_reaches_session:
  assumes "evs \<in> lldb_event_streams sk" "s_generation s = g"
  shows "s_output (spawn_event_pump g evs s) =
      buf.app_all (map (\<lambda>c. \<lparr>oe_category = oc_category c, oe_text = oc_text c\<rparr>) (sk_output sk)) (s_output s)"
    "s_state (spawn_event_pump g evs s) = (if terminated_events sk = [] then s_state s else Terminated)"
proof -
  have ends: "\<forall>y \<in> set (terminated_events sk). \<exists>code. y = Ev_Terminated code"
    by (auto simp: terminated_events_def split: oneshot.splits)
  have "outputs_of evs = outputs_of (map chunk_event (sk_output sk))"
    using outputs_of_shuffles [OF _ ends] assms(1) by (simp add: lldb_event_streams_def)
  then show "s_output (spawn_event_pump g evs s) =
      buf.app_all (map (\<lambda>c. \<lparr>oe_category = oc_category c, oe_text = oc_text c\<rparr>) (sk_output sk)) (s_output s)"
    by (simp add: pump_output outputs_of_chunks)
  have "set evs = chunk_event ` set (sk_output sk) \<union> set (terminated_events sk)"
    using assms(1) set_shuffles by (auto simp: lldb_event_streams_def)
  then have "(\<exists>code. Ev_Terminated code \<in> set evs) \<longleftrightarrow> terminated_events sk \<noteq> []"
    using ends by (cases "terminated_events sk") (auto simp: chunk_event_def)
  then show "s_state (spawn_event_pump g evs s) = (if terminated_events sk = [] then s_state s else Terminated)"
    by (simp add: pump_state [OF assms(2)])
qed

text \<open>C33: The debuggee's output reaches the user.  When the adapter writes whole frames and closes, then
  however the two channels of the factory are merged, the pump of the current generation appends to the
  session's buffer exactly the text of every output event, in the adapter's order, and leaves the session
  terminated.\<close>

theorem adapter_output_reaches_the_session:
  assumes "list_all2 (\<lambda>b m. length b \<le> MAX_CONTENT_LENGTH \<and> from_slice parse b = Inr m) bs ms"
    and "evs \<in> lldb_event_streams (rl_sinks (run parse (read_loop_new (concat (map frame_bytes bs)) sh)))"
    and "s_generation s = g"
  shows "s_output (spawn_event_pump g evs s) =
      buf.app_all (map (\<lambda>c. \<lparr>oe_category = oc_category c, oe_text = oc_text c\<rparr>) (outputs_in ms)) (s_output s) \<and>
    s_state (spawn_event_pump g evs s) = Terminated"
proof -
  let ?rl = "read_loop_new (concat (map frame_bytes bs)) sh"
  have "run parse ?rl = (recover W_Eof (dispatch_all ms (?rl\<lparr>rl_reader := []\<rparr>)))\<lparr>rl_running := False\<rparr>"
    by (rule run_frames [OF _ _ assms(1)]) (simp_all add: read_loop_new_def)
  then have sinks: "rl_sinks (run parse ?rl) = fire_terminated (fold sinks_after ms sinks_new)"
    by (simp add: recover_sinks sinks_all) (simp add: read_loop_new_def)
  have "sk_output (rl_sinks (run parse ?rl)) = outputs_in ms"
    by (simp add: sinks fire_terminated_def sinks_output sinks_new_def split: option.split)
  moreover have "sk_signals (rl_sinks (run parse ?rl)) = [Sent (exit_report None ms)]"
    using sinks_signal [of sinks_new ms] by (simp add: sinks) (simp add: sinks_new_def)
  then have "terminated_events (rl_sinks (run parse ?rl)) \<noteq> []" by (simp add: terminated_events_def)
  ultimately show ?thesis using stream_reaches_session [OF assms(2,3)] by simp
qed

definition demo_session :: session where
  "demo_session = session_new\<lparr>s_generation := 1\<rparr>"

theorem adapter_output_reaches_the_session_witness:
  "s_state (spawn_event_pump 1 [Ev_Terminated (Some 3), Ev_Output [] ''hi''] demo_session) = Terminated"
proof -
  let ?bs = "[''out'', ''exit'', ''end'']"
  let ?ms = "[DapEvent (OutputEvent demo_hi), DapEvent (ExitedEvent 3), DapEvent TerminatedEvent]"
  have "from_slice demo_parse ''out'' = Inr (DapEvent (OutputEvent demo_hi))"
    "from_slice demo_parse ''exit'' = Inr (DapEvent (ExitedEvent 3))"
    "from_slice demo_parse ''end'' = Inr (DapEvent TerminatedEvent)"
    by code_simp+
  then have frames: "list_all2 (\<lambda>b m. length b \<le> MAX_CONTENT_LENGTH \<and> from_slice demo_parse b = Inr m) ?bs ?ms"
    by (simp add: MAX_CONTENT_LENGTH_def)
  let ?rl = "read_loop_new (concat (map frame_bytes ?bs)) shared_new"
  have "run demo_parse ?rl = (recover W_Eof (dispatch_all ?ms (?rl\<lparr>rl_reader := []\<rparr>)))\<lparr>rl_running := False\<rparr>"
    by (rule run_frames [OF _ _ frames]) (simp_all add: read_loop_new_def)
  then have "rl_sinks (run demo_parse ?rl) = fire_terminated (fold sinks_after ?ms sinks_new)"
    by (simp add: recover_sinks sinks_all) (simp add: read_loop_new_def)
  also have "\<dots> = \<lparr>sk_output = [\<lparr>oc_category = [], oc_text = ''hi''\<rparr>], sk_terminated = None,
      sk_signals = [Sent (Some 3)], sk_last_exit_code = Some 3\<rparr>"
    by code_simp
  finally have "[Ev_Terminated (Some 3), Ev_Output [] ''hi''] \<in> lldb_event_streams (rl_sinks (run demo_parse ?rl))"
    by (simp add: lldb_event_streams_def terminated_events_def chunk_event_def)
  from adapter_output_reaches_the_session [OF frames this, of demo_session 1] show ?thesis
    by (simp add: demo_session_def)
qed

end
