(* ===== verification/Dbgeng_Text.thy ===== *)
theory Dbgeng_Text
  imports Dbgeng_Callbacks
begin

text \<open>
  The functions of \<open>dbgeng-sys\<close> that call nothing of Windows: the texts of \<open>engine.rs\<close> (buffers,
  conditions, the cap of a report, symbol status, a line of disassembly), the search for the debugger
  extensions with the registry, the environment and the file system as arguments, and the names of
  processes, \<open>process.rs\<close>.
\<close>

section \<open>Texts\<close>

definition has_nul :: "string \<Rightarrow> bool" where
  "has_nul s \<longleftrightarrow> CHR 0x00 \<in> set s"

definition cstr_from_buf :: "string \<Rightarrow> string" where
  "cstr_from_buf buf = utf8_lossy (until_nul buf)"

definition condition_expr :: "string \<Rightarrow> string" where
  "condition_expr condition = ''@@c++( ('' @ condition @ '') ? 1 : 0 )''"

definition MAX_OUTPUT_SIZE :: nat where
  "MAX_OUTPUT_SIZE = 32768"

definition truncation_marker :: string where
  "truncation_marker = [CHR 0x0A, CHR 0x0A] @ ''... (output truncated at 32KB)''"

text \<open>\<open>is_char_boundary\<close>: the end of the text, or the first byte of a character.\<close>

definition is_char_boundary :: "string \<Rightarrow> nat \<Rightarrow> bool" where
  "is_char_boundary s i \<longleftrightarrow> i = 0 \<or> i = length s \<or> (i < length s \<and> \<not> continuation (s ! i))"

fun boundary_at_or_below :: "string \<Rightarrow> nat \<Rightarrow> nat" where
  "boundary_at_or_below s 0 = 0"
| "boundary_at_or_below s (Suc n) = (if is_char_boundary s (Suc n) then Suc n else boundary_at_or_below s n)"

definition truncate_output :: "string \<Rightarrow> string" where
  "truncate_output out =
     (if length out > MAX_OUTPUT_SIZE
      then take (boundary_at_or_below out MAX_OUTPUT_SIZE) out @ truncation_marker
      else out)"

abbreviation DEBUG_SYMTYPE_COFF :: "32 word" where "DEBUG_SYMTYPE_COFF \<equiv> 1"
abbreviation DEBUG_SYMTYPE_CODEVIEW :: "32 word" where "DEBUG_SYMTYPE_CODEVIEW \<equiv> 2"
abbreviation DEBUG_SYMTYPE_PDB :: "32 word" where "DEBUG_SYMTYPE_PDB \<equiv> 3"
abbreviation DEBUG_SYMTYPE_EXPORT :: "32 word" where "DEBUG_SYMTYPE_EXPORT \<equiv> 4"
abbreviation DEBUG_SYMTYPE_DEFERRED :: "32 word" where "DEBUG_SYMTYPE_DEFERRED \<equiv> 5"
abbreviation DEBUG_SYMTYPE_SYM :: "32 word" where "DEBUG_SYMTYPE_SYM \<equiv> 6"
abbreviation DEBUG_SYMTYPE_DIA :: "32 word" where "DEBUG_SYMTYPE_DIA \<equiv> 7"

definition symbol_status :: "32 word \<Rightarrow> string" where
  "symbol_status t =
     (if t = DEBUG_SYMTYPE_PDB \<or> t = DEBUG_SYMTYPE_CODEVIEW \<or> t = DEBUG_SYMTYPE_COFF \<or>
         t = DEBUG_SYMTYPE_SYM \<or> t = DEBUG_SYMTYPE_DIA then ''pdb''
      else if t = DEBUG_SYMTYPE_EXPORT then ''export''
      else if t = DEBUG_SYMTYPE_DEFERRED then ''deferred''
      else ''none'')"

text \<open>\<open>split_whitespace\<close>: the pieces between runs of white space.\<close>

fun starting_white :: "string \<Rightarrow> string option" where
  "starting_white s = find (\<lambda>t. starts_with t s) white_space"

lemma starting_white_drop: "starting_white s = Some t \<Longrightarrow> length (drop (length t) s) < length s"
  by (rule starts_with_drop_less) (auto dest!: find_SomeD dest: white_space_nonempty)

function split_white :: "string \<Rightarrow> string \<Rightarrow> string list" where
  "split_white word s =
     (case starting_white s of
        Some t \<Rightarrow> (if word = [] then id else (#) word) (split_white [] (drop (length t) s))
      | None \<Rightarrow> (case s of
                   [] \<Rightarrow> (if word = [] then [] else [word])
                 | c # cs \<Rightarrow> split_white (word @ [c]) cs))"
  by pat_completeness auto
termination
  by (relation "measure (\<lambda>(_, s). length s)") (auto simp del: starting_white.simps length_drop dest: starting_white_drop)

declare split_white.simps [simp del]

definition split_whitespace :: "string \<Rightarrow> string list" where
  "split_whitespace s = split_white [] s"

definition parse_disasm_text :: "string \<Rightarrow> string" where
  "parse_disasm_text line =
     (let trimmed = trim (rev (dropWhile (\<lambda>c. c = CHR 0x0D \<or> c = CHR 0x0A) (rev line)));
          rest = drop 2 (split_whitespace trimmed)
      in if rest = [] then trimmed else join_with '' '' rest)"

section \<open>The debugger extensions\<close>

text \<open>
  \<open>Path::join\<close> on Windows for a relative second part, and the equality of paths, which compares their
  components.  Paths with a verbatim, device or network prefix are left out.
\<close>

definition to_ascii_lowercase :: "string \<Rightarrow> string" where
  "to_ascii_lowercase s =
     map (\<lambda>c. if 65 \<le> (of_char c :: nat) \<and> (of_char c :: nat) \<le> 90 then char_of ((of_char c :: nat) + 32) else c) s"

definition is_path_sep :: "char \<Rightarrow> bool" where
  "is_path_sep c \<longleftrightarrow> c = CHR 0x5C \<or> c = CHR 0x2F"

definition drive_only :: "string \<Rightarrow> bool" where
  "drive_only p \<longleftrightarrow> length p = 2 \<and> p ! 1 = CHR '':''"

definition path_join :: "string \<Rightarrow> string \<Rightarrow> string" where
  "path_join p q =
     (if p = [] \<or> is_path_sep (last p) \<or> drive_only p then p @ q else p @ [CHR 0x5C] @ q)"

fun path_parts :: "string \<Rightarrow> string \<Rightarrow> string list" where
  "path_parts part [] = [part]"
| "path_parts part (c # cs) = (if is_path_sep c then part # path_parts [] cs else path_parts (part @ [c]) cs)"

definition fold_drive :: "string \<Rightarrow> string" where
  "fold_drive part =
     (case part of c # d # cs \<Rightarrow> (if d = CHR '':'' then to_ascii_lowercase [c] @ d # cs else part) | _ \<Rightarrow> part)"

definition path_components :: "string \<Rightarrow> bool \<times> string list" where
  "path_components p =
     (let parts = filter (\<lambda>c. c \<noteq> []) (path_parts [] p);
          rooted = (p \<noteq> [] \<and> is_path_sep (hd p));
          absolute = (2 < length p \<and> p ! 1 = CHR '':'' \<and> is_path_sep (p ! 2))
      in (rooted \<or> absolute,
          if rooted then filter (\<lambda>c. c \<noteq> ''.'') parts
          else map fold_drive (take 1 parts) @ filter (\<lambda>c. c \<noteq> ''.'') (drop 1 parts)))"

definition same_path :: "string \<Rightarrow> string \<Rightarrow> bool" where
  "same_path p q \<longleftrightarrow> path_components p = path_components q"

definition push_unique :: "string \<Rightarrow> string list \<Rightarrow> string list" where
  "push_unique cand candidates =
     (if \<exists>p \<in> set candidates. same_path p cand then candidates else candidates @ [cand])"

definition select_existing_root :: "string list \<Rightarrow> (string \<Rightarrow> bool) \<Rightarrow> string option" where
  "select_existing_root candidates exists_p = find exists_p candidates"

definition debuggers_x64 :: "string \<Rightarrow> string" where
  "debuggers_x64 rt = path_join (path_join rt ''Debuggers'') ''x64''"

definition default_root :: string where
  "default_root =
     ''C:'' @ [CHR 0x5C] @ ''Program Files (x86)'' @ [CHR 0x5C] @ ''Windows Kits'' @ [CHR 0x5C] @ ''10'' @
     [CHR 0x5C] @ ''Debuggers'' @ [CHR 0x5C] @ ''x64''"

definition discover_debuggers_root_with ::
  "(bool \<Rightarrow> string option) \<Rightarrow> string option \<Rightarrow> (string \<Rightarrow> bool) \<Rightarrow> string option" where
  "discover_debuggers_root_with reg_reader env_sdk_dir exists_p =
     (let c0 = [];
          c1 = (case reg_reader False of Some rt \<Rightarrow> push_unique (debuggers_x64 rt) c0 | None \<Rightarrow> c0);
          c2 = (case reg_reader True of Some rt \<Rightarrow> push_unique (debuggers_x64 rt) c1 | None \<Rightarrow> c1);
          c3 = (case env_sdk_dir of
                  Some sdk \<Rightarrow> (if sdk \<noteq> [] then push_unique (debuggers_x64 sdk) c2 else c2)
                | None \<Rightarrow> c2)
      in select_existing_root (push_unique default_root c3) exists_p)"

definition extension_dirs :: "string \<Rightarrow> (string \<Rightarrow> bool) \<Rightarrow> string list" where
  "extension_dirs rt exists_p = filter exists_p [path_join rt ''winext'', path_join rt ''winxp'', rt]"

section \<open>Process names\<close>

definition base_name :: "string \<Rightarrow> string" where
  "base_name name =
     (let lower = to_ascii_lowercase name
      in case strip_prefix (rev ''.exe'') (rev lower) of Some r \<Rightarrow> rev r | None \<Rightarrow> lower)"

end
