(* ===== verification/Dbgeng_System.thy ===== *)
theory Dbgeng_System
  imports "HOL-Library.Multiset" Engine_Thread Dbgeng_Text
begin

text \<open>
  What \<open>dbgeng-sys\<close> asks of Windows outside DbgEng: the processes (\<open>process.rs\<close>), the COM apartment
  (\<open>com.rs\<close>), and the registry and the token of \<open>engine.rs\<close>.  The system calls are the fields of a record
  over a state \<open>'d\<close>; handles are numbers.
\<close>

section \<open>Wide strings\<close>

text \<open>\<open>from_utf16_lossy\<close>: a surrogate without its other half becomes U+FFFD.\<close>

definition high_surrogate :: "nat \<Rightarrow> bool" where
  "high_surrogate u \<longleftrightarrow> 0xD800 \<le> u \<and> u \<le> 0xDBFF"

definition low_surrogate :: "nat \<Rightarrow> bool" where
  "low_surrogate u \<longleftrightarrow> 0xDC00 \<le> u \<and> u \<le> 0xDFFF"

fun decode_utf16 :: "nat list \<Rightarrow> nat list" where
  "decode_utf16 [] = []"
| "decode_utf16 [u] = [if high_surrogate u \<or> low_surrogate u then 0xFFFD else u]"
| "decode_utf16 (u # v # us) =
     (if high_surrogate u then
        (if low_surrogate v then (0x10000 + (u - 0xD800) * 0x400 + (v - 0xDC00)) # decode_utf16 us
         else 0xFFFD # decode_utf16 (v # us))
      else (if low_surrogate u then 0xFFFD else u) # decode_utf16 (v # us))"

definition utf8_char :: "nat \<Rightarrow> string" where
  "utf8_char c =
     (if c < 0x80 then [char_of c]
      else if c < 0x800 then [char_of (0xC0 + c div 0x40), char_of (0x80 + c mod 0x40)]
      else if c < 0x10000 then
        [char_of (0xE0 + c div 0x1000), char_of (0x80 + c div 0x40 mod 0x40), char_of (0x80 + c mod 0x40)]
      else [char_of (0xF0 + c div 0x40000), char_of (0x80 + c div 0x1000 mod 0x40),
            char_of (0x80 + c div 0x40 mod 0x40), char_of (0x80 + c mod 0x40)])"

definition from_utf16_lossy :: "16 word list \<Rightarrow> string" where
  "from_utf16_lossy us = concat (map utf8_char (decode_utf16 (map unat us)))"

definition wide_to_string :: "16 word list \<Rightarrow> string" where
  "wide_to_string buf = from_utf16_lossy (takeWhile (\<lambda>c. c \<noteq> 0) buf)"

section \<open>The system\<close>

text \<open>
  \<open>Process32FirstW\<close> and \<open>Process32NextW\<close> give the name and the id of a process; \<open>RegGetValueW\<close> without a
  buffer gives a size in bytes, with a buffer its contents afterwards and the size written.
\<close>

record 'd win_system =
  CreateToolhelp32Snapshot :: "'d \<Rightarrow> nat option \<times> 'd"
  Process32FirstW :: "nat \<Rightarrow> 'd \<Rightarrow> (16 word list \<times> 32 word) option \<times> 'd"
  Process32NextW :: "nat \<Rightarrow> 'd \<Rightarrow> (16 word list \<times> 32 word) option \<times> 'd"
  CloseHandle :: "nat \<Rightarrow> 'd \<Rightarrow> 'd"
  OpenProcessToken :: "'d \<Rightarrow> nat option \<times> 'd"
  LookupPrivilegeValueW :: "string \<Rightarrow> 'd \<Rightarrow> 64 word option \<times> 'd"
  AdjustTokenPrivileges :: "nat \<Rightarrow> 64 word \<Rightarrow> 'd \<Rightarrow> bool \<times> 'd"
  CoInitializeEx :: "'d \<Rightarrow> 32 word \<times> 'd"
  CoUninitialize :: "'d \<Rightarrow> 'd"
  RegValueSize :: "bool \<Rightarrow> string \<Rightarrow> string \<Rightarrow> 'd \<Rightarrow> 32 word \<times> 32 word \<times> 'd"
  RegGetValueW :: "bool \<Rightarrow> string \<Rightarrow> string \<Rightarrow> 16 word list \<Rightarrow> 'd \<Rightarrow> 32 word \<times> 16 word list \<times> 32 word \<times> 'd"

section \<open>Finding a process\<close>

text \<open>The walk over the snapshot ends when the system has no further process.\<close>

partial_function (option) process_walk ::
  "'d win_system \<Rightarrow> nat \<Rightarrow> string \<Rightarrow> 16 word list \<times> 32 word \<Rightarrow> 'd \<Rightarrow> (32 word option \<times> 'd) option" where
  "process_walk sys snapshot want entry d =
     (if base_name (wide_to_string (fst entry)) = want then Some (Some (snd entry), d)
      else case Process32NextW sys snapshot d of
             (None, d') \<Rightarrow> Some (None, d')
           | (Some entry', d') \<Rightarrow> process_walk sys snapshot want entry' d')"

definition find_process_by_name :: "'d win_system \<Rightarrow> string \<Rightarrow> 'd \<Rightarrow> (32 word option \<times> 'd) option" where
  "find_process_by_name sys name d =
     (case CreateToolhelp32Snapshot sys d of
        (None, d1) \<Rightarrow> Some (None, d1)
      | (Some snapshot, d1) \<Rightarrow>
          (case Process32FirstW sys snapshot d1 of
             (None, d2) \<Rightarrow> Some (None, CloseHandle sys snapshot d2)
           | (Some entry, d2) \<Rightarrow>
               map_option (\<lambda>(found, d3). (found, CloseHandle sys snapshot d3))
                 (process_walk sys snapshot (base_name name) entry d2)))"

section \<open>The privilege to debug\<close>

definition system_debug_privilege :: "'d win_system \<Rightarrow> 'd \<Rightarrow> bool \<times> 'd" where
  "system_debug_privilege sys d =
     (case OpenProcessToken sys d of
        (None, d1) \<Rightarrow> (False, d1)
      | (Some token, d1) \<Rightarrow>
          (case LookupPrivilegeValueW sys ''SeDebugPrivilege'' d1 of
             (None, d2) \<Rightarrow> (False, CloseHandle sys token d2)
           | (Some luid, d2) \<Rightarrow>
               (case AdjustTokenPrivileges sys token luid d2 of (ok, d3) \<Rightarrow> (ok, CloseHandle sys token d3))))"

section \<open>The COM apartment\<close>

record com_apartment =
  ap_initialized :: bool

definition com_apartment_new ::
  "'d win_system \<Rightarrow> (32 word \<Rightarrow> string) \<Rightarrow> 'd \<Rightarrow> (engine_error + com_apartment) \<times> 'd" where
  "com_apartment_new sys message d =
     (case CoInitializeEx sys d of
        (hr, d1) \<Rightarrow>
          (if hr = 0 \<or> hr = 1 then Inr \<lparr>ap_initialized = True\<rparr>
           else Inl (EE_Com ''CoInitializeEx'' hr (message hr)), d1))"

definition com_apartment_drop :: "'d win_system \<Rightarrow> com_apartment \<Rightarrow> 'd \<Rightarrow> 'd" where
  "com_apartment_drop sys a d = (if ap_initialized a then CoUninitialize sys d else d)"

section \<open>The registry\<close>

definition system_kits_root10 :: "'d win_system \<Rightarrow> bool \<Rightarrow> 'd \<Rightarrow> string option \<times> 'd" where
  "system_kits_root10 sys wow6432 d =
     (let subkey = ''SOFTWARE'' @ [CHR 0x5C] @ ''Microsoft'' @ [CHR 0x5C] @ ''Windows Kits'' @ [CHR 0x5C] @ ''Installed Roots'';
          name = ''KitsRoot10''
      in case RegValueSize sys wow6432 subkey name d of
           (rc, cb, d1) \<Rightarrow>
             if rc \<noteq> 0 \<or> cb = 0 then (None, d1)
             else case RegGetValueW sys wow6432 subkey name (replicate ((unat cb + 1) div 2) 0) d1 of
                    (rc, buf, cb2, d2) \<Rightarrow>
                      if rc \<noteq> 0 then (None, d2)
                      else let s = wide_to_string (take (min (unat cb2 div 2) (length buf)) buf)
                           in (if s = [] then None else Some s, d2))"

section \<open>What the calls give and give back\<close>

text \<open>Encoded characters are well-formed; so is whatever is decoded from a wide string.\<close>

definition scalar :: "nat \<Rightarrow> bool" where
  "scalar c \<longleftrightarrow> c < 0x110000 \<and> \<not> high_surrogate c \<and> \<not> low_surrogate c"

lemma of_char_byte: "n < 0x100 \<Longrightarrow> (of_char (char_of n :: char) :: nat) = n"
  by simp

lemma utf8_char_step:
  assumes "scalar c"
  shows "utf8_step (utf8_char c @ s) = Some (length (utf8_char c))"
proof -
  define a b d e where "a = c mod 0x40" and "b = c div 0x40 mod 0x40" and "d = c div 0x1000 mod 0x40" and "e = c div 0x40000"
  note parts = a_def b_def d_def e_def
  have lt: "a < 0x40" "b < 0x40" "d < 0x40" by (simp_all add: parts)
  have "c div 0x1000 = c div 0x40 div 0x40" "e = c div 0x1000 div 0x40" by (simp_all add: div_mult2_eq [symmetric] e_def)
  then have c: "c = 0x40 * (c div 0x40) + a" "c div 0x40 = 0x40 * (c div 0x1000) + b" "c div 0x1000 = 0x40 * e + d"
    by (simp_all only: parts mult_div_mod_eq)
  define ca cb cd where "ca = char_of (0x80 + a)" and "cb = char_of (0x80 + b)" and "cd = char_of (0x80 + d)"
  have tail: "(of_char ca :: nat) = 0x80 + a" "(of_char cb :: nat) = 0x80 + b" "(of_char cd :: nat) = 0x80 + d"
    using lt by (simp_all only: ca_def cb_def cd_def) (rule of_char_byte; simp)+
  consider "c < 0x80" | "0x80 \<le> c" "c < 0x800" | "0x800 \<le> c" "c < 0x10000" | "0x10000 \<le> c" "c < 0x110000"
    using assms by (force simp: scalar_def)
  then show ?thesis
  proof cases
    case 2
    define h where "h = char_of (0xC0 + c div 0x40)"
    have q: "2 \<le> c div 0x40" "c div 0x40 < 0x20" using 2 c(1) lt(1) by linarith+
    then have "(of_char h :: nat) = 0xC0 + c div 0x40" unfolding h_def by (intro of_char_byte) simp
    moreover have "utf8_char c = [h, ca]" using 2 by (simp add: utf8_char_def h_def ca_def a_def)
    ultimately show ?thesis using q lt by (simp add: continuation_def Let_def tail)
  next
    case 3
    define h where "h = char_of (0xE0 + c div 0x1000)"
    have q: "c div 0x1000 < 0x10" using 3 c lt by linarith
    have l: "c div 0x1000 = 0 \<Longrightarrow> 0x20 \<le> b" using 3 c lt by linarith
    have u: "c div 0x1000 = 0xD \<Longrightarrow> b < 0x20"
      using assms c lt 3 unfolding scalar_def high_surrogate_def low_surrogate_def by linarith
    have "(of_char h :: nat) = 0xE0 + c div 0x1000" unfolding h_def using q by (intro of_char_byte) simp
    moreover have "utf8_char c = [h, cb, ca]" using 3 by (simp add: utf8_char_def h_def ca_def cb_def parts)
    ultimately show ?thesis using q lt l u by (auto simp: continuation_def Let_def tail)
  next
    case 4
    define h where "h = char_of (0xF0 + e)"
    have q: "e \<le> 4" using 4 c lt by linarith
    have l: "e = 0 \<Longrightarrow> 0x10 \<le> d" using 4 c lt by linarith
    have u: "e = 4 \<Longrightarrow> d < 0x10" using 4 c lt by linarith
    have "(of_char h :: nat) = 0xF0 + e" unfolding h_def using q by (intro of_char_byte) simp
    moreover have "utf8_char c = [h, cd, cb, ca]" using 4 by (simp add: utf8_char_def h_def ca_def cb_def cd_def parts)
    ultimately show ?thesis using q lt l u by (auto simp: continuation_def Let_def tail)
  qed (simp add: utf8_char_def)
qed
lemma utf8_char_append: "scalar c \<Longrightarrow> utf8 (utf8_char c @ s) \<longleftrightarrow> utf8 s"
  using utf8_char_step [of c s] utf8_step_pos [of "utf8_char c @ s"]
  by (subst utf8.simps) (auto simp: utf8_char_def)

lemma decode_utf16_scalar: "\<forall>u \<in> set us. u < 0x10000 \<Longrightarrow> c \<in> set (decode_utf16 us) \<Longrightarrow> scalar c"
  by (induction us rule: decode_utf16.induct)
    (auto simp: scalar_def high_surrogate_def low_surrogate_def split: if_splits)

lemma from_utf16_well_formed: "utf8 (from_utf16_lossy us)"
proof -
  have u: "\<forall>u \<in> set (map unat us). u < 0x10000" 
    using unsigned_less [where 'b = 16 and 'a = nat] by auto
  have "\<forall>c \<in> set cs. scalar c \<Longrightarrow> utf8 (concat (map utf8_char cs))" for cs
    by (induction cs) (simp_all add: utf8_char_append utf8.simps [of "[]"])
  then show ?thesis using decode_utf16_scalar [OF u] by (auto simp: from_utf16_lossy_def)
qed

lemma from_utf16_ascii:
  "ascii s \<Longrightarrow> from_utf16_lossy (map (\<lambda>c. word_of_nat (of_char c)) s) = s"
proof (induction s)
  case (Cons c s)
  have c: "(of_char c :: nat) < 128" using Cons.prems by (simp add: ascii_def)
  have "decode_utf16 (u # us) = u # decode_utf16 us" if "u < 0x80" for u us
    using that by (cases us) (simp_all add: high_surrogate_def low_surrogate_def)
  then show ?case using Cons c by (simp add: from_utf16_lossy_def ascii_def utf8_char_def unat_of_nat)
qed (simp add: from_utf16_lossy_def)

text \<open>\<open>enumerates\<close>: from a state, asking for the next process gives the entries in turn and then nothing.\<close>

fun enumerates :: "'d win_system \<Rightarrow> nat \<Rightarrow> 'd \<Rightarrow> (16 word list \<times> 32 word) list \<Rightarrow> bool" where
  "enumerates sys h d [] \<longleftrightarrow> (\<exists>d'. Process32NextW sys h d = (None, d'))"
| "enumerates sys h d (x # xs) \<longleftrightarrow> (\<exists>d'. Process32NextW sys h d = (Some x, d') \<and> enumerates sys h d' xs)"

lemma process_walk_finds:
  "enumerates sys h d xs \<Longrightarrow>
   \<exists>d'. process_walk sys h want x d =
     Some (map_option snd (find (\<lambda>y. base_name (wide_to_string (fst y)) = want) (x # xs)), d')"
proof (induction xs arbitrary: x d)
  case Nil
  then show ?case by (subst process_walk.simps) auto
next
  case (Cons y ys)
  then obtain d' where d': "Process32NextW sys h d = (Some y, d')" "enumerates sys h d' ys" by auto
  then show ?case using Cons.IH [OF d'(2), of y] by (subst process_walk.simps) simp
qed

text \<open>The first process of the enumeration whose name matches, up to case and \<open>.exe\<close>.\<close>

lemma find_process_first:
  assumes "CreateToolhelp32Snapshot sys d = (Some h, d1)" and "Process32FirstW sys h d1 = (Some x, d2)"
    and "enumerates sys h d2 xs"
  shows "\<exists>d'. find_process_by_name sys name d =
    Some (map_option snd (find (\<lambda>y. base_name (wide_to_string (fst y)) = base_name name) (x # xs)), d')"
  using process_walk_finds [OF assms(3), of "base_name name" x] assms(1,2)
  by (auto simp: find_process_by_name_def)

text \<open>
  What the system documents of its resources: \<open>open_handles\<close> are the handles that are open, \<open>inits\<close> counts
  the initialisations of COM on the thread.
\<close>

definition counts_resources :: "'d win_system \<Rightarrow> ('d \<Rightarrow> nat multiset) \<Rightarrow> ('d \<Rightarrow> nat) \<Rightarrow> bool" where
  "counts_resources sys open_handles inits \<longleftrightarrow>
     (\<forall>d r d'. CreateToolhelp32Snapshot sys d = (r, d') \<or> OpenProcessToken sys d = (r, d') \<longrightarrow>
        open_handles d' = open_handles d + (case r of Some h \<Rightarrow> {#h#} | None \<Rightarrow> {#})) \<and>
     (\<forall>h d. open_handles (CloseHandle sys h d) = open_handles d - {#h#}) \<and>
     (\<forall>h d r d'. Process32FirstW sys h d = (r, d') \<or> Process32NextW sys h d = (r, d') \<longrightarrow>
        open_handles d' = open_handles d) \<and>
     (\<forall>s d r d'. LookupPrivilegeValueW sys s d = (r, d') \<longrightarrow> open_handles d' = open_handles d) \<and>
     (\<forall>h l d r d'. AdjustTokenPrivileges sys h l d = (r, d') \<longrightarrow> open_handles d' = open_handles d) \<and>
     (\<forall>d hr d'. CoInitializeEx sys d = (hr, d') \<longrightarrow>
        inits d' = (if hr = 0 \<or> hr = 1 then Suc (inits d) else inits d)) \<and>
     (\<forall>d. inits (CoUninitialize sys d) = inits d - 1)"

lemma counts_resourcesD:
  assumes "counts_resources sys open_handles inits"
  shows "CreateToolhelp32Snapshot sys d = (r, d') \<Longrightarrow>
      open_handles d' = open_handles d + (case r of Some h \<Rightarrow> {#h#} | None \<Rightarrow> {#})"
    and "OpenProcessToken sys d = (r, d') \<Longrightarrow>
      open_handles d' = open_handles d + (case r of Some h \<Rightarrow> {#h#} | None \<Rightarrow> {#})"
    and "open_handles (CloseHandle sys h d) = open_handles d - {#h#}"
    and "Process32FirstW sys h d = (x, d') \<Longrightarrow> open_handles d' = open_handles d"
    and "Process32NextW sys h d = (x, d') \<Longrightarrow> open_handles d' = open_handles d"
    and "LookupPrivilegeValueW sys t d = (l, d') \<Longrightarrow> open_handles d' = open_handles d"
    and "AdjustTokenPrivileges sys h v d = (ok, d') \<Longrightarrow> open_handles d' = open_handles d"
    and "CoInitializeEx sys d = (hr, d') \<Longrightarrow> inits d' = (if hr = 0 \<or> hr = 1 then Suc (inits d) else inits d)"
    and "inits (CoUninitialize sys d) = inits d - 1"
proof -
  note l = assms [unfolded counts_resources_def]
  note l1 = l [THEN conjunct1, rule_format] and m = l [THEN conjunct2]
  note l2 = m [THEN conjunct1, rule_format] and m2 = m [THEN conjunct2]
  note l3 = m2 [THEN conjunct1, rule_format] and m3 = m2 [THEN conjunct2]
  note l4 = m3 [THEN conjunct1, rule_format] and m4 = m3 [THEN conjunct2]
  note l5 = m4 [THEN conjunct1, rule_format] and m5 = m4 [THEN conjunct2]
  note l6 = m5 [THEN conjunct1, rule_format] and l7 = m5 [THEN conjunct2, rule_format]
  show "CreateToolhelp32Snapshot sys d = (r, d') \<Longrightarrow>
      open_handles d' = open_handles d + (case r of Some h \<Rightarrow> {#h#} | None \<Rightarrow> {#})" by (rule l1 [OF disjI1])
  show "OpenProcessToken sys d = (r, d') \<Longrightarrow>
      open_handles d' = open_handles d + (case r of Some h \<Rightarrow> {#h#} | None \<Rightarrow> {#})" by (rule l1 [OF disjI2])
  show "open_handles (CloseHandle sys h d) = open_handles d - {#h#}" by (rule l2)
  show "Process32FirstW sys h d = (x, d') \<Longrightarrow> open_handles d' = open_handles d" by (rule l3 [OF disjI1])
  show "Process32NextW sys h d = (x, d') \<Longrightarrow> open_handles d' = open_handles d" by (rule l3 [OF disjI2])
  show "LookupPrivilegeValueW sys t d = (l, d') \<Longrightarrow> open_handles d' = open_handles d" by (rule l4)
  show "AdjustTokenPrivileges sys h v d = (ok, d') \<Longrightarrow> open_handles d' = open_handles d" by (rule l5)
  show "CoInitializeEx sys d = (hr, d') \<Longrightarrow> inits d' = (if hr = 0 \<or> hr = 1 then Suc (inits d) else inits d)" by (rule l6)
  show "inits (CoUninitialize sys d) = inits d - 1" by (rule l7)
qed

lemma process_walk_handles:
  assumes "counts_resources sys open_handles inits" and "process_walk sys h want x d = Some y"
  shows "open_handles (snd y) = open_handles d"
proof (rule process_walk.raw_induct [where P = "\<lambda>sys h want x d y.
    counts_resources sys open_handles inits \<longrightarrow> open_handles (snd y) = open_handles d", OF _ assms(2), THEN mp, OF _ assms(1)])
  fix walk and sys :: "'a win_system" and h want x d y
  assume IH: "\<And>sys h want x d y. walk sys h want x d = Some y \<Longrightarrow>
      counts_resources sys open_handles inits \<longrightarrow> open_handles (snd y) = open_handles d"
    and run: "(if base_name (wide_to_string (fst x)) = want then Some (Some (snd x), d)
       else case Process32NextW sys h d of
              (None, d') \<Rightarrow> Some (None, d')
            | (Some x', d') \<Rightarrow> walk sys h want x' d') = Some y"
  show "counts_resources sys open_handles inits \<longrightarrow> open_handles (snd y) = open_handles d"
  proof
    assume laws: "counts_resources sys open_handles inits"
    obtain r d1 where n: "Process32NextW sys h d = (r, d1)" by (rule prod.exhaust)
    have "open_handles d1 = open_handles d" by (rule counts_resourcesD(5) [OF laws n])
    then show "open_handles (snd y) = open_handles d"
      using run n IH [of sys h want _ d1 y] laws by (cases r) (auto split: if_splits)
  qed
qed

text \<open>Whatever the system answers, what was opened is closed and what was initialised is uninitialised.\<close>

lemma resources_are_returned:
  assumes "counts_resources sys open_handles inits"
  shows "find_process_by_name sys name d = Some (r, d') \<Longrightarrow> open_handles d' = open_handles d"
    and "system_debug_privilege sys d = (ok, d') \<Longrightarrow> open_handles d' = open_handles d"
    and "com_apartment_new sys message d = (Inr a, d') \<Longrightarrow> inits (com_apartment_drop sys a d') = inits d"
    and "com_apartment_new sys message d = (Inl e, d') \<Longrightarrow> inits d' = inits d"
proof -
  note laws = counts_resourcesD [OF assms]
  show "open_handles d' = open_handles d" if "find_process_by_name sys name d = Some (r, d')"
    using that
    by (auto simp: find_process_by_name_def laws(3) dest!: laws(1,4) dest: process_walk_handles [OF assms]
        split: option.splits prod.splits)
  show "open_handles d' = open_handles d" if "system_debug_privilege sys d = (ok, d')"
    using that by (auto simp: system_debug_privilege_def laws(3) dest!: laws(2,6,7) split: option.splits prod.splits)
  show "inits (com_apartment_drop sys a d') = inits d" if "com_apartment_new sys message d = (Inr a, d')"
    using that by (auto simp: com_apartment_new_def com_apartment_drop_def laws(9) dest!: laws(8) split: prod.splits if_splits)
  show "inits d' = inits d" if "com_apartment_new sys message d = (Inl e, d')"
    using that by (auto simp: com_apartment_new_def dest!: laws(8) split: prod.splits if_splits)
qed

end
