(* ===== verification/Engine_Commands.thy ===== *)
theory Engine_Commands
  imports Windbg_Backend "HOL-Library.Sublist"
begin

text \<open>
  The command channel between the WinDbg backend and its engine thread (\<open>windbg-backend/src/thread.rs\<close>):
  the commands as data, their dispatch, and the queue that many calls share.

  The single calls of \<open>Windbg_Backend\<close> treat a call as one step.  Here a call is a command posted to a
  bounded channel with the sending half of a one-shot channel, and the thread takes the commands one by
  one; other calls, an interrupt and the end of the thread come in between.  What is shown is that every
  answer is that of the engine as the commands before it left it, and that nobody waits on a dead thread.
\<close>

section \<open>Commands and replies\<close>

text \<open>The reply channel of a command is kept beside it; \<open>SetOutputSink\<close> has none.\<close>

datatype engine_cmd =
    Cmd_Launch launch_req
  | Cmd_AttachPid nat
  | Cmd_Detach bool
  | Cmd_Go nat
  | Cmd_Step step_kind
  | Cmd_BreakIn
  | Cmd_SetBreakpoint bp_loc string
  | Cmd_RemoveBreakpoint i64
  | Cmd_ListBreakpoints
  | Cmd_Threads
  | Cmd_StackTrace i64 i64
  | Cmd_Locals i64
  | Cmd_Evaluate string
  | Cmd_ReadMemory nat nat
  | Cmd_Disassemble nat i64
  | Cmd_Execute string
  | Cmd_Modules
  | Cmd_CurrentSourceLocation
  | Cmd_OpenDump string
  | Cmd_AttachKernel string
  | Cmd_Analyze
  | Cmd_SetOutputSink

datatype engine_reply =
    Re_Stop stop_outcome
  | Re_Unit
  | Re_Go "stop_outcome option"
  | Re_Breakpoint breakpoint_result
  | Re_Breakpoints "breakpoint_result list"
  | Re_Threads "thread_info list"
  | Re_Frames "frame list"
  | Re_Variables "variable list"
  | Re_Value eval_result
  | Re_Memory memory_read
  | Re_Instructions "instruction list"
  | Re_Text string
  | Re_Modules "module_info list"
  | Re_Location "(string \<times> i64) option"
  | Re_Dump dump_outcome

definition replying :: "('a \<Rightarrow> engine_reply) \<Rightarrow> ('e, 'a) engine_op \<Rightarrow> ('e, engine_reply) engine_op" where
  "replying f op e = (case op e of (r, e') \<Rightarrow> (map_option (map_sum id f) r, e'))"

text \<open>\<open>install\<close> is what the installation of the output sink does to the engine.\<close>

fun run_cmd :: "'e engine_ops \<Rightarrow> ('e \<Rightarrow> 'e) \<Rightarrow> engine_cmd \<Rightarrow> ('e, engine_reply) engine_op" where
  "run_cmd ops install (Cmd_Launch req) = replying Re_Stop (eo_launch ops req)"
| "run_cmd ops install (Cmd_AttachPid pid) = replying Re_Stop (eo_attach_pid ops pid)"
| "run_cmd ops install (Cmd_Detach terminate) = replying (\<lambda>_. Re_Unit) (eo_detach ops terminate)"
| "run_cmd ops install (Cmd_Go timeout_ms) = replying Re_Go (eo_go ops timeout_ms)"
| "run_cmd ops install (Cmd_Step kind) = replying Re_Stop (eo_step ops kind)"
| "run_cmd ops install Cmd_BreakIn = replying Re_Stop (eo_break_in ops)"
| "run_cmd ops install (Cmd_SetBreakpoint loc condition) = replying Re_Breakpoint (eo_set_breakpoint ops loc condition)"
| "run_cmd ops install (Cmd_RemoveBreakpoint i) = replying (\<lambda>_. Re_Unit) (eo_remove_breakpoint ops i)"
| "run_cmd ops install Cmd_ListBreakpoints = replying Re_Breakpoints (eo_list_breakpoints ops)"
| "run_cmd ops install Cmd_Threads = replying Re_Threads (eo_threads ops)"
| "run_cmd ops install (Cmd_StackTrace thread_id limit) = replying Re_Frames (eo_stack_trace ops thread_id limit)"
| "run_cmd ops install (Cmd_Locals frame_index) = replying Re_Variables (eo_locals ops frame_index)"
| "run_cmd ops install (Cmd_Evaluate expr) = replying Re_Value (eo_evaluate ops expr)"
| "run_cmd ops install (Cmd_ReadMemory address bytes) = replying Re_Memory (eo_read_memory ops address bytes)"
| "run_cmd ops install (Cmd_Disassemble address count) = replying Re_Instructions (eo_disassemble ops address count)"
| "run_cmd ops install (Cmd_Execute command) = replying Re_Text (eo_execute ops command)"
| "run_cmd ops install Cmd_Modules = replying Re_Modules (eo_modules ops)"
| "run_cmd ops install Cmd_CurrentSourceLocation = replying Re_Location (eo_current_source_location ops)"
| "run_cmd ops install (Cmd_OpenDump path) = replying Re_Dump (eo_open_dump ops path)"
| "run_cmd ops install (Cmd_AttachKernel connection) = replying Re_Stop (eo_attach_kernel ops connection)"
| "run_cmd ops install Cmd_Analyze = replying Re_Text (eo_analyze ops)"
| "run_cmd ops install Cmd_SetOutputSink = (\<lambda>e. (Some (Inr Re_Unit), install e))"

section \<open>The channel\<close>

text \<open>
  What the thread did, in the order it did it: a command taken with its reply channel, the flag of the
  interrupt handle set by somebody else, the detach at the end.
\<close>

datatype loop_event = Served "nat option" engine_cmd | Interrupted | Detached

record 'e command_loop =
  cl_thread :: "'e engine_thread"
  cl_queue :: "(nat option \<times> engine_cmd) list"
  cl_replies :: "(engine_error + engine_reply) channels"
  cl_sent :: "(nat option \<times> engine_cmd) list"
  cl_history :: "loop_event list"

definition loop_new :: "'e \<Rightarrow> 'e command_loop" where
  "loop_new e = \<lparr>cl_thread = \<lparr>et_engine = e, et_running = True\<rparr>, cl_queue = [], cl_replies = [],
     cl_sent = [], cl_history = []\<rparr>"

abbreviation cl_engine :: "'e command_loop \<Rightarrow> 'e" where
  "cl_engine s \<equiv> et_engine (cl_thread s)"

abbreviation cl_running :: "'e command_loop \<Rightarrow> bool" where
  "cl_running s \<equiv> et_running (cl_thread s)"

text \<open>
  A call: a fresh reply channel and the command that carries its sending half.  When the thread is gone
  the send fails and the sender is dropped with the command.
\<close>

definition post_cmd :: "engine_cmd \<Rightarrow> 'e command_loop \<Rightarrow> nat \<times> 'e command_loop" where
  "post_cmd cmd s =
     (let c = length (cl_replies s)
      in (c, if cl_running s
             then s\<lparr>cl_replies := cl_replies s @ [Waiting], cl_queue := cl_queue s @ [(Some c, cmd)],
                    cl_sent := cl_sent s @ [(Some c, cmd)]\<rparr>
             else s\<lparr>cl_replies := cl_replies s @ [Hung_up]\<rparr>))"

definition post_sink :: "'e command_loop \<Rightarrow> 'e command_loop" where
  "post_sink s =
     (if cl_running s
      then s\<lparr>cl_queue := cl_queue s @ [(None, Cmd_SetOutputSink)], cl_sent := cl_sent s @ [(None, Cmd_SetOutputSink)]\<rparr>
      else s)"

fun settle_opt :: "nat option \<Rightarrow> 'a oneshot \<Rightarrow> 'a channels \<Rightarrow> 'a channels" where
  "settle_opt None v cs = cs"
| "settle_opt (Some c) v cs = settle c v cs"

text \<open>
  One turn of the thread.  A panic drops the reply sender at hand, and the receiver of the channel with
  all the commands in it.
\<close>

definition serve_next :: "'e engine_ops \<Rightarrow> ('e \<Rightarrow> 'e) \<Rightarrow> 'e command_loop \<Rightarrow> 'e command_loop" where
  "serve_next ops install s =
     (case cl_queue s of
        [] \<Rightarrow> s
      | (r, cmd) # q \<Rightarrow>
          (let (v, t) = dispatch_cmd (run_cmd ops install cmd) (cl_thread s);
               s' = s\<lparr>cl_thread := t, cl_replies := settle_opt r v (cl_replies s), cl_history := cl_history s @ [Served r cmd]\<rparr>
           in if et_running t then s'\<lparr>cl_queue := q\<rparr>
              else s'\<lparr>cl_queue := [], cl_replies := fold (\<lambda>(r, _). hang_up_opt r) q (cl_replies s')\<rparr>))"

definition interrupt_loop :: "'e engine_ops \<Rightarrow> 'e command_loop \<Rightarrow> 'e command_loop" where
  "interrupt_loop ops s =
     s\<lparr>cl_thread := (cl_thread s)\<lparr>et_engine := eo_interrupt ops (cl_engine s)\<rparr>, cl_history := cl_history s @ [Interrupted]\<rparr>"

text \<open>The end of the loop: every sender is gone and the channel is drained.\<close>

definition end_loop :: "'e engine_ops \<Rightarrow> 'e command_loop \<Rightarrow> 'e command_loop" where
  "end_loop ops s =
     s\<lparr>cl_thread := \<lparr>et_engine = snd (eo_detach ops False (cl_engine s)), et_running = False\<rparr>,
       cl_history := cl_history s @ [Detached]\<rparr>"

inductive loop_step :: "'e engine_ops \<Rightarrow> ('e \<Rightarrow> 'e) \<Rightarrow> nat \<Rightarrow> 'e command_loop \<Rightarrow> 'e command_loop \<Rightarrow> bool"
  for ops install cap where
  loop_post: "length (cl_queue s) < cap \<Longrightarrow> loop_step ops install cap s (snd (post_cmd cmd s))"
| loop_sink: "length (cl_queue s) < cap \<Longrightarrow> loop_step ops install cap s (post_sink s)"
| loop_serve: "cl_running s \<Longrightarrow> cl_queue s \<noteq> [] \<Longrightarrow> loop_step ops install cap s (serve_next ops install s)"
| loop_interrupt: "cl_running s \<Longrightarrow> loop_step ops install cap s (interrupt_loop ops s)"
| loop_end: "cl_running s \<Longrightarrow> cl_queue s = [] \<Longrightarrow> loop_step ops install cap s (end_loop ops s)"

section \<open>Nobody waits on a dead thread\<close>

definition carried :: "(nat option \<times> engine_cmd) list \<Rightarrow> nat list" where
  "carried q = List.map_filter fst q"

lemma carried_simps [simp]:
  "carried [] = []" "carried ((None, cmd) # q) = carried q" "carried ((Some c, cmd) # q) = c # carried q"
  "carried (q @ q') = carried q @ carried q'"
  by (simp_all add: carried_def map_filter_simps) (induction q, auto simp: map_filter_simps split: option.split)

definition loop_senders :: "'e command_loop \<Rightarrow> nat list" where
  "loop_senders s = carried (cl_queue s)"

definition loop_wired :: "'e command_loop \<Rightarrow> bool" where
  "loop_wired s \<longleftrightarrow> wired (loop_senders s) (cl_replies s) \<and> (\<not> cl_running s \<longrightarrow> cl_queue s = [])"

lemma settle_opt_length [simp]: "length (settle_opt r v cs) = length cs"
  by (cases r) simp_all

lemma extends_settle_opt [simp]: "extends cs (settle_opt r v cs)"
  by (cases r) simp_all

lemma hang_up_all_length [simp]: "length (fold (\<lambda>(r, _). hang_up_opt r) q cs) = length cs"
  by (induction q arbitrary: cs) auto

lemma extends_hang_up_all [simp]: "extends cs (fold (\<lambda>(r, _). hang_up_opt r) q cs)"
  by (induction q arbitrary: cs) (auto intro: extends_trans extends_hang_up_opt)

lemma wired_snoc: "wired ss cs \<Longrightarrow> wired (ss @ [length cs]) (cs @ [Waiting])"
  by (auto simp: wired_def)

lemma wired_closed: "wired ss cs \<Longrightarrow> wired ss (cs @ [Hung_up])"
proof -
  have "waiting (cs @ [Hung_up]) = waiting cs" by (auto simp: waiting_def nth_append)
  then show "wired ss cs \<Longrightarrow> wired ss (cs @ [Hung_up])" by (simp add: wired_def)
qed

lemma wired_settle_opt: "wired (carried ((r, cmd) # q)) cs \<Longrightarrow> v \<noteq> Waiting \<Longrightarrow> wired (carried q) (settle_opt r v cs)"
  by (cases r) (auto intro: wired_settle_hd)

lemma wired_hang_up_all: "wired (carried q) cs \<Longrightarrow> wired [] (fold (\<lambda>(r, _). hang_up_opt r) q cs)"
proof (induction q arbitrary: cs)
  case (Cons a q)
  obtain r cmd where a: "a = (r, cmd)" by force
  have "hang_up_opt r cs = settle_opt r Hung_up cs" by (cases r) simp_all
  with Cons a show ?case using wired_settle_opt [of r cmd q cs Hung_up] by simp
qed simp

text \<open>What a turn of the thread does, one case per way it ends.\<close>

lemma serve_next_cases:
  assumes "cl_queue s = (r, cmd) # q"
  obtains (reply) v e' where "run_cmd ops install cmd (cl_engine s) = (Some v, e')"
      "serve_next ops install s = s\<lparr>cl_thread := (cl_thread s)\<lparr>et_engine := e'\<rparr>, cl_queue := q,
         cl_replies := settle_opt r (Sent v) (cl_replies s), cl_history := cl_history s @ [Served r cmd]\<rparr>"
      "cl_running s"
  | (death) v e' where "run_cmd ops install cmd (cl_engine s) = (v, e')"
      "serve_next ops install s = s\<lparr>cl_thread := \<lparr>et_engine = e', et_running = False\<rparr>, cl_queue := [],
         cl_replies := fold (\<lambda>(r, _). hang_up_opt r) q
           (settle_opt r (case v of Some x \<Rightarrow> Sent x | None \<Rightarrow> Hung_up) (cl_replies s)),
         cl_history := cl_history s @ [Served r cmd]\<rparr>"
      "v = None \<or> \<not> cl_running s"
proof -
  obtain v e' where run: "run_cmd ops install cmd (cl_engine s) = (v, e')" by fastforce
  show thesis
  proof (cases "\<exists>x. v = Some x \<and> cl_running s")
    case True
    then show thesis using run assms reply by (auto simp: serve_next_def dispatch_cmd_def)
  next
    case False
    then show thesis using run assms
      by (intro death [OF run]) (auto simp: serve_next_def dispatch_cmd_def Let_def split: option.split)
  qed
qed

lemma loop_step_wired: "loop_step ops install cap s t \<Longrightarrow> loop_wired s \<Longrightarrow> loop_wired t"
proof (induction rule: loop_step.induct)
  case (loop_post s cmd)
  then show ?case by (auto simp: loop_wired_def loop_senders_def post_cmd_def Let_def intro: wired_snoc wired_closed)
next
  case (loop_sink s)
  then show ?case by (auto simp: loop_wired_def loop_senders_def post_sink_def)
next
  case (loop_serve s)
  then obtain r cmd q where q: "cl_queue s = (r, cmd) # q" by (cases "cl_queue s") auto
  have wired: "wired (carried ((r, cmd) # q)) (cl_replies s)" using loop_serve.prems q by (simp add: loop_wired_def loop_senders_def)
  from q show ?case
  proof (cases rule: serve_next_cases [where ops = ops and install = install])
    case (reply v e')
    then show ?thesis using wired_settle_opt [OF wired, of "Sent v"] by (simp add: loop_wired_def loop_senders_def)
  next
    case (death v e')
    then show ?thesis
      using wired_hang_up_all [OF wired_settle_opt [OF wired]] by (simp add: loop_wired_def loop_senders_def split: option.split)
  qed
qed (simp_all add: loop_wired_def loop_senders_def interrupt_loop_def end_loop_def)

lemma loop_step_extends: "loop_step ops install cap s t \<Longrightarrow> extends (cl_replies s) (cl_replies t)"
proof (induction rule: loop_step.induct)
  case (loop_serve s)
  then obtain r cmd q where q: "cl_queue s = (r, cmd) # q" by (cases "cl_queue s") auto
  then show ?case
    by (cases rule: serve_next_cases [where ops = ops and install = install])
      (simp_all add: extends_trans [OF extends_settle_opt extends_hang_up_all])
qed (simp_all add: post_cmd_def post_sink_def interrupt_loop_def end_loop_def Let_def)

interpretation commands: sender_table loop_senders cl_replies loop_wired "loop_step ops install cap" for ops install cap
  by unfold_locales (fact loop_step_wired, simp add: loop_wired_def, fact loop_step_extends)

lemma loop_new_wired: "loop_wired (loop_new e)"
  by (simp add: loop_wired_def loop_senders_def loop_new_def)

section \<open>The history explains the answers\<close>

fun replay_event :: "'e engine_ops \<Rightarrow> ('e \<Rightarrow> 'e) \<Rightarrow> loop_event \<Rightarrow> 'e \<Rightarrow> 'e" where
  "replay_event ops install (Served r cmd) e = snd (run_cmd ops install cmd e)"
| "replay_event ops install Interrupted e = eo_interrupt ops e"
| "replay_event ops install Detached e = snd (eo_detach ops False e)"

abbreviation replay :: "'e engine_ops \<Rightarrow> ('e \<Rightarrow> 'e) \<Rightarrow> loop_event list \<Rightarrow> 'e \<Rightarrow> 'e" where
  "replay ops install \<equiv> fold (replay_event ops install)"

fun served :: "loop_event list \<Rightarrow> (nat option \<times> engine_cmd) list" where
  "served [] = []"
| "served (Served r cmd # h) = (r, cmd) # served h"
| "served (_ # h) = served h"

lemma served_append [simp]: "served (h @ h') = served h @ served h'"
  by (induction h rule: served.induct) simp_all

definition explains :: "'e engine_ops \<Rightarrow> ('e \<Rightarrow> 'e) \<Rightarrow> 'e \<Rightarrow> loop_event list \<Rightarrow> nat \<Rightarrow> engine_error + engine_reply \<Rightarrow> bool" where
  "explains ops install e0 history c r \<longleftrightarrow>
     (\<exists>h cmd h'. history = h @ Served (Some c) cmd # h' \<and> fst (run_cmd ops install cmd (replay ops install h e0)) = Some r)"

definition loop_inv :: "'e engine_ops \<Rightarrow> ('e \<Rightarrow> 'e) \<Rightarrow> nat \<Rightarrow> 'e \<Rightarrow> 'e command_loop \<Rightarrow> bool" where
  "loop_inv ops install cap e0 s \<longleftrightarrow>
     cl_engine s = replay ops install (cl_history s) e0 \<and>
     (if cl_running s then cl_sent s = served (cl_history s) @ cl_queue s
      else cl_queue s = [] \<and> prefix (served (cl_history s)) (cl_sent s)) \<and>
     length (cl_queue s) \<le> cap \<and>
     distinct (carried (cl_sent s)) \<and> set (carried (cl_sent s)) \<subseteq> {..<length (cl_replies s)} \<and>
     (cl_running s \<longrightarrow> Hung_up \<notin> set (cl_replies s)) \<and>
     (\<forall>c < length (cl_replies s). \<forall>r. cl_replies s ! c = Sent r \<longrightarrow> explains ops install e0 (cl_history s) c r)"

lemma explains_later: "explains ops install e0 h c r \<Longrightarrow> explains ops install e0 (h @ h') c r"
  unfolding explains_def by (metis append.assoc append_Cons)

lemma explains_last:
  "fst (run_cmd ops install cmd (replay ops install h e0)) = Some r \<Longrightarrow> explains ops install e0 (h @ [Served (Some c) cmd]) c r"
  unfolding explains_def by blast

lemma sent_after_settle:
  "settle_opt o' v cs ! d = Sent r \<Longrightarrow> d < length cs \<Longrightarrow> cs ! d = Sent r \<or> o' = Some d \<and> v = Sent r"
  by (cases o') (auto simp: settle_nth split: if_splits)

lemma sent_after_hang_up:
  "fold (\<lambda>(r, _). hang_up_opt r) q cs ! d = Sent r \<Longrightarrow> d < length cs \<Longrightarrow> cs ! d = Sent r"
proof (induction q arbitrary: cs)
  case (Cons a q)
  obtain o' cmd where a: "a = (o', cmd)" by force
  have "hang_up_opt o' cs = settle_opt o' Hung_up cs" by (cases o') simp_all
  then show ?case using Cons.IH [of "hang_up_opt o' cs"] Cons.prems sent_after_settle [of o' Hung_up cs d r] by (simp add: a)
qed simp

lemma loop_inv_new: "loop_inv ops install cap e (loop_new e)"
  by (simp add: loop_inv_def loop_new_def)

lemma loop_inv_serve:
  assumes inv: "loop_inv ops install cap e0 s" and running: "cl_running s" and queue: "cl_queue s = (r, cmd) # q"
  shows "loop_inv ops install cap e0 (serve_next ops install s)"
proof -
  have engine: "cl_engine s = replay ops install (cl_history s) e0" and sent: "cl_sent s = served (cl_history s) @ (r, cmd) # q"
    and room: "Suc (length q) \<le> cap"
    and fresh: "distinct (carried (cl_sent s))" "set (carried (cl_sent s)) \<subseteq> {..<length (cl_replies s)}"
    and alive: "Hung_up \<notin> set (cl_replies s)"
    and old: "\<And>c r. c < length (cl_replies s) \<Longrightarrow> cl_replies s ! c = Sent r \<Longrightarrow> explains ops install e0 (cl_history s) c r"
    using inv running queue by (auto simp: loop_inv_def)
  have new: "explains ops install e0 (cl_history s @ [Served r cmd]) c x"
    if "run_cmd ops install cmd (cl_engine s) = (v, e')" "c < length (cl_replies s)"
      "settle_opt r (case v of Some x \<Rightarrow> Sent x | None \<Rightarrow> Hung_up) (cl_replies s) ! c = Sent x" for c x v e'
    using sent_after_settle [OF that(3,2)] that(1) engine old [OF that(2)]
    by (auto simp: explains_later intro: explains_last split: option.splits)
  from queue show ?thesis
  proof (cases rule: serve_next_cases [where ops = ops and install = install])
    case (reply v e')
    have "Hung_up \<notin> set (settle_opt r (Sent v) (cl_replies s))"
      using alive by (cases r) (auto simp: in_set_conv_nth settle_nth split: if_splits)
    then show ?thesis using reply engine sent room fresh new [of "Some v" e'] by (simp add: loop_inv_def)
  next
    case (death v e')
    then show ?thesis using engine sent room fresh new [of v e'] by (auto simp: loop_inv_def dest!: sent_after_hang_up)
  qed
qed

lemma loop_step_inv: "loop_step ops install cap s t \<Longrightarrow> loop_inv ops install cap e0 s \<Longrightarrow> loop_inv ops install cap e0 t"
proof (induction rule: loop_step.induct)
  case (loop_post s cmd)
  then show ?case by (auto simp: loop_inv_def post_cmd_def Let_def nth_append less_Suc_eq)
next
  case (loop_sink s)
  then show ?case by (auto simp: loop_inv_def post_sink_def)
next
  case (loop_serve s)
  then obtain r cmd q where "cl_queue s = (r, cmd) # q" by (cases "cl_queue s") auto
  then show ?case by (rule loop_inv_serve [OF loop_serve.prems loop_serve.hyps(1)])
next
  case (loop_interrupt s)
  then show ?case by (auto simp: loop_inv_def interrupt_loop_def explains_later)
next
  case (loop_end s)
  then show ?case by (auto simp: loop_inv_def end_loop_def explains_later)
qed

lemma loop_steps_inv:
  "(loop_step ops install cap)\<^sup>*\<^sup>* s t \<Longrightarrow> loop_inv ops install cap e0 s \<Longrightarrow> loop_inv ops install cap e0 t"
  by (induction rule: rtranclp_induct) (auto intro: loop_step_inv)

section \<open>A call of the backend\<close>

text \<open>What the caller makes of the reply channel; \<open>None\<close>: it still waits.\<close>

fun awaited :: "(engine_error + engine_reply) oneshot \<Rightarrow> (backend_error + engine_reply) option" where
  "awaited Waiting = None"
| "awaited (Sent (Inr r)) = Some (Inr r)"
| "awaited (Sent (Inl e)) = Some (Inl (map_engine_err e))"
| "awaited Hung_up = Some (Inl Closed)"

definition posted_call :: "'e engine_ops \<Rightarrow> ('e \<Rightarrow> 'e) \<Rightarrow> engine_cmd \<Rightarrow> 'e command_loop \<Rightarrow>
    (backend_error + engine_reply) option \<times> 'e engine_thread" where
  "posted_call ops install cmd s =
     (let (c, s1) = post_cmd cmd s; s2 = serve_next ops install s1 in (awaited (cl_replies s2 ! c), cl_thread s2))"

text \<open>
  On an idle channel the call that the backend makes in one step is a command posted and served: the
  operations of \<open>Windbg_Backend\<close> are those of this channel when no other call is under way.
\<close>

lemma engine_call_is_posted:
  assumes "cl_queue s = []" and "cl_thread s = wd_thread w" and "engine_call (run_cmd ops install cmd) w = (r, w')"
  shows "posted_call ops install cmd s = (Some r, wd_thread w')"
proof (cases "wd_running w")
  case True
  obtain v e where "run_cmd ops install cmd (wd_engine w) = (v, e)" by fastforce
  then show ?thesis
    using True assms
    by (auto simp: posted_call_def post_cmd_def serve_next_def engine_call_def dispatch_cmd_def settle_def Let_def
        split: option.splits sum.splits)
next
  case False
  then show ?thesis using assms by (auto simp: posted_call_def post_cmd_def serve_next_def engine_call_def Let_def)
qed

lemma engine_call_replying:
  "engine_call (replying f op) w = (case engine_call op w of (r, w') \<Rightarrow> (map_sum id f r, w'))"
  by (auto simp: engine_call_def replying_def dispatch_cmd_def Let_def split: option.split sum.split prod.split)

section \<open>Calls that interleave\<close>

text \<open>C18: However calls, interrupts and the thread's turns interleave, the commands run one at a time in the
  order they were posted, each at most once.  The engine is what the history of the thread makes of it; an answer is
  that of its own command on the engine as everything before had left it; a caller that waits has its command in the
  queue of a live thread, and none is told that the connection is closed while the thread lives.  In particular a
  thread that has ended leaves nobody waiting.\<close>

theorem commands_run_in_order:
  assumes "(loop_step ops install cap)\<^sup>*\<^sup>* (loop_new e0) s"
  shows "cl_engine s = replay ops install (cl_history s) e0 \<and>
    (if cl_running s then cl_sent s = served (cl_history s) @ cl_queue s
     else cl_queue s = [] \<and> prefix (served (cl_history s)) (cl_sent s)) \<and>
    distinct (carried (cl_sent s)) \<and>
    (\<forall>c < length (cl_replies s). case cl_replies s ! c of
        Sent r \<Rightarrow> explains ops install e0 (cl_history s) c r
      | Waiting \<Rightarrow> cl_running s \<and> c \<in> set (carried (cl_queue s))
      | Hung_up \<Rightarrow> \<not> cl_running s)"
proof -
  have inv: "loop_inv ops install cap e0 s" by (rule loop_steps_inv [OF assms loop_inv_new])
  have wired: "loop_wired s" by (rule commands.steps_inv [OF assms loop_new_wired])
  have "case cl_replies s ! c of Sent r \<Rightarrow> explains ops install e0 (cl_history s) c r
      | Waiting \<Rightarrow> cl_running s \<and> c \<in> set (carried (cl_queue s)) | Hung_up \<Rightarrow> \<not> cl_running s"
    if c: "c < length (cl_replies s)" for c
  proof (cases "cl_replies s ! c")
    case Waiting
    have "c \<in> set (carried (cl_queue s))"
      using commands.waiting_has_sender [OF wired c Waiting] by (simp add: loop_senders_def)
    moreover have "cl_running s" using calculation wired by (auto simp: loop_wired_def)
    ultimately show ?thesis using Waiting by simp
  next
    case (Sent r)
    then show ?thesis using inv c by (simp add: loop_inv_def)
  next
    case Hung_up
    then have "\<not> cl_running s" using inv c by (metis loop_inv_def nth_mem)
    with Hung_up show ?thesis by simp
  qed
  with inv show ?thesis by (simp add: loop_inv_def)
qed

text \<open>Three calls, the second of which panics.\<close>

theorem commands_run_in_order_witness:
  "\<forall>ops :: nat engine_ops. \<exists>s :: nat command_loop. cl_replies s = [Sent (Inr (Re_Threads [])), Hung_up, Hung_up] \<and> \<not> cl_running s \<and>
     explains (ops\<lparr>eo_threads := \<lambda>e. (Some (Inr []), Suc e), eo_modules := \<lambda>e. (None, e)\<rparr>) id 0 (cl_history s) 0 (Inr (Re_Threads []))"
proof
  fix ops :: "nat engine_ops"
  let ?ops = "ops\<lparr>eo_threads := \<lambda>e. (Some (Inr []), Suc e), eo_modules := \<lambda>e. (None, e)\<rparr>"
  let ?s0 = "loop_new (0 :: nat)"
  let ?s1 = "snd (post_cmd Cmd_Threads ?s0)"
  let ?s2 = "snd (post_cmd Cmd_Modules ?s1)"
  let ?s3 = "snd (post_cmd Cmd_Analyze ?s2)"
  let ?s4 = "serve_next ?ops id ?s3"
  let ?s5 = "serve_next ?ops id ?s4"
  note posts = post_cmd_def loop_new_def Let_def
  have s4: "cl_running ?s4" "cl_queue ?s4 = [(Some 1, Cmd_Modules), (Some 2, Cmd_Analyze)]"
    by (simp_all add: posts serve_next_def dispatch_cmd_def replying_def)
  have step1: "loop_step ?ops id 8 ?s0 ?s1" by (rule loop_post) (simp add: posts)
  have step2: "loop_step ?ops id 8 ?s1 ?s2" by (rule loop_post) (simp add: posts)
  have step3: "loop_step ?ops id 8 ?s2 ?s3" by (rule loop_post) (simp add: posts)
  have step4: "loop_step ?ops id 8 ?s3 ?s4" by (rule loop_serve) (simp_all add: posts)
  have step5: "loop_step ?ops id 8 ?s4 ?s5" by (rule loop_serve) (simp_all only: s4, simp)
  note next_step = rtranclp.rtrancl_into_rtrancl [where r = "loop_step ?ops id 8"]
  have run: "(loop_step ?ops id 8)\<^sup>*\<^sup>* ?s0 ?s5"
    by (rule next_step [OF next_step [OF next_step [OF next_step [OF r_into_rtranclp [where r = "loop_step ?ops id 8", OF step1] step2] step3] step4] step5])
  have replies: "cl_replies ?s5 = [Sent (Inr (Re_Threads [])), Hung_up, Hung_up] \<and> \<not> cl_running ?s5"
    by (simp add: posts serve_next_def dispatch_cmd_def replying_def settle_def)
  then obtain s where s: "(loop_step ?ops id 8)\<^sup>*\<^sup>* ?s0 s" "\<not> cl_running s"
      "cl_replies s = [Sent (Inr (Re_Threads [])), Hung_up, Hung_up]"
    using run by blast
  then have "explains ?ops id 0 (cl_history s) 0 (Inr (Re_Threads []))"
    using commands_run_in_order [OF s(1)] by (force simp: s(3))
  then show "\<exists>s :: nat command_loop. cl_replies s = [Sent (Inr (Re_Threads [])), Hung_up, Hung_up] \<and> \<not> cl_running s \<and>
      explains ?ops id 0 (cl_history s) 0 (Inr (Re_Threads []))"
    using s by blast
qed

end
