(* ===== verification/Steady_World.thy ===== *)
theory Steady_World
  imports Dispatch
begin

text \<open>
  What the tools do to the world behind the backend.  A backend is steady for a predicate when every request
  that inspects or runs the target keeps it; then every tool but the connect points, \<open>disconnect\<close>,
  \<open>run_command\<close> and the three that change breakpoints keeps it, however many requests it makes.
\<close>

definition keeps_world :: "('w \<Rightarrow> bool) \<Rightarrow> ('w, 'a) call \<Rightarrow> bool" where
  "keeps_world P call \<longleftrightarrow> (\<forall>w r w'. call w = (r, w') \<longrightarrow> P w \<longrightarrow> P w')"

lemma keeps_worldI: "(\<And>w r w'. call w = (r, w') \<Longrightarrow> P w \<Longrightarrow> P w') \<Longrightarrow> keeps_world P call"
  unfolding keeps_world_def by blast

lemma keeps_worldD: "keeps_world P call \<Longrightarrow> call w = (r, w') \<Longrightarrow> P w \<Longrightarrow> P w'"
  unfolding keeps_world_def by blast

text \<open>The tools that inspect or run the target.\<close>

definition quiet_tools :: "string set" where
  "quiet_tools =
     {''list_breakpoints'', ''continue'', ''step_over'', ''step_into'', ''step_out'', ''pause'', ''status'',
      ''backtrace'', ''threads'', ''variables'', ''evaluate'', ''read_output'', ''read_memory'', ''disassemble'',
      ''analyze_crash'', ''get_modules''}"

section \<open>What they leave of the session\<close>

type_synonym bp_lists =
  "(string, source_bp list) hashmap \<times> function_bp list \<times> (string, source_bp list) hashmap \<times> function_bp list \<times>
   (i64, breakpoint_info) hashmap"

definition bp_lists :: "session \<Rightarrow> bp_lists" where
  "bp_lists s = (s_source_bps s, s_function_bps s, s_pending_source_bps s, s_pending_function_bps s,
     s_bp_responses s)"

text \<open>The debugger, the lists of breakpoints, and whether there is a session.\<close>

definition same_breakpoints :: "('h, 'w) server \<Rightarrow> ('h, 'w) server \<Rightarrow> bool" where
  "same_breakpoints sv sv' \<longleftrightarrow>
     bp_lists (sv_session sv') = bp_lists (sv_session sv) \<and> sv_backend sv' = sv_backend sv \<and>
     (s_state (sv_session sv') = Idle \<longleftrightarrow> s_state (sv_session sv) = Idle)"

context reading_tool
begin

lemma reads_breakpoints: "handler a sv w = (out, sv', w') \<Longrightarrow> same_breakpoints sv sv'"
proof -
  assume "handler a sv w = (out, sv', w')"
  moreover have "same_breakpoints sv (on_session (\<lambda>s. s\<lparr>s_frame_mapping := m\<rparr>) sv)" for m
    by (simp add: same_breakpoints_def bp_lists_def)
  ultimately show "same_breakpoints sv sv'" using reads by metis
qed

end

lemma stop_result_breakpoints:
  "handle_stop_result stop g sv = (out, sv') \<Longrightarrow> s_state (sv_session sv) \<noteq> Idle \<Longrightarrow> same_breakpoints sv sv'"
  by (cases stop)
    (auto simp: same_breakpoints_def bp_lists_def Let_def session_op_defs split: if_splits option.splits prod.splits)

lemma resume_breakpoints:
  "resume op_err msg kind ops ct a sv w = (out, sv', w') \<Longrightarrow> same_breakpoints sv sv'"
  by (auto simp: resume_def resume_begin_def resume_finish_def Let_def dest!: check_state_InrD stop_result_breakpoints
      split: tool_splits) (auto simp: same_breakpoints_def bp_lists_def set_state_def)

lemma read_output_breakpoints: "handle_read_output a sv w = (out, sv', w') \<Longrightarrow> same_breakpoints sv sv'"
  by (auto simp: handle_read_output_def same_breakpoints_def bp_lists_def drain_output_def Let_def split: tool_splits)

lemmas quiet_tool_defs = handle_continue_def handle_step_over_def handle_step_into_def handle_step_out_def

lemma quiet_breakpoints:
  assumes "name \<in> quiet_tools" and "dispatch ho ops ct name a sv w = (out, sv', w')"
  shows "same_breakpoints sv sv'"
  using assms unfolding quiet_tools_def dispatch_def
  by (auto simp: quiet_tool_defs intro: resume_breakpoints read_output_breakpoints
      list_tool.reads_breakpoints pause_tool.reads_breakpoints status_tool.reads_breakpoints
      backtrace_tool.reads_breakpoints threads_tool.reads_breakpoints variables_tool.reads_breakpoints
      evaluate_tool.reads_breakpoints memory_tool.reads_breakpoints disassemble_tool.reads_breakpoints
      analyze_tool.reads_breakpoints modules_tool.reads_breakpoints)

section \<open>What they do to the world\<close>

locale steady_world =
  fixes ops :: "('h, 'w) backend_ops" and P :: "'w \<Rightarrow> bool"
  assumes cont: "keeps_world P (b_cont ops h tid)"
    and step: "keeps_world P (b_step ops h kind tid g)"
    and pause: "keeps_world P (b_pause ops h)"
    and threads: "keeps_world P (b_threads ops h)"
    and stack_trace: "keeps_world P (b_stack_trace ops h tid start levels)"
    and scopes: "keeps_world P (b_scopes ops h fid)"
    and variables: "keeps_world P (b_variables ops h reference)"
    and evaluate: "keeps_world P (b_evaluate ops h expr frame EvalExpression)"
    and read_memory: "keeps_world P (b_read_memory ops h address count)"
    and disassemble: "keeps_world P (b_disassemble ops h address i)"
    and analyze: "keeps_world P (b_analyze ops h)"
    and modules: "keeps_world P (b_modules ops h)"
begin

lemma loop_keeps:
  "(\<And>r. keeps_world P (fetch r)) \<Longrightarrow> flatten_loop fetch n prefix depth vs result w = (r, w') \<Longrightarrow> P w \<Longrightarrow> P w'"
proof (induction fetch n prefix depth vs result w arbitrary: r w' rule: flatten_loop.induct)
  case (2 fetch n prefix depth v vs result w)
  show ?case
  proof (cases "0 < va_variables_reference v \<and> 0 < depth \<and> Suc (length result) < n")
    case True
    obtain q w1 where q: "fetch (va_variables_reference v) w = (q, w1)" by (rule prod.exhaust)
    have w1: "P w1" by (rule keeps_worldD [OF "2.prems"(1) q "2.prems"(3)])
    show ?thesis
      using True "2.prems" w1 q "2.IH"(1) [OF refl refl _ _ refl _ q [symmetric]] "2.IH"(2) [OF refl refl _ _ refl _ q [symmetric]]
      by (auto simp: Let_def split: if_splits prod.splits sum.splits)
  next
    case False
    then show ?thesis
      using "2.prems" "2.IH"(3,4) by (auto simp: Let_def split: if_splits)
  qed
qed simp

lemma flatten_keeps:
  assumes "\<And>r. keeps_world P (fetch r)"
  shows "keeps_world P (flatten_variables lower fetch reference depth n flt)"
proof -
  note fetch = keeps_worldD [OF assms] and loop = loop_keeps [OF assms]
  have top: "flatten_top lower fetch depth n flt vs result w = (r, w') \<Longrightarrow> P w \<Longrightarrow> P w'" for vs result w r w'
  proof (induction vs arbitrary: result w)
    case (Cons v vs)
    have rec: "flatten_recursive fetch i name k res n w = (q, w1) \<Longrightarrow> P w1" for i name k res q w1
      using Cons.prems(2) by (auto simp: flatten_recursive_def split: prod.splits sum.splits dest: fetch loop)
    show ?case
      using Cons.prems by (auto simp: Let_def dest: rec Cons.IH split: if_splits prod.splits sum.splits)
  qed simp
  show ?thesis
    by (rule keeps_worldI) (auto simp: flatten_variables_def split: prod.splits sum.splits dest: fetch top)
qed

lemma frame_keeps:
  "resolve_frame_id ops h i s w = (r, s', w') \<Longrightarrow> P w \<Longrightarrow> P w'"
  by (auto simp: resolve_frame_id_def Let_def split: option.splits prod.splits sum.splits dest: keeps_worldD [OF stack_trace])

lemmas requests = keeps_worldD [OF cont] keeps_worldD [OF step] keeps_worldD [OF pause] keeps_worldD [OF threads]
  keeps_worldD [OF stack_trace] keeps_worldD [OF scopes] keeps_worldD [OF variables] keeps_worldD [OF evaluate]
  keeps_worldD [OF read_memory] keeps_worldD [OF disassemble] keeps_worldD [OF analyze] keeps_worldD [OF modules]
  frame_keeps keeps_worldD [OF flatten_keeps [OF variables]]

lemma resume_keeps: "resume op_err msg kind ops None a sv w = (out, sv', w') \<Longrightarrow> P w \<Longrightarrow> P w'"
proof -
  have "run_backend ops h k tid g w = (r, w') \<Longrightarrow> P w \<Longrightarrow> P w'" for h k tid g r
    by (cases k) (auto dest: requests)
  then show "resume op_err msg kind ops None a sv w = (out, sv', w') \<Longrightarrow> P w \<Longrightarrow> P w'"
    by (auto simp: resume_def select_call_def Let_def split: tool_splits)
qed

lemma target_keeps: "disassemble_target ops h address s w = (r, w') \<Longrightarrow> P w \<Longrightarrow> P w'"
  by (auto simp: disassemble_target_def split: tool_splits list.splits dest: requests)

lemma inspection_keeps:
  "handle_backtrace ops a sv w = (out, sv', w') \<Longrightarrow> P w \<Longrightarrow> P w'"
  "handle_threads ops a sv w = (out, sv', w') \<Longrightarrow> P w \<Longrightarrow> P w'"
  "handle_variables ho ops a sv w = (out, sv', w') \<Longrightarrow> P w \<Longrightarrow> P w'"
  "handle_evaluate ops a sv w = (out, sv', w') \<Longrightarrow> P w \<Longrightarrow> P w'"
  "handle_read_memory ops a sv w = (out, sv', w') \<Longrightarrow> P w \<Longrightarrow> P w'"
  "handle_disassemble ops a sv w = (out, sv', w') \<Longrightarrow> P w \<Longrightarrow> P w'"
  "handle_analyze_crash ops a sv w = (out, sv', w') \<Longrightarrow> P w \<Longrightarrow> P w'"
  "handle_get_modules ops a sv w = (out, sv', w') \<Longrightarrow> P w \<Longrightarrow> P w'"
  "handle_pause ops a sv w = (out, sv', w') \<Longrightarrow> P w \<Longrightarrow> P w'"
  "handle_status a sv w = (out, sv', w') \<Longrightarrow> P w \<Longrightarrow> P w'"
  "handle_list_breakpoints a sv w = (out, sv', w') \<Longrightarrow> P w \<Longrightarrow> P w'"
  "handle_read_output a sv w = (out, sv', w') \<Longrightarrow> P w \<Longrightarrow> P w'"
  unfolding handle_backtrace_def handle_threads_def handle_variables_def handle_evaluate_def handle_read_memory_def
    handle_disassemble_def handle_analyze_crash_def handle_get_modules_def handle_pause_def handle_status_def
    handle_list_breakpoints_def handle_read_output_def
  by (auto simp: Let_def split: tool_splits dest: requests target_keeps)

lemma quiet_keeps:
  assumes "name \<in> quiet_tools" and "dispatch ho ops None name a sv w = (out, sv', w')" and "P w"
  shows "P w'"
  using assms unfolding quiet_tools_def dispatch_def
  by (auto simp: quiet_tool_defs intro: resume_keeps inspection_keeps)

end

end
