(* ===== verification/Tool_Shapes.thy ===== *)
theory Tool_Shapes
  imports Steady_World
begin

text \<open>
  The shapes of the tools that connect and of those that change breakpoints, whatever the debugger: what they
  leave of the lists of breakpoints, and the ways they end.
\<close>

section \<open>Lists of breakpoints\<close>

lemma add_lists [simp]:
  "s_source_bps (add_pending_source_breakpoint fl line c s) = s_source_bps s"
  "s_function_bps (add_pending_source_breakpoint fl line c s) = s_function_bps s"
  "s_source_bps (add_pending_function_breakpoint n c s) = s_source_bps s"
  "s_function_bps (add_pending_function_breakpoint n c s) = s_function_bps s"
  "s_state (add_pending_source_breakpoint fl line c s) = s_state s"
  "s_state (add_pending_function_breakpoint n c s) = s_state s"
  "s_function_bps (add_breakpoint_response i s) = s_function_bps s"
  "s_source_bps (add_breakpoint_response i s) = s_source_bps s"
  "s_state (add_breakpoint_response i s) = s_state s"
  "s_source_bps (snd (add_source_breakpoint fl line c s)) = hm_extend fl [\<lparr>sb_line = line, sb_condition = c\<rparr>] (s_source_bps s)"
  "s_function_bps (snd (add_source_breakpoint fl line c s)) = s_function_bps s"
  "s_source_bps (snd (add_function_breakpoint n c s)) = s_source_bps s"
  "s_function_bps (snd (add_function_breakpoint n c s)) = s_function_bps s @ [\<lparr>fb_name = n, fb_condition = c\<rparr>]"
  by (simp_all add: add_pending_source_breakpoint_def add_pending_function_breakpoint_def add_breakpoint_response_def
      add_source_breakpoint_def add_function_breakpoint_def Let_def)

text \<open>The three ways a removal ends: nothing is sent, the resend fails, or the entry is dropped.\<close>

lemma remove_cases:
  assumes run: "handle_remove_breakpoint ops a sv w = (out, sv', w')"
  obtains (nothing) "sv' = sv" "w' = w"
    | (failed) h info e where "sv_backend sv = Some h" "send_remaining ops h info (sv_session sv) w = (Some e, w')" "sv' = sv"
    | (removed) h i info where "s_state (sv_session sv) = Stopped" "sv_backend sv = Some h"
        "breakpoint_info_of i (sv_session sv) = Some info" "send_remaining ops h info (sv_session sv) w = (None, w')"
        "sv' = sv\<lparr>sv_session := snd (remove_breakpoint_by_id i (sv_session sv))\<rparr>"
proof (cases "sv' = sv \<and> w' = w")
  case False
  note def = handle_remove_breakpoint_def
  obtain u where u: "check_state [Stopped] (sv_session sv) = Inr u"
    using run False by (cases "check_state [Stopped] (sv_session sv)") (simp_all add: def)
  obtain i where i: "require_int a ''breakpoint_id'' = Inr i"
    using run False u by (cases "require_int a ''breakpoint_id''") (simp_all add: def)
  obtain info where info: "breakpoint_info_of i (sv_session sv) = Some info"
    using run False u i by (cases "breakpoint_info_of i (sv_session sv)") (simp_all add: def)
  obtain h where h: "sv_backend sv = Some h"
    using run False u i info by (cases "sv_backend sv") (simp_all add: def)
  note go = u i info h
  obtain q w1 where q: "send_remaining ops h info (sv_session sv) w = (q, w1)" by (rule prod.exhaust)
  have st: "s_state (sv_session sv) = Stopped" using check_state_InrD [OF go(1)] by simp
  show ?thesis
  proof (cases q)
    case None
    obtain r s where rm: "remove_breakpoint_by_id i (sv_session sv) = (r, s)" by (rule prod.exhaust)
    have "sv' = sv\<lparr>sv_session := s\<rparr> \<and> w' = w1"
      using run go q None rm by (cases r) (simp_all add: handle_remove_breakpoint_def)
    then show ?thesis by (intro removed [OF st go(4,3)]) (simp_all add: q None rm)
  next
    case (Some e)
    then have "sv' = sv \<and> w' = w1" using run go q by (simp add: handle_remove_breakpoint_def)
    then show ?thesis by (intro failed [OF go(4), of info e]) (simp_all add: q Some)
  qed
qed (use nothing in simp)

section \<open>Connecting\<close>

lemma connect_stage_cases:
  assumes "connect_stage f c sv = (r, sv')"
  obtains (failed) e out where "c = Inl e" "r = Inl out" "sv' = abort_connect sv"
    | (connected) h where "c = Inr h" "r = Inr h" "sv_backend sv' = Some h" "sv_session sv' = sv_session sv"
  using assms by (cases c) (auto simp: connect_stage_def)

lemma select_backend_simps [simp]:
  "select_backend ho r (on_session g sv) = select_backend ho r sv"
  "select_backend ho r (sv\<lparr>sv_session := s\<rparr>) = select_backend ho r sv"
  by (simp_all add: select_backend_def)

text \<open>The common shape of the four: it ends before connecting, the connection is refused, or the call is made.\<close>

definition connect_point ::
  "(tool_outcome + 'p \<times> ('h, 'w) factory) \<times> ('h, 'w) server \<Rightarrow> ('p \<Rightarrow> 'h \<Rightarrow> ('w, 'a) call) \<Rightarrow>
   ('p \<Rightarrow> ('h, 'w) factory \<Rightarrow> 'h \<Rightarrow> 'w \<Rightarrow> (backend_error + 'a) option \<Rightarrow> ('h, 'w) server \<Rightarrow> tool_outcome \<times> ('h, 'w) server) \<Rightarrow>
   'w \<Rightarrow> tool_outcome \<times> ('h, 'w) server \<times> 'w" where
  "connect_point begun request finish w =
     (case begun of
        (Inl out, sv) \<Rightarrow> (out, sv, w)
      | (Inr (p, factory), sv) \<Rightarrow>
          (let (c, w) = fac_connect factory w
           in case connect_stage factory c sv of
                (Inl out, sv) \<Rightarrow> (out, sv, w)
              | (Inr h, sv) \<Rightarrow>
                  (let (r, w) = select_call None (request p h) w; (out, sv) = finish p factory h w r sv in (out, sv, w))))"

lemma connect_points:
  "handle_launch ho ops None a sv w = connect_point (launch_begin ho a sv) (\<lambda>lp h. b_launch ops h (lp_spec lp))
     (\<lambda>lp f h w. launch_finish lp (b_debugger_pid ops h w)) w"
  "handle_attach ho ops None a sv w = connect_point (attach_begin ho a sv) (\<lambda>ap h. b_attach ops h (ap_spec ap))
     (\<lambda>ap f h w. attach_finish ap (b_debugger_pid ops h w)) w"
  "handle_open_crash_dump ho ops None a sv w = connect_point (dump_begin ho a sv) (\<lambda>path h. b_open_dump ops h path)
     (\<lambda>path f h w. dump_finish path (fac_name f)) w"
  "handle_attach_kernel ho ops None a sv w = connect_point (kernel_begin ho a sv) (\<lambda>c h. b_attach_kernel ops h c)
     (\<lambda>c f h w. kernel_finish c (fac_name f)) w"
  by (simp_all add: connect_point_def handle_launch_def handle_attach_def handle_open_crash_dump_def handle_attach_kernel_def)

text \<open>The other three find an idle session and leave its lists.\<close>

lemma begin_lists:
  "attach_begin ho a sv = (Inr p1, sv1) \<Longrightarrow> s_state (sv_session sv) = Idle \<and> bp_lists (sv_session sv1) = bp_lists (sv_session sv)"
  "dump_begin ho a sv = (Inr p2, sv1) \<Longrightarrow> s_state (sv_session sv) = Idle \<and> bp_lists (sv_session sv1) = bp_lists (sv_session sv)"
  "kernel_begin ho a sv = (Inr p3, sv1) \<Longrightarrow> s_state (sv_session sv) = Idle \<and> bp_lists (sv_session sv1) = bp_lists (sv_session sv)"
  by (auto simp: attach_begin_def dump_begin_def kernel_begin_def bp_lists_def set_state_def Let_def
      dest!: check_state_InrD split: tool_splits)

text \<open>A launch takes the pending breakpoints into the plan and into the lists.\<close>

lemma launch_begin_lists:
  assumes begun: "launch_begin ho a sv = (Inr (lp, f), sv1)" and inv: "session_inv (sv_session sv)"
  shows "ls_source_breakpoints (lp_spec lp) = s_pending_source_bps (sv_session sv)"
    "ls_function_breakpoints (lp_spec lp) = s_pending_function_bps (sv_session sv)"
    "hm_ok (s_pending_source_bps (sv_session sv))" "s_state (sv_session sv) = Idle"
    "s_bp_responses (sv_session sv1) = s_bp_responses (sv_session sv)"
    "source_breakpoints_for_file fl (sv_session sv1) =
       source_breakpoints_for_file fl (sv_session sv) @ hm_list (s_pending_source_bps (sv_session sv)) fl"
    "s_function_bps (sv_session sv1) = s_function_bps (sv_session sv) @ s_pending_function_bps (sv_session sv)"
proof -
  let ?s = "set_state Configuring (sv_session sv)"
  have sv1: "sv_session sv1 = snd (flush_pending_breakpoints ?s)"
    and spec: "ls_source_breakpoints (lp_spec lp) = s_pending_source_bps (sv_session sv)"
      "ls_function_breakpoints (lp_spec lp) = s_pending_function_bps (sv_session sv)"
    using begun by (auto simp: launch_begin_def flush_pending_breakpoints_def set_state_def Let_def split: tool_splits)
  show ok: "hm_ok (s_pending_source_bps (sv_session sv))" using inv by (simp add: session_inv_def)
  show "ls_source_breakpoints (lp_spec lp) = s_pending_source_bps (sv_session sv)"
    "ls_function_breakpoints (lp_spec lp) = s_pending_function_bps (sv_session sv)" by (rule spec)+
  show "s_state (sv_session sv) = Idle"
    using begun by (auto simp: launch_begin_def Let_def dest!: check_state_InrD split: tool_splits)
  show "s_bp_responses (sv_session sv1) = s_bp_responses (sv_session sv)"
    by (simp add: sv1 flush_pending_breakpoints_def set_state_def Let_def)
  show "source_breakpoints_for_file fl (sv_session sv1) =
      source_breakpoints_for_file fl (sv_session sv) @ hm_list (s_pending_source_bps (sv_session sv)) fl"
    using flush_active_source [of ?s] ok by (simp add: sv1 source_breakpoints_for_file_def set_state_def)
  show "s_function_bps (sv_session sv1) = s_function_bps (sv_session sv) @ s_pending_function_bps (sv_session sv)"
    by (simp add: sv1 flush_pending_breakpoints_def set_state_def Let_def)
qed

lemma pending_listed: "hm_ok m \<Longrightarrow> (fl, bps) \<in> set m \<Longrightarrow> hm_list m fl = bps"
  by (simp add: hm_list_def hm_get_def hm_ok_def)

section \<open>The end of a connect point\<close>

lemma finish_lists:
  "launch_finish lp dpid r sv = (out, sv') \<Longrightarrow> sv' = cleanup_after_cancel sv \<or>
     s_state (sv_session sv') \<noteq> Idle \<and> bp_lists (sv_session sv') = bp_lists (sv_session sv) \<and> r \<noteq> None"
  "attach_finish ap dpid r1 sv = (out, sv') \<Longrightarrow> sv' = cleanup_after_cancel sv \<or>
     s_state (sv_session sv') \<noteq> Idle \<and> bp_lists (sv_session sv') = bp_lists (sv_session sv)"
  "dump_finish d fac r2 sv = (out, sv') \<Longrightarrow> sv' = cleanup_after_cancel sv \<or>
     s_state (sv_session sv') \<noteq> Idle \<and> bp_lists (sv_session sv') = bp_lists (sv_session sv)"
  "kernel_finish d fac r1 sv = (out, sv') \<Longrightarrow> sv' = cleanup_after_cancel sv \<or>
     s_state (sv_session sv') \<noteq> Idle \<and> bp_lists (sv_session sv') = bp_lists (sv_session sv)"
  by (auto simp: launch_finish_def attach_finish_def dump_finish_def kernel_finish_def record_launch_def bp_lists_def
      session_op_defs on_session_update Let_def split: tool_splits launch_outcome.splits attach_outcome.splits)

end
