(* ===== verification/Debug_Mcp.thy ===== *)
theory Debug_Mcp
  imports Dispatch Schema Windbg_Factory
begin

text \<open>
  The binary, \<open>debug-mcp/src/main.rs\<close>, and what the server says of itself (\<open>ServerHandler\<close> in
  \<open>mcp-tools/src/server.rs\<close>).  The transport of \<open>rmcp\<close> is two functions: serving gives an error or a running
  service, and waiting for that gives an error or nothing.
\<close>

section \<open>What the server says of itself\<close>

record server_info =
  inf_name :: string
  inf_version :: string
  inf_tools_list_changed :: "bool option"

definition get_info :: server_info where
  "get_info = \<lparr>inf_name = ''debug'', inf_version = ''1.0.0'', inf_tools_list_changed = Some False\<rparr>"

section \<open>The two factories and the registry\<close>

text \<open>Connecting is the factories' own; here it is any function of the world.\<close>

definition lldb_factory :: "('w, 'h) call \<Rightarrow> ('h, 'w) factory" where
  "lldb_factory connect = \<lparr>fac_name = ''lldb'', fac_capabilities = default_capabilities, fac_connect = connect\<rparr>"

definition windbg_factory :: "('w, 'h) call \<Rightarrow> ('h, 'w) factory" where
  "windbg_factory connect = \<lparr>fac_name = ''windbg'', fac_capabilities = windbg_capabilities, fac_connect = connect\<rparr>"

definition native_registry :: "bool \<Rightarrow> ('w, 'h) call \<Rightarrow> ('w, 'h) call \<Rightarrow> ('h, 'w) registry" where
  "native_registry windows lldb windbg =
     register (if windows then windbg_factory windbg else lldb_factory lldb)
       (registry_new (default_backend_for_os windows))"

section \<open>The main function\<close>

text \<open>The exit code and what is printed to standard error.\<close>

definition EXIT_SUCCESS :: nat where "EXIT_SUCCESS = 0"
definition EXIT_FAILURE :: nat where "EXIT_FAILURE = 1"

definition main ::
  "bool \<Rightarrow> ('w, 'h) call \<Rightarrow> ('w, 'h) call \<Rightarrow> (('h, 'w) server \<Rightarrow> string + 'r) \<Rightarrow> ('r \<Rightarrow> string option) \<Rightarrow> nat \<times> string" where
  "main windows lldb windbg start waiting_for =
     (let server = server_new session_new (native_registry windows lldb windbg)
      in case start server of
           Inl e \<Rightarrow> (EXIT_FAILURE, ''Server error: '' @ e)
         | Inr running \<Rightarrow>
             (case waiting_for running of
                Some e \<Rightarrow> (EXIT_FAILURE, ''Server error: '' @ e)
              | None \<Rightarrow> (EXIT_SUCCESS, [])))"

section \<open>The server of each platform\<close>

lemma native_registry_inv: "registry_inv (native_registry windows lldb windbg)"
  by (simp add: native_registry_def inv_intros)

lemma native_capabilities:
  "reg_capabilities (native_registry windows lldb windbg) = (if windows then windbg_capabilities else bot)"
  by (simp add: native_registry_def register_capabilities registry_new_def windbg_factory_def lldb_factory_def
      default_capabilities_def)

lemma native_get:
  "hm_get (reg_factories (native_registry windows lldb windbg)) n =
     (if n = default_backend_for_os windows
      then Some (if windows then windbg_factory windbg else lldb_factory lldb) else None)"
  by (simp add: native_registry_def register_get registry_new_def windbg_factory_def lldb_factory_def
      default_backend_for_os_def)

text \<open>The server that main serves: it advertises the 21 base tools, on Windows the four gated ones besides,
  each under a name that the dispatch knows; its invariant holds; the native debugger is selected by default
  and by name, and the other one is refused with the native one as what is available.\<close>

theorem native_server:
  fixes lldb windbg :: "('w, 'h) call" and windows :: bool
  defines "sv \<equiv> server_new session_new (native_registry windows lldb windbg)"
  shows "server_inv sv \<and>
    map tl_name (server_tools sv) = base_tool_names @
      (if windows then [''open_crash_dump'', ''attach_kernel'', ''analyze_crash'', ''get_modules''] else []) \<and>
    length (server_tools sv) = (if windows then 25 else 21) \<and>
    (\<forall>name. get_tool sv name = None \<longleftrightarrow> name \<notin> set (map tl_name (server_tools sv))) \<and>
    (let native = default_backend_for_os windows; other = default_backend_for_os (\<not> windows);
         factory = (if windows then windbg_factory windbg else lldb_factory lldb)
     in select_with_env (sv_registry sv) None None = Inr factory \<and>
        select_with_env (sv_registry sv) (Some native) env = Inr factory \<and>
        select_with_env (sv_registry sv) (Some other) env =
          Inl (''unknown backend '' @ sq # other @ sq # ''; available: '' @ native))"
proof -
  have sv: "sv_registry sv = native_registry windows lldb windbg"
    by (simp add: sv_def server_new_def)
  have tools: "map tl_name (server_tools sv) = base_tool_names @
      (if windows then [''open_crash_dump'', ''attach_kernel'', ''analyze_crash'', ''get_modules''] else [])"
    by (simp add: server_tools_def sv native_capabilities all_tool_names windbg_capabilities_def bot_capabilities_def)
  have "length (server_tools sv) = length (map tl_name (server_tools sv))" by simp
  then have count: "length (server_tools sv) = (if windows then 25 else 21)"
    unfolding tools by (simp add: base_tool_names_eq)
  have known: "get_tool sv name = None \<longleftrightarrow> name \<notin> set (map tl_name (server_tools sv))" for name
    by (auto simp: get_tool_def find_None_iff)
  have names: "available_names (native_registry windows lldb windbg) = [default_backend_for_os windows]"
    by (simp add: available_names_def native_registry_def register_def registry_new_def hm_insert_def hm_keys_def Let_def
        windbg_factory_def lldb_factory_def default_backend_for_os_def)
  have other: "default_backend_for_os (\<not> windows) \<noteq> default_backend_for_os windows"
    by (simp add: default_backend_for_os_def)
  have "default_backend_for_os b \<noteq> []" for b by (simp add: default_backend_for_os_def)
  moreover have "reg_default_name (native_registry windows lldb windbg) = default_backend_for_os windows"
    by (simp add: native_registry_def register_def registry_new_def Let_def)
  ultimately have select: "let native = default_backend_for_os windows; other = default_backend_for_os (\<not> windows);
         factory = (if windows then windbg_factory windbg else lldb_factory lldb)
     in select_with_env (sv_registry sv) None None = Inr factory \<and>
        select_with_env (sv_registry sv) (Some native) env = Inr factory \<and>
        select_with_env (sv_registry sv) (Some other) env =
          Inl (''unknown backend '' @ sq # other @ sq # ''; available: '' @ native)"
    by (simp add: sv select_with_env_def select_name_def native_get other Let_def comma_list_def names)
  have "server_inv sv" unfolding sv_def by (rule server_new_inv [OF native_registry_inv])
  then show ?thesis using tools count known select by blast
qed

end
