(* ===== verification/Windbg_Server.thy ===== *)
theory Windbg_Server
  imports Steady_World Tool_Shapes Debug_Mcp Windbg_Properties
begin

text \<open>
  The tool server on the WinDbg backend.  The world of the server is the backend itself, its handle carries
  nothing; connecting starts an engine thread and replaces the backend by a new one.
\<close>

section \<open>A thread that has ended\<close>

lemma engine_call_running:
  "engine_call cmd w = (r, w') \<Longrightarrow> wd_running w' \<Longrightarrow> wd_running w \<and> r \<noteq> Inl Closed"
  by (auto simp: engine_call_def dispatch_cmd_def Let_def split: if_splits option.splits sum.splits prod.splits)

lemma add_running:
  "reconcile_add ops prior slots p w = (r, w') \<Longrightarrow> wd_running w' \<Longrightarrow> wd_running w \<and> (\<exists>p'. r = Inr p')"
proof (induction slots arbitrary: p w)
  case (Cons s slots)
  show ?case
  proof (cases s)
    case (Refused x)
    then show ?thesis using Cons.IH [OF _ Cons.prems(2)] Cons.prems(1) by auto
  next
    case (Slot key l c line)
    obtain outcome w1 where c: "engine_call (eo_set_breakpoint ops l c) w = (outcome, w1)" by (rule prod.exhaust)
    note before = engine_call_running [OF c]
    show ?thesis
      using Cons.prems c Slot before
      by (cases outcome) (auto simp: Let_def split: option.splits if_splits dest: Cons.IH [OF _ Cons.prems(2)])
  qed
qed auto

lemma remove_running:
  "reconcile_remove ops desired prior w = (r, w') \<Longrightarrow> wd_running w' \<Longrightarrow> wd_running w \<and> r = Inr ()"
proof (induction prior arbitrary: w)
  case (Cons e prior)
  obtain key old where e: "e = (key, old)" by (rule prod.exhaust)
  have one: "wd_running w \<and> q = Inr ()" if "remove_engine_breakpoint ops i w = (q, w1)" "wd_running w1" for i q w1
    using that engine_call_running [of "eo_remove_breakpoint ops i" w]
    by (auto simp: remove_engine_breakpoint_def split: if_splits prod.splits sum.splits backend_error.splits)
  show ?case
    using Cons.prems e by (auto split: if_splits prod.splits sum.splits dest!: Cons.IH [OF _ Cons.prems(2)] dest: one)
qed simp

lemma reconcile_running:
  assumes "reconcile ops prior slots commit w = (r, w')" and "wd_running w'"
  shows "wd_running w \<and> (\<exists>results. r = Inr results)"
  using assms
  by (auto simp: reconcile_def Let_def split: prod.splits sum.splits dest!: add_running remove_running)

section \<open>What the agreement needs of the engine\<close>

text \<open>
  A pool of breakpoints that is counted from id 1 up (DbgEng's first id is 0, which the backend reads as no
  breakpoint), results that are not refusals, and operations that run or inspect the target without adding
  or removing breakpoints.
\<close>

definition keeps_pool :: "'e pool_view \<Rightarrow> ('e, 'a) engine_op \<Rightarrow> bool" where
  "keeps_pool pool op \<longleftrightarrow> (\<forall>e r e'. op e = (r, e') \<longrightarrow> pool e' = pool e)"

definition quiet_engine :: "'e engine_ops \<Rightarrow> 'e pool_view \<Rightarrow> bool" where
  "quiet_engine ops pool \<longleftrightarrow>
     (\<forall>t. keeps_pool pool (eo_go ops t)) \<and> (\<forall>k. keeps_pool pool (eo_step ops k)) \<and> keeps_pool pool (eo_break_in ops) \<and>
     keeps_pool pool (eo_threads ops) \<and> (\<forall>t m. keeps_pool pool (eo_stack_trace ops t m)) \<and>
     (\<forall>i. keeps_pool pool (eo_locals ops i)) \<and> (\<forall>x. keeps_pool pool (eo_evaluate ops x)) \<and>
     (\<forall>a n. keeps_pool pool (eo_read_memory ops a n)) \<and> (\<forall>a n. keeps_pool pool (eo_disassemble ops a n)) \<and>
     keeps_pool pool (eo_analyze ops) \<and> keeps_pool pool (eo_modules ops) \<and>
     (\<forall>q. keeps_pool pool (eo_launch ops q)) \<and> (\<forall>pid. keeps_pool pool (eo_attach_pid ops pid)) \<and>
     (\<forall>d. keeps_pool pool (eo_open_dump ops d)) \<and> (\<forall>c. keeps_pool pool (eo_attach_kernel ops c)) \<and>
     (\<forall>e. pool (eo_interrupt ops e) = pool e)"

definition accepts_locations :: "'e engine_ops \<Rightarrow> bool" where
  "accepts_locations ops \<longleftrightarrow>
     (\<forall>loc c e b e'. eo_set_breakpoint ops loc c e = (Some (Inr b), e') \<longrightarrow> \<not> br_rejected b)"

definition breakpoint_engine :: "'e engine_ops \<Rightarrow> 'e pool_view \<Rightarrow> bool" where
  "breakpoint_engine ops pool \<longleftrightarrow>
     pool_engine_on (\<lambda>i. 0 < i) ops pool \<and> quiet_engine ops pool \<and> accepts_locations ops"

lemma keeps_poolD: "keeps_pool pool op \<Longrightarrow> op e = (r, e') \<Longrightarrow> pool e' = pool e"
  by (simp add: keeps_pool_def)

lemma engine_call_pool:
  "keeps_pool pool cmd \<Longrightarrow> engine_call cmd w = (r, w') \<Longrightarrow> pool (wd_engine w') = pool (wd_engine w)"
  by (erule engine_call_cases) (auto dest: keeps_poolD)

section \<open>The backend is steady\<close>

lemmas wd_requests = windbg_ops_def wd_cont_def wd_step_def wd_pause_def wd_threads_def wd_stack_trace_def wd_scopes_def
  wd_variables_def wd_evaluate_def wd_read_memory_def wd_disassemble_def interrupt_def

text \<open>No tool but those that change breakpoints touches the table, whatever the engine does.\<close>

interpretation table_steady: steady_world "windbg_ops ops procs" "\<lambda>b. wd_table b = t" for ops procs t
  by unfold_locales
    (auto simp: wd_requests Let_def intro!: keeps_worldI dest!: engine_call_keeps split: prod.splits sum.splits option.splits if_splits)

lemma quiet_engineD:
  assumes "quiet_engine ops pool"
  shows "keeps_pool pool (eo_go ops t)" "keeps_pool pool (eo_step ops k)" "keeps_pool pool (eo_break_in ops)"
    "keeps_pool pool (eo_threads ops)" "keeps_pool pool (eo_stack_trace ops i m)" "keeps_pool pool (eo_locals ops i)"
    "keeps_pool pool (eo_evaluate ops x)" "keeps_pool pool (eo_read_memory ops a n)" "keeps_pool pool (eo_disassemble ops a i)"
    "keeps_pool pool (eo_analyze ops)" "keeps_pool pool (eo_modules ops)" "keeps_pool pool (eo_launch ops q)"
    "keeps_pool pool (eo_attach_pid ops pid)" "keeps_pool pool (eo_open_dump ops d)" "keeps_pool pool (eo_attach_kernel ops c)"
    "pool (eo_interrupt ops e) = pool e"
  using assms by (simp_all add: quiet_engine_def)

lemma pool_steady:
  assumes "quiet_engine ops pool"
  shows "steady_world (windbg_ops ops procs) (\<lambda>b. pool (wd_engine b) = p)"
proof -
  note calls = quiet_engineD(1-11) [OF assms, THEN engine_call_pool]
  show ?thesis
    by unfold_locales
      (auto simp: wd_requests Let_def quiet_engineD(16) [OF assms] intro!: keeps_worldI dest!: calls
        split: prod.splits sum.splits option.splits if_splits)
qed

lemma running_steady: "steady_world (windbg_ops ops procs) (\<lambda>b. \<not> wd_running b)"
  by unfold_locales
    (auto simp: wd_requests Let_def intro!: keeps_worldI dest!: engine_call_running
      split: prod.splits sum.splits option.splits if_splits)

section \<open>Session, table and engine\<close>

text \<open>
  Every breakpoint of the table is one the session lists, and the table names exactly the engine's
  breakpoints; \<open>settled\<close> is the part of it about the backend alone.
\<close>

definition session_knows :: "session \<Rightarrow> bp_table \<Rightarrow> bool" where
  "session_knows s t \<longleftrightarrow>
     (\<forall>file. \<forall>n \<in> set (map fst (source_prior file t)).
        \<exists>bp \<in> set (source_breakpoints_for_file file s). as_u32 (sb_line bp) = Some n) \<and>
     set (map fst (bt_function t)) \<subseteq> fb_name ` set (s_function_bps s)"

definition settled :: "'e pool_view \<Rightarrow> 'e windbg \<Rightarrow> bool" where
  "settled pool b \<longleftrightarrow> table_exact_on (\<lambda>i. 0 < i) pool b \<and> (\<forall>(n, r) \<in> set (bt_function (wd_table b)). \<not> br_rejected r)"

definition agrees :: "'e pool_view \<Rightarrow> session \<Rightarrow> 'e windbg \<Rightarrow> bool" where
  "agrees pool s b \<longleftrightarrow> wd_running b \<longrightarrow> settled pool b \<and> session_knows s (wd_table b)"

lemma in_update: "e \<in> set (AList.update key x m) \<Longrightarrow> e = (key, x) \<or> e \<in> set m"
  by (induction m) (auto split: if_splits)

lemma call_accepted:
  assumes "accepts_locations ops" and "engine_call (eo_set_breakpoint ops loc c) w = (Inr b, w')"
  shows "\<not> br_rejected b"
  using assms(2) by (cases rule: engine_call_cases) (use assms(1) in \<open>unfold accepts_locations_def, blast+\<close>)

text \<open>What the results of a reconciliation are, whatever is asked for twice.\<close>

lemma add_accepted:
  assumes "accepts_locations ops"
  shows "reconcile_add ops prior slots p w = (Inr p', w') \<Longrightarrow> \<forall>(k, r) \<in> set prior. \<not> br_rejected r \<Longrightarrow>
    \<forall>(k, r) \<in> set (pg_map p). \<not> br_rejected r \<Longrightarrow>
    (\<exists>xs. pg_results p' = pg_results p @ xs \<and>
       list_all2 (\<lambda>s x. case s of Refused r \<Rightarrow> x = r | Slot _ _ _ _ \<Rightarrow> \<not> br_rejected x) slots xs) \<and>
    (\<forall>(k, r) \<in> set (pg_map p'). \<not> br_rejected r)"
proof (induction slots arbitrary: p w)
  case (Cons s slots)
  show ?case
  proof (cases s)
    case (Refused r)
    then show ?thesis
      using Cons.IH [of "p\<lparr>pg_results := pg_results p @ [r]\<rparr>" w] Cons.prems by (auto simp: list_all2_Cons1)
  next
    case (Slot key l c line)
    have step: "?thesis" if "reconcile_add ops prior slots (p\<lparr>pg_desired := d, pg_results := pg_results p @ [x], pg_map := m\<rparr>) v = (Inr p', w')"
        "\<not> br_rejected x" "\<forall>(k, r) \<in> set m. \<not> br_rejected r" for d x m v
      using Cons.IH [OF that(1)] that(2,3) Cons.prems(2) Slot by (auto simp: list_all2_Cons1)
    have upd: "\<forall>(k, r) \<in> set (AList.update key x (pg_map p)). \<not> br_rejected r" if "\<not> br_rejected x" for x
      using Cons.prems(3) that by (auto dest!: in_update)
    show ?thesis
    proof (cases "map_of prior key")
      case (Some r)
      then have "\<not> br_rejected r" using Cons.prems(2) map_of_SomeD by fastforce
      then show ?thesis
        using Cons.prems Slot Some upd [of r]
        by (intro step [where x = r and v = w and m = "AList.update key r (pg_map p)"]) (auto simp: Let_def)
    next
      case None
      obtain outcome w1 where c: "engine_call (eo_set_breakpoint ops l c) w = (outcome, w1)" by (rule prod.exhaust)
      obtain r where r: "bp_result_or_continue outcome line = Inr r"
        using Cons.prems(1) Slot None c by (cases "bp_result_or_continue outcome line") (auto simp: Let_def)
      have "\<not> br_rejected r"
        using r call_accepted [OF assms, of l c w] c by (cases outcome) (auto simp: unverified_def split: if_splits)
      then show ?thesis
        using Cons.prems Slot None c r upd
        by (intro step [where x = r and v = w1 and m = "if br_verified r then AList.update key r (pg_map p) else pg_map p"])
          (auto simp: Let_def)
    qed
  qed
qed simp

lemma breakpoint_engineD:
  assumes "breakpoint_engine ops pool"
  shows "pool_engine_on (\<lambda>i. 0 < i) ops pool" "quiet_engine ops pool" "accepts_locations ops"
  using assms by (simp_all add: breakpoint_engine_def)

lemma source_replaced:
  assumes engine: "breakpoint_engine ops pool" and settled: "wd_running b \<longrightarrow> settled pool b"
    and dist: "distinct (map sb_line bps)" and run: "wd_set_source_breakpoints ops file bps b = (r, b')" and alive: "wd_running b'"
  shows "wd_running b" "\<exists>results. r = Inr results \<and> length results = length bps" "settled pool b'"
    "set (map fst (source_prior file (wd_table b'))) \<subseteq> {n. \<exists>bp \<in> set bps. as_u32 (sb_line bp) = Some n}"
    "f \<noteq> file \<Longrightarrow> source_prior f (wd_table b') = source_prior f (wd_table b)"
    "bt_function (wd_table b') = bt_function (wd_table b)"
proof -
  note rec = run [unfolded wd_set_source_breakpoints_def] and engine = breakpoint_engineD [OF engine]
  obtain results where r: "r = Inr results" and b: "wd_running b" using reconcile_running [OF rec alive] by blast
  note s = settled [rule_format, OF b, unfolded settled_def]
  have ids: "\<forall>(l, r) \<in> set (source_prior file (wd_table b)). 0 < br_id r \<longleftrightarrow> 0 < br_id r" by simp
  note all = source_lines.replace_all [OF engine(1) s [THEN conjunct1] ids source_keys_distinct [OF dist] rec [unfolded r]]
  show "wd_running b" by (rule b)
  show "\<exists>results. r = Inr results \<and> length results = length bps"
    using r list_all2_lengthD [OF all(3)] by simp
  show "bt_function (wd_table b') = bt_function (wd_table b)" by (subst all(2)) (simp add: source_prior_commit)
  then show "settled pool b'" using all(1) s by (simp add: settled_def)
  show "f \<noteq> file \<Longrightarrow> source_prior f (wd_table b') = source_prior f (wd_table b)"
    by (subst all(2)) (simp add: source_prior_commit)
  show "set (map fst (source_prior file (wd_table b'))) \<subseteq> {n. \<exists>bp \<in> set bps. as_u32 (sb_line bp) = Some n}"
    using all(4) by (simp add: source_keys)
qed

lemma function_replaced:
  assumes engine: "breakpoint_engine ops pool" and settled: "wd_running b \<longrightarrow> settled pool b"
    and dist: "distinct (slot_keys (map function_slot bps))"
    and run: "wd_set_function_breakpoints ops bps b = (r, b')" and alive: "wd_running b'"
  shows "wd_running b" "settled pool b'"
    "set (map fst (bt_function (wd_table b'))) \<subseteq> {n \<in> fb_name ` set bps. \<not> is_bare_address_name n}"
    "source_prior f (wd_table b') = source_prior f (wd_table b)"
proof -
  note rec = run [unfolded wd_set_function_breakpoints_def] and engine = breakpoint_engineD [OF engine]
  obtain results where r: "r = Inr results" and b: "wd_running b" using reconcile_running [OF rec alive] by blast
  note s = settled [rule_format, OF b, unfolded settled_def]
  have ids: "\<forall>(n, r) \<in> set (bt_function (wd_table b)). 0 < br_id r \<longleftrightarrow> 0 < br_id r" by simp
  note all = function_names.replace_all [OF engine(1) s [THEN conjunct1] ids dist rec [unfolded r]]
  show "wd_running b" by (rule b)
  obtain p w1 where add: "reconcile_add ops (bt_function (wd_table b)) (map function_slot bps)
      \<lparr>pg_desired = [], pg_results = [], pg_map = []\<rparr> b = (Inr p, w1)" "bt_function (wd_table b') = pg_map p"
    using rec r by (auto simp: reconcile_def Let_def source_prior_commit split: prod.splits sum.splits)
  have "\<forall>(k, x) \<in> set (pg_map p). \<not> br_rejected x"
    using add_accepted [OF engine(3) add(1)] s by simp
  then show "settled pool b'" using all(1) add(2) by (simp add: settled_def)
  show "set (map fst (bt_function (wd_table b'))) \<subseteq> {n \<in> fb_name ` set bps. \<not> is_bare_address_name n}"
    using all(4) by (simp add: function_keys)
  show "source_prior f (wd_table b') = source_prior f (wd_table b)"
    by (subst all(2)) (simp add: source_prior_commit)
qed

text \<open>A function that is not a bare address is not refused.\<close>

lemma function_not_refused:
  assumes "accepts_locations ops" and "\<forall>(n, r) \<in> set (bt_function (wd_table b)). \<not> br_rejected r"
    and "wd_set_function_breakpoints ops (bps @ [bp]) b = (Inr results, b')" and "\<not> is_bare_address_name (fb_name bp)"
  shows "results \<noteq> [] \<and> \<not> br_rejected (last results)"
proof -
  obtain p w1 where add: "reconcile_add ops (bt_function (wd_table b)) (map function_slot (bps @ [bp]))
      \<lparr>pg_desired = [], pg_results = [], pg_map = []\<rparr> b = (Inr p, w1)" "results = pg_results p"
    using assms(3) by (auto simp: wd_set_function_breakpoints_def reconcile_def Let_def split: prod.splits sum.splits)
  then show ?thesis
    using add_accepted [OF assms(1) add(1) assms(2)] assms(4)
    by (auto simp: list_all2_append1 list_all2_Cons1)
qed

section \<open>The breakpoints of a launch\<close>

lemma flush_source_keys:
  "set (map fst (source_prior f (wd_table (flush_source ops file bps w)))) \<subseteq>
     set (map fst (source_prior f (wd_table w))) \<union>
     {n. f = file \<and> (\<exists>bp \<in> set bps. as_u32 (sb_line bp) = Some n)} \<and>
   bt_function (wd_table (flush_source ops file bps w)) = bt_function (wd_table w)"
proof (induction bps arbitrary: w)
  case (Cons bp bps)
  show ?case
  proof (cases "as_u32 (sb_line bp)")
    case None
    then show ?thesis using Cons.IH [of w] by auto
  next
    case (Some n)
    obtain q w1 where q: "engine_call (eo_set_breakpoint ops (Loc_FileLine file n) (sb_condition bp)) w = (q, w1)"
      by (rule prod.exhaust)
    note keeps = engine_call_keeps [OF q]
    show ?thesis
    proof (cases q)
      case (Inl e)
      then show ?thesis using Cons.IH [of w1] Some q keeps by auto
    next
      case (Inr r)
      let ?w = "w1\<lparr>wd_table := (wd_table w1)\<lparr>bt_source := AList.update file
                  (AList.update n r (source_prior file (wd_table w1))) (bt_source (wd_table w1))\<rparr>\<rparr>"
      let ?v = "if br_verified r then ?w else w1"
      have step: "flush_source ops file (bp # bps) w = flush_source ops file bps ?v" using Some q Inr by simp
      have "set (map fst (source_prior f (wd_table ?v))) \<subseteq> set (map fst (source_prior f (wd_table w))) \<union> {m. f = file \<and> m = n}"
        using keeps by (auto simp: source_prior_def update_conv' dest!: in_update)
      moreover have "bt_function (wd_table ?v) = bt_function (wd_table w)" using keeps by simp
      moreover have "{m. f = file \<and> m = n} \<subseteq> {n. f = file \<and> (\<exists>bp \<in> set (bp # bps). as_u32 (sb_line bp) = Some n)}"
        using Some by auto
      moreover have "{n. f = file \<and> (\<exists>bp \<in> set bps. as_u32 (sb_line bp) = Some n)} \<subseteq>
          {n. f = file \<and> (\<exists>bp \<in> set (bp # bps). as_u32 (sb_line bp) = Some n)}"
        by auto
      ultimately show ?thesis unfolding step using Cons.IH [of ?v] by (simp only:) blast
    qed
  qed
qed simp

lemma flush_files_keys:
  "set (map fst (source_prior f (wd_table (fold (\<lambda>(file, bps). flush_source ops file bps) files w)))) \<subseteq>
     set (map fst (source_prior f (wd_table w))) \<union> {n. \<exists>bps. (f, bps) \<in> set files \<and> (\<exists>bp \<in> set bps. as_u32 (sb_line bp) = Some n)} \<and>
   bt_function (wd_table (fold (\<lambda>(file, bps). flush_source ops file bps) files w)) = bt_function (wd_table w)"
proof (induction files arbitrary: w)
  case (Cons e files)
  obtain g bps where e: "e = (g, bps)" by (rule prod.exhaust)
  show ?case
    using Cons.IH [of "flush_source ops g bps w"] flush_source_keys [of f ops g bps w]
    by (simp add: e del: set_map) blast
qed simp

lemma flush_functions_keys:
  assumes "accepts_locations ops"
  shows "\<forall>(n, r) \<in> set (bt_function (wd_table w)). \<not> br_rejected r \<Longrightarrow>
    set (map fst (bt_function (wd_table (flush_functions ops bps w)))) \<subseteq>
      set (map fst (bt_function (wd_table w))) \<union> fb_name ` set bps \<and>
    (\<forall>(n, r) \<in> set (bt_function (wd_table (flush_functions ops bps w))). \<not> br_rejected r) \<and>
    (\<forall>f. source_prior f (wd_table (flush_functions ops bps w)) = source_prior f (wd_table w))"
proof (induction bps arbitrary: w)
  case (Cons bp bps)
  show ?case
  proof (cases "is_bare_address_name (fb_name bp)")
    case True
    then show ?thesis using Cons.IH [of w] Cons.prems by auto
  next
    case False
    obtain q w1 where q: "engine_call (eo_set_breakpoint ops (Loc_Function (fb_name bp)) (fb_condition bp)) w = (q, w1)"
      by (rule prod.exhaust)
    note keeps = engine_call_keeps [OF q]
    show ?thesis
    proof (cases q)
      case (Inl e)
      then show ?thesis using Cons.IH [of w1] Cons.prems False q keeps by auto
    next
      case (Inr r)
      let ?w = "w1\<lparr>wd_table := (wd_table w1)\<lparr>bt_function := AList.update (fb_name bp) r (bt_function (wd_table w1))\<rparr>\<rparr>"
      let ?v = "if br_verified r then ?w else w1"
      have step: "flush_functions ops (bp # bps) w = flush_functions ops bps ?v" using False q Inr by simp
      have new: "e = (fb_name bp, r) \<or> e \<in> set (bt_function (wd_table w))" if "e \<in> set (bt_function (wd_table ?v))" for e
        using that keeps by (auto dest!: in_update split: if_splits)
      have "\<forall>(n, r) \<in> set (bt_function (wd_table ?v)). \<not> br_rejected r"
        using Cons.prems call_accepted [OF assms q [unfolded Inr]] new by fastforce
      moreover have "set (map fst (bt_function (wd_table ?v))) \<subseteq> insert (fb_name bp) (set (map fst (bt_function (wd_table w))))"
        using new by fastforce
      moreover have "source_prior f (wd_table ?v) = source_prior f (wd_table w)" for f
        using keeps by (simp add: source_prior_def)
      ultimately show ?thesis unfolding step using Cons.IH [of ?v] by (simp only: list.set image_insert) blast
    qed
  qed
qed simp

section \<open>The tools that change breakpoints\<close>

text \<open>A session that asks for no location twice, neither of the debugger nor of the next launch.\<close>

definition unrepeated :: "session \<Rightarrow> bool" where
  "unrepeated s \<longleftrightarrow>
     (\<forall>file. distinct (map sb_line (source_breakpoints_for_file file s)) \<and>
             distinct (map sb_line (hm_list (s_pending_source_bps s) file))) \<and>
     distinct (map fb_name (s_function_bps s)) \<and> distinct (map fb_name (s_pending_function_bps s))"

lemma agrees_settled: "agrees pool s b \<Longrightarrow> wd_running b \<longrightarrow> settled pool b"
  by (simp add: agrees_def)

text \<open>A file's list is replaced, and the session lists at least what was sent.\<close>

lemma agrees_source:
  assumes engine: "breakpoint_engine ops pool" and before: "agrees pool s b"
    and run: "wd_set_source_breakpoints ops file bps b = (r, b')" and dist: "wd_running b' \<Longrightarrow> distinct (map sb_line bps)"
    and lists: "set bps \<subseteq> set (source_breakpoints_for_file file s')"
      "\<And>f. f \<noteq> file \<Longrightarrow> source_breakpoints_for_file f s' = source_breakpoints_for_file f s"
      "set (s_function_bps s) \<subseteq> set (s_function_bps s')"
  shows "agrees pool s' b'"
  unfolding agrees_def
proof
  assume alive: "wd_running b'"
  note now = source_replaced [OF engine agrees_settled [OF before] dist [OF alive] run alive]
  have old: "session_knows s (wd_table b)" using before now(1) by (simp add: agrees_def)
  have "\<exists>bp \<in> set (source_breakpoints_for_file f s'). as_u32 (sb_line bp) = Some n"
    if n: "n \<in> set (map fst (source_prior f (wd_table b')))" for f n
  proof (cases "f = file")
    case True
    then show ?thesis using n now(4) lists(1) by blast
  next
    case False
    then show ?thesis using n now(5) [OF False] lists(2) [OF False] old by (auto simp: session_knows_def)
  qed
  moreover have "set (map fst (bt_function (wd_table b'))) \<subseteq> fb_name ` set (s_function_bps s')"
    using old lists(3) unfolding now(6) session_knows_def by blast
  ultimately show "settled pool b' \<and> session_knows s' (wd_table b')"
    using now(3) unfolding session_knows_def by blast
qed

lemma agrees_function:
  assumes engine: "breakpoint_engine ops pool" and before: "agrees pool s b"
    and run: "wd_set_function_breakpoints ops bps b = (r, b')"
    and dist: "wd_running b' \<Longrightarrow> distinct (slot_keys (map function_slot bps))"
    and lists: "{n \<in> fb_name ` set bps. \<not> is_bare_address_name n} \<subseteq> fb_name ` set (s_function_bps s')"
      "\<And>f. source_breakpoints_for_file f s' = source_breakpoints_for_file f s"
  shows "agrees pool s' b'"
  unfolding agrees_def
proof
  assume alive: "wd_running b'"
  note now = function_replaced [OF engine agrees_settled [OF before] dist [OF alive] run alive]
  have "session_knows s (wd_table b)" using before now(1) by (simp add: agrees_def)
  then show "settled pool b' \<and> session_knows s' (wd_table b')"
    using now(2,3) lists unfolding session_knows_def now(4) lists(2) by blast
qed

lemma dead_agrees: "\<not> wd_running b \<Longrightarrow> agrees pool s b"
  by (simp add: agrees_def)

lemma refused_keys:
  "is_bare_address_name (fb_name bp) \<Longrightarrow> slot_keys (map function_slot (bps @ [bp])) = slot_keys (map function_slot bps)"
  by (induction bps) auto

lemma remaining_sub:
  "set (remaining_source_breakpoints bps info) \<subseteq> set bps"
  "distinct (map sb_line bps) \<Longrightarrow> distinct (map sb_line (remaining_source_breakpoints bps info))"
  "set (remaining_function_breakpoints fbs info) \<subseteq> set fbs"
  "distinct (map fb_name fbs) \<Longrightarrow> distinct (map fb_name (remaining_function_breakpoints fbs info))"
proof -
  have dist: "distinct (map f xs) \<Longrightarrow> distinct (map f (remove_first p xs))" for p and f :: "'x \<Rightarrow> 'y" and xs
  proof (induction xs)
    case (Cons x xs)
    then show ?case using set_remove_first_subset [of p xs] by auto
  qed simp
  show "set (remaining_source_breakpoints bps info) \<subseteq> set bps"
    "distinct (map sb_line bps) \<Longrightarrow> distinct (map sb_line (remaining_source_breakpoints bps info))"
    "set (remaining_function_breakpoints fbs info) \<subseteq> set fbs"
    "distinct (map fb_name fbs) \<Longrightarrow> distinct (map fb_name (remaining_function_breakpoints fbs info))"
    by (simp_all add: remaining_source_breakpoints_def remaining_function_breakpoints_def remove_position_eq set_remove_first_subset dist)
qed

lemma add_length:
  "reconcile_add ops prior slots p w = (Inr p', w') \<Longrightarrow> length (pg_results p') = length (pg_results p) + length slots"
proof (induction slots arbitrary: p w)
  case (Cons s slots)
  then show ?case by (cases s) (fastforce simp: Let_def split: option.splits prod.splits sum.splits)+
qed simp

lemma reconcile_length: "reconcile ops prior slots commit w = (Inr results, w') \<Longrightarrow> length results = length slots"
  by (auto simp: reconcile_def Let_def split: prod.splits sum.splits dest!: add_length)

text \<open>The invariant of the server on the backend.\<close>

definition connected_agrees :: "'e pool_view \<Rightarrow> (unit, 'e windbg) server \<Rightarrow> 'e windbg \<Rightarrow> bool" where
  "connected_agrees pool sv b \<longleftrightarrow>
     (sv_backend sv = Some () \<longrightarrow> agrees pool (sv_session sv) b) \<and>
     (s_state (sv_session sv) = Idle \<longrightarrow> s_source_bps (sv_session sv) = [] \<and> s_function_bps (sv_session sv) = [])"

lemma agrees_lists:
  "agrees pool s b \<Longrightarrow> (\<And>f. source_breakpoints_for_file f s' = source_breakpoints_for_file f s) \<Longrightarrow>
   s_function_bps s' = s_function_bps s \<Longrightarrow> agrees pool s' b"
  by (simp add: agrees_def session_knows_def)

lemma agrees_pending:
  "agrees pool s b \<Longrightarrow> agrees pool (add_pending_source_breakpoint fl line c s) b"
  "agrees pool s b \<Longrightarrow> agrees pool (add_pending_function_breakpoint n c s) b"
  by (auto intro!: agrees_lists [of pool s] simp: source_breakpoints_for_file_def)

text \<open>A request that fails has met the end of the engine's thread.\<close>

lemma failed_agrees:
  "wd_set_source_breakpoints ops fl bps b = (Inl e, b') \<Longrightarrow> agrees pool s b'"
  "wd_set_function_breakpoints ops fbs b = (Inl e, b') \<Longrightarrow> agrees pool s b'"
  unfolding wd_set_source_breakpoints_def wd_set_function_breakpoints_def
  using reconcile_running dead_agrees by (metis Inl_Inr_False)+

lemma set_breakpoint_agrees:
  assumes engine: "breakpoint_engine ops pool" and inv: "connected_agrees pool sv b"
    and run: "handle_set_breakpoint (windbg_ops ops procs) a sv b = (out, sv', b')" and dist: "unrepeated (sv_session sv')"
  shows "connected_agrees pool sv' b'"
proof -
  have sent: "agrees pool (add_breakpoint_response i (snd (add_source_breakpoint fl line c s))) b'"
    if "wd_set_source_breakpoints ops fl (source_breakpoints_for_file fl s @ [\<lparr>sb_line = line, sb_condition = c\<rparr>]) b = (r, b')"
      "agrees pool s b" "unrepeated (add_breakpoint_response i (snd (add_source_breakpoint fl line c s)))" for fl line c r i s
    by (rule agrees_source [OF engine that(2,1)])
      (use that(3) in \<open>auto simp: source_breakpoints_for_file_def unrepeated_def dest: spec [of _ fl]\<close>)
  have matched: "match_breakpoint line results \<noteq> None"
    if "wd_set_source_breakpoints ops fl (bps @ [bp]) b = (Inr results, b')" for fl bps bp results line
    using reconcile_length [OF that [unfolded wd_set_source_breakpoints_def]]
    by (auto simp: match_breakpoint_def split: option.splits if_splits)
  show ?thesis
    using run inv dist
    by (auto simp: handle_set_breakpoint_def connected_agrees_def Let_def windbg_ops_def
        intro: sent failed_agrees agrees_pending dest: matched split: tool_splits)
qed

lemma set_function_agrees:
  assumes engine: "breakpoint_engine ops pool" and inv: "connected_agrees pool sv b"
    and run: "handle_set_function_breakpoint (windbg_ops ops procs) a sv b = (out, sv', b')" and dist: "unrepeated (sv_session sv')"
  shows "connected_agrees pool sv' b'"
proof -
  have sent: "agrees pool s' b'"
    if "wd_set_function_breakpoints ops (s_function_bps s @ [\<lparr>fb_name = n, fb_condition = c\<rparr>]) b = (r, b')"
      "agrees pool s b" "unrepeated s'" "s_function_bps s' = s_function_bps s @ [\<lparr>fb_name = n, fb_condition = c\<rparr>]"
      "s_source_bps s' = s_source_bps s" for n c r s s'
    by (rule agrees_function [OF engine that(2,1)])
      (use that(3-) function_keys_distinct [of "s_function_bps s'"] in \<open>auto simp: source_breakpoints_for_file_def unrepeated_def\<close>)
  have added: "agrees pool (snd (add_function_breakpoint n c s)) b'" if
      "wd_set_function_breakpoints ops (s_function_bps s @ [\<lparr>fb_name = n, fb_condition = c\<rparr>]) b = (r, b')"
      "agrees pool s b" "unrepeated (snd (add_function_breakpoint n c s))" for n c r s
    by (rule sent [OF that]) simp_all
  have recorded: "agrees pool (add_breakpoint_response i (snd (add_function_breakpoint n c s))) b'" if
      "wd_set_function_breakpoints ops (s_function_bps s @ [\<lparr>fb_name = n, fb_condition = c\<rparr>]) b = (r, b')"
      "agrees pool s b" "unrepeated (add_breakpoint_response i (snd (add_function_breakpoint n c s)))" for n c r s i
    by (rule sent [OF that]) simp_all
  have refused: "agrees pool s b'"
    if call: "wd_set_function_breakpoints ops (s_function_bps s @ [\<lparr>fb_name = n, fb_condition = c\<rparr>]) b = (Inr results, b')"
      and s: "agrees pool s b" "unrepeated s" "br_rejected (last results)" for n c results s
  proof (cases "is_bare_address_name n")
    case True
    have "distinct (slot_keys (map function_slot (s_function_bps s @ [\<lparr>fb_name = n, fb_condition = c\<rparr>])))"
      using True s(2) refused_keys [of "\<lparr>fb_name = n, fb_condition = c\<rparr>"] function_keys_distinct [of "s_function_bps s"]
      by (simp add: unrepeated_def)
    then show ?thesis
      using True by (intro agrees_function [OF engine s(1) call]) (auto simp: source_breakpoints_for_file_def)
  next
    case False
    have "\<not> wd_running b'"
    proof
      assume "wd_running b'"
      then have "wd_running b"
        using call reconcile_running [of ops _ _ _ b _ b'] unfolding wd_set_function_breakpoints_def by blast
      then have "\<forall>(n, r) \<in> set (bt_function (wd_table b)). \<not> br_rejected r"
        using s(1) by (simp add: agrees_def settled_def)
      then show False
        using function_not_refused [OF breakpoint_engineD(3) [OF engine] _ call] s(3) False by simp
    qed
    then show ?thesis by (rule dead_agrees)
  qed
  show ?thesis
    using run inv dist
    by (auto simp: handle_set_function_breakpoint_def connected_agrees_def Let_def windbg_ops_def
        intro: refused failed_agrees agrees_pending added recorded split: tool_splits)
qed

lemma remove_agrees:
  assumes engine: "breakpoint_engine ops pool" and inv: "connected_agrees pool sv b" and old: "unrepeated (sv_session sv)"
    and run: "handle_remove_breakpoint (windbg_ops ops procs) a sv b = (out, sv', b')"
  shows "connected_agrees pool sv' b'"
proof -
  have source: "agrees pool (snd (remove_breakpoint_by_id i s)) b'"
    if "wd_set_source_breakpoints ops (bi_file info)
          (remaining_source_breakpoints (source_breakpoints_for_file (bi_file info) s) info) b = (r, b')"
      "breakpoint_info_of i s = Some info" "agrees pool s b" "unrepeated s" "bi_ty info \<noteq> ''function''" for r i info s
  proof (rule agrees_source [OF engine that(3,1)])
    show "distinct (map sb_line (remaining_source_breakpoints (source_breakpoints_for_file (bi_file info) s) info))"
      using that(4) remaining_sub(2) by (simp add: unrepeated_def)
    show "set (remaining_source_breakpoints (source_breakpoints_for_file (bi_file info) s) info)
        \<subseteq> set (source_breakpoints_for_file (bi_file info) (snd (remove_breakpoint_by_id i s)))"
      using that(2,5) remaining_sub(1)
      by (auto simp: remove_breakpoint_by_id_def breakpoint_info_of_def source_breakpoints_for_file_def
          remaining_source_breakpoints_def remove_position_eq hm_list_def Let_def split: option.splits)
    show "source_breakpoints_for_file f (snd (remove_breakpoint_by_id i s)) = source_breakpoints_for_file f s"
      if "f \<noteq> bi_file info" for f
      using that \<open>breakpoint_info_of i s = Some info\<close>
      by (auto simp: remove_breakpoint_by_id_def breakpoint_info_of_def source_breakpoints_for_file_def Let_def split: option.splits)
    show "set (s_function_bps s) \<subseteq> set (s_function_bps (snd (remove_breakpoint_by_id i s)))"
      using that(2,5) by (auto simp: remove_breakpoint_by_id_def breakpoint_info_of_def Let_def split: option.splits)
  qed
  have func: "agrees pool (snd (remove_breakpoint_by_id i s)) b'"
    if "wd_set_function_breakpoints ops (remaining_function_breakpoints (s_function_bps s) info) b = (r, b')"
      "breakpoint_info_of i s = Some info" "agrees pool s b" "unrepeated s" "bi_ty info = ''function''" for r i info s
  proof (rule agrees_function [OF engine that(3,1)])
    show "distinct (slot_keys (map function_slot (remaining_function_breakpoints (s_function_bps s) info)))"
      using that(4) remaining_sub(4) function_keys_distinct by (simp add: unrepeated_def)
    show "source_breakpoints_for_file f (snd (remove_breakpoint_by_id i s)) = source_breakpoints_for_file f s" for f
      using that(2,5) by (auto simp: remove_breakpoint_by_id_def breakpoint_info_of_def source_breakpoints_for_file_def Let_def split: option.splits)
    show "{n \<in> fb_name ` set (remaining_function_breakpoints (s_function_bps s) info). \<not> is_bare_address_name n}
        \<subseteq> fb_name ` set (s_function_bps (snd (remove_breakpoint_by_id i s)))"
      using that(2,5) by (auto simp: remove_breakpoint_by_id_def breakpoint_info_of_def remaining_function_breakpoints_def Let_def split: option.splits)
  qed
  note send = send_remaining_def windbg_ops_def
  from run show ?thesis
  proof (cases rule: remove_cases)
    case nothing
    then show ?thesis using inv by simp
  next
    case (failed h info e)
    then show ?thesis
      using inv by (auto simp: connected_agrees_def send intro: failed_agrees split: if_splits prod.splits sum.splits)
  next
    case (removed h i info)
    then show ?thesis
      using inv old by (auto simp: connected_agrees_def send intro: source func split: if_splits prod.splits sum.splits)
  qed
qed

section \<open>Connecting\<close>

text \<open>
  \<open>spawn\<close> says what becomes of the engine's thread: whether the apartment fails, what constructing the engine
  gives, and whether the sink's command could be sent.  The thread always signals or is gone.
\<close>

type_synonym 'e spawn = "'e windbg \<Rightarrow> engine_error option \<times> (engine_error + 'e) option \<times> bool"

definition windbg_connect :: "'e engine_ops \<Rightarrow> 'e spawn \<Rightarrow> ('e windbg, unit) call" where
  "windbg_connect ops spawn w =
     (let (com, made, sink_sent) = spawn w;
          ready_rx = tr_ready (spawn_engine_thread ops com made True []);
          engine = (case made of Some (Inr e) \<Rightarrow> e | _ \<Rightarrow> wd_engine w)
      in case wd_connect ready_rx sink_sent engine of
           Some (Inr b) \<Rightarrow> (Inr (), b)
         | Some (Inl e) \<Rightarrow> (Inl e, w)
         | None \<Rightarrow> (Inl Closed, w))"

lemma thread_signals: "tr_ready (spawn_engine_thread ops com made True []) \<noteq> Waiting"
  by (simp add: spawn_engine_thread_def engine_thread_main_def Let_def split: option.split sum.split)

lemma windbg_connected:
  assumes "windbg_connect ops spawn w = (Inr u, b)"
  obtains e com made sink where "spawn w = (com, made, sink)" "made = Some (Inr e)" "b = windbg_new e None"
proof -
  obtain com made sink where s: "spawn w = (com, made, sink)" by (rule prod_cases3)
  have "\<exists>e. made = Some (Inr e) \<and> b = windbg_new e None"
    using assms s
    by (auto simp: windbg_connect_def wd_connect_def spawn_engine_thread_def engine_thread_main_def Let_def
        split: option.splits sum.splits if_splits)
  then show ?thesis using that s by blast
qed

definition spawns_empty :: "'e pool_view \<Rightarrow> 'e spawn \<Rightarrow> bool" where
  "spawns_empty pool spawn \<longleftrightarrow> (\<forall>w com e sink. spawn w = (com, Some (Inr e), sink) \<longrightarrow> pool e = {})"

text \<open>A new backend, and what an operation that keeps its pool and its table leaves of it.\<close>

lemma new_fields [simp]:
  "wd_engine (windbg_new e pid) = e" "wd_table (windbg_new e pid) = \<lparr>bt_source = [], bt_function = []\<rparr>"
  "wd_engine (set_target_pid p b) = wd_engine b" "wd_table (set_target_pid p b) = wd_table b"
  by (simp_all add: windbg_new_def set_target_pid_def)

lemma new_agrees:
  "pool (wd_engine b) = {} \<Longrightarrow> wd_table b = \<lparr>bt_source = [], bt_function = []\<rparr> \<Longrightarrow> agrees pool s b"
  by (simp add: agrees_def session_knows_def settled_def table_exact_on_def tracked_on_def source_prior_def)

lemma attach_agrees:
  assumes "quiet_engine ops pool" and "pool e = {}"
  shows "wd_attach ops procs spec (windbg_new e None) = (r, b') \<Longrightarrow> agrees pool s b'"
    and "engine_call (eo_open_dump ops path) (windbg_new e None) = (r', b') \<Longrightarrow> agrees pool s b'"
    and "wd_attach_kernel ops connection (windbg_new e None) = (r, b') \<Longrightarrow> agrees pool s b'"
proof -
  have fresh: "agrees pool s b'" if "keeps_pool pool cmd" "engine_call cmd b = (q, b')" "wd_engine b = e"
      "wd_table b = \<lparr>bt_source = [], bt_function = []\<rparr>" for cmd :: "('a, 'b) engine_op" and b q b'
    using engine_call_keeps [OF that(2)] engine_call_pool [OF that(1,2)] that(3,4) assms(2) by (intro new_agrees) simp_all
  note quiet = quiet_engineD [OF assms(1)]
  show "engine_call (eo_open_dump ops path) (windbg_new e None) = (r', b') \<Longrightarrow> agrees pool s b'"
    using engine_call_keeps [of "eo_open_dump ops path" "windbg_new e None" r' b']
      engine_call_pool [OF quiet(14) [of path], of "windbg_new e None" r' b'] assms(2)
    by (intro new_agrees) simp_all
  show "wd_attach ops procs spec (windbg_new e None) = (r, b') \<Longrightarrow> agrees pool s b'"
    using assms(2) new_agrees [of pool "windbg_new e None"]
    by (auto simp: wd_attach_def dest!: fresh [OF quiet(13)] split: prod.splits sum.splits)
  show "wd_attach_kernel ops connection (windbg_new e None) = (r, b') \<Longrightarrow> agrees pool s b'"
    by (auto simp: wd_attach_kernel_def dest!: fresh [OF quiet(15)] split: prod.splits sum.splits)
qed

text \<open>A launch leaves exactly the pending breakpoints that were placed, and tracks only those.\<close>

definition covers :: "session \<Rightarrow> launch_spec \<Rightarrow> bool" where
  "covers s spec \<longleftrightarrow>
     (\<forall>(file, bps) \<in> set (ls_source_breakpoints spec). set bps \<subseteq> set (source_breakpoints_for_file file s)) \<and>
     set (ls_function_breakpoints spec) \<subseteq> set (s_function_bps s)"

lemma launch_agrees:
  assumes engine: "breakpoint_engine ops pool" and empty: "pool e = {}" and covers: "covers s spec"
    and dist: "distinct (map fst (ls_source_breakpoints spec))"
      "\<forall>(file, bps) \<in> set (ls_source_breakpoints spec). distinct (map sb_line bps)"
      "distinct (map fb_name (ls_function_breakpoints spec))"
    and run: "wd_launch ops spec (windbg_new e None) = (r, b')"
  shows "agrees pool s b'"
proof -
  note E = breakpoint_engineD [OF engine]
  have flushed: "agrees pool s (flush_pending ops spec w)"
    if w: "pool (wd_engine w) = {}" "wd_table w = \<lparr>bt_source = [], bt_function = []\<rparr>" for w
  proof -
    let ?w = "fold (\<lambda>(file, bps). flush_source ops file bps) (ls_source_breakpoints spec) w"
    have "table_exact_on (\<lambda>i. 0 < i) pool w" using w by (simp add: table_exact_on_def tracked_on_def source_prior_def)
    moreover have "\<forall>(file, bps) \<in> set (ls_source_breakpoints spec). source_prior file (wd_table w) = []"
      by (simp add: w source_prior_def)
    ultimately have files: "table_exact_on (\<lambda>i. 0 < i) pool ?w" "bt_function (wd_table ?w) = []"
      using flush_files_exact [OF E(1) _ dist(1,2)] w by simp_all
    then have exact: "table_exact_on (\<lambda>i. 0 < i) pool (flush_pending ops spec w)"
      unfolding flush_pending_def by (intro flush_functions_exact [OF E(1) _ dist(3)]) simp_all
    note keys = flush_functions_keys [OF E(3), of ?w "ls_function_breakpoints spec", folded flush_pending_def, unfolded files(2), simplified]
    have "\<exists>bp \<in> set (source_breakpoints_for_file f s). as_u32 (sb_line bp) = Some n"
      if n: "n \<in> set (map fst (source_prior f (wd_table ?w)))" for f n
    proof -
      obtain bps bp where "(f, bps) \<in> set (ls_source_breakpoints spec)" "bp \<in> set bps" "as_u32 (sb_line bp) = Some n"
        using subsetD [OF flush_files_keys [THEN conjunct1] n] w by (auto simp: source_prior_def)
      then show ?thesis using covers unfolding covers_def by blast
    qed
    moreover have "fst ` set (bt_function (wd_table (flush_pending ops spec w))) \<subseteq> fb_name ` set (s_function_bps s)"
      using keys covers unfolding covers_def by (meson image_mono subset_trans)
    ultimately have "session_knows s (wd_table (flush_pending ops spec w))"
      using keys by (simp add: session_knows_def)
    then show ?thesis using exact keys by (simp add: agrees_def settled_def)
  qed
  obtain q w1 where q: "engine_call (eo_launch ops \<lparr>lr_program = ls_program spec, lr_args = ls_args spec, lr_cwd = ls_cwd spec\<rparr>)
      (windbg_new e None) = (q, w1)" by (rule prod.exhaust)
  have w1: "pool (wd_engine w1) = {}" "wd_table w1 = \<lparr>bt_source = [], bt_function = []\<rparr>"
    using engine_call_pool [OF quiet_engineD(12) [OF E(2)] q] engine_call_keeps [OF q] empty by simp_all
  show ?thesis
    using run q flushed [OF w1] new_agrees [of pool w1, OF w1]
    by (auto simp: wd_launch_def split: sum.splits stop_outcome.splits)
qed

section \<open>The connect points\<close>

text \<open>Of the native server's registry only the factory of the platform is selected.\<close>

definition serves_windbg :: "'e engine_ops \<Rightarrow> 'e spawn \<Rightarrow> (unit, 'e windbg) server \<Rightarrow> bool" where
  "serves_windbg ops spawn sv \<longleftrightarrow>
     (\<exists>lldb. sv_registry sv = native_registry True lldb (windbg_connect ops spawn))"

lemma selected_factory:
  "serves_windbg ops spawn sv \<Longrightarrow> select_backend ho requested sv = Inr f \<Longrightarrow> f = windbg_factory (windbg_connect ops spawn)"
  by (auto simp: serves_windbg_def select_backend_def select_with_env_def native_get Let_def split: option.splits if_splits)

lemma serves_registry: "serves_windbg ops spawn sv \<Longrightarrow> sv_registry sv' = sv_registry sv \<Longrightarrow> serves_windbg ops spawn sv'"
  by (simp add: serves_windbg_def)

text \<open>A connect point that ends without a debugger, or with the backend its call left.\<close>

lemma disconnected_agrees: "sv_backend sv = None \<Longrightarrow> sv_session sv = reset s \<Longrightarrow> connected_agrees pool sv b"
  by (simp add: connected_agrees_def)

lemma agrees_sessions:
  "(\<And>s. agrees pool s b) \<Longrightarrow> s_state (sv_session sv) \<noteq> Idle \<Longrightarrow> connected_agrees pool sv b"
  by (simp add: connected_agrees_def)

lemma abort_agrees [simp]: "connected_agrees pool (abort_connect sv) b" "connected_agrees pool (cleanup_after_cancel sv) b"
  by (rule disconnected_agrees; simp)+

lemma begin_agrees:
  assumes "serves_windbg ops spawn sv" and "connected_agrees pool sv b"
  shows "launch_begin ho a sv = (r1, sv1) \<Longrightarrow>
      (case r1 of Inl _ \<Rightarrow> connected_agrees pool sv1 b | Inr (_, f) \<Rightarrow> f = windbg_factory (windbg_connect ops spawn))"
    "attach_begin ho a sv = (r2, sv1) \<Longrightarrow>
      (case r2 of Inl _ \<Rightarrow> connected_agrees pool sv1 b | Inr (_, f) \<Rightarrow> f = windbg_factory (windbg_connect ops spawn))"
    "dump_begin ho a sv = (r3, sv1) \<Longrightarrow>
      (case r3 of Inl _ \<Rightarrow> connected_agrees pool sv1 b | Inr (_, f) \<Rightarrow> f = windbg_factory (windbg_connect ops spawn))"
    "kernel_begin ho a sv = (r3, sv1) \<Longrightarrow>
      (case r3 of Inl _ \<Rightarrow> connected_agrees pool sv1 b | Inr (_, f) \<Rightarrow> f = windbg_factory (windbg_connect ops spawn))"
  using assms
  by (auto simp: launch_begin_def attach_begin_def dump_begin_def kernel_begin_def Let_def
      dest: selected_factory split: tool_splits)

lemma connect_point_agrees:
  fixes ops :: "'e engine_ops" and sv' :: "(unit, 'e windbg) server"
  assumes spawn: "spawns_empty pool spawn"
    and run: "connect_point (r0, sv1) request finish b = (out, sv', b')"
    and begun: "case r0 of Inl _ \<Rightarrow> connected_agrees pool sv1 b | Inr (_, f) \<Rightarrow> f = windbg_factory (windbg_connect ops spawn)"
    and made: "\<And>p f e q sv2. r0 = Inr (p, f) \<Longrightarrow> pool e = {} \<Longrightarrow> request p () (windbg_new e None) = (q, b') \<Longrightarrow>
      sv_backend sv2 = Some () \<Longrightarrow> sv_session sv2 = sv_session sv1 \<Longrightarrow> finish p f () b' (Some q) sv2 = (out, sv') \<Longrightarrow>
      connected_agrees pool sv' b'"
  shows "connected_agrees pool sv' b'"
proof (cases r0)
  case (Inl o1)
  then show ?thesis using run begun by (simp add: connect_point_def)
next
  case (Inr pf)
  obtain p f where pf: "pf = (p, f)" by (rule prod.exhaust)
  have f: "f = windbg_factory (windbg_connect ops spawn)" using begun Inr pf by simp
  obtain c b1 where c: "fac_connect f b = (c, b1)" by (rule prod.exhaust)
  obtain r sv2 where r: "connect_stage f c sv1 = (r, sv2)" by (rule prod.exhaust)
  from r show ?thesis
  proof (cases rule: connect_stage_cases)
    case (failed e o1)
    then have "sv' = abort_connect sv1" using run Inr pf c r by (simp add: connect_point_def)
    then show ?thesis by simp
  next
    case (connected h)
    then have "windbg_connect ops spawn b = (Inr (), b1)" using c f by (simp add: windbg_factory_def)
    then obtain e com sink where made_engine: "spawn b = (com, Some (Inr e), sink)" "b1 = windbg_new e None"
      by (elim windbg_connected) blast
    then have e: "b1 = windbg_new e None" "pool e = {}" using spawn unfolding spawns_empty_def by blast+
    obtain q b2 where q: "request p () (windbg_new e None) = (q, b2)" by (rule prod.exhaust)
    obtain o2 sv3 where fin: "finish p f () b2 (Some q) sv2 = (o2, sv3)" by (rule prod.exhaust)
    have "out = o2" "sv' = sv3" "b' = b2"
      using run Inr pf c r connected e q fin by (auto simp: connect_point_def select_call_def)
    then show ?thesis using made [OF _ e(2), of p f q sv2] Inr pf q connected fin by simp
  qed
qed

lemma attach_tools_agree:
  assumes engine: "breakpoint_engine ops pool" and spawn: "spawns_empty pool spawn" and sv: "serves_windbg ops spawn sv"
    and inv: "connected_agrees pool sv b"
  shows "handle_attach ho (windbg_ops ops procs) None a sv b = (out, sv', b') \<Longrightarrow> connected_agrees pool sv' b'"
    and "handle_open_crash_dump ho (windbg_ops ops procs) None a sv b = (out, sv', b') \<Longrightarrow> connected_agrees pool sv' b'"
    and "handle_attach_kernel ho (windbg_ops ops procs) None a sv b = (out, sv', b') \<Longrightarrow> connected_agrees pool sv' b'"
proof -
  note begins = begin_agrees [OF sv inv] and quiet = breakpoint_engineD(2) [OF engine]
  note calls = attach_agrees [OF quiet] and ends = finish_lists(2-4)
  have ended: "connected_agrees pool sv' b'" if "\<And>s. agrees pool s b'" "sv' = cleanup_after_cancel sv2 \<or> s_state (sv_session sv') \<noteq> Idle"
    for sv2 :: "(unit, 'a windbg) server" using that agrees_sessions abort_agrees(2) by blast
  obtain r1 r2 r3 sv1 sv2 sv3 where r: "attach_begin ho a sv = (r1, sv1)" "dump_begin ho a sv = (r2, sv2)" "kernel_begin ho a sv = (r3, sv3)"
    by (metis prod.exhaust)
  show "connected_agrees pool sv' b'" if "handle_attach ho (windbg_ops ops procs) None a sv b = (out, sv', b')"
    by (rule connect_point_agrees [OF spawn that [unfolded connect_points r] begins(2) [OF r(1)]])
      (rule ended, auto simp: windbg_ops_def dest: calls(1) ends(1))
  show "connected_agrees pool sv' b'" if "handle_open_crash_dump ho (windbg_ops ops procs) None a sv b = (out, sv', b')"
    by (rule connect_point_agrees [OF spawn that [unfolded connect_points r] begins(3) [OF r(2)]])
      (rule ended, auto simp: windbg_ops_def dest: calls(2) ends(2))
  show "connected_agrees pool sv' b'" if "handle_attach_kernel ho (windbg_ops ops procs) None a sv b = (out, sv', b')"
    by (rule connect_point_agrees [OF spawn that [unfolded connect_points r] begins(4) [OF r(3)]])
      (rule ended, auto simp: windbg_ops_def dest: calls(3) ends(3))
qed

lemma launch_begin_covers:
  assumes begun: "launch_begin ho a sv = (Inr (lp, f), sv1)" and inv: "session_inv (sv_session sv)"
    and dist: "unrepeated (sv_session sv)"
  shows "covers (sv_session sv1) (lp_spec lp)" "distinct (map fst (ls_source_breakpoints (lp_spec lp)))"
    "\<forall>(file, bps) \<in> set (ls_source_breakpoints (lp_spec lp)). distinct (map sb_line bps)"
    "distinct (map fb_name (ls_function_breakpoints (lp_spec lp)))"
proof -
  note plan = launch_begin_lists [OF begun inv]
  note listed = pending_listed [OF plan(3)]
  show "covers (sv_session sv1) (lp_spec lp)" using listed by (auto simp: covers_def plan(1,2,6,7))
  show "distinct (map fst (ls_source_breakpoints (lp_spec lp)))" using plan(3) by (simp add: plan(1) hm_ok_def)
  show "\<forall>(file, bps) \<in> set (ls_source_breakpoints (lp_spec lp)). distinct (map sb_line bps)"
    using dist listed by (auto simp: plan(1) unrepeated_def)
  show "distinct (map fb_name (ls_function_breakpoints (lp_spec lp)))" using dist by (simp add: plan(2) unrepeated_def)
qed

lemma covers_lists: "bp_lists s' = bp_lists s \<Longrightarrow> covers s spec \<Longrightarrow> covers s' spec"
  by (simp add: covers_def bp_lists_def source_breakpoints_for_file_def)

lemma launch_tool_agrees:
  assumes engine: "breakpoint_engine ops pool" and spawn: "spawns_empty pool spawn" and sv: "serves_windbg ops spawn sv"
    and inv: "connected_agrees pool sv b" "session_inv (sv_session sv)" "unrepeated (sv_session sv)"
    and run: "handle_launch ho (windbg_ops ops procs) None a sv b = (out, sv', b')"
  shows "connected_agrees pool sv' b'"
proof -
  obtain r0 sv1 where r0: "launch_begin ho a sv = (r0, sv1)" by (rule prod.exhaust)
  show ?thesis
  proof (rule connect_point_agrees [OF spawn run [unfolded connect_points r0] begin_agrees(1) [OF sv inv(1) r0]])
    fix p f e q sv2
    assume begun: "r0 = Inr (p, f)" and empty: "pool e = {}"
      and call: "b_launch (windbg_ops ops procs) () (lp_spec p) (windbg_new e None) = (q, b')"
      and sv2: "sv_backend sv2 = Some ()" "sv_session sv2 = sv_session sv1"
      and fin: "launch_finish p (b_debugger_pid (windbg_ops ops procs) () b') (Some q) sv2 = (out, sv')"
    note spec = launch_begin_covers [OF r0 [unfolded begun] inv(2,3)]
    from finish_lists(1) [OF fin] show "connected_agrees pool sv' b'"
    proof
      assume "sv' = cleanup_after_cancel sv2"
      then show ?thesis by simp
    next
      assume after: "s_state (sv_session sv') \<noteq> Idle \<and> bp_lists (sv_session sv') = bp_lists (sv_session sv2) \<and> Some q \<noteq> None"
      then have "covers (sv_session sv') (lp_spec p)" using spec(1) sv2(2) covers_lists by metis
      then have "agrees pool (sv_session sv') b'"
        using launch_agrees [OF engine empty _ spec(2-4)] call by (simp add: windbg_ops_def)
      then show ?thesis using after by (simp add: connected_agrees_def)
    qed
  qed
qed

lemma disconnect_tool_agrees:
  "handle_disconnect ops a sv b = (out, sv', b') \<Longrightarrow> connected_agrees pool sv b \<Longrightarrow> connected_agrees pool sv' b'"
  by (auto simp: handle_disconnect_def disconnect_begin_def disconnect_finish_def drop_backend_bounded_def Let_def
      intro!: disconnected_agrees split: tool_splits)

section \<open>Runs\<close>

text \<open>
  The server of the Windows binary: calls one after the other, and events of the pumps between them.  Left out are
  \<open>run_command\<close>, which may do anything, and cancelled calls; and no location is asked for twice.
\<close>

inductive windows_run ::
  "host \<Rightarrow> 'e engine_ops \<Rightarrow> (string \<Rightarrow> nat option list) \<Rightarrow> 'e spawn \<Rightarrow> (unit, 'e windbg) server \<Rightarrow> 'e windbg \<Rightarrow> bool"
  for ho ops procs spawn where
  run_start: "windows_run ho ops procs spawn
     (server_new session_new (native_registry True lldb (windbg_connect ops spawn))) b"
| run_call: "windows_run ho ops procs spawn sv b \<Longrightarrow> name \<noteq> ''run_command'' \<Longrightarrow>
     dispatch ho (windbg_ops ops procs) None name a sv b = (out, sv', b') \<Longrightarrow> unrepeated (sv_session sv') \<Longrightarrow>
     windows_run ho ops procs spawn sv' b'"
| run_pump: "windows_run ho ops procs spawn sv b \<Longrightarrow> (h, g) \<in> set (sv_pumps sv) \<Longrightarrow>
     windows_run ho ops procs spawn (on_session (pump_event g e) sv) b"

inductive_cases windows_runE: "windows_run ho ops procs spawn sv b"

lemma same_breakpoints_agrees:
  assumes "connected_agrees pool sv b" "same_breakpoints sv sv'" and "agrees pool (sv_session sv) b \<longrightarrow> agrees pool (sv_session sv) b'"
  shows "connected_agrees pool sv' b'"
proof -
  have lists: "s_source_bps (sv_session sv') = s_source_bps (sv_session sv)" "s_function_bps (sv_session sv') = s_function_bps (sv_session sv)"
      "sv_backend sv' = sv_backend sv" "s_state (sv_session sv') = Idle \<longleftrightarrow> s_state (sv_session sv) = Idle"
    using assms(2) by (auto simp: same_breakpoints_def bp_lists_def)
  then show ?thesis
    using assms(1,3) agrees_lists [of pool "sv_session sv" b' "sv_session sv'"]
    by (simp add: connected_agrees_def source_breakpoints_for_file_def)
qed

lemma quiet_agrees:
  assumes engine: "breakpoint_engine ops pool" and name: "name \<in> quiet_tools"
    and run: "dispatch ho (windbg_ops ops procs) None name a sv b = (out, sv', b')" and before: "agrees pool s b"
  shows "agrees pool s b'"
  unfolding agrees_def
proof
  assume alive: "wd_running b'"
  have "wd_running b"
    using steady_world.quiet_keeps [OF running_steady name run] alive by blast
  moreover have "wd_table b' = wd_table b" by (rule table_steady.quiet_keeps [OF name run refl])
  moreover have "pool (wd_engine b') = pool (wd_engine b)"
    by (rule steady_world.quiet_keeps [OF pool_steady [OF breakpoint_engineD(2) [OF engine]] name run refl])
  ultimately show "settled pool b' \<and> session_knows s (wd_table b')"
    using before table_exact_same [of "\<lambda>i. 0 < i" pool b b'] by (simp add: agrees_def settled_def)
qed

lemma call_agrees:
  assumes engine: "breakpoint_engine ops pool" and spawn: "spawns_empty pool spawn" and sv: "serves_windbg ops spawn sv"
    and inv: "connected_agrees pool sv b" "session_inv (sv_session sv)" "unrepeated (sv_session sv)"
    and name: "name \<noteq> ''run_command''" and run: "dispatch ho (windbg_ops ops procs) None name a sv b = (out, sv', b')"
    and after: "unrepeated (sv_session sv')"
  shows "connected_agrees pool sv' b'"
proof (cases "name \<in> quiet_tools")
  case True
  then show ?thesis
    using same_breakpoints_agrees [OF inv(1) quiet_breakpoints [OF True run]] quiet_agrees [OF engine True run] by blast
next
  case False
  note tools = launch_tool_agrees [OF engine spawn sv inv] attach_tools_agree [OF engine spawn sv inv(1)]
    disconnect_tool_agrees [OF _ inv(1)] set_breakpoint_agrees [OF engine inv(1) _ after]
    set_function_agrees [OF engine inv(1) _ after] remove_agrees [OF engine inv(1,3)]
  consider "name = ''launch''" | "name = ''attach''" | "name = ''disconnect''" | "name = ''set_breakpoint''"
    | "name = ''set_function_breakpoint''" | "name = ''remove_breakpoint''" | "name = ''open_crash_dump''"
    | "name = ''attach_kernel''" | "sv' = sv" "b' = b"
    using run False name unfolding quiet_tools_def dispatch_def by (auto split: if_splits)
  then show ?thesis
  proof cases
    case 9
    then show ?thesis using inv(1) by simp
  qed (use run in \<open>simp_all add: dispatch_def tools\<close>)
qed

definition windows_inv :: "'e pool_view \<Rightarrow> 'e engine_ops \<Rightarrow> 'e spawn \<Rightarrow> (unit, 'e windbg) server \<Rightarrow> 'e windbg \<Rightarrow> bool" where
  "windows_inv pool ops spawn sv b \<longleftrightarrow>
     server_inv sv \<and> serves_windbg ops spawn sv \<and> unrepeated (sv_session sv) \<and> connected_agrees pool sv b"

lemma windows_run_inv:
  assumes engine: "breakpoint_engine ops pool" and spawn: "spawns_empty pool spawn"
  shows "windows_run ho ops procs spawn sv b \<Longrightarrow> windows_inv pool ops spawn sv b"
proof (induction rule: windows_run.induct)
  case (run_start lldb b)
  have "server_inv (server_new session_new (native_registry True lldb (windbg_connect ops spawn)))"
    by (rule server_new_inv [OF native_registry_inv])
  then show ?case
    by (auto simp: windows_inv_def serves_windbg_def server_new_def connected_agrees_def unrepeated_def session_new_def
        source_breakpoints_for_file_def)
next
  case (run_call sv b name a out sv' b')
  then have inv: "server_inv sv" "serves_windbg ops spawn sv" "unrepeated (sv_session sv)" "connected_agrees pool sv b"
    by (simp_all add: windows_inv_def)
  have "server_inv sv'" "serves_windbg ops spawn sv'"
    using dispatched.keeps_inv [OF run_call(3) inv(1)] serves_registry [OF inv(2) dispatched.keeps_registry [OF run_call(3)]] by simp_all
  then show ?case
    using call_agrees [OF engine spawn inv(2,4) server_inv_session [OF inv(1)] inv(3) run_call(2-4)] run_call(4)
    by (simp add: windows_inv_def)
next
  case (run_pump sv b h g e)
  let ?s = "sv_session sv" and ?s' = "pump_event g e (sv_session sv)"
  have lists: "bp_lists ?s' = bp_lists ?s" "s_state ?s' = Idle \<longrightarrow> s_state ?s = Idle"
    by (cases e; auto simp: bp_lists_def append_session_output_def terminate_if_generation_def split: option.split)+
  then have same: "s_source_bps ?s' = s_source_bps ?s" "s_function_bps ?s' = s_function_bps ?s"
      "s_pending_source_bps ?s' = s_pending_source_bps ?s" "s_pending_function_bps ?s' = s_pending_function_bps ?s"
    by (simp_all add: bp_lists_def)
  then have "connected_agrees pool (on_session (pump_event g e) sv) b"
    using run_pump(3) lists(2) agrees_lists [of pool ?s b ?s']
    by (auto simp: windows_inv_def connected_agrees_def source_breakpoints_for_file_def)
  moreover have "server_inv (on_session (pump_event g e) sv)" "serves_windbg ops spawn (on_session (pump_event g e) sv)"
    using run_pump(3) server_inv_ops(1) [of sv "pump_event g e"] pump_event_inv
    by (auto simp: windows_inv_def serves_windbg_def)
  ultimately show ?case
    using run_pump(3) same by (simp add: windows_inv_def unrepeated_def source_breakpoints_for_file_def)
qed

end
