(* ===== verification/Dbgeng_Com.thy ===== *)
theory Dbgeng_Com
  imports Engine_Thread Dbgeng_Text
begin

text \<open>
  The COM interfaces of DbgEng as the engine handle uses them, the state of the handle, and what its
  methods are made of.

  DbgEng is not part of the sources: its interfaces are records of functions on a state \<open>'d\<close> that
  stands for the debugger, the target and the clock.  A call gives its result or a failing \<open>HRESULT\<close>
  with its message, the new state, and what happened on other threads meanwhile: the callbacks it led
  to, and requests to interrupt.  Pointers are opaque numbers, text buffers the bytes they hold after
  the call; their sizes are arguments.

  A method that waits may never return, because a target with a breakpoint of false condition may be
  resumed for ever: its value is then \<open>None\<close>.  The methods that allocate what they are asked for may
  panic; they have the type of the thread's operations.
\<close>

section \<open>The interfaces\<close>

type_synonym com_error = "32 word \<times> string"
type_synonym ('d, 'a) com = "'d \<Rightarrow> (com_error + 'a) \<times> happening list \<times> 'd"

type_synonym bp_ptr = nat
type_synonym group_ptr = nat

record stack_frame =
  sf_InstructionOffset :: "64 word"
  sf_others :: "64 word list"

record 'd client5 =
  SetOutputCallbacks :: "bool \<Rightarrow> ('d, unit) com"
  SetEventCallbacks :: "bool \<Rightarrow> ('d, unit) com"
  CreateProcess2 :: "string \<Rightarrow> string option \<Rightarrow> ('d, unit) com"
  AttachProcess :: "32 word \<Rightarrow> ('d, unit) com"
  OpenDumpFile :: "string \<Rightarrow> ('d, unit) com"
  AttachKernel :: "string \<Rightarrow> ('d, unit) com"
  EndSession :: "32 word \<Rightarrow> ('d, unit) com"

record 'd control4 =
  AddEngineOptions :: "32 word \<Rightarrow> ('d, unit) com"
  RemoveEngineOptions :: "32 word \<Rightarrow> ('d, unit) com"
  GetExecutionStatus :: "('d, 32 word) com"
  SetExecutionStatus :: "32 word \<Rightarrow> ('d, unit) com"
  SetInterrupt :: "32 word \<Rightarrow> ('d, unit) com"
  WaitForEvent :: "32 word \<Rightarrow> 'd \<Rightarrow> 32 word \<times> happening list \<times> 'd"
  Execute :: "32 word \<Rightarrow> string \<Rightarrow> 32 word \<Rightarrow> ('d, unit) com"
  Evaluate :: "string \<Rightarrow> ('d, 64 word \<times> 32 word) com"
  GetLastEventInformation :: "('d, 32 word \<times> 32 word) com"
  GetStackTrace :: "nat \<Rightarrow> ('d, stack_frame list) com"
  Disassemble :: "64 word \<Rightarrow> nat \<Rightarrow> ('d, string \<times> 64 word) com"

record 'd breakpoints =
  AddBreakpoint :: "('d, bp_ptr) com"
  RemoveBreakpoint :: "bp_ptr \<Rightarrow> ('d, unit) com"
  GetBreakpointById :: "32 word \<Rightarrow> ('d, bp_ptr) com"
  GetBreakpointByIndex :: "32 word \<Rightarrow> ('d, bp_ptr) com"
  GetNumberBreakpoints :: "('d, 32 word) com"
  SetOffset :: "bp_ptr \<Rightarrow> 64 word \<Rightarrow> ('d, unit) com"
  AddFlags :: "bp_ptr \<Rightarrow> 32 word \<Rightarrow> ('d, unit) com"
  GetId :: "bp_ptr \<Rightarrow> ('d, 32 word) com"
  GetOffset :: "bp_ptr \<Rightarrow> ('d, 64 word) com"

record 'd symbols3 =
  SetSymbolPath :: "string \<Rightarrow> ('d, unit) com"
  GetSymbolOptions :: "('d, 32 word) com"
  SetSymbolOptions :: "32 word \<Rightarrow> ('d, unit) com"
  GetOffsetByLine :: "32 word \<Rightarrow> string \<Rightarrow> ('d, 64 word) com"
  GetOffsetByName :: "string \<Rightarrow> ('d, 64 word) com"
  GetNumberModules :: "('d, 32 word) com"
  GetModuleByIndex :: "32 word \<Rightarrow> ('d, 64 word) com"
  GetModuleNameString :: "32 word \<Rightarrow> 64 word \<Rightarrow> nat \<Rightarrow> ('d, string) com"
  GetModuleParameters :: "64 word \<Rightarrow> ('d, 32 word \<times> 32 word) com"
  GetNameByOffset :: "64 word \<Rightarrow> nat \<Rightarrow> ('d, string \<times> 64 word) com"
  GetLineByOffset :: "64 word \<Rightarrow> nat \<Rightarrow> ('d, 32 word \<times> string) com"
  SetScope :: "stack_frame \<Rightarrow> ('d, unit) com"
  ResetScope :: "('d, unit) com"
  GetScopeSymbolGroup2 :: "('d, group_ptr) com"
  Reload :: "string \<Rightarrow> ('d, unit) com"

record 'd symbol_group =
  GetNumberSymbols :: "group_ptr \<Rightarrow> ('d, 32 word) com"
  GetSymbolName :: "group_ptr \<Rightarrow> 32 word \<Rightarrow> nat \<Rightarrow> ('d, string) com"
  GetSymbolValueText :: "group_ptr \<Rightarrow> 32 word \<Rightarrow> nat \<Rightarrow> ('d, string) com"
  GetSymbolTypeName :: "group_ptr \<Rightarrow> 32 word \<Rightarrow> nat \<Rightarrow> ('d, string) com"

record 'd data_and_system =
  ReadVirtual :: "64 word \<Rightarrow> nat \<Rightarrow> ('d, 8 word list) com"
  GetInstructionOffset :: "('d, 64 word) com"
  GetNumberThreads :: "('d, 32 word) com"
  GetThreadIdsByIndex :: "32 word \<Rightarrow> ('d, (32 word \<times> 32 word) list) com"
  GetCurrentThreadId :: "('d, 32 word) com"
  SetCurrentThreadId :: "32 word \<Rightarrow> ('d, unit) com"

text \<open>What the engine uses of Windows besides.\<close>

record 'd windows_host =
  DebugCreate :: "('d, unit) com"
  QueryInterface :: "string \<Rightarrow> ('d, unit) com"
  instant_now :: "'d \<Rightarrow> nat \<times> 'd"
  hresult_message :: "32 word \<Rightarrow> string"
  enable_debug_privilege :: "('d, bool) com"
  read_kits_root10 :: "'d \<Rightarrow> bool \<Rightarrow> string option"
  windows_sdk_dir :: "'d \<Rightarrow> string option"
  path_exists :: "'d \<Rightarrow> string \<Rightarrow> bool"

record 'd dbgeng =
  dg_client :: "'d client5"
  dg_control :: "'d control4"
  dg_breakpoints :: "'d breakpoints"
  dg_symbols :: "'d symbols3"
  dg_group :: "'d symbol_group"
  dg_data :: "'d data_and_system"
  dg_host :: "'d windows_host"

section \<open>Constants of dbgeng.h\<close>

abbreviation DEBUG_ENGOPT_INITIAL_BREAK :: "32 word" where "DEBUG_ENGOPT_INITIAL_BREAK \<equiv> 0x20"
abbreviation DEBUG_EVENT_BREAKPOINT :: "32 word" where "DEBUG_EVENT_BREAKPOINT \<equiv> 0x1"
abbreviation DEBUG_INTERRUPT_ACTIVE :: "32 word" where "DEBUG_INTERRUPT_ACTIVE \<equiv> 0"
abbreviation DEBUG_END_PASSIVE :: "32 word" where "DEBUG_END_PASSIVE \<equiv> 0"
abbreviation DEBUG_END_ACTIVE_TERMINATE :: "32 word" where "DEBUG_END_ACTIVE_TERMINATE \<equiv> 1"
abbreviation DEBUG_END_ACTIVE_DETACH :: "32 word" where "DEBUG_END_ACTIVE_DETACH \<equiv> 2"
abbreviation DEBUG_OUTCTL_THIS_CLIENT :: "32 word" where "DEBUG_OUTCTL_THIS_CLIENT \<equiv> 0"
abbreviation DEBUG_OUTCTL_IGNORE :: "32 word" where "DEBUG_OUTCTL_IGNORE \<equiv> 3"
abbreviation DEBUG_EXECUTE_DEFAULT :: "32 word" where "DEBUG_EXECUTE_DEFAULT \<equiv> 0"
abbreviation DEBUG_EXECUTE_NOT_LOGGED :: "32 word" where "DEBUG_EXECUTE_NOT_LOGGED \<equiv> 2"
abbreviation DEBUG_BREAKPOINT_ENABLED :: "32 word" where "DEBUG_BREAKPOINT_ENABLED \<equiv> 4"
abbreviation SYMOPT_NO_IMAGE_SEARCH :: "32 word" where "SYMOPT_NO_IMAGE_SEARCH \<equiv> 0x20000"
abbreviation INFINITE :: "32 word" where "INFINITE \<equiv> 0xFFFFFFFF"

section \<open>The engine and its methods as state transformers\<close>

record 'd engine =
  en_com :: 'd
  en_callback_state :: callback_state
  en_is_dump :: bool
  en_interrupt_flag :: bool
  en_conditions :: "(32 word, string) hashmap"
  en_extensions_loaded :: bool

type_synonym ('d, 'a) eng = "'d engine \<Rightarrow> (engine_error + 'a) \<times> 'd engine"
type_synonym ('d, 'a) waiting = "'d engine \<Rightarrow> ((engine_error + 'a) \<times> 'd engine) option"

definition settle :: "happening list \<Rightarrow> 'd \<Rightarrow> 'd engine \<Rightarrow> 'd engine" where
  "settle hs d e =
     e\<lparr>en_com := d, en_callback_state := absorb hs (en_callback_state e),
       en_interrupt_flag := en_interrupt_flag e \<or> On_Interrupt \<in> set hs\<rparr>"

definition attempt :: "('d, 'a) com \<Rightarrow> 'd engine \<Rightarrow> (com_error + 'a) \<times> 'd engine" where
  "attempt call e = (case call (en_com e) of (r, hs, d) \<Rightarrow> (r, settle hs d e))"

text \<open>\<open>map_err(|e| EngineError::op(context, e))?\<close> on a call.\<close>

definition com_op :: "string \<Rightarrow> ('d, 'a) com \<Rightarrow> ('d, 'a) eng" where
  "com_op ctxt call e =
     (case attempt call e of
        (Inl (code, msg), e') \<Rightarrow> (Inl (EE_Com ctxt code msg), e')
      | (Inr a, e') \<Rightarrow> (Inr a, e'))"

definition eret :: "'a \<Rightarrow> ('d, 'a) eng" where
  "eret a e = (Inr a, e)"

definition eraise :: "string \<Rightarrow> ('d, 'a) eng" where
  "eraise msg e = (Inl (EE_Engine msg), e)"

definition ebind :: "('d, 'a) eng \<Rightarrow> ('a \<Rightarrow> ('d, 'b) eng) \<Rightarrow> ('d, 'b) eng" where
  "ebind m f e = (case m e of (Inl err, e') \<Rightarrow> (Inl err, e') | (Inr a, e') \<Rightarrow> f a e')"

definition try_com :: "('d, 'a) com \<Rightarrow> ('d, com_error + 'a) eng" where
  "try_com call e = (case attempt call e of (r, e') \<Rightarrow> (Inr r, e'))"

definition emodify :: "('d engine \<Rightarrow> 'd engine) \<Rightarrow> ('d, unit) eng" where
  "emodify f e = (Inr (), f e)"

definition returns :: "('d, 'a) eng \<Rightarrow> ('d, 'a) waiting" where
  "returns m e = Some (m e)"

definition wbind :: "('d, 'a) waiting \<Rightarrow> ('a \<Rightarrow> ('d, 'b) waiting) \<Rightarrow> ('d, 'b) waiting" where
  "wbind m f e =
     (case m e of
        None \<Rightarrow> None
      | Some (Inl err, e') \<Rightarrow> Some (Inl err, e')
      | Some (Inr a, e') \<Rightarrow> f a e')"

text \<open>
  A loop that may not end: the body says whether to go on.  The first error ends it, as the question
  mark operator does.
\<close>

datatype 'a turn = Again | Done 'a

partial_function (option) repeat_until :: "('d, 'a turn) waiting \<Rightarrow> ('d, 'a) waiting" where
  "repeat_until body e =
     Option.bind (body e) (\<lambda>(r, e').
       if r = Inr Again then repeat_until body e'
       else Some (map_sum id (\<lambda>t. case t of Done a \<Rightarrow> a) r, e'))"

lemmas eng_defs = ebind_def eret_def eraise_def try_com_def emodify_def returns_def wbind_def com_op_def attempt_def

end
