(* ===== verification/Dbgeng_Engine.thy ===== *)
theory Dbgeng_Engine
  imports Dbgeng_Com
begin

text \<open>
  The engine handle, \<open>dbgeng-sys/src/engine.rs\<close>, method by method.  Memory is never exhausted, but an
  allocation of more than \<open>isize::MAX\<close> bytes panics.
\<close>

section \<open>Creation and output\<close>

definition engine_new :: "'d \<Rightarrow> 'd engine" where
  "engine_new d =
     \<lparr>en_com = d, en_callback_state = callback_state_new, en_is_dump = False, en_interrupt_flag = False,
      en_conditions = [], en_extensions_loaded = False\<rparr>"

text \<open>The engine exists for its callers only when every step of \<open>create\<close> has succeeded.\<close>

fun query_interfaces :: "'d dbgeng \<Rightarrow> string list \<Rightarrow> ('d, unit) eng" where
  "query_interfaces dg [] = eret ()"
| "query_interfaces dg (i # is) =
     ebind (com_op (''QueryInterface('' @ i @ '')'') (QueryInterface (dg_host dg) i)) (\<lambda>_. query_interfaces dg is)"

definition eng_create :: "'d dbgeng \<Rightarrow> ('d, unit) eng" where
  "eng_create dg =
     ebind (com_op ''DebugCreate'' (DebugCreate (dg_host dg))) (\<lambda>_.
     ebind (query_interfaces dg
              [''IDebugControl4'', ''IDebugSymbols3'', ''IDebugDataSpaces4'', ''IDebugRegisters2'',
               ''IDebugSystemObjects4'']) (\<lambda>_.
     ebind (com_op ''SetSymbolPath'' (SetSymbolPath (dg_symbols dg) ''srv*'')) (\<lambda>_.
     ebind (com_op ''GetSymbolOptions'' (GetSymbolOptions (dg_symbols dg))) (\<lambda>opts.
     ebind (com_op ''SetSymbolOptions''
              (SetSymbolOptions (dg_symbols dg) (or opts SYMOPT_NO_IMAGE_SEARCH))) (\<lambda>_.
     ebind (com_op ''SetOutputCallbacks'' (SetOutputCallbacks (dg_client dg) True)) (\<lambda>_.
     com_op ''SetEventCallbacks'' (SetEventCallbacks (dg_client dg) True)))))))"

definition set_output_sink :: "('d, unit) eng" where
  "set_output_sink = emodify (\<lambda>e. e\<lparr>en_callback_state := set_sink (en_callback_state e)\<rparr>)"

definition take_output :: "('d, string) eng" where
  "take_output e =
     (let (out, st) = state_take_output (en_callback_state e) in (Inr out, e\<lparr>en_callback_state := st\<rparr>))"

definition execution_status :: "'d dbgeng \<Rightarrow> ('d, 32 word) eng" where
  "execution_status dg = com_op ''GetExecutionStatus'' (GetExecutionStatus (dg_control dg))"

text \<open>Drop: unregister both callbacks, whatever the calls answer.\<close>

definition drop_engine :: "'d dbgeng \<Rightarrow> ('d, unit) eng" where
  "drop_engine dg =
     ebind (try_com (SetEventCallbacks (dg_client dg) False)) (\<lambda>_.
     ebind (try_com (SetOutputCallbacks (dg_client dg) False)) (\<lambda>_. eret ()))"

section \<open>Commands\<close>

definition discover_debuggers_root :: "'d dbgeng \<Rightarrow> 'd \<Rightarrow> string option" where
  "discover_debuggers_root dg d =
     discover_debuggers_root_with (read_kits_root10 (dg_host dg) d) (windows_sdk_dir (dg_host dg) d)
       (path_exists (dg_host dg) d)"

definition load_extensions :: "'d dbgeng \<Rightarrow> string list \<Rightarrow> ('d, unit) eng" where
  "load_extensions dg dirs =
     (if dirs = [] then eret ()
      else let cmd = ''.extpath '' @ join_with '';'' dirs
           in ebind (if has_nul cmd then eret (Inr ())
                     else try_com (Execute (dg_control dg) DEBUG_OUTCTL_IGNORE cmd DEBUG_EXECUTE_NOT_LOGGED)) (\<lambda>_.
              ebind (try_com (Execute (dg_control dg) DEBUG_OUTCTL_IGNORE ''.load ext.dll'' DEBUG_EXECUTE_NOT_LOGGED))
                (\<lambda>_. eret ())))"

definition ensure_extensions_loaded :: "'d dbgeng \<Rightarrow> ('d, unit) eng" where
  "ensure_extensions_loaded dg e =
     (if en_extensions_loaded e then (Inr (), e)
      else let dirs = (case discover_debuggers_root dg (en_com e) of
                         Some rt \<Rightarrow> extension_dirs rt (path_exists (dg_host dg) (en_com e))
                       | None \<Rightarrow> [])
           in load_extensions dg dirs (e\<lparr>en_extensions_loaded := True\<rparr>))"

definition eng_execute :: "'d dbgeng \<Rightarrow> string \<Rightarrow> ('d, string) eng" where
  "eng_execute dg command =
     (if has_nul command then eraise ''execute: command contains an interior NUL byte''
      else ebind (ensure_extensions_loaded dg) (\<lambda>_.
           ebind take_output (\<lambda>_.
           ebind (try_com (Execute (dg_control dg) DEBUG_OUTCTL_THIS_CLIENT command DEBUG_EXECUTE_DEFAULT)) (\<lambda>hr.
           ebind take_output (\<lambda>out.
           case hr of
             Inl (code, msg) \<Rightarrow> (if out = [] then (\<lambda>e. (Inl (EE_Com ''Execute'' code msg), e)) else eret out)
           | Inr _ \<Rightarrow> eret out)))))"

definition eng_analyze :: "'d dbgeng \<Rightarrow> ('d, string) eng" where
  "eng_analyze dg =
     ebind (ensure_extensions_loaded dg) (\<lambda>_.
     ebind (eng_execute dg ''!analyze -v'') (\<lambda>out. eret (truncate_output out)))"

definition eng_evaluate :: "'d dbgeng \<Rightarrow> string \<Rightarrow> ('d, eval_result) eng" where
  "eng_evaluate dg expr =
     ebind (eng_execute dg (''?? '' @ expr)) (\<lambda>out.
     eret \<lparr>er_result = trim out, er_ty = [], er_variables_reference = 0\<rparr>)"

section \<open>Symbols\<close>

definition module_name_at :: "'d dbgeng \<Rightarrow> 32 word \<Rightarrow> ('d, string option) eng" where
  "module_name_at dg i =
     ebind (try_com (GetModuleNameString (dg_symbols dg) i 0 256)) (\<lambda>r.
     eret (case r of Inr buf \<Rightarrow> Some (cstr_from_buf buf) | Inl _ \<Rightarrow> None))"

definition symbolicate :: "'d dbgeng \<Rightarrow> 64 word \<Rightarrow> ('d, string option) eng" where
  "symbolicate dg offset =
     ebind (try_com (GetNameByOffset (dg_symbols dg) offset 512)) (\<lambda>r.
     eret (case r of
             Inl _ \<Rightarrow> None
           | Inr (buf, displacement) \<Rightarrow>
               (let name = cstr_from_buf buf
                in if name = [] then None
                   else Some (if displacement > 0 then name @ ''+0x'' @ show_HEX (unat displacement) else name))))"

definition line_at :: "'d dbgeng \<Rightarrow> 64 word \<Rightarrow> ('d, string option \<times> i64) eng" where
  "line_at dg offset =
     ebind (try_com (GetLineByOffset (dg_symbols dg) offset 260)) (\<lambda>r.
     eret (case r of
             Inl _ \<Rightarrow> (None, 0)
           | Inr (line, buf) \<Rightarrow>
               (let path = cstr_from_buf buf in if path = [] then (None, 0) else (Some path, uint line))))"

definition address_text :: "64 word \<Rightarrow> string" where
  "address_text a = ''0x'' @ show_HEX_pad 16 (unat a)"

definition current_source_location :: "'d dbgeng \<Rightarrow> ('d, (string \<times> i64) option) eng" where
  "current_source_location dg =
     ebind (com_op ''GetInstructionOffset'' (GetInstructionOffset (dg_data dg))) (\<lambda>ip.
     ebind (line_at dg ip) (\<lambda>(path, line). eret (map_option (\<lambda>f. (f, line)) path)))"

definition reload_main_module :: "'d dbgeng \<Rightarrow> ('d, unit) eng" where
  "reload_main_module dg =
     ebind (try_com (GetModuleByIndex (dg_symbols dg) 0)) (\<lambda>r.
     case r of
       Inl _ \<Rightarrow> eret ()
     | Inr base \<Rightarrow>
         ebind (try_com (GetModuleNameString (dg_symbols dg) 0 base 256)) (\<lambda>n.
         case n of
           Inl _ \<Rightarrow> eret ()
         | Inr buf \<Rightarrow>
             (let arg = ''/f '' @ cstr_from_buf buf
              in if has_nul arg then eret ()
                 else ebind (try_com (Reload (dg_symbols dg) arg)) (\<lambda>_. eret ()))))"

definition module_info_at :: "'d dbgeng \<Rightarrow> 32 word \<Rightarrow> ('d, module_info list) eng" where
  "module_info_at dg i =
     ebind (try_com (GetModuleByIndex (dg_symbols dg) i)) (\<lambda>r.
     case r of
       Inl _ \<Rightarrow> eret []
     | Inr base \<Rightarrow>
         ebind (module_name_at dg i) (\<lambda>name.
         ebind (try_com (GetModuleParameters (dg_symbols dg) base)) (\<lambda>params.
         let (sz, status) = (case params of
                Inr (sz, ty) \<Rightarrow> (unat sz, symbol_status ty)
              | Inl _ \<Rightarrow> (0, ''none''))
         in eret [\<lparr>mi_name = (case name of Some n \<Rightarrow> n | None \<Rightarrow> []), mi_base = address_text base,
                   mi_size = show_nat sz, mi_symbol_status = status\<rparr>])))"

fun collect :: "('x \<Rightarrow> ('d, 'a list) eng) \<Rightarrow> 'x list \<Rightarrow> ('d, 'a list) eng" where
  "collect f [] = eret []"
| "collect f (x # xs) = ebind (f x) (\<lambda>a. ebind (collect f xs) (\<lambda>as. eret (a @ as)))"

definition indices :: "32 word \<Rightarrow> 32 word list" where
  "indices count = map word_of_nat [0 ..< unat count]"

definition eng_modules :: "'d dbgeng \<Rightarrow> ('d, module_info list) eng" where
  "eng_modules dg =
     ebind (com_op ''GetNumberModules'' (GetNumberModules (dg_symbols dg))) (\<lambda>loaded.
     collect (module_info_at dg) (indices loaded))"

section \<open>Breakpoints\<close>

fun resolve_in_modules :: "'d dbgeng \<Rightarrow> string \<Rightarrow> 32 word list \<Rightarrow> ('d, 64 word option) eng" where
  "resolve_in_modules dg name [] = eret None"
| "resolve_in_modules dg name (i # is) =
     ebind (module_name_at dg i) (\<lambda>module.
     case module of
       None \<Rightarrow> resolve_in_modules dg name is
     | Some m \<Rightarrow>
         (let qualified = m @ ''!'' @ name
          in if has_nul qualified then resolve_in_modules dg name is
             else ebind (try_com (GetOffsetByName (dg_symbols dg) qualified)) (\<lambda>r.
                  case r of
                    Inr offset \<Rightarrow> eret (Some offset)
                  | Inl _ \<Rightarrow> resolve_in_modules dg name is)))"

definition resolve_function :: "'d dbgeng \<Rightarrow> string \<Rightarrow> ('d, 64 word) eng" where
  "resolve_function dg name =
     (if has_nul name then eraise ''set_breakpoint: function name contains an interior NUL byte''
      else ebind (try_com (GetOffsetByName (dg_symbols dg) name)) (\<lambda>direct.
           case direct of
             Inr offset \<Rightarrow> eret offset
           | Inl (code, msg) \<Rightarrow>
               ebind (if CHR ''!'' \<in> set name then eret None
                      else ebind (try_com (GetNumberModules (dg_symbols dg))) (\<lambda>n.
                           case n of
                             Inl _ \<Rightarrow> eret None
                           | Inr loaded \<Rightarrow> resolve_in_modules dg name (indices loaded))) (\<lambda>found.
               case found of
                 Some offset \<Rightarrow> eret offset
               | None \<Rightarrow> (\<lambda>e. (Inl (EE_Com ''GetOffsetByName'' code msg), e)))))"

fun resolve_bp_loc :: "'d dbgeng \<Rightarrow> bp_loc \<Rightarrow> ('d, 64 word \<times> nat option) eng" where
  "resolve_bp_loc dg (Loc_Address addr) = eret (word_of_nat addr, None)"
| "resolve_bp_loc dg (Loc_FileLine path line) =
     (if has_nul path then eraise ''set_breakpoint: file path contains an interior NUL byte''
      else ebind (com_op ''GetOffsetByLine'' (GetOffsetByLine (dg_symbols dg) (word_of_nat line) path)) (\<lambda>offset.
           eret (offset, Some line)))"
| "resolve_bp_loc dg (Loc_Function name) =
     ebind (resolve_function dg name) (\<lambda>offset. eret (offset, None))"

definition eng_set_breakpoint :: "'d dbgeng \<Rightarrow> bp_loc \<Rightarrow> string \<Rightarrow> ('d, breakpoint_result) eng" where
  "eng_set_breakpoint dg loc condition =
     ebind (resolve_bp_loc dg loc) (\<lambda>(addr, line).
     ebind (com_op ''AddBreakpoint'' (AddBreakpoint (dg_breakpoints dg))) (\<lambda>bp.
     ebind (com_op ''SetOffset'' (SetOffset (dg_breakpoints dg) bp addr)) (\<lambda>_.
     ebind (com_op ''AddFlags(ENABLED)'' (AddFlags (dg_breakpoints dg) bp DEBUG_BREAKPOINT_ENABLED)) (\<lambda>_.
     ebind (com_op ''GetId'' (GetId (dg_breakpoints dg) bp)) (\<lambda>i.
     ebind (emodify (\<lambda>e. if condition \<noteq> [] then e\<lparr>en_conditions := hm_insert i condition (en_conditions e)\<rparr> else e))
       (\<lambda>_.
     eret \<lparr>br_id = uint i, br_verified = True, br_line = (case line of Some l \<Rightarrow> int l | None \<Rightarrow> 0),
           br_message = [], br_rejected = False\<rparr>))))))"

definition eng_remove_breakpoint :: "'d dbgeng \<Rightarrow> i64 \<Rightarrow> ('d, unit) eng" where
  "eng_remove_breakpoint dg i =
     (let bp_id = word_of_int i
      in ebind (com_op ''GetBreakpointById'' (GetBreakpointById (dg_breakpoints dg) bp_id)) (\<lambda>bp.
         ebind (emodify (\<lambda>e. e\<lparr>en_conditions := hm_remove bp_id (en_conditions e)\<rparr>)) (\<lambda>_.
         com_op ''RemoveBreakpoint'' (RemoveBreakpoint (dg_breakpoints dg) bp))))"

definition breakpoint_at :: "'d dbgeng \<Rightarrow> 32 word \<Rightarrow> ('d, breakpoint_result list) eng" where
  "breakpoint_at dg i =
     ebind (try_com (GetBreakpointByIndex (dg_breakpoints dg) i)) (\<lambda>r.
     case r of
       Inl _ \<Rightarrow> eret []
     | Inr bp \<Rightarrow>
         ebind (try_com (GetId (dg_breakpoints dg) bp)) (\<lambda>bp_id.
         ebind (try_com (GetOffset (dg_breakpoints dg) bp)) (\<lambda>off.
         let offset = (case off of Inr a \<Rightarrow> a | Inl _ \<Rightarrow> 0)
         in ebind (symbolicate dg offset) (\<lambda>name.
            eret [\<lparr>br_id = (case bp_id of Inr i \<Rightarrow> uint i | Inl _ \<Rightarrow> 0), br_verified = True, br_line = 0,
                   br_message = (case name of Some n \<Rightarrow> n | None \<Rightarrow> address_text offset),
                   br_rejected = False\<rparr>]))))"

definition eng_list_breakpoints :: "'d dbgeng \<Rightarrow> ('d, breakpoint_result list) eng" where
  "eng_list_breakpoints dg =
     ebind (com_op ''GetNumberBreakpoints'' (GetNumberBreakpoints (dg_breakpoints dg))) (\<lambda>count.
     collect (breakpoint_at dg) (indices count))"

section \<open>Inspection\<close>

definition eng_threads :: "'d dbgeng \<Rightarrow> ('d, thread_info list) eng" where
  "eng_threads dg =
     ebind (com_op ''GetNumberThreads'' (GetNumberThreads (dg_data dg))) (\<lambda>count.
     if count = 0 then eret []
     else ebind (com_op ''GetThreadIdsByIndex'' (GetThreadIdsByIndex (dg_data dg) count)) (\<lambda>ids.
          eret (map (\<lambda>(eng, sys). \<lparr>th_id = uint eng, th_name = ''sys='' @ show_nat (unat sys)\<rparr>) ids)))"

fun frames_from :: "'d dbgeng \<Rightarrow> nat \<Rightarrow> stack_frame list \<Rightarrow> ('d, frame list) eng" where
  "frames_from dg i [] = eret []"
| "frames_from dg i (f # fs) =
     (let ip = sf_InstructionOffset f
      in ebind (symbolicate dg ip) (\<lambda>name.
         ebind (line_at dg ip) (\<lambda>(path, line).
         ebind (frames_from dg (Suc i) fs) (\<lambda>rest.
         eret (\<lparr>fr_index = int i, fr_id = int i,
                fr_name = (case name of Some n \<Rightarrow> n | None \<Rightarrow> address_text ip), fr_source_path = path,
                fr_line = line, fr_instruction_pointer = Some (address_text ip)\<rparr> # rest)))))"

definition eng_stack_trace :: "'d dbgeng \<Rightarrow> i64 \<Rightarrow> i64 \<Rightarrow> ('d, frame list) eng" where
  "eng_stack_trace dg thread_id mx =
     (let max_frames = nat (min (max mx 1) 1024)
      in ebind (try_com (GetCurrentThreadId (dg_data dg))) (\<lambda>prev.
         let prev_thread = (case prev of Inr t \<Rightarrow> t | Inl _ \<Rightarrow> word_of_int thread_id)
         in ebind (com_op ''SetCurrentThreadId'' (SetCurrentThreadId (dg_data dg) (word_of_int thread_id))) (\<lambda>_.
            ebind (try_com (GetStackTrace (dg_control dg) max_frames)) (\<lambda>trace.
            ebind (try_com (SetCurrentThreadId (dg_data dg) prev_thread)) (\<lambda>_.
            case trace of
              Inl (code, msg) \<Rightarrow> (\<lambda>e. (Inl (EE_Com ''GetStackTrace'' code msg), e))
            | Inr frames \<Rightarrow> frames_from dg 0 (take max_frames frames))))))"

definition text_of :: "('d, string) com \<Rightarrow> ('d, string) eng" where
  "text_of call = ebind (try_com call) (\<lambda>r. eret (case r of Inr buf \<Rightarrow> cstr_from_buf buf | Inl _ \<Rightarrow> []))"

definition local_at :: "'d dbgeng \<Rightarrow> group_ptr \<Rightarrow> 32 word \<Rightarrow> ('d, variable list) eng" where
  "local_at dg grp i =
     ebind (text_of (GetSymbolName (dg_group dg) grp i 256)) (\<lambda>name.
     ebind (text_of (GetSymbolValueText (dg_group dg) grp i 1024)) (\<lambda>val.
     ebind (text_of (GetSymbolTypeName (dg_group dg) grp i 256)) (\<lambda>ty.
     eret [\<lparr>va_name = name, va_value = val, va_ty = ty, va_variables_reference = 0, va_named = 0,
            va_indexed = 0\<rparr>])))"

definition read_scope_locals :: "'d dbgeng \<Rightarrow> ('d, variable list) eng" where
  "read_scope_locals dg =
     ebind (com_op ''GetScopeSymbolGroup2'' (GetScopeSymbolGroup2 (dg_symbols dg))) (\<lambda>grp.
     ebind (com_op ''GetNumberSymbols'' (GetNumberSymbols (dg_group dg) grp)) (\<lambda>count.
     collect (local_at dg grp) (indices count)))"

definition isize_max :: int where
  "isize_max = 2 ^ 63 - 1"

text \<open>\<open>DEBUG_STACK_FRAME\<close> and \<open>Instruction\<close> have 128 bytes each on a 64-bit target.\<close>

definition eng_locals :: "'d dbgeng \<Rightarrow> i64 \<Rightarrow> ('d engine, variable list) engine_op" where
  "eng_locals dg frame_index e =
     (if frame_index \<le> 0 then map_prod Some id (read_scope_locals dg e)
      else if 128 * (frame_index + 1) > isize_max then (None, e)
      else map_prod Some id (ebind (com_op ''GetStackTrace'' (GetStackTrace (dg_control dg) (nat (frame_index + 1)))) (\<lambda>frames.
           if int (length frames) \<le> frame_index
           then eraise (''locals: frame '' @ show_int frame_index @ '' is out of range ('' @
                        show_nat (length frames) @ '' frames)'')
           else ebind (com_op ''SetScope'' (SetScope (dg_symbols dg) (frames ! nat frame_index))) (\<lambda>_ e.
                case read_scope_locals dg e of
                  (result, e') \<Rightarrow> (result, snd (attempt (ResetScope (dg_symbols dg)) e')))) e))"

definition eng_read_memory :: "'d dbgeng \<Rightarrow> nat \<Rightarrow> nat \<Rightarrow> ('d, memory_read) eng" where
  "eng_read_memory dg address sz =
     (let sz = min sz (2 ^ 32 - 1)
      in ebind (com_op ''ReadVirtual'' (ReadVirtual (dg_data dg) (word_of_nat address) sz)) (\<lambda>bytes.
         eret \<lparr>mr_address = address_text (word_of_nat address), mr_data = take sz bytes\<rparr>))"

fun disassemble_loop :: "'d dbgeng \<Rightarrow> nat \<Rightarrow> 64 word \<Rightarrow> ('d, instruction list) eng" where
  "disassemble_loop dg 0 offset = eret []"
| "disassemble_loop dg (Suc n) offset =
     ebind (try_com (Disassemble (dg_control dg) offset 512)) (\<lambda>r.
     case r of
       Inl _ \<Rightarrow> eret []
     | Inr (buf, end_offset) \<Rightarrow>
         ebind (if end_offset \<le> offset then eret [] else disassemble_loop dg n end_offset) (\<lambda>rest.
         eret (\<lparr>in_address = address_text offset, in_instruction = parse_disasm_text (cstr_from_buf buf),
                in_bytes = [], in_symbol = [], in_source_path = None, in_line = 0\<rparr> # rest)))"

definition eng_disassemble :: "'d dbgeng \<Rightarrow> nat \<Rightarrow> i64 \<Rightarrow> ('d engine, instruction list) engine_op" where
  "eng_disassemble dg address count e =
     (if 128 * max count 0 > isize_max then (None, e)
      else map_prod Some id (disassemble_loop dg (nat (max count 0)) (word_of_nat address) e))"

end
