(* ===== verification/Dbgeng_Execution.thy ===== *)
theory Dbgeng_Execution
  imports Dbgeng_Engine
begin

text \<open>
  The part of the engine handle that runs the target: waiting for events, conditional breakpoints,
  resuming, interrupting, and the ways a session begins and ends.
\<close>

section \<open>What a stop is\<close>

datatype wait_result = Event stop_outcome | TimedOut

definition build_stop_outcome :: "'d dbgeng \<Rightarrow> 32 word \<Rightarrow> ('d, stop_outcome) eng" where
  "build_stop_outcome dg status e =
     (let st = en_callback_state e;
          reason = cs_last_stop_reason st; exit_code = cs_last_exit_code st; bp_id = cs_last_breakpoint_id st
      in if exit_code \<noteq> None \<or> status = DEBUG_STATUS_NO_DEBUGGEE
         then (Inr (SO_Exited (map_option uint exit_code)), e)
         else ebind (try_com (GetCurrentThreadId (dg_data dg))) (\<lambda>t.
              eret (SO_Stopped
                \<lparr>si_reason = reason, si_thread_id = (case t of Inr t \<Rightarrow> uint t | Inl _ \<Rightarrow> 0), si_description = [],
                 si_hit_breakpoint_ids = (case bp_id of Some i \<Rightarrow> [uint i] | None \<Rightarrow> [])\<rparr>)) e)"

fun with_reason :: "stop_outcome \<Rightarrow> string \<Rightarrow> stop_outcome" where
  "with_reason (SO_Stopped info) reason = SO_Stopped (info\<lparr>si_reason := reason\<rparr>)"
| "with_reason other reason = other"

section \<open>Waiting for an event\<close>

definition breakpoint_condition_met :: "'d dbgeng \<Rightarrow> 32 word \<Rightarrow> 'd engine \<Rightarrow> bool \<times> 'd engine" where
  "breakpoint_condition_met dg bp_id e =
     (case hm_get (en_conditions e) bp_id of
        None \<Rightarrow> (True, e)
      | Some condition \<Rightarrow>
          (let expr = condition_expr condition
           in if has_nul expr then (False, e)
              else case attempt (Evaluate (dg_control dg) expr) e of
                     (Inl _, e') \<Rightarrow> (False, e')
                   | (Inr (cond_value, remainder), e') \<Rightarrow>
                       (if remainder < word_of_nat (length expr) then (False, e')
                        else (cond_value \<noteq> 0, e'))))"

definition resumed :: "32 word \<Rightarrow> bool" where
  "resumed status \<longleftrightarrow>
     status \<in> {DEBUG_STATUS_GO, DEBUG_STATUS_GO_HANDLED, DEBUG_STATUS_GO_NOT_HANDLED,
               DEBUG_STATUS_STEP_OVER, DEBUG_STATUS_STEP_INTO, DEBUG_STATUS_STEP_BRANCH}"

text \<open>Whether the stop is a breakpoint whose condition is false.\<close>

definition false_condition :: "'d dbgeng \<Rightarrow> 32 word \<Rightarrow> 'd engine \<Rightarrow> bool \<times> 'd engine" where
  "false_condition dg status e =
     (if status = DEBUG_STATUS_BREAK \<and> en_conditions e \<noteq> []
      then (case attempt (GetLastEventInformation (dg_control dg)) e of
              (Inl _, e') \<Rightarrow> (False, e')
            | (Inr (event_type, bp_id), e') \<Rightarrow>
                (if event_type = DEBUG_EVENT_BREAKPOINT
                 then (case breakpoint_condition_met dg bp_id e' of (met, e'') \<Rightarrow> (\<not> met, e''))
                 else (False, e')))
      else (False, e))"

definition wait_turn :: "'d dbgeng \<Rightarrow> 32 word \<Rightarrow> ('d, wait_result turn) eng" where
  "wait_turn dg timeout_ms e =
     (case WaitForEvent (dg_control dg) timeout_ms (en_com e) of
        (hr, hs, d) \<Rightarrow>
          if hr = 0 then
            ebind (com_op ''GetExecutionStatus'' (GetExecutionStatus (dg_control dg))) (\<lambda>status.
            if resumed status then eret Again
            else (\<lambda>e1. case false_condition dg status e1 of
                    (skip, e2) \<Rightarrow>
                      (if skip
                       then ebind (com_op ''SetExecutionStatus(GO)'' (SetExecutionStatus (dg_control dg) DEBUG_STATUS_GO))
                              (\<lambda>_. eret Again) e2
                       else ebind (build_stop_outcome dg status) (\<lambda>out. eret (Done (Event out))) e2)))
              (settle hs d e)
          else if hr = 1 then (Inr (Done TimedOut), settle hs d e)
          else (Inl (EE_Com ''WaitForEvent'' hr (hresult_message (dg_host dg) hr)), settle hs d e))"

definition wait_loop :: "'d dbgeng \<Rightarrow> 32 word \<Rightarrow> ('d, wait_result) waiting" where
  "wait_loop dg timeout_ms = repeat_until (returns (wait_turn dg timeout_ms))"

definition wait_for_event :: "'d dbgeng \<Rightarrow> 32 word \<Rightarrow> ('d, wait_result) waiting" where
  "wait_for_event dg timeout_ms =
     wbind (returns (com_op ''QueryInterface(IDebugControl)'' (QueryInterface (dg_host dg) ''IDebugControl'')))
       (\<lambda>_. wait_loop dg timeout_ms)"

section \<open>Running\<close>

definition ensure_runnable :: "('d, unit) eng" where
  "ensure_runnable e =
     (if en_is_dump e then eraise ''cannot continue a crash-dump session'' e else eret () e)"

definition set_interrupt :: "'d dbgeng \<Rightarrow> ('d, unit) eng" where
  "set_interrupt dg = com_op ''SetInterrupt(ACTIVE)'' (SetInterrupt (dg_control dg) DEBUG_INTERRUPT_ACTIVE)"

fun break_polls :: "'d dbgeng \<Rightarrow> nat \<Rightarrow> ('d, stop_outcome) waiting" where
  "break_polls dg 0 = returns (eraise ''break: timed out'')"
| "break_polls dg (Suc n) =
     wbind (wait_for_event dg 200) (\<lambda>w.
     case w of
       Event o' \<Rightarrow> returns (eret (with_reason o' ''Execution paused''))
     | TimedOut \<Rightarrow>
         wbind (returns (execution_status dg)) (\<lambda>status.
         if status = DEBUG_STATUS_BREAK \<or> status = DEBUG_STATUS_NO_DEBUGGEE
         then returns (ebind (build_stop_outcome dg status) (\<lambda>out. eret (with_reason out ''Execution paused'')))
         else wbind (returns (set_interrupt dg)) (\<lambda>_. break_polls dg n)))"

definition break_loop :: "'d dbgeng \<Rightarrow> ('d, stop_outcome) waiting" where
  "break_loop dg = wbind (returns (set_interrupt dg)) (\<lambda>_. break_polls dg 50)"

definition eng_break_in :: "'d dbgeng \<Rightarrow> ('d, stop_outcome) waiting" where
  "eng_break_in dg = wbind (returns ensure_runnable) (\<lambda>_. break_loop dg)"

definition now :: "'d dbgeng \<Rightarrow> ('d, nat) eng" where
  "now dg e = (case instant_now (dg_host dg) (en_com e) of (t, d) \<Rightarrow> (Inr t, e\<lparr>en_com := d\<rparr>))"

definition go_turn :: "'d dbgeng \<Rightarrow> nat \<Rightarrow> ('d, stop_outcome option turn) waiting" where
  "go_turn dg deadline =
     wbind (returns (now dg)) (\<lambda>t e.
     if t < deadline \<and> \<not> en_interrupt_flag e then
       wbind (wait_for_event dg 200) (\<lambda>w.
         returns (eret (case w of Event o' \<Rightarrow> Done (Some o') | TimedOut \<Rightarrow> Again))) e
     else Some (Inr (Done None), e))"

definition go_loop :: "'d dbgeng \<Rightarrow> nat \<Rightarrow> ('d, stop_outcome option) waiting" where
  "go_loop dg deadline = repeat_until (go_turn dg deadline)"

definition go_end :: "'d dbgeng \<Rightarrow> stop_outcome option \<Rightarrow> ('d, stop_outcome option) waiting" where
  "go_end dg stop e =
     (case stop of
        Some o' \<Rightarrow> Some (Inr (Some o'), e)
      | None \<Rightarrow> (if en_interrupt_flag e then wbind (break_loop dg) (\<lambda>o'. returns (eret (Some o'))) e
                 else Some (Inr None, e)))"

definition eng_go :: "'d dbgeng \<Rightarrow> 32 word \<Rightarrow> ('d, stop_outcome option) waiting" where
  "eng_go dg timeout_ms =
     wbind (returns ensure_runnable) (\<lambda>_.
     wbind (returns (emodify (\<lambda>e. e\<lparr>en_interrupt_flag := False\<rparr>))) (\<lambda>_.
     wbind (returns (com_op ''SetExecutionStatus(GO)'' (SetExecutionStatus (dg_control dg) DEBUG_STATUS_GO))) (\<lambda>_.
     wbind (returns (now dg)) (\<lambda>t.
     wbind (go_loop dg (t + unat timeout_ms)) (go_end dg)))))"

definition step_command_of :: "'d dbgeng \<Rightarrow> step_kind \<Rightarrow> ('d, unit) eng" where
  "step_command_of dg kind =
     (case kind of
        Over \<Rightarrow> com_op ''SetExecutionStatus(STEP_OVER)'' (SetExecutionStatus (dg_control dg) DEBUG_STATUS_STEP_OVER)
      | Into \<Rightarrow> com_op ''SetExecutionStatus(STEP_INTO)'' (SetExecutionStatus (dg_control dg) DEBUG_STATUS_STEP_INTO)
      | Out \<Rightarrow> com_op ''Execute(gu)'' (Execute (dg_control dg) DEBUG_OUTCTL_THIS_CLIENT ''gu'' DEBUG_EXECUTE_DEFAULT))"

definition stop_within :: "string \<Rightarrow> wait_result \<Rightarrow> ('d, stop_outcome) eng" where
  "stop_within msg w = (case w of Event o' \<Rightarrow> eret o' | TimedOut \<Rightarrow> eraise msg)"

definition eng_step :: "'d dbgeng \<Rightarrow> step_kind \<Rightarrow> ('d, stop_outcome) waiting" where
  "eng_step dg kind =
     wbind (returns ensure_runnable) (\<lambda>_.
     wbind (returns (step_command_of dg kind)) (\<lambda>_.
     wbind (wait_for_event dg 10000) (\<lambda>w. returns (stop_within ''step: timed out'' w))))"

text \<open>The interrupt handle, from any thread.\<close>

definition handle_interrupt :: "'d engine \<Rightarrow> 'd engine" where
  "handle_interrupt e = e\<lparr>en_interrupt_flag := True\<rparr>"

section \<open>The beginning and the end of a session\<close>

text \<open>
  The three attach points share the handling of the initial break: the option is removed whatever the
  wait gave, and a failed wait is reported before a failed removal.
\<close>

definition clear_conditions :: "('d, unit) eng" where
  "clear_conditions = emodify (\<lambda>e. e\<lparr>en_conditions := []\<rparr>)"

definition add_initial_break :: "'d dbgeng \<Rightarrow> ('d, unit) eng" where
  "add_initial_break dg =
     com_op ''AddEngineOptions(INITIAL_BREAK)'' (AddEngineOptions (dg_control dg) DEBUG_ENGOPT_INITIAL_BREAK)"

text \<open>The result of the wait as a value, so that the removal comes after it in any case.\<close>

definition waited :: "'d dbgeng \<Rightarrow> 32 word \<Rightarrow> ('d, engine_error + wait_result) waiting" where
  "waited dg timeout_ms e = map_option (\<lambda>(r, e'). (Inr r, e')) (wait_for_event dg timeout_ms e)"

definition raise_as :: "engine_error \<Rightarrow> ('d, 'a) eng" where
  "raise_as err e = (Inl err, e)"

definition initial_stop ::
  "string \<Rightarrow> engine_error + wait_result \<Rightarrow> com_error + unit \<Rightarrow> ('d, stop_outcome) eng" where
  "initial_stop timed_out w removed =
     (case w of
        Inl err \<Rightarrow> raise_as err
      | Inr o' \<Rightarrow>
          (case removed of
             Inl (code, msg) \<Rightarrow> raise_as (EE_Com ''RemoveEngineOptions(INITIAL_BREAK)'' code msg)
           | Inr _ \<Rightarrow> stop_within timed_out o'))"

definition await_initial_break ::
  "'d dbgeng \<Rightarrow> 32 word \<Rightarrow> string \<Rightarrow> ('d, stop_outcome) waiting" where
  "await_initial_break dg timeout_ms timed_out =
     wbind (waited dg timeout_ms) (\<lambda>w.
     wbind (returns (try_com (RemoveEngineOptions (dg_control dg) DEBUG_ENGOPT_INITIAL_BREAK))) (\<lambda>removed.
     returns (initial_stop timed_out w removed)))"

definition command_line :: "launch_req \<Rightarrow> string" where
  "command_line req = [dq] @ lr_program req @ [dq] @ concat (map (\<lambda>arg. CHR '' '' # arg) (lr_args req))"

definition create_process :: "'d dbgeng \<Rightarrow> launch_req \<Rightarrow> ('d, unit) eng" where
  "create_process dg req =
     (if has_nul (command_line req) then eraise ''launch: program/args contain an interior NUL byte''
      else if lr_cwd req \<noteq> None \<and> has_nul (the (lr_cwd req))
           then eraise ''launch: working directory contains an interior NUL byte''
      else com_op ''CreateProcess2'' (CreateProcess2 (dg_client dg) (command_line req) (lr_cwd req)))"

definition eng_launch :: "'d dbgeng \<Rightarrow> launch_req \<Rightarrow> ('d, stop_outcome) waiting" where
  "eng_launch dg req =
     wbind (returns clear_conditions) (\<lambda>_.
     wbind (returns (add_initial_break dg)) (\<lambda>_.
     wbind (returns (create_process dg req)) (\<lambda>_.
     wbind (await_initial_break dg 10000 ''launch: timed out waiting for the initial breakpoint'') (\<lambda>out.
     returns (ebind (reload_main_module dg) (\<lambda>_. eret (with_reason out ''Initial breakpoint'')))))))"

definition eng_attach_pid :: "'d dbgeng \<Rightarrow> 32 word \<Rightarrow> ('d, stop_outcome) waiting" where
  "eng_attach_pid dg pid =
     wbind (returns clear_conditions) (\<lambda>_.
     wbind (returns (try_com (enable_debug_privilege (dg_host dg)))) (\<lambda>_.
     wbind (returns (add_initial_break dg)) (\<lambda>_.
     wbind (returns (com_op ''AttachProcess'' (AttachProcess (dg_client dg) pid))) (\<lambda>_.
     await_initial_break dg 10000 ''attach: timed out waiting for the initial break''))))"

definition attach_kernel_wait :: "'d dbgeng \<Rightarrow> ('d, stop_outcome) waiting" where
  "attach_kernel_wait dg =
     wbind (waited dg INFINITE) (\<lambda>w.
     wbind (returns (try_com (RemoveEngineOptions (dg_control dg) DEBUG_ENGOPT_INITIAL_BREAK))) (\<lambda>removed.
     wbind (returns (case w of
              Inl _ \<Rightarrow> ebind (try_com (EndSession (dg_client dg) DEBUG_END_ACTIVE_DETACH))
                        (\<lambda>_. emodify (\<lambda>e. e\<lparr>en_is_dump := False\<rparr>))
            | Inr _ \<Rightarrow> eret ())) (\<lambda>_.
     returns (initial_stop ''attach_kernel: kernel wait returned without an event'' w removed))))"

definition eng_attach_kernel :: "'d dbgeng \<Rightarrow> string \<Rightarrow> ('d, stop_outcome) waiting" where
  "eng_attach_kernel dg connection =
     wbind (returns clear_conditions) (\<lambda>_.
     if has_nul connection then returns (eraise ''attach_kernel: connection string contains an interior NUL byte'')
     else wbind (returns (add_initial_break dg)) (\<lambda>_.
          wbind (returns (try_com (AttachKernel (dg_client dg) connection))) (\<lambda>attached.
          case attached of
            Inl (code, msg) \<Rightarrow>
              returns (ebind (try_com (RemoveEngineOptions (dg_control dg) DEBUG_ENGOPT_INITIAL_BREAK))
                (\<lambda>_. raise_as (EE_Com ''AttachKernel'' code msg)))
          | Inr _ \<Rightarrow>
              wbind (returns (emodify (\<lambda>e. e\<lparr>en_is_dump := False\<rparr>))) (\<lambda>_. attach_kernel_wait dg))))"

definition dump_stop :: "wait_result \<Rightarrow> ('d, stop_info option) eng" where
  "dump_stop w =
     (case w of
        Event (SO_Stopped info) \<Rightarrow> eret (Some info)
      | Event _ \<Rightarrow> eret None
      | TimedOut \<Rightarrow> eraise ''open_dump: timed out loading dump'')"

definition crash_location :: "'d dbgeng \<Rightarrow> ('d, string option) eng" where
  "crash_location dg e =
     (case current_source_location dg e of
        (Inr (Some (path, line)), e') \<Rightarrow> (Inr (Some (path @ '':'' @ show_int line)), e')
      | (_, e') \<Rightarrow> (Inr None, e'))"

definition eng_open_dump :: "'d dbgeng \<Rightarrow> string \<Rightarrow> ('d, dump_outcome) waiting" where
  "eng_open_dump dg path =
     wbind (returns (execution_status dg)) (\<lambda>status.
     if status \<noteq> DEBUG_STATUS_NO_DEBUGGEE then returns (eraise ''open_dump: a session is already active'')
     else if has_nul path then returns (eraise ''open_dump: dump path contains an interior NUL byte'')
     else wbind (returns (com_op ''OpenDumpFile'' (OpenDumpFile (dg_client dg) path))) (\<lambda>_.
          wbind (returns (emodify (\<lambda>e. e\<lparr>en_is_dump := True\<rparr>))) (\<lambda>_.
          wbind (wait_for_event dg 30000) (\<lambda>w.
          wbind (returns (dump_stop w)) (\<lambda>stop.
          wbind (returns (crash_location dg)) (\<lambda>loc.
          returns (eret \<lparr>do_stop = stop, do_crash_location = loc\<rparr>)))))))"

definition eng_detach :: "'d dbgeng \<Rightarrow> bool \<Rightarrow> ('d, unit) eng" where
  "eng_detach dg terminate e =
     (let flags = (if en_is_dump e then DEBUG_END_PASSIVE
                   else if terminate then DEBUG_END_ACTIVE_TERMINATE
                   else DEBUG_END_ACTIVE_DETACH)
      in ebind (com_op ''EndSession'' (EndSession (dg_client dg) flags)) (\<lambda>_.
         emodify (\<lambda>e. e\<lparr>en_is_dump := False, en_extensions_loaded := False, en_conditions := []\<rparr>)) e)"

end
