(* ===== verification/Dbgeng_Facts.thy ===== *)
theory Dbgeng_Facts
  imports Dbgeng_Execution
begin

text \<open>
  What the proofs about the engine handle share: the loop that may not end, the frame of a call, and a
  debugger of which every call fails, to be filled in for concrete runs.
\<close>

section \<open>Loops\<close>

text \<open>The loop ends with a turn that does not ask for another, and what turns keep holds before it.\<close>

lemma repeat_until_last_turn:
  assumes keep: "\<And>e e'. I e \<Longrightarrow> body e = Some (Inr Again, e') \<Longrightarrow> I e'"
    and run: "repeat_until body e = Some (r, e')" and "I e"
  shows "\<exists>e1 r1. I e1 \<and> body e1 = Some (r1, e') \<and> r1 \<noteq> Inr Again \<and> r = map_sum id (\<lambda>t. case t of Done a \<Rightarrow> a) r1"
proof -
  let ?P = "\<lambda>b e x. b = body \<longrightarrow> I e \<longrightarrow>
      (\<exists>e1 r1. I e1 \<and> body e1 = Some (r1, snd x) \<and> r1 \<noteq> Inr Again \<and>
        fst x = map_sum id (\<lambda>t. case t of Done a \<Rightarrow> a) r1)"
  have "?P body e (r, e')"
  proof (rule repeat_until.raw_induct [where P = ?P, OF _ run])
    fix rep b e x
    assume hyp: "\<And>b e x. rep b e = Some x \<Longrightarrow> ?P b e x"
      and turn: "Option.bind (b e) (\<lambda>(r, e'). if r = Inr Again then rep b e'
          else Some (map_sum id (\<lambda>t. case t of Done a \<Rightarrow> a) r, e')) = Some x"
    show "?P b e x"
    proof (intro impI)
      assume b: "b = body" and i: "I e"
      obtain r1 e1 where t: "body e = Some (r1, e1)" using turn b by (cases "body e") auto
      show "\<exists>e1 r1. I e1 \<and> body e1 = Some (r1, snd x) \<and> r1 \<noteq> Inr Again \<and>
          fst x = map_sum id (\<lambda>t. case t of Done a \<Rightarrow> a) r1"
      proof (cases "r1 = Inr Again")
        case True
        then have "rep body e1 = Some x" using turn t b by simp
        then show ?thesis using hyp keep [OF i] t True by blast
      next
        case False
        then have "x = (map_sum id (\<lambda>t. case t of Done a \<Rightarrow> a) r1, e1)" using turn t b by simp
        then show ?thesis using i t False by auto
      qed
    qed
  qed
  then show ?thesis using \<open>I e\<close> by simp
qed

text \<open>The loop ends when every turn does, and every further turn brings a measure down.\<close>

lemma repeat_until_ends:
  assumes "\<And>e. I e \<Longrightarrow> \<exists>r e'. body e = Some (r, e') \<and> (r = Inr Again \<longrightarrow> I e' \<and> m e' < (m e :: nat))"
  shows "I e \<Longrightarrow> \<exists>r e'. repeat_until body e = Some (r, e')"
proof (induction "m e" arbitrary: e rule: less_induct)
  case less
  from assms [OF less.prems] obtain r e' where b: "body e = Some (r, e')" "r = Inr Again \<longrightarrow> I e' \<and> m e' < m e"
    by blast
  show ?case
  proof (cases "r = Inr Again")
    case True
    then show ?thesis using b less.hyps by (subst repeat_until.simps) simp
  next
    case False
    then show ?thesis using b by (subst repeat_until.simps) simp
  qed
qed

lemma repeat_until_step:
  "body e = Some (Inr Again, e') \<Longrightarrow> repeat_until body e = repeat_until body e'"
  "body e = Some (Inr (Done a), e') \<Longrightarrow> repeat_until body e = Some (Inr a, e')"
  "body e = Some (Inl err, e') \<Longrightarrow> repeat_until body e = Some (Inl err, e')"
  by (subst repeat_until.simps; simp)+

section \<open>The frame of a call\<close>

lemma settle_simps [simp]:
  "en_com (settle hs d e) = d" "en_callback_state (settle hs d e) = absorb hs (en_callback_state e)"
  "en_is_dump (settle hs d e) = en_is_dump e" "en_conditions (settle hs d e) = en_conditions e"
  "en_extensions_loaded (settle hs d e) = en_extensions_loaded e"
  "en_interrupt_flag (settle hs d e) \<longleftrightarrow> en_interrupt_flag e \<or> On_Interrupt \<in> set hs"
  by (simp_all add: settle_def)

lemma settle_nothing: "settle [] (en_com e) e = e"
  by (simp add: settle_def)

text \<open>A call that answers \<open>r\<close>, changes nothing and during which nothing happens.\<close>

definition quiet :: "('d, 'a) com \<Rightarrow> 'd \<Rightarrow> com_error + 'a \<Rightarrow> bool" where
  "quiet call d r \<longleftrightarrow> call d = (r, [], d)"

lemma quiet_attempt [simp]: "quiet call (en_com e) r \<Longrightarrow> attempt call e = (r, e)"
  by (simp add: quiet_def attempt_def settle_nothing)

lemma quiet_op: "quiet call (en_com e) (Inr a) \<Longrightarrow> com_op ctxt call e = (Inr a, e)"
  by (simp add: com_op_def)

lemma ebind_simps:
  "m e = (Inr a, e') \<Longrightarrow> ebind m f e = f a e'" "m e = (Inl err, e') \<Longrightarrow> ebind m f e = (Inl err, e')"
  by (simp_all add: ebind_def)

lemma wbind_simps:
  "m e = Some (Inr a, e') \<Longrightarrow> wbind m f e = f a e'" "m e = Some (Inl err, e') \<Longrightarrow> wbind m f e = Some (Inl err, e')"
  "m e = None \<Longrightarrow> wbind m f e = None"
  by (simp_all add: wbind_def)

lemma wbind_returns:
  "wbind (returns m) f e = (case m e of (Inr a, e') \<Rightarrow> f a e' | (Inl err, e') \<Rightarrow> Some (Inl err, e'))"
  by (simp add: wbind_def returns_def split: prod.splits sum.splits)

lemma wbind_Inr:
  "wbind m f e = Some (Inr b, e') \<longleftrightarrow> (\<exists>a e1. m e = Some (Inr a, e1) \<and> f a e1 = Some (Inr b, e'))"
  by (auto simp: wbind_def split: option.splits prod.splits sum.splits)

lemma returns_Some: "returns m e = Some x \<longleftrightarrow> m e = x"
  by (simp add: returns_def)

lemma ebind_Inr: "ebind m f e = (Inr b, e') \<longleftrightarrow> (\<exists>a e1. m e = (Inr a, e1) \<and> f a e1 = (Inr b, e'))"
  by (auto simp: ebind_def split: prod.splits sum.splits)

lemma com_op_Inr: "com_op ctxt call e = (Inr a, e') \<longleftrightarrow> attempt call e = (Inr a, e')"
  by (auto simp: com_op_def split: prod.splits sum.splits)

lemma try_com_Inr: "try_com call e = (Inr r, e') \<longleftrightarrow> attempt call e = (r, e')"
  by (auto simp: try_com_def split: prod.splits)

lemma wbind_total:
  assumes "\<exists>r e'. m e = Some (r, e')" "\<And>a e'. m e = Some (Inr a, e') \<Longrightarrow> \<exists>r e''. f a e' = Some (r, e'')"
  shows "\<exists>r e'. wbind m f e = Some (r, e')"
  using assms by (auto simp: wbind_def split: prod.splits sum.splits)

lemma returns_total: "\<exists>r e'. returns m e = Some (r, e')"
  by (cases "m e") (simp add: returns_def)

text \<open>Methods that keep a property of the debugger's state.\<close>

definition keeps :: "('d \<Rightarrow> bool) \<Rightarrow> ('d, 'a) eng \<Rightarrow> bool" where
  "keeps p m \<longleftrightarrow> (\<forall>e. p (en_com (snd (m e))) = p (en_com e))"

lemma keepsD: "keeps p m \<Longrightarrow> m e = (r, e') \<Longrightarrow> p (en_com e') = p (en_com e)"
  unfolding keeps_def by (metis snd_conv)

lemma keeps_ebind:
  assumes "keeps p m" "\<And>a. keeps p (f a)"
  shows "keeps p (ebind m f)"
  unfolding keeps_def
proof
  fix e
  obtain r e1 where m: "m e = (r, e1)" by (rule prod.exhaust)
  have "p (en_com e1) = p (en_com e)" by (rule keepsD [OF assms(1) m])
  then show "p (en_com (snd (ebind m f e))) = p (en_com e)"
    using assms(2) by (cases r) (simp_all add: ebind_def m keeps_def)
qed

lemma keeps_try_com:
  fixes call :: "('d, 'a) com"
  assumes "\<And>d. p (snd (snd (call d))) = p d"
  shows "keeps p (try_com call)"
  unfolding keeps_def
proof
  fix e :: "'d engine"
  obtain r hs d where c: "call (en_com e) = (r, hs, d)" by (rule prod_cases3)
  then show "p (en_com (snd (try_com call e))) = p (en_com e)"
    using assms [of "en_com e"] by (simp add: try_com_def attempt_def)
qed

lemma keeps_eret: "keeps p (eret a)"
  by (simp add: keeps_def eret_def)

section \<open>A debugger that fails\<close>

definition E_FAIL :: com_error where
  "E_FAIL = (0x80004005, ''Unspecified error'')"

definition fails :: "('d, 'a) com" where
  "fails d = (Inl E_FAIL, [], d)"

definition dead_dbgeng :: "'d dbgeng" where
  "dead_dbgeng =
     \<lparr>dg_client = \<lparr>SetOutputCallbacks = \<lambda>_. fails, SetEventCallbacks = \<lambda>_. fails, CreateProcess2 = \<lambda>_ _. fails,
        AttachProcess = \<lambda>_. fails, OpenDumpFile = \<lambda>_. fails, AttachKernel = \<lambda>_. fails, EndSession = \<lambda>_. fails\<rparr>,
      dg_control = \<lparr>AddEngineOptions = \<lambda>_. fails, RemoveEngineOptions = \<lambda>_. fails, GetExecutionStatus = fails,
        SetExecutionStatus = \<lambda>_. fails, SetInterrupt = \<lambda>_. fails, WaitForEvent = \<lambda>_ d. (0x80004005, [], d),
        Execute = \<lambda>_ _ _. fails, Evaluate = \<lambda>_. fails, GetLastEventInformation = fails,
        GetStackTrace = \<lambda>_. fails, Disassemble = \<lambda>_ _. fails\<rparr>,
      dg_breakpoints = \<lparr>AddBreakpoint = fails, RemoveBreakpoint = \<lambda>_. fails, GetBreakpointById = \<lambda>_. fails,
        GetBreakpointByIndex = \<lambda>_. fails, GetNumberBreakpoints = fails, SetOffset = \<lambda>_ _. fails,
        AddFlags = \<lambda>_ _. fails, GetId = \<lambda>_. fails, GetOffset = \<lambda>_. fails\<rparr>,
      dg_symbols = \<lparr>SetSymbolPath = \<lambda>_. fails, GetSymbolOptions = fails, SetSymbolOptions = \<lambda>_. fails,
        GetOffsetByLine = \<lambda>_ _. fails, GetOffsetByName = \<lambda>_. fails, GetNumberModules = fails,
        GetModuleByIndex = \<lambda>_. fails, GetModuleNameString = \<lambda>_ _ _. fails, GetModuleParameters = \<lambda>_. fails,
        GetNameByOffset = \<lambda>_ _. fails, GetLineByOffset = \<lambda>_ _. fails, SetScope = \<lambda>_. fails,
        ResetScope = fails, GetScopeSymbolGroup2 = fails, Reload = \<lambda>_. fails\<rparr>,
      dg_group = \<lparr>GetNumberSymbols = \<lambda>_. fails, GetSymbolName = \<lambda>_ _ _. fails,
        GetSymbolValueText = \<lambda>_ _ _. fails, GetSymbolTypeName = \<lambda>_ _ _. fails\<rparr>,
      dg_data = \<lparr>ReadVirtual = \<lambda>_ _. fails, GetInstructionOffset = fails, GetNumberThreads = fails,
        GetThreadIdsByIndex = \<lambda>_. fails, GetCurrentThreadId = fails, SetCurrentThreadId = \<lambda>_. fails\<rparr>,
      dg_host = \<lparr>DebugCreate = fails, QueryInterface = \<lambda>_ d. (Inr (), [], d), instant_now = \<lambda>d. (0, d),
        hresult_message = \<lambda>_. ''Unspecified error'', enable_debug_privilege = fails,
        read_kits_root10 = \<lambda>_ _. None, windows_sdk_dir = \<lambda>_. None, path_exists = \<lambda>_ _. False\<rparr>\<rparr>"

end
