(* ===== verification/Dbgeng_Properties.thy ===== *)
theory Dbgeng_Properties
  imports Dbgeng_Facts Windbg_Facts
begin

text \<open>
  The properties of the engine handle: which breakpoints stop the target, how a run ends, what the attach
  points leave behind, and what can go wrong.
\<close>

section \<open>Conditional breakpoints\<close>

text \<open>
  A hit of a breakpoint: its id, what else happens until it is reported, what the evaluator answers at
  that stop, and the state of the debugger there.  \<open>hit_at\<close> says that waiting from a state leads to the
  hit, that asking about it changes nothing, and to which state resuming leads.  \<open>breaks_at\<close>: the hits
  in order, one after each resumption, and then nothing until the deadline.
\<close>

record 'd hit =
  ht_id :: "32 word"
  ht_offset :: "64 word option"
  ht_others :: "happening list"
  ht_eval :: "string \<Rightarrow> com_error + 64 word \<times> 32 word"
  ht_state :: 'd

definition hit_at :: "'d dbgeng \<Rightarrow> 32 word \<Rightarrow> 'd \<Rightarrow> 'd hit \<Rightarrow> 'd \<Rightarrow> bool" where
  "hit_at dg t d h d' \<longleftrightarrow>
     (let c = dg_control dg; s = ht_state h
      in WaitForEvent c t d = (0, ht_others h @ [On_Breakpoint (Some (Some (ht_id h), ht_offset h))], s) \<and>
         (\<forall>code. On_Exit_Process code \<notin> set (ht_others h)) \<and>
         quiet (GetExecutionStatus c) s (Inr DEBUG_STATUS_BREAK) \<and>
         quiet (GetLastEventInformation c) s (Inr (DEBUG_EVENT_BREAKPOINT, ht_id h)) \<and>
         (\<forall>x. quiet (Evaluate c x) s (ht_eval h x)) \<and>
         SetExecutionStatus c DEBUG_STATUS_GO s = (Inr (), [], d'))"

fun breaks_at :: "'d dbgeng \<Rightarrow> 32 word \<Rightarrow> 'd \<Rightarrow> 'd hit list \<Rightarrow> bool" where
  "breaks_at dg t d [] \<longleftrightarrow> (\<exists>d'. WaitForEvent (dg_control dg) t d = (1, [], d'))"
| "breaks_at dg t d (h # hs) \<longleftrightarrow> (\<exists>d'. hit_at dg t d h d' \<and> breaks_at dg t d' hs)"

text \<open>Whether a hit is to be reported: it has no condition, or a condition that is read to its end and holds.\<close>

definition stops_at :: "(32 word, string) hashmap \<Rightarrow> 'd hit \<Rightarrow> bool" where
  "stops_at conditions h \<longleftrightarrow>
     (case hm_get conditions (ht_id h) of
        None \<Rightarrow> True
      | Some c \<Rightarrow> \<not> has_nul (condition_expr c) \<and>
          (case ht_eval h (condition_expr c) of
             Inl _ \<Rightarrow> False
           | Inr (v, remainder) \<Rightarrow> word_of_nat (length (condition_expr c)) \<le> remainder \<and> v \<noteq> 0))"

lemma false_condition_at_hit:
  assumes "quiet (GetLastEventInformation (dg_control dg)) (en_com e) (Inr (DEBUG_EVENT_BREAKPOINT, ht_id h))"
    and "\<forall>x. quiet (Evaluate (dg_control dg) x) (en_com e) (ht_eval h x)"
  shows "false_condition dg DEBUG_STATUS_BREAK e = (\<not> stops_at (en_conditions e) h, e)"
proof -
  have "breakpoint_condition_met dg (ht_id h) e = (stops_at (en_conditions e) h, e)"
  proof (cases "hm_get (en_conditions e) (ht_id h)")
    case (Some c)
    have "attempt (Evaluate (dg_control dg) (condition_expr c)) e = (ht_eval h (condition_expr c), e)"
      using assms(2) by simp
    then show ?thesis
      using Some by (auto simp: breakpoint_condition_met_def stops_at_def Let_def not_less split: sum.split)
  qed (simp add: breakpoint_condition_met_def stops_at_def)
  then show ?thesis
    using assms(1) by (auto simp: false_condition_def stops_at_def)
qed

lemma wait_turn_event:
  fixes e :: "'d engine"
  assumes "WaitForEvent (dg_control dg) t (en_com e) = (0, hs, d)"
    and "quiet (GetExecutionStatus (dg_control dg)) d (Inr DEBUG_STATUS_BREAK)"
    and "false_condition dg DEBUG_STATUS_BREAK (settle hs d e) = (skip, settle hs d e)"
  shows "wait_turn dg t e =
      (if skip
       then ebind (com_op ''SetExecutionStatus(GO)'' (SetExecutionStatus (dg_control dg) DEBUG_STATUS_GO)) (\<lambda>_. eret Again)
              (settle hs d e)
       else ebind (build_stop_outcome dg DEBUG_STATUS_BREAK) (\<lambda>out. eret (Done (Event out))) (settle hs d e))"
proof -
  have st: "com_op ''GetExecutionStatus'' (GetExecutionStatus (dg_control dg)) (settle hs d e) =
      (Inr DEBUG_STATUS_BREAK, settle hs d e)"
    using assms(2) by (simp add: quiet_op)
  have "ebind (com_op ''GetExecutionStatus'' (GetExecutionStatus (dg_control dg))) f (settle hs d e) =
      f DEBUG_STATUS_BREAK (settle hs d e)" for f :: "32 word \<Rightarrow> ('d, wait_result turn) eng"
    by (rule ebind_simps(1) [where m = "com_op c x" for c x, OF st])
  then show ?thesis using assms(1,3) by (simp add: wait_turn_def resumed_def)
qed

lemma build_stopped:
  assumes "cs_last_exit_code (en_callback_state e) = None" and "cs_last_breakpoint_id (en_callback_state e) = Some i"
  shows "\<exists>info e'. ebind (build_stop_outcome dg DEBUG_STATUS_BREAK) (\<lambda>out. eret (Done (Event out))) e =
      (Inr (Done (Event (SO_Stopped info))), e') \<and> si_hit_breakpoint_ids info = [uint i] \<and>
      si_reason info = cs_last_stop_reason (en_callback_state e)"
  using assms by (simp add: build_stop_outcome_def Let_def ebind_def try_com_def eret_def split: prod.split)

lemma wait_turn_at_hit:
  fixes e :: "'d engine"
  assumes "hit_at dg t (en_com e) h d'" and "cs_last_exit_code (en_callback_state e) = None"
  shows "stops_at (en_conditions e) h \<Longrightarrow> \<exists>info e'. wait_turn dg t e = (Inr (Done (Event (SO_Stopped info))), e') \<and>
      si_hit_breakpoint_ids info = [uint (ht_id h)]"
    and "\<not> stops_at (en_conditions e) h \<Longrightarrow> \<exists>e'. wait_turn dg t e = (Inr Again, e') \<and> en_com e' = d' \<and>
      cs_last_exit_code (en_callback_state e') = None \<and> en_conditions e' = en_conditions e"
proof -
  let ?e = "settle (ht_others h @ [On_Breakpoint (Some (Some (ht_id h), ht_offset h))]) (ht_state h) e"
  note b = assms(1) [unfolded hit_at_def Let_def]
  have fc: "false_condition dg DEBUG_STATUS_BREAK ?e = (\<not> stops_at (en_conditions e) h, ?e)"
    using false_condition_at_hit [of dg ?e h] b by simp
  have ids: "cs_last_breakpoint_id (en_callback_state ?e) = Some (ht_id h)"
    "cs_last_exit_code (en_callback_state ?e) = None"
    using assms(2) b by (simp_all add: absorb_append breakpoint_callback_def absorb_without_exit split: option.split)
  have turn: "wait_turn dg t e =
      (if \<not> stops_at (en_conditions e) h
       then ebind (com_op ''SetExecutionStatus(GO)'' (SetExecutionStatus (dg_control dg) DEBUG_STATUS_GO)) (\<lambda>_. eret Again) ?e
       else ebind (build_stop_outcome dg DEBUG_STATUS_BREAK) (\<lambda>out. eret (Done (Event out))) ?e)"
    by (rule wait_turn_event [OF _ _ fc]) (use b in blast)+
  show "\<exists>info e'. wait_turn dg t e = (Inr (Done (Event (SO_Stopped info))), e') \<and>
      si_hit_breakpoint_ids info = [uint (ht_id h)]" if "stops_at (en_conditions e) h"
    using that build_stopped [OF ids(2,1), of dg] by (auto simp: turn)
  show "\<exists>e'. wait_turn dg t e = (Inr Again, e') \<and> en_com e' = d' \<and>
      cs_last_exit_code (en_callback_state e') = None \<and> en_conditions e' = en_conditions e"
    if "\<not> stops_at (en_conditions e) h"
    using that ids b by (simp add: turn com_op_def attempt_def ebind_def eret_def)
qed

text \<open>C34: Conditional breakpoints filter the stops: waiting for an event reports the first hit whose
  breakpoint has no condition or a condition that holds there, whatever hits come before it, with that
  breakpoint's id; when there is none the wait times out.  A condition that cannot be evaluated, or not
  to its end, does not hold.\<close>

theorem conditional_breakpoints_filter:
  assumes "breaks_at dg t (en_com e) hits" and "cs_last_exit_code (en_callback_state e) = None"
    and "quiet (QueryInterface (dg_host dg) ''IDebugControl'') (en_com e) (Inr ())"
  shows "case find (stops_at (en_conditions e)) hits of
      Some h \<Rightarrow> \<exists>info e'. wait_for_event dg t e = Some (Inr (Event (SO_Stopped info)), e') \<and>
                  si_hit_breakpoint_ids info = [uint (ht_id h)]
    | None \<Rightarrow> \<exists>e'. wait_for_event dg t e = Some (Inr TimedOut, e')"
proof -
  have "case find (stops_at (en_conditions e)) hits of
      Some h \<Rightarrow> \<exists>info e'. wait_loop dg t e = Some (Inr (Event (SO_Stopped info)), e') \<and>
                  si_hit_breakpoint_ids info = [uint (ht_id h)]
    | None \<Rightarrow> \<exists>e'. wait_loop dg t e = Some (Inr TimedOut, e')"
    using assms(1,2)
  proof (induction hits arbitrary: e)
    case Nil
    then obtain d' where "wait_turn dg t e = (Inr (Done TimedOut), settle [] d' e)"
      by (auto simp: wait_turn_def)
    then show ?case by (auto simp: wait_loop_def returns_def repeat_until_step(2))
  next
    case (Cons h hits)
    obtain d' where hit: "hit_at dg t (en_com e) h d'" and rest: "breaks_at dg t d' hits"
      using Cons.prems(1) by auto
    show ?case
    proof (cases "stops_at (en_conditions e) h")
      case True
      then show ?thesis
        using wait_turn_at_hit(1) [OF hit Cons.prems(2)] by (fastforce simp: wait_loop_def returns_def repeat_until_step(2))
    next
      case False
      then obtain e' where turn: "wait_turn dg t e = (Inr Again, e')" and e': "breaks_at dg t (en_com e') hits"
          "cs_last_exit_code (en_callback_state e') = None" "en_conditions e' = en_conditions e"
        using wait_turn_at_hit(2) [OF hit Cons.prems(2)] rest by blast
      have "wait_loop dg t e = wait_loop dg t e'"
        using turn by (simp add: wait_loop_def returns_def repeat_until_step(1))
      then show ?thesis using Cons.IH [OF e'(1,2)] False e'(3) by (simp split: option.splits)
    qed
  qed
  moreover have "wait_for_event dg t e = wait_loop dg t e"
    using quiet_op [OF assms(3)] by (simp add: wait_for_event_def wbind_def returns_def)
  ultimately show ?thesis by (simp split: option.splits)
qed

text \<open>A loop that is run through three times: the breakpoint in it has the condition \<open>i == 2\<close>.\<close>

definition loop_hit :: "nat \<Rightarrow> nat hit" where
  "loop_hit d =
     \<lparr>ht_id = 7, ht_offset = Some 0x401000, ht_others = [On_Interrupt],
      ht_eval = \<lambda>_. Inr (if d = 5 then 1 else 0, 0xFFFFFFFF), ht_state = d\<rparr>"

definition loop_dbgeng :: "nat \<Rightarrow> nat dbgeng" where
  "loop_dbgeng last_state =
     dead_dbgeng\<lparr>dg_control := (dg_control dead_dbgeng)
       \<lparr>GetExecutionStatus := \<lambda>d. (Inr 6, [], d), SetExecutionStatus := \<lambda>_ d. (Inr (), [], Suc d),
        WaitForEvent := \<lambda>t d. if d \<le> last_state
          then (0, [On_Interrupt, On_Breakpoint (Some (Some 7, Some 0x401000))], Suc d) else (1, [], d),
        Evaluate := \<lambda>_ d. (Inr (if d = 5 then 1 else 0, 0xFFFFFFFF), [], d),
        GetLastEventInformation := \<lambda>d. (Inr (1, 7), [], d)\<rparr>\<rparr>"

definition loop_engine :: "nat engine" where
  "loop_engine = (engine_new 0)\<lparr>en_conditions := [(7, ''i == 2'')]\<rparr>"

lemma loop_hit_at: "d \<le> n \<Longrightarrow> hit_at (loop_dbgeng n) t d (loop_hit (Suc d)) (Suc (Suc d))"
  by (simp add: hit_at_def loop_dbgeng_def loop_hit_def quiet_def)

lemma loop_condition: "stops_at [(7, ''i == 2'')] (loop_hit d) \<longleftrightarrow> d = 5"
  by (simp add: stops_at_def loop_hit_def hm_get_def condition_expr_def has_nul_def)

theorem conditional_breakpoints_filter_witness:
  "\<exists>info e'. wait_for_event (loop_dbgeng 5) 200 loop_engine = Some (Inr (Event (SO_Stopped info)), e') \<and>
     si_hit_breakpoint_ids info = [7]"
proof -
  have "hit_at (loop_dbgeng 5) 200 0 (loop_hit 1) 2" "hit_at (loop_dbgeng 5) 200 2 (loop_hit 3) 4"
    "hit_at (loop_dbgeng 5) 200 4 (loop_hit 5) 6"
    using loop_hit_at [of 0 5] loop_hit_at [of 2 5] loop_hit_at [of 4 5] by (simp_all add: eval_nat_numeral)
  moreover have "breaks_at (loop_dbgeng 5) 200 6 []" by (simp add: loop_dbgeng_def)
  ultimately have "breaks_at (loop_dbgeng 5) 200 (en_com loop_engine) [loop_hit 1, loop_hit 3, loop_hit 5]"
    unfolding breaks_at.simps(2) by (auto simp: loop_engine_def engine_new_def)
  from conditional_breakpoints_filter [OF this]
  show ?thesis
    by (simp add: loop_engine_def engine_new_def callback_state_new_def loop_condition quiet_def
        loop_dbgeng_def dead_dbgeng_def) (simp add: loop_hit_def)
qed

section \<open>How a run ends\<close>

text \<open>The clock of a debugger that returns from every wait, and does not time out early.\<close>

definition prompt :: "'d dbgeng \<Rightarrow> ('d \<Rightarrow> nat) \<Rightarrow> bool" where
  "prompt dg clock \<longleftrightarrow>
     (\<forall>d. instant_now (dg_host dg) d = (clock d, d)) \<and>
     (\<forall>s d. clock d \<le> clock (snd (snd (SetExecutionStatus (dg_control dg) s d)))) \<and>
     (\<forall>e. \<exists>r e'. wait_for_event dg 200 e = Some (r, e') \<and>
        (r = Inr TimedOut \<longrightarrow> clock (en_com e) + 200 \<le> clock (en_com e')))"

lemma prompt_now: "prompt dg clock \<Longrightarrow> now dg e = (Inr (clock (en_com e)), e)"
  by (simp add: prompt_def now_def)

lemma prompt_wait: "prompt dg clock \<Longrightarrow> \<exists>r e'. wait_for_event dg 200 e = Some (r, e')"
  unfolding prompt_def by blast

lemma prompt_break_polls: "prompt dg clock \<Longrightarrow> \<exists>r e'. break_polls dg n e = Some (r, e')"
proof (induction n arbitrary: e)
  case (Suc n)
  show ?case
    unfolding break_polls.simps
    by (rule wbind_total [OF prompt_wait [OF Suc.prems]]) (auto split: wait_result.split intro!: returns_total wbind_total Suc.IH Suc.prems)
qed (simp add: returns_def eraise_def)

lemma prompt_break_loop: "prompt dg clock \<Longrightarrow> \<exists>r e'. break_loop dg e = Some (r, e')"
  unfolding break_loop_def by (rule wbind_total [OF returns_total prompt_break_polls])

lemma go_turn_result:
  assumes "prompt dg clock" and "go_turn dg deadline e = Some (r, e')"
  shows "r = Inr Again \<Longrightarrow> clock (en_com e) < deadline \<and> clock (en_com e) + 200 \<le> clock (en_com e')"
    and "r = Inr (Done None) \<Longrightarrow> deadline \<le> clock (en_com e') \<or> en_interrupt_flag e'"
proof -
  obtain w e1 where w: "wait_for_event dg 200 e = Some (w, e1)"
      "w = Inr TimedOut \<longrightarrow> clock (en_com e) + 200 \<le> clock (en_com e1)"
    using assms(1) unfolding prompt_def by blast
  have "go_turn dg deadline e =
      (if clock (en_com e) < deadline \<and> \<not> en_interrupt_flag e
       then Some (map_sum id (\<lambda>w. case w of Event o' \<Rightarrow> Done (Some o') | TimedOut \<Rightarrow> Again) w, e1)
       else Some (Inr (Done None), e))"
    by (cases w) (auto simp: go_turn_def wbind_def returns_def eret_def prompt_now [OF assms(1)] w(1))
  then have "(r, e') = (if clock (en_com e) < deadline \<and> \<not> en_interrupt_flag e
       then (map_sum id (\<lambda>w. case w of Event o' \<Rightarrow> Done (Some o') | TimedOut \<Rightarrow> Again) w, e1)
       else (Inr (Done None), e))"
    using assms(2) by (auto split: if_splits)
  then show "r = Inr Again \<Longrightarrow> clock (en_com e) < deadline \<and> clock (en_com e) + 200 \<le> clock (en_com e')"
    "r = Inr (Done None) \<Longrightarrow> deadline \<le> clock (en_com e') \<or> en_interrupt_flag e'"
    using w(2) by (cases w; auto split: if_splits wait_result.splits)+
qed

lemma go_turn_total: "prompt dg clock \<Longrightarrow> \<exists>r e'. go_turn dg deadline e = Some (r, e')"
  unfolding go_turn_def
  by (rule wbind_total [OF returns_total]) (auto intro!: wbind_total returns_total prompt_wait)

lemma go_loop_total:
  assumes "prompt dg clock"
  shows "\<exists>r e'. go_loop dg deadline e = Some (r, e') \<and>
    (r = Inr None \<longrightarrow> deadline \<le> clock (en_com e') \<or> en_interrupt_flag e')"
proof -
  have "\<exists>r e'. go_loop dg deadline e = Some (r, e')"
    unfolding go_loop_def
  proof (rule repeat_until_ends [where I = "\<lambda>_. True" and m = "\<lambda>e. deadline - clock (en_com e)"])
    fix e :: "'a engine"
    obtain r e' where t: "go_turn dg deadline e = Some (r, e')" using go_turn_total [OF assms] by blast
    show "\<exists>r e'. go_turn dg deadline e = Some (r, e') \<and>
        (r = Inr Again \<longrightarrow> True \<and> deadline - clock (en_com e') < deadline - clock (en_com e))"
      using t go_turn_result(1) [OF assms t] by force
  qed simp
  then obtain r e' where loop: "go_loop dg deadline e = Some (r, e')" by blast
  have "r = Inr None \<longrightarrow> deadline \<le> clock (en_com e') \<or> en_interrupt_flag e'"
  proof
    assume r: "r = Inr None"
    obtain e1 r1 where last: "go_turn dg deadline e1 = Some (r1, e')" "r1 \<noteq> Inr Again"
        "r = map_sum id (\<lambda>t. case t of Done a \<Rightarrow> a) r1"
      using repeat_until_last_turn [where I = "\<lambda>_. True", OF _ loop [unfolded go_loop_def]] by auto
    then have "r1 = Inr (Done None)" using r by (cases r1) (auto split: turn.splits)
    then show "deadline \<le> clock (en_com e') \<or> en_interrupt_flag e'"
      using go_turn_result(2) [OF assms last(1)] by simp
  qed
  then show ?thesis using loop by blast
qed

text \<open>C35: Where every wait for an event returns, and none times out before its time, \<open>go\<close> returns.  It says
  that the target is still running only when its time is up and no request to interrupt is pending.\<close>

theorem go_returns:
  assumes "prompt dg clock"
  shows "\<exists>r e'. eng_go dg ms e = Some (r, e') \<and>
    (r = Inr None \<longrightarrow> clock (en_com e) + unat ms \<le> clock (en_com e') \<and> \<not> en_interrupt_flag e')"
proof (cases "en_is_dump e")
  case True
  then show ?thesis by (simp add: eng_go_def wbind_returns ensure_runnable_def eraise_def)
next
  case False
  obtain r hs d where set: "SetExecutionStatus (dg_control dg) DEBUG_STATUS_GO (en_com e) = (r, hs, d)"
    by (rule prod_cases3)
  have later: "clock (en_com e) \<le> clock d"
    using assms set unfolding prompt_def by (metis snd_conv)
  let ?e = "settle hs d (e\<lparr>en_interrupt_flag := False\<rparr>)"
  have go: "eng_go dg ms e =
      (case r of Inl (code, msg) \<Rightarrow> Some (Inl (EE_Com ''SetExecutionStatus(GO)'' code msg), ?e)
       | Inr _ \<Rightarrow> wbind (go_loop dg (clock d + unat ms)) (go_end dg) ?e)"
    using False by (simp add: eng_go_def wbind_returns ensure_runnable_def eret_def emodify_def com_op_def attempt_def
        set prompt_now [OF assms] split: sum.split prod.split)
  show ?thesis
  proof (cases r)
    case Inl
    then show ?thesis by (simp add: go split: prod.split)
  next
    case Inr
    obtain w e1 where loop: "go_loop dg (clock d + unat ms) ?e = Some (w, e1)"
        "w = Inr None \<longrightarrow> clock d + unat ms \<le> clock (en_com e1) \<or> en_interrupt_flag e1"
      using go_loop_total [OF assms] by blast
    obtain b e2 where brk: "break_loop dg e1 = Some (b, e2)" using prompt_break_loop [OF assms] by blast
    show ?thesis
      using loop later brk Inr
      by (cases w; cases b) (auto simp: go wbind_def go_end_def returns_def eret_def split: option.split)
  qed
qed

definition idle_dbgeng :: "nat dbgeng" where
  "idle_dbgeng =
     dead_dbgeng\<lparr>dg_control := (dg_control dead_dbgeng)
       \<lparr>SetExecutionStatus := \<lambda>_ d. (Inr (), [], d), WaitForEvent := \<lambda>t d. (1, [], d + unat t)\<rparr>,
      dg_host := (dg_host dead_dbgeng)\<lparr>instant_now := \<lambda>d. (d, d)\<rparr>\<rparr>"

lemma idle_wait: "wait_for_event idle_dbgeng t e = Some (Inr TimedOut, e\<lparr>en_com := en_com e + unat t\<rparr>)"
proof -
  have "wait_turn idle_dbgeng t e = (Inr (Done TimedOut), e\<lparr>en_com := en_com e + unat t\<rparr>)"
    by (simp add: wait_turn_def idle_dbgeng_def settle_def)
  then show ?thesis
    by (simp add: wait_for_event_def wbind_returns wait_loop_def repeat_until_step(2) returns_def
        com_op_def attempt_def idle_dbgeng_def dead_dbgeng_def settle_def)
qed

theorem go_returns_witness:
  "\<exists>r e'. eng_go idle_dbgeng 1000 (engine_new 5) = Some (r, e') \<and>
     (r = Inr None \<longrightarrow> 1005 \<le> en_com e' \<and> \<not> en_interrupt_flag e')"
proof -
  have "prompt idle_dbgeng (\<lambda>d. d)"
    unfolding prompt_def idle_wait by (simp add: idle_dbgeng_def)
  from go_returns [OF this, of 1000 "engine_new 5"] show ?thesis by (simp add: engine_new_def)
qed

text \<open>C36: A breakpoint of false condition in a loop starves the run: while the target comes back to it within
  every wait, \<open>go\<close> never returns, whatever its time budget and however often it is asked to interrupt.  The
  wait starts over at each such hit, and the deadline and the flag are looked at between waits only.\<close>

theorem false_condition_starves_the_run:
  assumes "\<forall>d \<in> states. \<exists>h d'. hit_at dg 200 d h d' \<and> \<not> stops_at (en_conditions e) h \<and> d' \<in> states"
    and "\<forall>d \<in> states. quiet (QueryInterface (dg_host dg) ''IDebugControl'') d (Inr ()) \<and>
           (\<exists>t. instant_now (dg_host dg) d = (t, d))"
    and "SetExecutionStatus (dg_control dg) DEBUG_STATUS_GO (en_com e) = (Inr (), [], d)" and "d \<in> states"
    and "\<not> en_is_dump e" and "0 < ms" and "cs_last_exit_code (en_callback_state e) = None"
  shows "eng_go dg ms e = None"
proof -
  let ?I = "\<lambda>e'. en_com e' \<in> states \<and> cs_last_exit_code (en_callback_state e') = None \<and>
    en_conditions e' = en_conditions e"
  have turn: "\<exists>e2. wait_turn dg 200 e1 = (Inr Again, e2) \<and> ?I e2" if i: "?I e1" for e1
  proof -
    obtain h d' where h: "hit_at dg 200 (en_com e1) h d'" "\<not> stops_at (en_conditions e) h" "d' \<in> states"
      using assms(1) i by blast
    then show ?thesis using wait_turn_at_hit(2) [OF h(1)] i by fastforce
  qed
  have wait: "wait_for_event dg 200 e1 = None" if i: "?I e1" for e1
  proof -
    have "wait_loop dg 200 e1 = None"
    proof (rule ccontr)
      assume "wait_loop dg 200 e1 \<noteq> None"
      then obtain r e2 where run: "repeat_until (returns (wait_turn dg 200)) e1 = Some (r, e2)"
        by (auto simp: wait_loop_def)
      have "\<exists>e3 r3. ?I e3 \<and> returns (wait_turn dg 200) e3 = Some (r3, e2) \<and> r3 \<noteq> Inr Again \<and>
          r = map_sum id (\<lambda>t. case t of Done a \<Rightarrow> a) r3"
      proof (rule repeat_until_last_turn [where I = ?I, OF _ run i])
        fix e1 e' assume "?I e1" "returns (wait_turn dg 200) e1 = Some (Inr Again, e')"
        then show "?I e'" using turn [of e1] by (auto simp: returns_def)
      qed
      then obtain e3 r3 where "?I e3" "returns (wait_turn dg 200) e3 = Some (r3, e2)" "r3 \<noteq> Inr Again"
        by blast
      then show False using turn [of e3] by (auto simp: returns_def)
    qed
    then show ?thesis
      using assms(2) i by (simp add: wait_for_event_def wbind_returns quiet_op)
  qed
  let ?e = "settle [] d (e\<lparr>en_interrupt_flag := False\<rparr>)"
  obtain t where t: "instant_now (dg_host dg) d = (t, d)" using assms(2,4) by blast
  have same: "?e\<lparr>en_com := d\<rparr> = ?e" by (simp add: settle_def)
  have now: "now dg ?e = (Inr t, ?e)" using t same by (simp add: now_def)
  have "wait_for_event dg 200 ?e = None" by (rule wait) (simp add: assms(4,7))
  then have "go_turn dg (t + unat ms) ?e = None"
    using assms(6) by (simp add: go_turn_def wbind_returns now wbind_simps(3) unat_gt_0)
  then have loop: "go_loop dg (t + unat ms) ?e = None"
    unfolding go_loop_def by (subst repeat_until.simps) simp
  show ?thesis
    using assms(3,5) by (simp add: eng_go_def wbind_returns ensure_runnable_def eret_def emodify_def com_op_def
        attempt_def now wbind_simps(3) loop)
qed

text \<open>The same loop without an end, interrupted at every turn.\<close>

definition endless_dbgeng :: "nat dbgeng" where
  "endless_dbgeng =
     dead_dbgeng\<lparr>dg_control := (dg_control dead_dbgeng)
       \<lparr>GetExecutionStatus := \<lambda>d. (Inr 6, [], d), SetExecutionStatus := \<lambda>_ d. (Inr (), [], Suc d),
        WaitForEvent := \<lambda>t d. (0, [On_Interrupt, On_Breakpoint (Some (Some 7, Some 0x401000))], Suc d),
        Evaluate := \<lambda>_ d. (Inr (0, 0xFFFFFFFF), [], d),
        GetLastEventInformation := \<lambda>d. (Inr (1, 7), [], d)\<rparr>\<rparr>"

theorem false_condition_starves_the_run_witness: "eng_go endless_dbgeng 1000 loop_engine = None"
proof (rule false_condition_starves_the_run [where states = UNIV])
  let ?h = "\<lambda>d. \<lparr>ht_id = 7, ht_offset = Some 0x401000, ht_others = [On_Interrupt],
    ht_eval = \<lambda>_. Inr (0, 0xFFFFFFFF), ht_state = Suc d\<rparr>"
  have "hit_at endless_dbgeng 200 d (?h d) (Suc (Suc d)) \<and> \<not> stops_at (en_conditions loop_engine) (?h d)" for d
    by (simp add: hit_at_def endless_dbgeng_def quiet_def loop_engine_def stops_at_def hm_get_def)
  then show "\<forall>d \<in> UNIV. \<exists>h d'. hit_at endless_dbgeng 200 d h d' \<and> \<not> stops_at (en_conditions loop_engine) h \<and>
      d' \<in> UNIV" by blast
qed (simp_all add: endless_dbgeng_def dead_dbgeng_def quiet_def loop_engine_def engine_new_def callback_state_new_def)

section \<open>What a stop says\<close>

text \<open>Happenings that are no events of the target.\<close>

fun uneventful :: "happening \<Rightarrow> bool" where
  "uneventful (On_Breakpoint _) = False"
| "uneventful (On_Exception _ _) = False"
| "uneventful (On_Exit_Process _) = False"
| "uneventful _ = True"

lemma callback_uneventful:
  "uneventful h \<Longrightarrow> cs_last_breakpoint_id (snd (callback h st)) = cs_last_breakpoint_id st \<and>
     cs_last_exit_code (snd (callback h st)) = cs_last_exit_code st \<and>
     cs_last_stop_reason (snd (callback h st)) = cs_last_stop_reason st"
  by (cases h) (simp_all add: output_callback_def record_output_def Let_def)

lemma absorb_uneventful:
  "list_all uneventful hs \<Longrightarrow> cs_last_breakpoint_id (absorb hs st) = cs_last_breakpoint_id st \<and>
     cs_last_exit_code (absorb hs st) = cs_last_exit_code st \<and>
     cs_last_stop_reason (absorb hs st) = cs_last_stop_reason st"
  by (induction hs arbitrary: st) (simp_all add: callback_uneventful)

text \<open>C37: The last breakpoint is never forgotten: a step that ends where no breakpoint is reports the breakpoint
  that was hit before it once more, and its reason with it.\<close>

theorem step_reports_a_stale_breakpoint:
  assumes "\<not> en_is_dump e" and "step_command_of dg kind e = (Inr (), e1)"
    and "en_callback_state e1 = en_callback_state e" and "en_conditions e1 = []"
    and "quiet (QueryInterface (dg_host dg) ''IDebugControl'') (en_com e1) (Inr ())"
    and "WaitForEvent (dg_control dg) 10000 (en_com e1) = (0, hs, d)" and "list_all uneventful hs"
    and "quiet (GetExecutionStatus (dg_control dg)) d (Inr DEBUG_STATUS_BREAK)"
    and "cs_last_exit_code (en_callback_state e) = None" and "cs_last_breakpoint_id (en_callback_state e) = Some i"
  shows "\<exists>info e'. eng_step dg kind e = Some (Inr (SO_Stopped info), e') \<and>
    si_hit_breakpoint_ids info = [uint i] \<and> si_reason info = cs_last_stop_reason (en_callback_state e)"
proof -
  let ?e = "settle hs d e1"
  have fc: "false_condition dg DEBUG_STATUS_BREAK ?e = (False, ?e)"
    using assms(4) by (simp add: false_condition_def)
  have ids: "cs_last_exit_code (en_callback_state ?e) = None" "cs_last_breakpoint_id (en_callback_state ?e) = Some i"
    "cs_last_stop_reason (en_callback_state ?e) = cs_last_stop_reason (en_callback_state e)"
    using absorb_uneventful [OF assms(7)] assms(3,9,10) by simp_all
  have "\<exists>info e'. wait_turn dg 10000 e1 = (Inr (Done (Event (SO_Stopped info))), e') \<and>
      si_hit_breakpoint_ids info = [uint i] \<and> si_reason info = cs_last_stop_reason (en_callback_state e)"
    using build_stopped [OF ids(1,2), of dg] ids(3) by (simp add: wait_turn_event [OF assms(6,8) fc])
  then obtain info e' where turn: "wait_turn dg 10000 e1 = (Inr (Done (Event (SO_Stopped info))), e')"
      and info: "si_hit_breakpoint_ids info = [uint i]" "si_reason info = cs_last_stop_reason (en_callback_state e)"
    by blast
  have "wait_for_event dg 10000 e1 = Some (Inr (Event (SO_Stopped info)), e')"
    using turn assms(5) by (simp add: wait_for_event_def wbind_returns quiet_op wait_loop_def returns_def repeat_until_step(2))
  then show ?thesis
    using assms(1,2) info
    by (simp add: eng_step_def wbind_returns ensure_runnable_def eret_def wbind_simps(1) stop_within_def returns_def)
qed

text \<open>A breakpoint is hit, and the step after it ends on the next line.\<close>

definition step_dbgeng :: "nat dbgeng" where
  "step_dbgeng =
     dead_dbgeng\<lparr>dg_control := (dg_control dead_dbgeng)
       \<lparr>GetExecutionStatus := \<lambda>d. (Inr 6, [], d), SetExecutionStatus := \<lambda>_ d. (Inr (), [], Suc d),
        WaitForEvent := \<lambda>t d. (0, [On_Output 1 (Some ''ok'')], Suc d)\<rparr>\<rparr>"

definition stopped_engine :: "nat engine" where
  "stopped_engine =
     settle [On_Breakpoint (Some (Some 3, Some 0x401000))] 0 (engine_new 0)"

theorem step_reports_a_stale_breakpoint_witness:
  "\<exists>info e'. eng_step step_dbgeng Over stopped_engine = Some (Inr (SO_Stopped info), e') \<and>
     si_hit_breakpoint_ids info = [3] \<and>
     si_reason info = ''Breakpoint '' @ show_nat 3 @ '' hit at 0x'' @ show_HEX 0x401000"
proof -
  have cmd: "step_command_of step_dbgeng Over stopped_engine = (Inr (), settle [] 1 stopped_engine)"
    by (simp add: step_command_of_def com_op_def attempt_def step_dbgeng_def stopped_engine_def)
  have "\<exists>info e'. eng_step step_dbgeng Over stopped_engine = Some (Inr (SO_Stopped info), e') \<and>
      si_hit_breakpoint_ids info = [uint (3 :: 32 word)] \<and>
      si_reason info = cs_last_stop_reason (en_callback_state stopped_engine)"
    by (rule step_reports_a_stale_breakpoint [OF _ cmd, of "[On_Output 1 (Some ''ok'')]" 2])
      (simp_all add: stopped_engine_def engine_new_def step_dbgeng_def dead_dbgeng_def quiet_def
        callback_state_new_def breakpoint_callback_def)
  moreover have "cs_last_stop_reason (en_callback_state stopped_engine) =
      ''Breakpoint '' @ show_nat 3 @ '' hit at 0x'' @ show_HEX 0x401000"
    by (simp add: stopped_engine_def breakpoint_callback_def)
  ultimately show ?thesis by simp
qed

section \<open>What the attach points leave behind\<close>

lemma removal_clears:
  assumes "\<forall>d. \<exists>hs d'. RemoveEngineOptions (dg_control dg) DEBUG_ENGOPT_INITIAL_BREAK d = (Inr (), hs, d') \<and> \<not> initial_break d'"
    and "try_com (RemoveEngineOptions (dg_control dg) DEBUG_ENGOPT_INITIAL_BREAK) e = (r, e')"
  shows "\<not> initial_break (en_com e')"
proof -
  obtain hs d' where "RemoveEngineOptions (dg_control dg) DEBUG_ENGOPT_INITIAL_BREAK (en_com e) = (Inr (), hs, d')"
      "\<not> initial_break d'" using assms(1) by blast
  then show ?thesis using assms(2) by (auto simp: try_com_def attempt_def)
qed

lemma initial_stop_state: "snd (initial_stop msg w removed e) = e"
  by (simp add: initial_stop_def raise_as_def stop_within_def eret_def eraise_def split: sum.split wait_result.split prod.split)

lemma await_initial_break_clears:
  assumes "\<forall>d. \<exists>hs d'. RemoveEngineOptions (dg_control dg) DEBUG_ENGOPT_INITIAL_BREAK d = (Inr (), hs, d') \<and> \<not> initial_break d'"
    and "await_initial_break dg t msg e = Some (r, e')"
  shows "\<not> initial_break (en_com e')"
proof -
  obtain w e1 where w: "waited dg t e = Some (Inr w, e1)"
    using assms(2) by (auto simp: await_initial_break_def wbind_def waited_def split: option.splits)
  obtain x e2 where x: "try_com (RemoveEngineOptions (dg_control dg) DEBUG_ENGOPT_INITIAL_BREAK) e1 = (Inr x, e2)"
    by (cases "attempt (RemoveEngineOptions (dg_control dg) DEBUG_ENGOPT_INITIAL_BREAK) e1") (simp add: try_com_def)
  have "(r, e') = initial_stop msg w x e2"
    using assms(2) by (simp add: await_initial_break_def wbind_simps(1) [where m = "waited dg t", OF w] wbind_returns x returns_def)
  then have "e' = e2" by (metis initial_stop_state snd_conv)
  then show ?thesis using removal_clears [OF assms(1) x] by simp
qed

text \<open>The initial break does not outlive a successful attach point: after \<open>launch\<close>, \<open>attach\<close> and
  \<open>attach_kernel\<close> have succeeded the option is not set.  It supposes that removing it works, and that the
  symbol calls at the end of a launch do not set it.\<close>

theorem initial_break_is_cleared:
  fixes dg :: "'d dbgeng"
  assumes remove: "\<forall>d. \<exists>hs d'. RemoveEngineOptions (dg_control dg) DEBUG_ENGOPT_INITIAL_BREAK d = (Inr (), hs, d') \<and> \<not> initial_break d'"
    and symbols: "\<forall>i d. initial_break (snd (snd (GetModuleByIndex (dg_symbols dg) i d))) = initial_break d"
      "\<forall>i b n d. initial_break (snd (snd (GetModuleNameString (dg_symbols dg) i b n d))) = initial_break d"
      "\<forall>x d. initial_break (snd (snd (Reload (dg_symbols dg) x d))) = initial_break d"
  shows "eng_launch dg req e = Some (Inr out, e') \<or> eng_attach_pid dg pid e = Some (Inr out, e') \<or>
      eng_attach_kernel dg connection e = Some (Inr out, e') \<Longrightarrow> \<not> initial_break (en_com e')"
proof (elim disjE)
  assume "eng_launch dg req e = Some (Inr out, e')"
  then obtain e1 o1 e2 where w: "await_initial_break dg 10000 ''launch: timed out waiting for the initial breakpoint'' e1 = Some (Inr o1, e2)"
      and l: "ebind (reload_main_module dg) (\<lambda>_. eret (with_reason o1 ''Initial breakpoint'')) e2 = (Inr out, e')"
    by (auto simp: eng_launch_def wbind_Inr returns_Some)
  have "keeps initial_break (reload_main_module dg)"
    unfolding reload_main_module_def Let_def
    by (intro keeps_ebind keeps_try_com) (use symbols in \<open>auto split: sum.split intro!: keeps_ebind keeps_try_com keeps_eret\<close>)
  then have "initial_break (en_com e') = initial_break (en_com e2)"
    by (rule keepsD [OF keeps_ebind [OF _ keeps_eret] l])
  then show ?thesis using await_initial_break_clears [OF remove w] by simp
next
  assume "eng_attach_pid dg pid e = Some (Inr out, e')"
  then show ?thesis
    by (auto simp: eng_attach_pid_def wbind_Inr dest: await_initial_break_clears [where initial_break = initial_break, OF remove])
next
  assume "eng_attach_kernel dg connection e = Some (Inr out, e')"
  then obtain attached :: "com_error + unit" and e1 :: "'d engine" where
      "(case attached of
          Inl (code, msg) \<Rightarrow>
            returns (ebind (try_com (RemoveEngineOptions (dg_control dg) DEBUG_ENGOPT_INITIAL_BREAK))
              (\<lambda>_. raise_as (EE_Com ''AttachKernel'' code msg)))
        | Inr _ \<Rightarrow>
            wbind (returns (emodify (\<lambda>e. e\<lparr>en_is_dump := False\<rparr>))) (\<lambda>_. attach_kernel_wait dg)) e1 = Some (Inr out, e')"
    by (simp add: eng_attach_kernel_def wbind_Inr returns_Some eraise_def split: if_splits)
        blast
  then obtain e1 where "attach_kernel_wait dg e1 = Some (Inr out, e')"
    by (cases attached) (auto simp: wbind_Inr returns_Some ebind_Inr raise_as_def)
  then obtain w removed e2 e3 e4 where r: "try_com (RemoveEngineOptions (dg_control dg) DEBUG_ENGOPT_INITIAL_BREAK) e2 = (Inr removed, e3)"
      and c: "(case w of Inl _ \<Rightarrow> ebind (try_com (EndSession (dg_client dg) DEBUG_END_ACTIVE_DETACH))
                        (\<lambda>_. emodify (\<lambda>e. e\<lparr>en_is_dump := False\<rparr>))
            | Inr _ \<Rightarrow> eret ()) e3 = (Inr (), e4)"
      and s: "initial_stop ''attach_kernel: kernel wait returned without an event'' w removed e4 = (Inr out, e')"
    unfolding attach_kernel_wait_def wbind_Inr returns_Some by (metis (full_types) unit.exhaust)
  have "e4 = e3" using c s by (cases w) (auto simp: eret_def initial_stop_def raise_as_def)
  moreover have "e' = e4" using s initial_stop_state by (metis snd_conv)
  ultimately show ?thesis using removal_clears [OF remove r] by simp
qed

text \<open>A debugger of which the state is the option itself; whatever is attached to stops at once.\<close>

definition option_dbgeng :: "bool dbgeng" where
  "option_dbgeng =
     dead_dbgeng\<lparr>dg_client := (dg_client dead_dbgeng)\<lparr>AttachProcess := \<lambda>_ d. (Inr (), [], d)\<rparr>,
      dg_control := (dg_control dead_dbgeng)
       \<lparr>AddEngineOptions := \<lambda>_ _. (Inr (), [], True), RemoveEngineOptions := \<lambda>_ _. (Inr (), [], False),
        GetExecutionStatus := \<lambda>d. (Inr 6, [], d),
        WaitForEvent := \<lambda>t d. (0, [On_Exception (Some (STATUS_BREAKPOINT, 0x401000)) 1], d)\<rparr>\<rparr>"

lemma option_wait:
  "cs_last_exit_code (en_callback_state e) = None \<Longrightarrow> en_conditions e = [] \<Longrightarrow>
   \<exists>out e'. wait_for_event option_dbgeng t e = Some (Inr (Event out), e')"
proof -
  assume a: "cs_last_exit_code (en_callback_state e) = None" "en_conditions e = []"
  have "\<exists>out e'. wait_turn option_dbgeng t e = (Inr (Done (Event out)), e')"
    using a by (simp add: wait_turn_def option_dbgeng_def ebind_def com_op_def attempt_def resumed_def false_condition_def
        build_stop_outcome_def Let_def try_com_def eret_def exception_callback_def split: prod.split)
  then show ?thesis
    by (auto simp: wait_for_event_def wbind_returns quiet_op quiet_def wait_loop_def returns_def repeat_until_step(2)
        option_dbgeng_def dead_dbgeng_def)
qed

lemma option_attach: "\<exists>out e'. eng_attach_pid option_dbgeng 42 (engine_new False) = Some (Inr out, e')"
proof -
  let ?e = "(engine_new True)\<lparr>en_conditions := []\<rparr>"
  obtain out e1 where w: "wait_for_event option_dbgeng 10000 ?e = Some (Inr (Event out), e1)"
    using option_wait [of ?e 10000] by (auto simp: engine_new_def callback_state_new_def)
  have pre: "clear_conditions (engine_new False) = (Inr (), engine_new False)"
    "try_com (enable_debug_privilege (dg_host option_dbgeng)) (engine_new False) = (Inr (Inl E_FAIL), engine_new False)"
    "add_initial_break option_dbgeng (engine_new False) = (Inr (), ?e)"
    "com_op ''AttachProcess'' (AttachProcess (dg_client option_dbgeng) 42) ?e = (Inr (), ?e)"
    by (simp_all add: clear_conditions_def emodify_def engine_new_def try_com_def attempt_def option_dbgeng_def
        dead_dbgeng_def fails_def settle_def add_initial_break_def com_op_def callback_state_new_def)
  have w': "waited option_dbgeng 10000 ?e = Some (Inr (Inr (Event out)), e1)" using w by (simp add: waited_def)
  have removed: "try_com (RemoveEngineOptions (dg_control option_dbgeng) DEBUG_ENGOPT_INITIAL_BREAK) e1 =
      (Inr (Inr ()), settle [] False e1)"
    by (simp add: try_com_def attempt_def option_dbgeng_def)
  show ?thesis
    by (simp add: eng_attach_pid_def wbind_returns pre await_initial_break_def wbind_simps(1) w' removed
        initial_stop_def stop_within_def returns_def eret_def)
qed

lemma option_laws:
  "\<forall>d. \<exists>hs d'. RemoveEngineOptions (dg_control option_dbgeng) DEBUG_ENGOPT_INITIAL_BREAK d = (Inr (), hs, d') \<and> \<not> d'"
  "\<forall>i d. snd (snd (GetModuleByIndex (dg_symbols option_dbgeng) i d)) = d"
  "\<forall>i b n d. snd (snd (GetModuleNameString (dg_symbols option_dbgeng) i b n d)) = d"
  "\<forall>x d. snd (snd (Reload (dg_symbols option_dbgeng) x d)) = d"
  "\<forall>d. \<exists>hs d'. AddEngineOptions (dg_control option_dbgeng) DEBUG_ENGOPT_INITIAL_BREAK d = (Inr (), hs, d') \<and> d'"
  "\<forall>x y d. \<exists>err hs d'. CreateProcess2 (dg_client option_dbgeng) x y d = (Inl err, hs, d') \<and> d' = d"
  "\<forall>x d. \<exists>err hs d'. AttachKernel (dg_client option_dbgeng) x d = (Inl err, hs, d')"
  by (auto simp: option_dbgeng_def dead_dbgeng_def fails_def)

theorem initial_break_is_cleared_witness:
  "\<exists>out e'. eng_attach_pid option_dbgeng 42 (engine_new False) = Some (Inr out, e') \<and> \<not> en_com e'"
proof -
  obtain out e' where "eng_attach_pid option_dbgeng 42 (engine_new False) = Some (Inr out, e')"
    using option_attach by blast
  moreover from this have "\<not> en_com e'"
    using initial_break_is_cleared [OF option_laws(1-4)] by blast
  ultimately show ?thesis by blast
qed

text \<open>A launch that is refused leaves the initial break set, unlike a refused kernel connection, which takes
  it back: the launch returns before the option is removed.\<close>

theorem refused_launch_keeps_the_initial_break:
  assumes "\<forall>d. \<exists>hs d'. AddEngineOptions (dg_control dg) DEBUG_ENGOPT_INITIAL_BREAK d = (Inr (), hs, d') \<and> initial_break d'"
    and "\<forall>d. \<exists>hs d'. RemoveEngineOptions (dg_control dg) DEBUG_ENGOPT_INITIAL_BREAK d = (Inr (), hs, d') \<and> \<not> initial_break d'"
    and "\<forall>x y d. \<exists>err hs d'. CreateProcess2 (dg_client dg) x y d = (Inl err, hs, d') \<and> initial_break d' = initial_break d"
    and "\<forall>x d. \<exists>err hs d'. AttachKernel (dg_client dg) x d = (Inl err, hs, d')"
    and "\<not> has_nul connection"
  shows "(\<exists>err e'. eng_launch dg req e = Some (Inl err, e') \<and> initial_break (en_com e')) \<and>
    (\<exists>err e'. eng_attach_kernel dg connection e = Some (Inl err, e') \<and> \<not> initial_break (en_com e'))"
proof
  have add: "\<exists>e'. add_initial_break dg e = (Inr (), e') \<and> initial_break (en_com e')" for e
    using assms(1) [rule_format, of "en_com e"]
    by (auto simp: add_initial_break_def com_op_def attempt_def split: prod.split)
  have create: "\<exists>err e'. create_process dg req e = (Inl err, e') \<and> initial_break (en_com e') = initial_break (en_com e)" for e
    using assms(3) [rule_format, of "command_line req" "lr_cwd req" "en_com e"]
    by (auto simp: create_process_def eraise_def com_op_def attempt_def split: prod.split)
  let ?e = "e\<lparr>en_conditions := []\<rparr>"
  obtain e1 where e1: "add_initial_break dg ?e = (Inr (), e1)" "initial_break (en_com e1)" using add by blast
  obtain err e2 where e2: "create_process dg req e1 = (Inl err, e2)" "initial_break (en_com e2)"
    using create e1(2) by blast
  show "\<exists>err e'. eng_launch dg req e = Some (Inl err, e') \<and> initial_break (en_com e')"
    using e2 by (simp add: eng_launch_def wbind_returns clear_conditions_def emodify_def e1(1))
  obtain c m hs d where refused: "AttachKernel (dg_client dg) connection (en_com e1) = (Inl (c, m), hs, d)"
    using assms(4) by (metis surj_pair)
  obtain hs' d' where removed: "RemoveEngineOptions (dg_control dg) DEBUG_ENGOPT_INITIAL_BREAK d = (Inr (), hs', d')"
      "\<not> initial_break d'" using assms(2) by blast
  show "\<exists>err e'. eng_attach_kernel dg connection e = Some (Inl err, e') \<and> \<not> initial_break (en_com e')"
    using removed assms(5) refused
    by (simp add: eng_attach_kernel_def wbind_returns clear_conditions_def emodify_def e1(1) try_com_def attempt_def
        returns_def ebind_def raise_as_def)
qed

theorem refused_launch_keeps_the_initial_break_witness:
  "\<exists>err e'. eng_launch option_dbgeng \<lparr>lr_program = ''a.exe'', lr_args = [], lr_cwd = None\<rparr> (engine_new False) =
     Some (Inl err, e') \<and> en_com e'"
  using refused_launch_keeps_the_initial_break [OF option_laws(5,1,6,7), of "''net''"]
  by (simp add: has_nul_def)

section \<open>Disassembly\<close>

text \<open>A count of \<open>2^56\<close> or more kills the engine: the result list is allocated for as many instructions as
  were asked for, which panics on the engine's thread; the call is answered with a closed connection and so is
  every later one.\<close>

theorem huge_disassembly_kills_the_engine:
  assumes "eo_disassemble ops = eng_disassemble dg" and "parse_address address = Inr a"
    and "et_running (wd_thread w)" and "2 ^ 56 \<le> count"
    and "wd_disassemble ops address count w = (r, w')"
  shows "r = Inl Closed \<and> \<not> et_running (wd_thread w') \<and> engine_call cmd w' = (Inl Closed, w')"
proof -
  have "isize_max < 128 * max count 0" using assms(4) by (simp add: isize_max_def)
  then have "eng_disassemble dg a count e = (None, e)" for e by (simp add: eng_disassemble_def)
  then show ?thesis
    using assms by (auto simp: wd_disassemble_def engine_call_def dispatch_cmd_def)
qed

theorem huge_disassembly_kills_the_engine_witness:
  "\<forall>ops :: nat engine engine_ops. \<exists>w'.
     wd_disassemble (ops\<lparr>eo_disassemble := eng_disassemble dead_dbgeng\<rparr>) ''16'' (2 ^ 60) (windbg_new (engine_new 0) None) =
       (Inl Closed, w') \<and> \<not> et_running (wd_thread w')"
proof
  fix ops :: "nat engine engine_ops"
  let ?ops = "ops\<lparr>eo_disassemble := eng_disassemble dead_dbgeng\<rparr>" and ?w = "windbg_new (engine_new (0 :: nat)) None"
  have "show_nat 16 = ''16''" by (simp add: show_nat_def radix_digits.simps digit_char_def) code_simp
  then have "parse_address ''16'' = Inr 16" using parse_address_render [of 16] by (simp add: u64_max_def)
  moreover obtain r w' where "wd_disassemble ?ops ''16'' (2 ^ 60) ?w = (r, w')" by (rule prod.exhaust)
  ultimately show "\<exists>w'. wd_disassemble ?ops ''16'' (2 ^ 60) ?w = (Inl Closed, w') \<and> \<not> et_running (wd_thread w')"
    using huge_disassembly_kills_the_engine [where ops = ?ops and dg = dead_dbgeng and address = "''16''" and a = 16
        and w = ?w and count = "2 ^ 60" and r = r and w' = w' and cmd = "\<lambda>e. (Some (Inr ()), e)"]
    by (simp add: windbg_new_def)
qed

section \<open>Commands\<close>

text \<open>A command gives back what it put out and nothing else: \<open>execute\<close> answers with exactly the lines the
  engine emitted during the command, in order, whatever was captured before it; it leaves the buffer empty, and
  it fails only when the command failed without a line of output.\<close>

theorem command_output_is_its_own:
  assumes "\<not> has_nul command"
  shows "\<exists>d r hs d'. Execute (dg_control dg) DEBUG_OUTCTL_THIS_CLIENT command DEBUG_EXECUTE_DEFAULT d = (r, hs, d') \<and>
    (let lines = concat (map snd (concat (map output_line hs)))
     in cs_output (en_callback_state (snd (eng_execute dg command e))) = [] \<and>
        fst (eng_execute dg command e) =
          (case r of Inl (code, msg) \<Rightarrow> (if lines = [] then Inl (EE_Com ''Execute'' code msg) else Inr lines)
           | Inr _ \<Rightarrow> Inr lines))"
proof -
  have "\<exists>e1. ensure_extensions_loaded dg e = (Inr (), e1)"
    by (auto simp: ensure_extensions_loaded_def load_extensions_def Let_def ebind_def eret_def try_com_def
        split: prod.split sum.split)
  then obtain e1 where e1: "ensure_extensions_loaded dg e = (Inr (), e1)" by blast
  let ?e = "e1\<lparr>en_callback_state := (en_callback_state e1)\<lparr>cs_output := []\<rparr>\<rparr>"
  obtain r hs d' where x: "Execute (dg_control dg) DEBUG_OUTCTL_THIS_CLIENT command DEBUG_EXECUTE_DEFAULT (en_com e1) = (r, hs, d')"
    by (rule prod_cases3)
  define lines where "lines = concat (map snd (concat (map output_line hs)))"
  define e2 where "e2 = settle hs d' ?e"
  have out: "cs_output (en_callback_state e2) = lines"
    by (simp add: e2_def absorb_output lines_def)
  have "eng_execute dg command e =
      (case r of Inl (code, msg) \<Rightarrow> (if lines = [] then Inl (EE_Com ''Execute'' code msg) else Inr lines) | Inr _ \<Rightarrow> Inr lines,
       e2\<lparr>en_callback_state := (en_callback_state e2)\<lparr>cs_output := []\<rparr>\<rparr>)"
    using assms by (simp add: eng_execute_def ebind_def e1 take_output_def state_take_output_def try_com_def attempt_def x
        e2_def [symmetric] out eret_def split: sum.split prod.split)
  then show ?thesis using x unfolding lines_def by (auto simp: Let_def intro!: exI)
qed

definition echo_dbgeng :: "nat dbgeng" where
  "echo_dbgeng =
     dead_dbgeng\<lparr>dg_control := (dg_control dead_dbgeng)
       \<lparr>Execute := \<lambda>_ command _ d. (Inl E_FAIL, [On_Output 1 (Some command), On_Interrupt, On_Output 2 (Some ''!'')], d)\<rparr>\<rparr>"

theorem command_output_is_its_own_witness:
  "fst (eng_execute echo_dbgeng ''r'' (settle [On_Output 1 (Some ''stale'')] 0 (engine_new 0))) = Inr ''r!''"
proof -
  have "utf8_lossy ''r'' = ''r''" "utf8_lossy ''!'' = ''!''"
    by (rule utf8_lossy_id [OF utf8_ascii], simp add: ascii_def)+
  then have "concat (map snd (concat (map output_line
      [On_Output 1 (Some ''r''), On_Interrupt, On_Output 2 (Some ''!'')]))) = ''r!''"
    by (simp add: pcstr_to_string_def until_nul_def)
  then show ?thesis
    using command_output_is_its_own [of "''r''" echo_dbgeng "settle [On_Output 1 (Some ''stale'')] 0 (engine_new 0)"]
    by (simp add: has_nul_def echo_dbgeng_def E_FAIL_def Let_def)
qed

section \<open>The report of a crash\<close>

lemma continuation_step:
  assumes "utf8_step s = Some n"
  shows "n \<le> length s" "n \<le> 4" "n \<le> i \<Longrightarrow> utf8_step (take i s) = Some n"
    "0 < j \<Longrightarrow> j < n \<Longrightarrow> continuation (s ! j)"
proof -
  obtain c cs where s: "s = c # cs" using assms by (cases s) auto
  show "n \<le> length s" "n \<le> 4" using assms by (auto simp: s Let_def Suc_le_eq split: if_splits)
  show "n \<le> i \<Longrightarrow> utf8_step (take i s) = Some n"
    using assms by (cases i; cases cs) (auto simp: s Let_def hd_conv_nth split: if_splits)
  show "0 < j \<Longrightarrow> j < n \<Longrightarrow> continuation (s ! j)"
    using assms by (cases j; cases "j - 1"; cases "j - 2") (auto simp: s Let_def numeral_2_eq_2 split: if_splits)
qed

lemma utf8_first: "utf8 s \<Longrightarrow> s \<noteq> [] \<Longrightarrow> \<exists>n. utf8_step s = Some n \<and> utf8 (drop n s)"
  by (simp add: utf8.simps [of s] split: option.splits)

text \<open>Below every position of a text there is a boundary at most three bytes away.\<close>

lemma boundary_near:
  "utf8 s \<Longrightarrow> i \<le> length s \<Longrightarrow> \<exists>j \<le> i. i \<le> j + 3 \<and> is_char_boundary s j"
proof (induction s arbitrary: i rule: utf8.induct)
  case (1 s)
  show ?case
  proof (cases "s = []")
    case True
    then show ?thesis using 1(3) by (auto simp: is_char_boundary_def)
  next
    case False
    then obtain n where n: "utf8_step s = Some n" "utf8 (drop n s)" using utf8_first [OF 1(2)] by blast
    note step = continuation_step [OF n(1)]
    show ?thesis
    proof (cases "i < n")
      case True
      then show ?thesis using step(2) by (intro exI [of _ 0]) (auto simp: is_char_boundary_def)
    next
      case False
      then obtain j where j: "j \<le> i - n" "i - n \<le> j + 3" "is_char_boundary (drop n s) j"
        using 1(1) [OF \<open>s \<noteq> []\<close> n, of "i - n"] diff_le_mono [OF 1(3), of n] step(1) by auto
      show ?thesis
      proof (cases "j = 0")
        case True
        show ?thesis
        proof (cases "n = length s \<or> \<not> continuation (s ! n)")
          case True
          then show ?thesis using j \<open>j = 0\<close> False step(1)
            by (intro exI [of _ n]) (auto simp: is_char_boundary_def)
        next
          case cont: False
          then have "drop n s \<noteq> []" using step(1) by auto
          then obtain m where "utf8_step (drop n s) = Some m" using utf8_first [OF n(2)] by blast
          then have "\<not> continuation (drop n s ! 0)"
            using \<open>drop n s \<noteq> []\<close> by (cases "drop n s") (auto simp: Let_def continuation_def split: if_splits)
          then show ?thesis using cont step(1) by simp
        qed
      next
        case j0: False
        then show ?thesis using j False step(1)
          by (intro exI [of _ "n + j"]) (auto simp: is_char_boundary_def)
      qed
    qed
  qed
qed

lemma boundary_at_or_below:
  "boundary_at_or_below s m \<le> m \<and> is_char_boundary s (boundary_at_or_below s m) \<and>
   (\<forall>j \<le> m. is_char_boundary s j \<longrightarrow> j \<le> boundary_at_or_below s m)"
  by (induction m) (auto simp: is_char_boundary_def le_Suc_eq)

lemma utf8_take_boundary: "utf8 s \<Longrightarrow> is_char_boundary s i \<Longrightarrow> utf8 (take i s)"
proof (induction s arbitrary: i rule: utf8.induct)
  case (1 s)
  show ?case
  proof (cases "s = [] \<or> i = 0")
    case True
    then show ?thesis by (auto simp: utf8.simps)
  next
    case False
    then obtain n where n: "utf8_step s = Some n" "utf8 (drop n s)" using utf8_first [OF 1(2)] by blast
    note step = continuation_step [OF n(1)]
    have "n \<le> i" using 1(3) False step(1) step(4) [of i] by (force simp: is_char_boundary_def)
    then have "is_char_boundary (drop n s) (i - n)" using 1(3) by (auto simp: is_char_boundary_def)
    then have "utf8 (take (i - n) (drop n s))" using 1(1) [OF _ n] False by blast
    then show ?thesis
      using step(3) [OF \<open>n \<le> i\<close>] False by (subst utf8.simps) (simp add: drop_take)
  qed
qed

text \<open>C38: A crash report is capped: up to 32 KiB it is given as it is; a longer one is cut on a character
  boundary at most three bytes below the cap and marked, so that it is a prefix and still UTF-8.\<close>

theorem report_is_capped:
  assumes "eng_analyze dg e = (Inr out, e')"
  shows "\<exists>report e1 e2. eng_execute dg ''!analyze -v'' e1 = (Inr report, e2) \<and>
    (if length report \<le> 32768 then out = report
     else \<exists>k \<le> 32768. out = take k report @ truncation_marker \<and>
            (utf8 report \<longrightarrow> 32765 \<le> k \<and> utf8 (take k report)))"
proof -
  obtain e1 e2 report where run: "eng_execute dg ''!analyze -v'' e1 = (Inr report, e2)" and out: "out = truncate_output report"
    using assms by (auto simp: eng_analyze_def ebind_Inr eret_def)
  let ?k = "boundary_at_or_below report MAX_OUTPUT_SIZE"
  have "32765 \<le> ?k \<and> utf8 (take ?k report)" if u: "utf8 report" and long: "32768 < length report"
  proof
    obtain j where "j \<le> 32768" "32768 \<le> j + 3" "is_char_boundary report j"
      using boundary_near [OF u, of 32768] long by auto
    then show "32765 \<le> ?k" using boundary_at_or_below [of report MAX_OUTPUT_SIZE] by (force simp: MAX_OUTPUT_SIZE_def)
    show "utf8 (take ?k report)" using boundary_at_or_below utf8_take_boundary [OF u] by blast
  qed
  moreover have "?k \<le> 32768" using boundary_at_or_below [of report MAX_OUTPUT_SIZE] by (simp add: MAX_OUTPUT_SIZE_def)
  ultimately have "if length report \<le> 32768 then out = report
     else \<exists>k \<le> 32768. out = take k report @ truncation_marker \<and>
            (utf8 report \<longrightarrow> 32765 \<le> k \<and> utf8 (take k report))"
    by (auto simp: out truncate_output_def MAX_OUTPUT_SIZE_def)
  then show ?thesis using run by blast
qed

theorem report_is_capped_witness:
  "\<exists>out e'. eng_analyze echo_dbgeng (engine_new 0) = (Inr out, e') \<and> length out \<le> 32768 + length truncation_marker"
proof -
  obtain r e1 where x: "eng_execute echo_dbgeng ''!analyze -v'' ((engine_new 0)\<lparr>en_extensions_loaded := True\<rparr>) = (r, e1)"
    by (rule prod.exhaust)
  have "utf8_lossy ''!analyze -v'' = ''!analyze -v''" "utf8_lossy ''!'' = ''!''"
    by (rule utf8_lossy_id [OF utf8_ascii], simp add: ascii_def)+
  then have "\<exists>out. r = Inr out"
    using x by (auto simp: eng_execute_def has_nul_def ebind_def ensure_extensions_loaded_def take_output_def
        state_take_output_def try_com_def attempt_def echo_dbgeng_def E_FAIL_def output_callback_def
        pcstr_to_string_def until_nul_def record_output_def eret_def engine_new_def callback_state_new_def)
  then obtain out where a: "eng_analyze echo_dbgeng (engine_new 0) = (Inr out, e1)"
    using x by (auto simp: eng_analyze_def ebind_def ensure_extensions_loaded_def engine_new_def
        discover_debuggers_root_def echo_dbgeng_def dead_dbgeng_def discover_debuggers_root_with_def
        select_existing_root_def push_unique_def load_extensions_def eret_def)
  have "length out \<le> 32768 + length truncation_marker"
  proof -
    obtain report k where "out = report \<and> length report \<le> 32768 \<or> out = take k report @ truncation_marker \<and> k \<le> 32768"
      using report_is_capped [OF a] by (auto split: if_splits)
    then show ?thesis by auto
  qed
  then show ?thesis using a by blast
qed

section \<open>The debugger extensions\<close>

lemma find_push_unique:
  assumes "\<And>p q. same_path p q \<Longrightarrow> exists_p p = exists_p q"
  shows "find exists_p (push_unique c cs) = find exists_p (cs @ [c])"
  using assms by (auto simp: push_unique_def find_append find_None_iff split: option.split)

text \<open>The extensions are taken from the first directory that exists of the registry's two views, the
  environment and the default, in that order: leaving out what was already a candidate changes nothing, as long
  as two ways to write one path exist or do not exist together.\<close>

theorem extension_root_is_the_first:
  assumes "\<And>p q. same_path p q \<Longrightarrow> exists_p p = exists_p q"
  shows "discover_debuggers_root_with reg_reader env_sdk_dir exists_p =
    find exists_p
      (map debuggers_x64 (List.map_filter reg_reader [False, True]) @
       map debuggers_x64 (case env_sdk_dir of Some sdk \<Rightarrow> if sdk = [] then [] else [sdk] | None \<Rightarrow> []) @
       [default_root])"
  unfolding discover_debuggers_root_with_def select_existing_root_def Let_def
  by (auto simp: find_push_unique [OF assms] find_append List.map_filter_def split: option.split)

end
