(* ===== verification/Windbg_Engine.thy ===== *)
theory Windbg_Engine
  imports Dbgeng_Properties Windbg_Properties
begin

text \<open>
  The WinDbg backend on the engine handle: \<open>impl EngineOps for Engine\<close> of \<open>windbg-backend/src/engine_ops.rs\<close>.
  The backend's theorems suppose of the engine that its breakpoints are a pool (\<open>pool_engine\<close>); here the
  handle's own methods are shown to be one, from what DbgEng documents of its breakpoints.
\<close>

section \<open>The operations\<close>

text \<open>
  The operations that wait may not return; they are given by \<open>waits\<close>, which answers as the handle does
  whenever the handle returns.
\<close>

definition answered :: "('d, 'a) eng \<Rightarrow> ('d engine, 'a) engine_op" where
  "answered m e = (case m e of (r, e') \<Rightarrow> (Some r, e'))"

definition impl_engine_ops :: "'d dbgeng \<Rightarrow> 'd engine engine_ops \<Rightarrow> 'd engine engine_ops" where
  "impl_engine_ops dg waits =
     \<lparr>eo_launch = eo_launch waits,
      eo_attach_pid = eo_attach_pid waits,
      eo_detach = (\<lambda>terminate. answered (eng_detach dg terminate)),
      eo_go = eo_go waits,
      eo_step = eo_step waits,
      eo_break_in = eo_break_in waits,
      eo_set_breakpoint = (\<lambda>loc condition. answered (eng_set_breakpoint dg loc condition)),
      eo_remove_breakpoint = (\<lambda>i. answered (eng_remove_breakpoint dg i)),
      eo_list_breakpoints = answered (eng_list_breakpoints dg),
      eo_threads = answered (eng_threads dg),
      eo_stack_trace = (\<lambda>thread_id mx. answered (eng_stack_trace dg thread_id mx)),
      eo_locals = eng_locals dg,
      eo_evaluate = (\<lambda>expr. answered (eng_evaluate dg expr)),
      eo_read_memory = (\<lambda>address sz. answered (eng_read_memory dg address sz)),
      eo_disassemble = eng_disassemble dg,
      eo_execute = (\<lambda>command. answered (eng_execute dg command)),
      eo_modules = answered (eng_modules dg),
      eo_current_source_location = answered (current_source_location dg),
      eo_open_dump = eo_open_dump waits,
      eo_attach_kernel = eo_attach_kernel waits,
      eo_analyze = answered (eng_analyze dg),
      eo_interrupt = handle_interrupt\<rparr>"

definition waits_for :: "('d engine, 'a) engine_op \<Rightarrow> ('d, 'a) waiting \<Rightarrow> bool" where
  "waits_for op m \<longleftrightarrow> (\<forall>e r e'. m e = Some (r, e') \<longrightarrow> op e = (Some r, e'))"

definition waits_as :: "'d dbgeng \<Rightarrow> 'd engine engine_ops \<Rightarrow> bool" where
  "waits_as dg waits \<longleftrightarrow>
     (\<forall>req. waits_for (eo_launch waits req) (eng_launch dg req)) \<and>
     (\<forall>pid. waits_for (eo_attach_pid waits pid) (eng_attach_pid dg (word_of_nat pid))) \<and>
     (\<forall>t. waits_for (eo_go waits t) (eng_go dg (word_of_nat t))) \<and>
     (\<forall>kind. waits_for (eo_step waits kind) (eng_step dg kind)) \<and>
     waits_for (eo_break_in waits) (eng_break_in dg) \<and>
     (\<forall>path. waits_for (eo_open_dump waits path) (eng_open_dump dg path)) \<and>
     (\<forall>connection. waits_for (eo_attach_kernel waits connection) (eng_attach_kernel dg connection))"

section \<open>The breakpoints of DbgEng\<close>

text \<open>
  A view of the debugger's state: the ids in use, and the id behind a pointer to a breakpoint.  What is
  documented: a new breakpoint gets an id not in use, a breakpoint in use is found and removed, and
  nothing else that placing a breakpoint calls changes the view.
\<close>

type_synonym 'd id_view = "'d \<Rightarrow> 32 word set \<times> (bp_ptr \<Rightarrow> 32 word option)"

definition unchanged :: "'d id_view \<Rightarrow> ('d, 'a) com \<Rightarrow> bool" where
  "unchanged v call \<longleftrightarrow> (\<forall>d. v (snd (snd (call d))) = v d)"

definition undisturbed :: "'d dbgeng \<Rightarrow> 'd id_view \<Rightarrow> bool" where
  "undisturbed dg v \<longleftrightarrow>
     (let b = dg_breakpoints dg; s = dg_symbols dg
      in (\<forall>l f. unchanged v (GetOffsetByLine s l f)) \<and> (\<forall>n. unchanged v (GetOffsetByName s n)) \<and>
         unchanged v (GetNumberModules s) \<and> (\<forall>i base sz. unchanged v (GetModuleNameString s i base sz)) \<and>
         (\<forall>bp a. unchanged v (SetOffset b bp a)) \<and> (\<forall>bp f. unchanged v (AddFlags b bp f)) \<and>
         (\<forall>bp. unchanged v (GetId b bp)))"

definition adds_breakpoints :: "'d breakpoints \<Rightarrow> 'd id_view \<Rightarrow> bool" where
  "adds_breakpoints b v \<longleftrightarrow>
     (\<forall>d r hs d'. AddBreakpoint b d = (r, hs, d') \<longrightarrow>
        (case r of
           Inr bp \<Rightarrow> \<exists>i. i \<notin> fst (v d) \<and> fst (v d') = insert i (fst (v d)) \<and> snd (v d') bp = Some i
         | Inl _ \<Rightarrow> v d' = v d)) \<and>
     (\<forall>bp d i hs d'. GetId b bp d = (Inr i, hs, d') \<longrightarrow> snd (v d) bp = Some i)"

definition removes_breakpoints :: "'d breakpoints \<Rightarrow> 'd id_view \<Rightarrow> bool" where
  "removes_breakpoints b v \<longleftrightarrow>
     (\<forall>d i. i \<in> fst (v d) \<longrightarrow>
        (\<exists>bp hs d'. GetBreakpointById b i d = (Inr bp, hs, d') \<and> fst (v d') = fst (v d) \<and> snd (v d') bp = Some i)) \<and>
     (\<forall>bp d i. snd (v d) bp = Some i \<longrightarrow>
        (\<exists>hs d'. RemoveBreakpoint b bp d = (Inr (), hs, d') \<and> fst (v d') = fst (v d) - {i}))"

definition numbers_breakpoints :: "'d dbgeng \<Rightarrow> 'd id_view \<Rightarrow> bool" where
  "numbers_breakpoints dg v \<longleftrightarrow>
     undisturbed dg v \<and> adds_breakpoints (dg_breakpoints dg) v \<and> removes_breakpoints (dg_breakpoints dg) v"

section \<open>Placing and removing\<close>

text \<open>Methods that leave the view as it is.\<close>

definition keeps_view :: "'d id_view \<Rightarrow> ('d, 'a) eng \<Rightarrow> bool" where
  "keeps_view v m \<longleftrightarrow> (\<forall>e r e'. m e = (r, e') \<longrightarrow> v (en_com e') = v (en_com e))"

lemma keeps_viewD: "keeps_view v m \<Longrightarrow> m e = (r, e') \<Longrightarrow> v (en_com e') = v (en_com e)"
  unfolding keeps_view_def by blast

lemma keeps_view_rules:
  shows "unchanged v call \<Longrightarrow> keeps_view v (com_op ctxt call)" "unchanged v call \<Longrightarrow> keeps_view v (try_com call)"
    and "keeps_view v (eret a)" "keeps_view v (eraise msg)" "keeps_view v (\<lambda>e. (Inl err, e))"
  unfolding keeps_view_def unchanged_def
  by (auto simp: com_op_def try_com_def attempt_def eret_def eraise_def split: prod.splits sum.splits) (metis snd_conv)+

lemma keeps_view_ebind:
  "keeps_view v m \<Longrightarrow> (\<And>a. keeps_view v (f a)) \<Longrightarrow> keeps_view v (ebind m f)"
  unfolding keeps_view_def by (fastforce simp: ebind_def split: prod.splits sum.splits)

lemma undisturbedD:
  assumes "undisturbed dg v"
  shows "unchanged v (GetOffsetByLine (dg_symbols dg) l f)" "unchanged v (GetOffsetByName (dg_symbols dg) n)"
    "unchanged v (GetNumberModules (dg_symbols dg))" "unchanged v (GetModuleNameString (dg_symbols dg) i base sz)"
    "unchanged v (SetOffset (dg_breakpoints dg) bp a)" "unchanged v (AddFlags (dg_breakpoints dg) bp g)"
    "unchanged v (GetId (dg_breakpoints dg) bp)"
  using assms by (simp_all add: undisturbed_def Let_def)

lemma adds_breakpointsD:
  assumes "adds_breakpoints b v"
  shows "AddBreakpoint b d = (Inr bp, hs, d') \<Longrightarrow>
      \<exists>i. i \<notin> fst (v d) \<and> fst (v d') = insert i (fst (v d)) \<and> snd (v d') bp = Some i"
    and "AddBreakpoint b d = (Inl x, hs, d') \<Longrightarrow> v d' = v d"
    and "GetId b bp d = (Inr i, hs, d') \<Longrightarrow> snd (v d) bp = Some i"
proof -
  note add = assms [unfolded adds_breakpoints_def, THEN conjunct1, rule_format]
  show "AddBreakpoint b d = (Inr bp, hs, d') \<Longrightarrow>
      \<exists>i. i \<notin> fst (v d) \<and> fst (v d') = insert i (fst (v d)) \<and> snd (v d') bp = Some i"
    using add [of d "Inr bp" hs d'] by simp
  show "AddBreakpoint b d = (Inl x, hs, d') \<Longrightarrow> v d' = v d"
    using add [of d "Inl x" hs d'] by simp
  show "GetId b bp d = (Inr i, hs, d') \<Longrightarrow> snd (v d) bp = Some i"
    by (rule assms [unfolded adds_breakpoints_def, THEN conjunct2, rule_format])
qed

lemma keeps_view_condition: "keeps_view v (emodify (\<lambda>e. if c then e\<lparr>en_conditions := g e\<rparr> else e))"
  by (simp add: keeps_view_def emodify_def)

lemma resolve_keeps_view:
  assumes "undisturbed dg v"
  shows "keeps_view v (resolve_bp_loc dg loc)"
proof -
  note u = undisturbedD [OF assms]
  have module: "keeps_view v (module_name_at dg i)" for i
    unfolding module_name_at_def by (intro keeps_view_ebind keeps_view_rules u)
  have modules: "keeps_view v (resolve_in_modules dg name is)" for name "is"
    by (induction "is") (auto simp: Let_def intro!: keeps_view_ebind keeps_view_rules u module split: sum.split option.split)
  have "keeps_view v (resolve_function dg name)" for name
    unfolding resolve_function_def
    by (auto intro!: keeps_view_ebind keeps_view_rules u modules split: sum.split option.split prod.split)
  then show ?thesis
    by (cases loc) (auto intro!: keeps_view_ebind keeps_view_rules u)
qed

lemma ebindE:
  assumes "ebind m f e = (r, e')"
  obtains (err) x where "m e = (Inl x, e')" "r = Inl x" | (go_on) a e1 where "m e = (Inr a, e1)" "f a e1 = (r, e')"
  using assms by (auto simp: ebind_def split: prod.splits sum.splits)

lemma com_op_ran:
  "com_op ctxt call e = (Inr a, e') \<Longrightarrow> \<exists>hs d. call (en_com e) = (Inr a, hs, d) \<and> e' = settle hs d e"
  "com_op ctxt call e = (Inl err, e') \<Longrightarrow> \<exists>x hs d. call (en_com e) = (Inl x, hs, d) \<and> e' = settle hs d e"
  by (auto simp: com_op_def attempt_def split: prod.splits sum.splits)

text \<open>What follows the creation of a breakpoint leaves the view as it is, and gives the id it was created with.\<close>

lemma placed_id:
  assumes "undisturbed dg v" and "adds_breakpoints (dg_breakpoints dg) v"
    and "ebind (com_op ''SetOffset'' (SetOffset (dg_breakpoints dg) bp addr)) (\<lambda>_.
         ebind (com_op ''AddFlags(ENABLED)'' (AddFlags (dg_breakpoints dg) bp DEBUG_BREAKPOINT_ENABLED)) (\<lambda>_.
         ebind (com_op ''GetId'' (GetId (dg_breakpoints dg) bp)) f)) e = (r, e')"
    and "\<And>i. keeps_view v (f i)"
  shows "v (en_com e') = v (en_com e) \<and>
    (\<forall>b. r = Inr b \<longrightarrow> (\<exists>i e1. snd (v (en_com e)) bp = Some i \<and> f i e1 = (Inr b, e')))"
proof -
  note u = undisturbedD [OF assms(1)]
  have same: "v (en_com e') = v (en_com e)"
    using assms(3) by (rule keeps_viewD [rotated]) (intro keeps_view_ebind keeps_view_rules u assms(4))
  moreover have "\<exists>i e1. snd (v (en_com e)) bp = Some i \<and> f i e1 = (Inr b, e')" if r: "r = Inr b" for b
  proof -
    obtain e1 e2 e3 i u1 u2 where run: "com_op ''SetOffset'' (SetOffset (dg_breakpoints dg) bp addr) e = (Inr u1, e1)"
        "com_op ''AddFlags(ENABLED)'' (AddFlags (dg_breakpoints dg) bp DEBUG_BREAKPOINT_ENABLED) e1 = (Inr u2, e2)"
        "com_op ''GetId'' (GetId (dg_breakpoints dg) bp) e2 = (Inr i, e3)" "f i e3 = (Inr b, e')"
      using assms(3) unfolding r ebind_Inr by (elim exE conjE) (rule that; assumption)
    have "v (en_com e1) = v (en_com e)" "v (en_com e2) = v (en_com e1)"
      by (rule keeps_viewD [OF keeps_view_rules(1) [OF u(5)] run(1)], rule keeps_viewD [OF keeps_view_rules(1) [OF u(6)] run(2)])
    moreover obtain hs d where g: "GetId (dg_breakpoints dg) bp (en_com e2) = (Inr i, hs, d)"
      using com_op_ran(1) [OF run(3)] by blast
    ultimately have "snd (v (en_com e)) bp = Some i" using adds_breakpointsD(3) [OF assms(2) g] by simp
    then show ?thesis using run(4) by blast
  qed
  ultimately show ?thesis by blast
qed

text \<open>A breakpoint that is placed gets an id not in use; one that is not leaves the ids in use in use.\<close>

lemma eng_set_breakpoint_ids:
  assumes laws: "numbers_breakpoints dg v" and run: "eng_set_breakpoint dg loc condition e = (r, e')"
  shows "case r of
      Inr b \<Rightarrow> br_verified b \<and> (\<exists>i. br_id b = uint i \<and> i \<notin> fst (v (en_com e)) \<and> fst (v (en_com e')) = insert i (fst (v (en_com e))))
    | Inl _ \<Rightarrow> fst (v (en_com e)) \<subseteq> fst (v (en_com e'))"
proof -
  have u: "undisturbed dg v" and a: "adds_breakpoints (dg_breakpoints dg) v"
    using laws by (simp_all add: numbers_breakpoints_def)
  from run show ?thesis
    unfolding eng_set_breakpoint_def
  proof (cases rule: ebindE)
    case (err x)
    then show ?thesis using keeps_viewD [OF resolve_keeps_view [OF u]] by fastforce
  next
    case (go_on al e1)
    obtain addr line where al: "al = (addr, line)" by (rule prod.exhaust)
    have v1: "v (en_com e1) = v (en_com e)" by (rule keeps_viewD [OF resolve_keeps_view [OF u] go_on(1)])
    from go_on(2) show ?thesis
      unfolding al prod.case
    proof (cases rule: ebindE)
      case (err x)
      then obtain q hs d where "AddBreakpoint (dg_breakpoints dg) (en_com e1) = (Inl q, hs, d)" "e' = settle hs d e1"
        using com_op_ran(2) [OF err(1)] by blast
      then have "v (en_com e') = v (en_com e1)" using adds_breakpointsD(2) [OF a] by simp
      then show ?thesis using err v1 by simp
    next
      case (go_on bp e2)
      then obtain hs d where add: "AddBreakpoint (dg_breakpoints dg) (en_com e1) = (Inr bp, hs, d)" "e2 = settle hs d e1"
        using com_op_ran(1) [OF go_on(1)] by blast
      obtain i where i: "i \<notin> fst (v (en_com e))" "fst (v d) = insert i (fst (v (en_com e)))" "snd (v d) bp = Some i"
        using adds_breakpointsD(1) [OF a add(1)] v1 by auto
      have v2: "v (en_com e2) = v d" using add(2) by simp
      note p = placed_id [OF u a go_on(2) keeps_view_ebind [OF keeps_view_condition keeps_view_rules(3)]]
      have "v (en_com e') = v d" using p v2 by simp
      moreover have "br_verified b \<and> br_id b = uint i" if "r = Inr b" for b
        using p that i(3) unfolding v2 by (auto simp only: ebind_def emodify_def eret_def) (auto split: if_splits)
      ultimately show ?thesis using i by (cases r) auto
    qed
  qed
qed

lemma eng_remove_breakpoint_ids:
  assumes laws: "numbers_breakpoints dg v" and run: "eng_remove_breakpoint dg (uint i) e = (r, e')"
    and used: "i \<in> fst (v (en_com e))"
  shows "r = Inr () \<and> fst (v (en_com e')) = fst (v (en_com e)) - {i}"
proof -
  have rem: "removes_breakpoints (dg_breakpoints dg) v" using laws by (simp add: numbers_breakpoints_def)
  obtain bp hs d where found: "GetBreakpointById (dg_breakpoints dg) i (en_com e) = (Inr bp, hs, d)"
      "fst (v d) = fst (v (en_com e))" "snd (v d) bp = Some i"
    using rem used unfolding removes_breakpoints_def by metis
  obtain hs2 d2 where gone: "RemoveBreakpoint (dg_breakpoints dg) bp d = (Inr (), hs2, d2)" "fst (v d2) = fst (v d) - {i}"
    using rem found(3) unfolding removes_breakpoints_def by metis
  show ?thesis using run found(1,2) gone
    by (auto simp: eng_remove_breakpoint_def Let_def ebind_def com_op_def attempt_def emodify_def)
qed

section \<open>The pool\<close>

text \<open>
  DbgEng knows where a breakpoint is and not what was asked for.  A history beside the handle remembers which
  location each id was given for; it is read by no operation.  The pool is the part of it in use.
\<close>

type_synonym 'd run = "'d engine \<times> (i64 \<times> bp_loc) set"

definition placed :: "'d id_view \<Rightarrow> 'd run \<Rightarrow> (i64 \<times> bp_loc) set" where
  "placed v h = {p \<in> snd h. fst p \<in> uint ` fst (v (en_com (fst h)))}"

definition carry :: "('e, 'a) engine_op \<Rightarrow> ('e \<times> 'g, 'a) engine_op" where
  "carry op h = (case op (fst h) of (r, e) \<Rightarrow> (r, e, snd h))"

definition record_placed :: "'d id_view \<Rightarrow> bp_loc \<Rightarrow> ('d engine, breakpoint_result) engine_op \<Rightarrow> ('d run, breakpoint_result) engine_op" where
  "record_placed v loc op h =
     (case op (fst h) of (r, e) \<Rightarrow>
        (r, e, case r of Some (Inr b) \<Rightarrow> insert (br_id b, loc) (placed v h) | _ \<Rightarrow> placed v h))"

definition with_history :: "'d id_view \<Rightarrow> 'd engine engine_ops \<Rightarrow> 'd run engine_ops" where
  "with_history v ops =
     \<lparr>eo_launch = (\<lambda>req. carry (eo_launch ops req)),
      eo_attach_pid = (\<lambda>pid. carry (eo_attach_pid ops pid)),
      eo_detach = (\<lambda>t. carry (eo_detach ops t)),
      eo_go = (\<lambda>t. carry (eo_go ops t)),
      eo_step = (\<lambda>k. carry (eo_step ops k)),
      eo_break_in = carry (eo_break_in ops),
      eo_set_breakpoint = (\<lambda>loc c. record_placed v loc (eo_set_breakpoint ops loc c)),
      eo_remove_breakpoint = (\<lambda>i. carry (eo_remove_breakpoint ops i)),
      eo_list_breakpoints = carry (eo_list_breakpoints ops),
      eo_threads = carry (eo_threads ops),
      eo_stack_trace = (\<lambda>t m. carry (eo_stack_trace ops t m)),
      eo_locals = (\<lambda>i. carry (eo_locals ops i)),
      eo_evaluate = (\<lambda>x. carry (eo_evaluate ops x)),
      eo_read_memory = (\<lambda>a n. carry (eo_read_memory ops a n)),
      eo_disassemble = (\<lambda>a n. carry (eo_disassemble ops a n)),
      eo_execute = (\<lambda>c. carry (eo_execute ops c)),
      eo_modules = carry (eo_modules ops),
      eo_current_source_location = carry (eo_current_source_location ops),
      eo_open_dump = (\<lambda>p. carry (eo_open_dump ops p)),
      eo_attach_kernel = (\<lambda>c. carry (eo_attach_kernel ops c)),
      eo_analyze = carry (eo_analyze ops),
      eo_interrupt = map_prod (eo_interrupt ops) id\<rparr>"

lemma pool_of_engine:
  assumes laws: "numbers_breakpoints dg v"
  shows "pool_engine (with_history v (impl_engine_ops dg waits)) (placed v)"
  unfolding pool_engine_def
proof (intro conjI allI impI)
  fix loc c h r h'
  assume "eo_set_breakpoint (with_history v (impl_engine_ops dg waits)) loc c h = (r, h')"
  then obtain q e where run: "eng_set_breakpoint dg loc c (fst h) = (q, e)" "r = Some q"
      "h' = (e, case q of Inr b \<Rightarrow> insert (br_id b, loc) (placed v h) | _ \<Rightarrow> placed v h)"
    by (auto simp: with_history_def impl_engine_ops_def record_placed_def answered_def split: prod.splits sum.splits)
  have ids: "case q of
      Inr b \<Rightarrow> br_verified b \<and> (\<exists>i. br_id b = uint i \<and> i \<notin> fst (v (en_com (fst h))) \<and>
        fst (v (en_com e)) = insert i (fst (v (en_com (fst h)))))
    | Inl _ \<Rightarrow> fst (v (en_com (fst h))) \<subseteq> fst (v (en_com e))"
    by (rule eng_set_breakpoint_ids [OF laws run(1)])
  show "case r of
      Some (Inr b) \<Rightarrow> br_verified b \<and> br_id b \<notin> fst ` placed v h \<and> placed v h' = insert (br_id b, loc) (placed v h)
    | _ \<Rightarrow> placed v h' = placed v h"
  proof (cases q)
    case (Inl x)
    then show ?thesis using run(2,3) ids by (auto simp: placed_def)
  next
    case (Inr b)
    then obtain i where i: "br_verified b" "br_id b = uint i" "i \<notin> fst (v (en_com (fst h)))"
        "fst (v (en_com e)) = insert i (fst (v (en_com (fst h))))"
      using ids by auto
    have "uint i \<notin> uint ` fst (v (en_com (fst h)))" using i(3) by (metis imageE word_uint_eq_iff)
    then show ?thesis using i run(2,3) Inr by (auto simp: placed_def)
  qed
next
  fix i h r h'
  assume used: "i \<in> fst ` placed v h"
    and "eo_remove_breakpoint (with_history v (impl_engine_ops dg waits)) i h = (r, h')"
  then obtain q e where run: "eng_remove_breakpoint dg i (fst h) = (q, e)" "r = Some q" "h' = (e, snd h)"
    by (auto simp: with_history_def impl_engine_ops_def carry_def answered_def split: prod.splits)
  obtain j where j: "i = uint j" "j \<in> fst (v (en_com (fst h)))" using used by (auto simp: placed_def)
  have "q = Inr () \<and> fst (v (en_com e)) = fst (v (en_com (fst h))) - {j}"
    by (rule eng_remove_breakpoint_ids [OF laws run(1) [unfolded j(1)] j(2)])
  moreover have "uint ` (A - {j}) = uint ` A - {i}" for A :: "32 word set"
    using image_set_diff [of uint A "{j}"] j(1) by (simp add: inj_def word_uint_eq_iff)
  ultimately show "case r of
      Some (Inr _) \<Rightarrow> placed v h' = {p \<in> placed v h. fst p \<noteq> i}
    | Some (Inl _) \<Rightarrow> False
    | None \<Rightarrow> placed v h' = placed v h"
    using run(2,3) by (auto simp: placed_def)
qed

text \<open>The history is read by no operation: without it a call gives the same answer and the same engine.\<close>

definition forget :: "('e \<times> 'g) windbg \<Rightarrow> 'e windbg" where
  "forget w = \<lparr>wd_thread = \<lparr>et_engine = fst (wd_engine w), et_running = wd_running w\<rparr>,
     wd_target_pid = wd_target_pid w, wd_table = wd_table w\<rparr>"

definition forgets :: "('e \<times> 'g, 'a) engine_op \<Rightarrow> ('e, 'a) engine_op \<Rightarrow> bool" where
  "forgets op' op \<longleftrightarrow> (\<forall>h. op (fst h) = (fst (op' h), fst (snd (op' h))))"

lemma forgets_carry: "forgets (carry op) op"
  by (auto simp: forgets_def carry_def split: prod.split)

lemma forgets_record: "forgets (record_placed v loc op) op"
  by (auto simp: forgets_def record_placed_def split: prod.split)

lemma forget_call:
  assumes "forgets op' op"
  shows "engine_call op (forget w) = map_prod id forget (engine_call op' w)"
  using assms [unfolded forgets_def, rule_format, of "wd_engine w"]
  by (auto simp: engine_call_def dispatch_cmd_def forget_def Let_def split: prod.splits option.splits sum.splits)

lemma forget_table [simp]:
  "wd_table (forget w) = wd_table w" "forget (w\<lparr>wd_table := t\<rparr>) = (forget w)\<lparr>wd_table := t\<rparr>"
  by (simp_all add: forget_def)

lemma forget_remove:
  "remove_engine_breakpoint ops i (forget w) =
   map_prod id forget (remove_engine_breakpoint (with_history v ops) i w)"
proof -
  have f: "forgets (eo_remove_breakpoint (with_history v ops) i) (eo_remove_breakpoint ops i)"
    by (simp add: with_history_def forgets_carry)
  show ?thesis
    by (auto simp: remove_engine_breakpoint_def forget_call [OF f] split: prod.splits sum.splits backend_error.splits)
qed

lemma forget_reconcile_add:
  "reconcile_add ops prior slots p (forget w) = map_prod id forget (reconcile_add (with_history v ops) prior slots p w)"
proof (induction slots arbitrary: p w)
  case (Cons s slots)
  have f: "forgets (eo_set_breakpoint (with_history v ops) loc c) (eo_set_breakpoint ops loc c)" for loc c
    by (simp add: with_history_def forgets_record)
  show ?case
    by (cases s) (auto simp: Let_def Cons.IH forget_call [OF f] split: option.split prod.split sum.split)
qed simp

lemma forget_reconcile_remove:
  "reconcile_remove ops desired prior (forget w) = map_prod id forget (reconcile_remove (with_history v ops) desired prior w)"
proof (induction prior arbitrary: w)
  case (Cons e prior)
  obtain key old where "e = (key, old)" by (rule prod.exhaust)
  then show ?case by (auto simp: Cons.IH forget_remove [of ops _ _ v] split: prod.split sum.split)
qed simp

lemma forget_source_breakpoints:
  "wd_set_source_breakpoints ops file bps (forget w) =
   map_prod id forget (wd_set_source_breakpoints (with_history v ops) file bps w)"
  by (auto simp: wd_set_source_breakpoints_def reconcile_def forget_reconcile_add [of ops _ _ _ _ v]
      forget_reconcile_remove [of ops _ _ _ v] Let_def split: prod.split sum.split)

section \<open>The backend on the engine handle\<close>

text \<open>C39: The backend's table agrees with DbgEng itself, for the ids above 0.  On the engine's own operations, supposing
  of DbgEng what \<open>numbers_breakpoints\<close> says of it (a new breakpoint gets an id that is not in use, no other call touches
  the ids, and removing a breakpoint that is in use succeeds and frees its id), the history of a fresh backend agrees with
  its table, and a \<open>setBreakpoints\<close> of distinct lines that succeeds keeps the agreement, whatever the file's tracked
  breakpoints are: every breakpoint with an id above 0 that the table then names is in use in DbgEng under that id, no two
  under one id, and the file's lines are among those asked for.  The id 0, which DbgEng gives first, is outside the claim:
  the backend reads it as no breakpoint and never removes it.\<close>

theorem tracked_breakpoints_are_in_dbgeng:
  assumes "numbers_breakpoints dg v" and "table_exact_on (\<lambda>i. 0 < i) (above_zero (placed v)) h"
    and "distinct (map sb_line bps)"
    and "wd_set_source_breakpoints (impl_engine_ops dg waits) file bps (forget h) = (Inr results, w')"
  shows "table_exact_on (\<lambda>i. 0 < i) (above_zero (placed v)) (windbg_new (e, {}) pid) \<and>
    (\<exists>h'. forget h' = w' \<and> table_exact_on (\<lambda>i. 0 < i) (above_zero (placed v)) h') \<and>
    (\<forall>f line r. map_of (source_prior f (wd_table w')) line = Some r \<longrightarrow> 0 < br_id r \<longrightarrow>
       br_id r \<in> uint ` fst (v (en_com (wd_engine w')))) \<and>
    (\<forall>f line r f' line' r'. map_of (source_prior f (wd_table w')) line = Some r \<longrightarrow>
       map_of (source_prior f' (wd_table w')) line' = Some r' \<longrightarrow> 0 < br_id r \<longrightarrow> br_id r = br_id r' \<longrightarrow>
       f = f' \<and> line = line') \<and>
    set (map fst (source_prior file (wd_table w'))) \<subseteq> {n. \<exists>bp \<in> set bps. as_u32 (sb_line bp) = Some n}"
proof -
  let ?ops = "with_history v (impl_engine_ops dg waits)" and ?placed = "above_zero (placed v)"
  obtain h' where run: "wd_set_source_breakpoints ?ops file bps h = (Inr results, h')" and w': "w' = forget h'"
    using assms(4) unfolding forget_source_breakpoints [of _ _ _ _ v]
    by (cases "wd_set_source_breakpoints ?ops file bps h") auto
  have "\<forall>(line, r) \<in> set (source_prior file (wd_table h)). 0 < br_id r \<longleftrightarrow> 0 < br_id r" by simp
  note all = source_lines.replace_all [OF pool_engine_above_zero [OF pool_of_engine [OF assms(1)]] assms(2) this
      source_keys_distinct [OF assms(3)] run [unfolded wd_set_source_breakpoints_def]]
  have exact: "table_exact_on (\<lambda>i. 0 < i) ?placed h'" by (rule all(1))
  have entry: "(br_id r, Loc_FileLine f line) \<in> ?placed (wd_engine h')"
    if "map_of (source_prior f (wd_table h')) line = Some r" "0 < br_id r" for f line r
  proof -
    have "tracked_on (\<lambda>i. 0 < i) (Loc_FileLine f) (source_prior f (wd_table h')) (?placed (wd_engine h'))"
      using exact unfolding table_exact_on_def by blast
    from trackedD [OF this that(1)] that(2) show ?thesis by simp
  qed
  have inj: "inj_on fst (?placed (wd_engine h'))" using exact unfolding table_exact_on_def by blast
  have "f = f' \<and> line = line'" if "map_of (source_prior f (wd_table h')) line = Some r"
      "map_of (source_prior f' (wd_table h')) line' = Some r'" "0 < br_id r" "br_id r = br_id r'" for f line r f' line' r'
    using inj_onD [OF inj, of "(br_id r, Loc_FileLine f line)" "(br_id r', Loc_FileLine f' line')"] entry [OF that(1,3)]
      entry [OF that(2)] that(3,4) by simp
  moreover have "br_id r \<in> uint ` fst (v (en_com (fst (wd_engine h'))))"
    if "map_of (source_prior f (wd_table h')) line = Some r" "0 < br_id r" for f line r
    using entry [OF that] by (simp add: placed_def)
  moreover have "table_exact_on (\<lambda>i. 0 < i) ?placed (windbg_new (e, {}) pid)"
    by (simp add: table_exact_on_def tracked_on_def placed_def windbg_new_def source_prior_def)
  moreover have "set (map fst (source_prior file (wd_table h'))) \<subseteq> {n. \<exists>bp \<in> set bps. as_u32 (sb_line bp) = Some n}"
    using all(4) by (simp add: source_keys)
  moreover have "\<exists>h'. forget h' = w' \<and> table_exact_on (\<lambda>i. 0 < i) ?placed h'" using exact w' by blast
  moreover have "wd_engine w' = fst (wd_engine h')" "wd_table w' = wd_table h'" by (simp_all add: w' forget_def)
  ultimately show ?thesis by simp
qed

text \<open>A debugger with four ids.\<close>

definition shelf_dbgeng :: "32 word list dbgeng" where
  "shelf_dbgeng =
     dead_dbgeng\<lparr>dg_breakpoints := (dg_breakpoints dead_dbgeng)
         \<lparr>AddBreakpoint := \<lambda>d. case find (\<lambda>i. i \<notin> set d) [1, 2, 3, 4] of
            Some i \<Rightarrow> (Inr (unat i), [], i # d) | None \<Rightarrow> (Inl E_FAIL, [], d),
          SetOffset := \<lambda>_ _ d. (Inr (), [], d), AddFlags := \<lambda>_ _ d. (Inr (), [], d),
          GetId := \<lambda>bp d. (Inr (word_of_nat bp), [], d),
          GetBreakpointById := \<lambda>i d. (if i \<in> set d then (Inr (unat i), [], d) else (Inl E_FAIL, [], d)),
          RemoveBreakpoint := \<lambda>bp d. (Inr (), [], filter (\<lambda>i. i \<noteq> word_of_nat bp) d)\<rparr>,
       dg_symbols := (dg_symbols dead_dbgeng)\<lparr>GetOffsetByLine := \<lambda>_ _ d. (Inr 0x401000, [], d)\<rparr>\<rparr>"

definition shelf_view :: "32 word list id_view" where
  "shelf_view d = (set d, \<lambda>bp. Some (word_of_nat bp))"

lemma shelf_numbers: "numbers_breakpoints shelf_dbgeng shelf_view"
  unfolding numbers_breakpoints_def
proof (intro conjI)
  show "undisturbed shelf_dbgeng shelf_view"
    by (simp add: undisturbed_def Let_def unchanged_def shelf_dbgeng_def dead_dbgeng_def fails_def)
  show "adds_breakpoints (dg_breakpoints shelf_dbgeng) shelf_view"
    by (auto simp: adds_breakpoints_def shelf_dbgeng_def dead_dbgeng_def shelf_view_def split: option.splits
        dest!: find_SomeD)
  show "removes_breakpoints (dg_breakpoints shelf_dbgeng) shelf_view"
    by (auto simp: removes_breakpoints_def shelf_dbgeng_def dead_dbgeng_def shelf_view_def)
qed

definition shelf_start :: "32 word list run windbg" where
  "shelf_start = windbg_new (engine_new [], {}) None"

lemma shelf_call:
  "\<exists>w'. wd_set_source_breakpoints (impl_engine_ops shelf_dbgeng waits) ''a.c'' [demo_bp 10, demo_bp 20] (forget shelf_start) =
     (Inr [(demo_result 1)\<lparr>br_line := 10\<rparr>, (demo_result 2)\<lparr>br_line := 20\<rparr>], w') \<and>
     set (en_com (wd_engine w')) = {1, 2}"
  by (simp add: demo_run impl_engine_ops_def answered_def eng_set_breakpoint_def shelf_dbgeng_def dead_dbgeng_def
      ebind_def com_op_def attempt_def eret_def emodify_def forget_def windbg_new_def engine_new_def has_nul_def shelf_start_def insert_commute)

theorem tracked_breakpoints_are_in_dbgeng_witness:
  "\<forall>waits. \<exists>h. table_exact_on (\<lambda>i. 0 < i) (above_zero (placed shelf_view)) h \<and> set (en_com (wd_engine (forget h))) = {1, 2} \<and>
     wd_set_source_breakpoints (impl_engine_ops shelf_dbgeng waits) ''a.c'' [demo_bp 10, demo_bp 20] (forget shelf_start) =
     (Inr [(demo_result 1)\<lparr>br_line := 10\<rparr>, (demo_result 2)\<lparr>br_line := 20\<rparr>], forget h)"
proof
  fix waits :: "32 word list engine engine_ops"
  have start: "table_exact_on (\<lambda>i. 0 < i) (above_zero (placed shelf_view)) shelf_start"
    by (simp add: table_exact_on_def tracked_on_def placed_def windbg_new_def source_prior_def shelf_start_def)
  obtain w' where run: "wd_set_source_breakpoints (impl_engine_ops shelf_dbgeng waits) ''a.c'' [demo_bp 10, demo_bp 20]
       (forget shelf_start) = (Inr [(demo_result 1)\<lparr>br_line := 10\<rparr>, (demo_result 2)\<lparr>br_line := 20\<rparr>], w')"
    and ids: "set (en_com (wd_engine w')) = {1, 2}"
    using shelf_call by blast
  from tracked_breakpoints_are_in_dbgeng [OF shelf_numbers start _ run]
  have "\<exists>h'. forget h' = w' \<and> table_exact_on (\<lambda>i. 0 < i) (above_zero (placed shelf_view)) h'"
    by (simp add: demo_bp_def)
  then show "\<exists>h. table_exact_on (\<lambda>i. 0 < i) (above_zero (placed shelf_view)) h \<and> set (en_com (wd_engine (forget h))) = {1, 2} \<and>
     wd_set_source_breakpoints (impl_engine_ops shelf_dbgeng waits) ''a.c'' [demo_bp 10, demo_bp 20] (forget shelf_start) =
     (Inr [(demo_result 1)\<lparr>br_line := 10\<rparr>, (demo_result 2)\<lparr>br_line := 20\<rparr>], forget h)"
    using run ids by auto
qed

section \<open>A condition that changes\<close>

lemma reuse_prior:
  assumes "\<forall>bp \<in> set bps. sb_line bp = int line" and "line < 2 ^ 32"
  shows "pg_map p \<in> {[], [(line, r)]} \<Longrightarrow> \<exists>p'. reconcile_add ops [(line, r)] (map (source_slot file) bps) p w = (Inr p', w) \<and>
    pg_results p' = pg_results p @ map (\<lambda>_. r) bps \<and>
    pg_map p' = (if bps = [] then pg_map p else [(line, r)]) \<and> (bps \<noteq> [] \<or> line \<in> set (pg_desired p) \<longrightarrow> line \<in> set (pg_desired p'))"
  using assms(1)
proof (induction bps arbitrary: p)
  case (Cons bp bps)
  let ?p = "p\<lparr>pg_desired := line # pg_desired p, pg_results := pg_results p @ [r], pg_map := [(line, r)]\<rparr>"
  have "as_u32 (sb_line bp) = Some line" using Cons.prems(2) assms(2) by (simp add: as_u32_Some)
  then have step: "reconcile_add ops [(line, r)] (map (source_slot file) (bp # bps)) p w =
      reconcile_add ops [(line, r)] (map (source_slot file) bps) ?p w"
    using Cons.prems(1) by (auto simp: Let_def)
  show ?case unfolding step using Cons.IH [of ?p] Cons.prems(2) by (auto simp del: source_slot.simps)
qed simp

text \<open>C40: A condition is never changed: asking again for a breakpoint on a line that has one, with whatever conditions,
  sends the engine nothing and answers with the old breakpoint, as if the new condition were in force; which of its
  hits stop the target is still decided by the condition it was first set with.\<close>

theorem changed_condition_is_ignored:
  assumes "source_prior file (wd_table w) = [(line, r)]" and "line < 2 ^ 32"
    and "bps \<noteq> []" and "\<forall>bp \<in> set bps. sb_line bp = int line"
    and "wd_set_source_breakpoints (impl_engine_ops dg waits) file bps w = (results, w')"
  shows "results = Inr (map (\<lambda>_. r) bps) \<and> wd_engine w' = wd_engine w \<and>
    source_prior file (wd_table w') = [(line, r)] \<and>
    (\<forall>h. stops_at (en_conditions (wd_engine w')) h \<longleftrightarrow> stops_at (en_conditions (wd_engine w)) h)"
proof -
  obtain p' where add: "reconcile_add (impl_engine_ops dg waits) [(line, r)] (map (source_slot file) bps)
        \<lparr>pg_desired = [], pg_results = [], pg_map = []\<rparr> w = (Inr p', w)"
      "pg_results p' = map (\<lambda>_. r) bps" "pg_map p' = [(line, r)]" "line \<in> set (pg_desired p')"
    using reuse_prior [OF assms(4,2), of "\<lparr>pg_desired = [], pg_results = [], pg_map = []\<rparr>" r] assms(3) by fastforce
  then show ?thesis
    using assms(1,5) by (auto simp: wd_set_source_breakpoints_def reconcile_def source_prior_commit)
qed

theorem changed_condition_is_ignored_witness:
  "\<forall>waits. \<exists>w w'. en_conditions (wd_engine w) = [(7, ''i == 2'')] \<and>
     wd_set_source_breakpoints (impl_engine_ops (loop_dbgeng 5) waits) ''a.c'' [\<lparr>sb_line = 10, sb_condition = ''i == 1''\<rparr>] w =
       (Inr [demo_result 7], w') \<and> stops_at (en_conditions (wd_engine w')) (loop_hit 5)"
proof
  fix waits :: "nat engine engine_ops"
  let ?w = "\<lparr>wd_thread = \<lparr>et_engine = loop_engine, et_running = True\<rparr>, wd_target_pid = None,
      wd_table = \<lparr>bt_source = [(''a.c'', [(10, demo_result 7)])], bt_function = []\<rparr>\<rparr>"
    and ?bps = "[\<lparr>sb_line = 10, sb_condition = ''i == 1''\<rparr>]"
  obtain results w' where run: "wd_set_source_breakpoints (impl_engine_ops (loop_dbgeng 5) waits) ''a.c'' ?bps ?w = (results, w')"
    by (rule prod.exhaust)
  have "results = Inr [demo_result 7] \<and> wd_engine w' = loop_engine"
    using changed_condition_is_ignored [OF _ _ _ _ run, of 10 "demo_result 7"] by (auto simp: source_prior_def)
  then show "\<exists>w w'. en_conditions (wd_engine w) = [(7, ''i == 2'')] \<and>
     wd_set_source_breakpoints (impl_engine_ops (loop_dbgeng 5) waits) ''a.c'' ?bps w =
       (Inr [demo_result 7], w') \<and> stops_at (en_conditions (wd_engine w')) (loop_hit 5)"
    using run by (intro exI [of _ ?w] exI [of _ w']) (simp add: loop_engine_def loop_condition)
qed

end
