(* ===== verification/Windows_Properties.thy ===== *)
theory Windows_Properties
  imports Windbg_Server Windbg_Engine Breakpoint_Properties
begin

text \<open>What holds from the tools down to the engine: the server of the Windows binary on the WinDbg backend.\<close>

section \<open>Breakpoints\<close>



















section \<open>The end of the engine's thread\<close>

text \<open>The tools that cannot answer without the engine.\<close>

definition engine_tools :: "string set" where
  "engine_tools = {''continue'', ''step_over'', ''step_into'', ''step_out'', ''threads'', ''backtrace'', ''evaluate'',
     ''read_memory'', ''disassemble'', ''run_command'', ''analyze_crash'', ''get_modules''}"

lemma dead_call: "\<not> wd_running b \<Longrightarrow> engine_call cmd b = (Inl Closed, b)"
  by (simp add: engine_call_def)

lemma dead_requests:
  assumes "\<not> wd_running b"
  shows "b_cont (windbg_ops ops procs) h tid b = (Inl Closed, b)" "b_step (windbg_ops ops procs) h k tid g b = (Inl Closed, b)"
    "b_threads (windbg_ops ops procs) h b = (Inl Closed, b)" "b_stack_trace (windbg_ops ops procs) h tid st lv b = (Inl Closed, b)"
    "b_evaluate (windbg_ops ops procs) h x fr m b = (Inl Closed, b)" "b_analyze (windbg_ops ops procs) h b = (Inl Closed, b)"
    "b_modules (windbg_ops ops procs) h b = (Inl Closed, b)"
    "b_read_memory (windbg_ops ops procs) h ad c b = (Inl (case parse_address ad of Inl e \<Rightarrow> e | Inr _ \<Rightarrow> Closed), b)"
    "b_disassemble (windbg_ops ops procs) h ad c b = (Inl (case parse_address ad of Inl e \<Rightarrow> e | Inr _ \<Rightarrow> Closed), b)"
  by (auto simp: wd_requests dead_call [OF assms] Let_def split: eval_mode.split sum.split)

lemma dead_resume:
  assumes "\<not> wd_running b" and "s_state (sv_session sv) = Stopped"
  shows "\<exists>e. resume op_err msg kind (windbg_ops ops procs) None a sv b = (Error e, sv, b)"
proof -
  have "on_session (set_state Stopped) (on_session (set_state Running) sv) = sv"
    using assms(2) by (simp add: on_session_def set_state_def)
  moreover have "run_backend (windbg_ops ops procs) h kind tid g b = (Inl Closed, b)" for h kind tid g
    by (cases kind) (simp_all add: dead_requests [OF assms(1)])
  ultimately show ?thesis
    using assms(2) by (auto simp: resume_def resume_begin_def resume_finish_def select_call_def check_state_def Let_def split: tool_splits)
qed

lemma dead_tools:
  assumes dead: "\<not> wd_running b" and stopped: "s_state (sv_session sv) = Stopped" and name: "name \<in> engine_tools"
  shows "\<exists>e. dispatch ho (windbg_ops ops procs) None name a sv b = (Error e, sv, b)"
proof -
  note dead' = dead_requests [OF dead, where ops = ops and procs = procs]
  have st: "check_state [Stopped] (sv_session sv) = Inr ()" using stopped by (simp add: check_state_def)
  have target: "disassemble_target (windbg_ops ops procs) h address s b = (r, b1) \<Longrightarrow> b1 = b" for h address s r b1
    by (auto simp: disassemble_target_def dead' split: if_splits)
  have disassemble: "\<exists>e. handle_disassemble (windbg_ops ops procs) a sv b = (Error e, sv, b)"
  proof (cases "sv_backend sv")
    case (Some h)
    obtain r where r: "disassemble_target (windbg_ops ops procs) h (get_string a ''address'' []) (sv_session sv) b = (r, b)"
      using target by (metis prod.exhaust)
    show ?thesis
    proof (cases r)
      case (Inr t)
      obtain ad pc where t: "t = (ad, pc)" by (rule prod.exhaust)
      show ?thesis using Some r Inr t st dead'(9) by (simp add: handle_disassemble_def Let_def)
    qed (use Some r st in \<open>simp add: handle_disassemble_def Let_def\<close>)
  qed (simp add: handle_disassemble_def st)
  have memory: "\<exists>e. handle_read_memory (windbg_ops ops procs) a sv b = (Error e, sv, b)"
    by (auto simp: handle_read_memory_def st dead' Let_def split: sum.split option.split)
  have frame: "resolve_frame_id (windbg_ops ops procs) h i s b = (r, s', b') \<Longrightarrow> s' = s \<and> b' = b" for h i s r s' b'
    by (auto simp: resolve_frame_id_def dead' split: option.splits)
  have evaluate: "\<exists>e. handle_evaluate (windbg_ops ops procs) a sv b = (Error e, sv, b)"
    by (auto simp: handle_evaluate_def st dead' Let_def split: sum.split option.split prod.split dest!: frame)
  have others: "\<exists>e. handle_threads (windbg_ops ops procs) a sv b = (Error e, sv, b)"
    "\<exists>e. handle_backtrace (windbg_ops ops procs) a sv b = (Error e, sv, b)"
    "\<exists>e. handle_run_command (windbg_ops ops procs) a sv b = (Error e, sv, b)"
    "\<exists>e. handle_analyze_crash (windbg_ops ops procs) a sv b = (Error e, sv, b)"
    "\<exists>e. handle_get_modules (windbg_ops ops procs) a sv b = (Error e, sv, b)"
    by (auto simp: handle_threads_def handle_backtrace_def handle_run_command_def handle_analyze_crash_def handle_get_modules_def
        st dead' Let_def split: sum.split option.split)
  have resumed: "\<exists>e. resume op_err msg kind (windbg_ops ops procs) None a sv b = (Error e, sv, b)" for op_err msg kind
    by (rule dead_resume [OF dead stopped])
  show ?thesis
    using name unfolding engine_tools_def
    by (elim insertE emptyE) (simp_all only: dispatch_def quiet_tool_defs resumed disassemble memory evaluate others simp_thms if_True if_False list.inject char.inject list.distinct)
qed

text \<open>C14: One call ends a session.  A \<open>disassemble\<close> for \<open>2 ^ 56\<close> instructions or more panics on the engine's thread,
  which allocates the list before it reads the first.  The client is told that the connection is closed; the session
  still says that it is stopped; from then on the twelve tools of \<open>engine_tools\<close>, which cannot answer without the engine
  (the four that resume, threads, backtrace, evaluate, memory, disassembly, raw commands, crash analysis and modules),
  answer with an error and change neither session nor backend; \<open>disconnect\<close> still answers and leaves an idle server.
  The breakpoint tools and \<open>variables\<close> are not among the twelve: they can answer from what the session and the table
  hold.\<close>

theorem huge_disassembly_ends_the_session:
  assumes "eo_disassemble ops = eng_disassemble dg" and "s_state (sv_session sv) = Stopped"
    and "sv_backend sv = Some ()" and "wd_running b"
    and "get_string a ''address'' [] = address" and "address \<noteq> []" and "parse_address (normalize_hex address) = Inr n"
    and "get_f64 a ''instruction_count'' = Some f" and "2 ^ 56 \<le> f64_as_i64 f"
  shows "\<exists>b'. dispatch ho (windbg_ops ops procs) None ''disassemble'' a sv b =
      (Error ''disassemble request failed: connection closed'', sv, b') \<and> \<not> wd_running b' \<and>
    (\<forall>name \<in> engine_tools. \<forall>a. \<exists>e. dispatch ho (windbg_ops ops procs) None name a sv b' = (Error e, sv, b')) \<and>
    (\<forall>a. \<exists>out sv' b''. dispatch ho (windbg_ops ops procs) None ''disconnect'' a sv b' = (out, sv', b'') \<and> \<not> is_error out \<and>
      s_state (sv_session sv') = Idle \<and> sv_backend sv' = None)"
proof -
  let ?b = "b\<lparr>wd_thread := \<lparr>et_engine = wd_engine b, et_running = False\<rparr>\<rparr>"
  have pos: "0 < f"
  proof (rule ccontr)
    assume "\<not> 0 < f"
    then have "trunc_rat f \<le> 0" by (auto simp: trunc_rat_def)
    then show False using assms(9) by (simp add: f64_as_i64_def i64_min_def i64_max_def)
  qed
  have "isize_max < 128 * max (f64_as_i64 f) 0" using assms(9) by (simp add: isize_max_def)
  then have kill: "wd_disassemble ops (normalize_hex address) (f64_as_i64 f) b = (Inl Closed, ?b)"
    using assms(1,4,7) by (simp add: wd_disassemble_def engine_call_def dispatch_cmd_def eng_disassemble_def)
  have "dispatch ho (windbg_ops ops procs) None ''disassemble'' a sv b =
      (Error ''disassemble request failed: connection closed'', sv, ?b)"
    using assms(2,3,5,6,8) pos kill
    by (simp add: dispatch_def handle_disassemble_def check_state_def disassemble_target_def positive_or_def windbg_ops_def
        DISASSEMBLE_def Let_def)
  moreover have "\<exists>out sv' b''. dispatch ho (windbg_ops ops procs) None ''disconnect'' a sv ?b = (out, sv', b'') \<and> \<not> is_error out \<and>
      s_state (sv_session sv') = Idle \<and> sv_backend sv' = None" for a
    using assms(2) by (simp add: dispatch_def handle_disconnect_def disconnect_begin_def disconnect_finish_def check_state_def
        drop_backend_bounded_def rb_into_outcome_def Let_def)
  moreover have "\<forall>name \<in> engine_tools. \<forall>a. \<exists>e. dispatch ho (windbg_ops ops procs) None name a sv ?b = (Error e, sv, ?b)"
    using dead_tools [of ?b sv] assms(2) by simp
  ultimately show ?thesis by (intro exI [of _ ?b]) simp
qed

definition huge_args :: args where
  "huge_args = [(''address'', JStr ''0x10''), (''instruction_count'', JNum (Float (2 ^ 60)))]"

theorem huge_disassembly_ends_the_session_witness:
  "\<forall>ops :: nat engine engine_ops. \<exists>b' sv. s_state (sv_session sv) = Stopped \<and>
     dispatch demo_host (windbg_ops (ops\<lparr>eo_disassemble := eng_disassemble dead_dbgeng\<rparr>) (\<lambda>_. [])) None ''disassemble'' huge_args
       sv (windbg_new (engine_new 0) None) = (Error ''disassemble request failed: connection closed'', sv, b') \<and> \<not> wd_running b'"
proof
  fix ops :: "nat engine engine_ops"
  let ?ops = "ops\<lparr>eo_disassemble := eng_disassemble dead_dbgeng\<rparr>"
  let ?sv = "set_backend () ''windbg'' (on_session (set_state Stopped) (server_new session_new (registry_new ''windbg''))) :: (unit, nat engine windbg) server"
  have "show_hex 16 = ''10''" by (simp add: show_hex_def radix_digits.simps digit_char_def) code_simp
  then have "parse_address (normalize_hex ''0x10'') = Inr 16"
    using parse_address_render [of 16] by (simp add: u64_max_def normalize_hex_def starts_with_def)
  moreover have "(2 :: int) ^ 56 \<le> f64_as_i64 (2 ^ 60)"
    by (simp add: f64_as_i64_def trunc_rat_def i64_min_def i64_max_def)
  moreover have "get_string huge_args ''address'' [] = ''0x10''" "get_f64 huge_args ''instruction_count'' = Some (2 ^ 60)"
    by (simp_all add: huge_args_def get_string_def get_f64_def)
  moreover have state: "s_state (sv_session ?sv) = Stopped" by (simp add: set_state_def)
  moreover have "sv_backend ?sv = Some ()" "wd_running (windbg_new (engine_new 0) None)"
    "eo_disassemble ?ops = eng_disassemble dead_dbgeng" "''0x10'' \<noteq> []"
    by (simp_all add: windbg_new_def)
  ultimately obtain b' where "dispatch demo_host (windbg_ops ?ops (\<lambda>_. [])) None ''disassemble'' huge_args ?sv
      (windbg_new (engine_new 0) None) = (Error ''disassemble request failed: connection closed'', ?sv, b')" "\<not> wd_running b'"
    using huge_disassembly_ends_the_session by metis
  then show "\<exists>b' sv. s_state (sv_session sv) = Stopped \<and>
     dispatch demo_host (windbg_ops ?ops (\<lambda>_. [])) None ''disassemble'' huge_args
       sv (windbg_new (engine_new 0) None) = (Error ''disassemble request failed: connection closed'', sv, b') \<and> \<not> wd_running b'"
    using state by (intro exI [of _ b'] exI [of _ ?sv]) simp
qed

end
