(* ===== verification/Told_Server.thy ===== *)
theory Told_Server
  imports Tool_Shapes Debug_Mcp
begin

text \<open>
  What the debugger has been told.  DAP replaces the breakpoints of a file as a whole, so the list the session
  keeps and the last list the debugger took have to be the same, or a later request loses breakpoints or brings
  removed ones back.  The contract of a backend that takes lists, and the runs of the server on such a backend.
\<close>

section \<open>The contract\<close>

text \<open>
  \<open>told w f bps\<close> says that \<open>bps\<close> is the list last taken for \<open>f\<close>.  Where what was taken is no longer known,
  everything counts as told.  An answer that is no error means that the list was taken; at least one result
  comes for a list that is not empty, and none is a refusal.
\<close>

definition untold :: "('w \<Rightarrow> string \<Rightarrow> source_bp list \<Rightarrow> bool) \<Rightarrow> ('w \<Rightarrow> function_bp list \<Rightarrow> bool) \<Rightarrow> 'w \<Rightarrow> bool" where
  "untold told told_functions w \<longleftrightarrow> (\<forall>f. told w f []) \<and> told_functions w []"

locale telling_backend =
  fixes ops :: "('h, 'w) backend_ops"
    and told :: "'w \<Rightarrow> string \<Rightarrow> source_bp list \<Rightarrow> bool"
    and told_functions :: "'w \<Rightarrow> function_bp list \<Rightarrow> bool"
  assumes steady_source: "steady_world ops (\<lambda>w. told w f l)"
    and steady_functions: "steady_world ops (\<lambda>w. told_functions w fl)"
    and repl: "b_evaluate ops h x fr EvalRepl w = (re, w') \<Longrightarrow>
      (told w f l \<longrightarrow> told w' f l) \<and> (told_functions w fl \<longrightarrow> told_functions w' fl)"
    and take_source: "b_set_source_breakpoints ops h f bps w = (Inr results, w') \<Longrightarrow>
      told w' f bps \<and> (bps \<noteq> [] \<longrightarrow> results \<noteq> [] \<or> (\<forall>f l fl. told w' f l \<and> told_functions w' fl))"
    and keep_source: "b_set_source_breakpoints ops h f bps w = (rs, w') \<Longrightarrow>
      (g \<noteq> f \<or> (\<exists>e. rs = Inl e) \<longrightarrow> told w g l \<longrightarrow> told w' g l) \<and> (told_functions w fl \<longrightarrow> told_functions w' fl)"
    and take_functions: "b_set_function_breakpoints ops h fbs w = (Inr results, w') \<Longrightarrow>
      told_functions w' fbs \<and> (\<forall>b \<in> set results. \<not> br_rejected b)"
    and keep_functions: "b_set_function_breakpoints ops h fbs w = (rs, w') \<Longrightarrow>
      (told w f l \<longrightarrow> told w' f l) \<and> ((\<exists>e. rs = Inl e) \<longrightarrow> told_functions w fl \<longrightarrow> told_functions w' fl)"
    and take_launch: "b_launch ops h spec w = (Inr lo, w') \<Longrightarrow> hm_ok (ls_source_breakpoints spec) \<Longrightarrow>
      untold told told_functions w \<Longrightarrow>
      told w' f (hm_list (ls_source_breakpoints spec) f) \<and> told_functions w' (ls_function_breakpoints spec)"
    and keep_attach: "b_attach ops h aspec w = (ra, w') \<Longrightarrow> untold told told_functions w \<Longrightarrow> untold told told_functions w'"
    and keep_dump: "b_open_dump ops h path w = (rd, w') \<Longrightarrow> untold told told_functions w \<Longrightarrow> untold told told_functions w'"
    and keep_kernel: "b_attach_kernel ops h conn w = (ra, w') \<Longrightarrow> untold told told_functions w \<Longrightarrow> untold told told_functions w'"

section \<open>Session and debugger\<close>

definition told_session :: "('w \<Rightarrow> string \<Rightarrow> source_bp list \<Rightarrow> bool) \<Rightarrow> ('w \<Rightarrow> function_bp list \<Rightarrow> bool) \<Rightarrow> session \<Rightarrow> 'w \<Rightarrow> bool" where
  "told_session told told_functions s w \<longleftrightarrow>
     (\<forall>f. told w f (source_breakpoints_for_file f s)) \<and> told_functions w (s_function_bps s)"

text \<open>The kinds of breakpoint the session records are the two it removes again.\<close>

definition known_kinds :: "session \<Rightarrow> bool" where
  "known_kinds s \<longleftrightarrow> (\<forall>i info. breakpoint_info_of i s = Some info \<longrightarrow> bi_ty info = ''source'' \<or> bi_ty info = ''function'')"

definition told_server :: "('w \<Rightarrow> string \<Rightarrow> source_bp list \<Rightarrow> bool) \<Rightarrow> ('w \<Rightarrow> function_bp list \<Rightarrow> bool) \<Rightarrow>
    ('h, 'w) server \<Rightarrow> 'w \<Rightarrow> bool" where
  "told_server told told_functions sv w \<longleftrightarrow>
     (sv_backend sv \<noteq> None \<longrightarrow> told_session told told_functions (sv_session sv) w) \<and> known_kinds (sv_session sv) \<and>
     (s_state (sv_session sv) = Idle \<longrightarrow> s_source_bps (sv_session sv) = [] \<and> s_function_bps (sv_session sv) = [])"

text \<open>Every debugger that the registry can connect has been told nothing.\<close>

definition connects_untold :: "('w \<Rightarrow> string \<Rightarrow> source_bp list \<Rightarrow> bool) \<Rightarrow> ('w \<Rightarrow> function_bp list \<Rightarrow> bool) \<Rightarrow>
    ('h, 'w) registry \<Rightarrow> bool" where
  "connects_untold told told_functions reg \<longleftrightarrow>
     (\<forall>f \<in> snd ` set (reg_factories reg). \<forall>w h w'. fac_connect f w = (Inr h, w') \<longrightarrow> untold told told_functions w')"

text \<open>Runs without cancelled calls: calls one after the other, and events of the pumps between them.\<close>

inductive told_run :: "host \<Rightarrow> ('h, 'w) backend_ops \<Rightarrow> ('h, 'w) registry \<Rightarrow> ('h, 'w) server \<Rightarrow> 'w \<Rightarrow> bool" for ho ops reg where
  told_start: "told_run ho ops reg (server_new session_new reg) w"
| told_call: "told_run ho ops reg sv w \<Longrightarrow> dispatch ho ops None name a sv w = (out, sv', w') \<Longrightarrow> told_run ho ops reg sv' w'"
| told_pump: "told_run ho ops reg sv w \<Longrightarrow> (h, g) \<in> set (sv_pumps sv) \<Longrightarrow> told_run ho ops reg (on_session (pump_event g e) sv) w"

section \<open>What each tool leaves\<close>

context telling_backend
begin

abbreviation "tells \<equiv> told_session told told_functions"
abbreviation "tells_server \<equiv> told_server told told_functions"

lemma tells_lists:
  "tells s w \<Longrightarrow> (\<And>f. source_breakpoints_for_file f s' = source_breakpoints_for_file f s) \<Longrightarrow>
   s_function_bps s' = s_function_bps s \<Longrightarrow> tells s' w"
  by (simp add: told_session_def)

lemma tells_pending:
  "tells s w \<Longrightarrow> tells (add_pending_source_breakpoint fl line c s) w"
  "tells s w \<Longrightarrow> tells (add_pending_function_breakpoint n c s) w"
  by (auto intro!: tells_lists [of s] simp: source_breakpoints_for_file_def)

text \<open>A list that is taken, and a request that fails.\<close>

lemma tells_source:
  assumes "b_set_source_breakpoints ops h fl bps w = (Inr results, w')" and "tells s w"
    and "source_breakpoints_for_file fl s' = bps"
    and "\<And>g. g \<noteq> fl \<Longrightarrow> source_breakpoints_for_file g s' = source_breakpoints_for_file g s" "s_function_bps s' = s_function_bps s"
  shows "tells s' w'"
  using take_source [OF assms(1)] keep_source [OF assms(1)] assms(2-) unfolding told_session_def by metis

lemma tells_functions:
  assumes "b_set_function_breakpoints ops h fbs w = (Inr results, w')" and "tells s w" and "s_function_bps s' = fbs"
    and "\<And>g. source_breakpoints_for_file g s' = source_breakpoints_for_file g s"
  shows "tells s' w'"
  using take_functions [OF assms(1)] keep_functions [OF assms(1)] assms(2-) unfolding told_session_def by metis

lemma tells_failed:
  "b_set_source_breakpoints ops h fl bps w = (Inl e, w') \<Longrightarrow> tells s w \<Longrightarrow> tells s w'"
  "b_set_function_breakpoints ops h fbs w = (Inl e, w') \<Longrightarrow> tells s w \<Longrightarrow> tells s w'"
  using keep_source keep_functions unfolding told_session_def by blast+

lemma kinds_recorded: "known_kinds s \<Longrightarrow> bi_ty info = ''source'' \<or> bi_ty info = ''function'' \<Longrightarrow>
    known_kinds (add_breakpoint_response info s)"
  by (auto simp: known_kinds_def breakpoint_info_of_def add_breakpoint_response_def)

lemma kinds_removed: "known_kinds s \<Longrightarrow> known_kinds (snd (remove_breakpoint_by_id i s))"
  by (auto simp: known_kinds_def breakpoint_info_of_def remove_breakpoint_by_id_def Let_def split: option.split)

lemma kinds_responses: "s_bp_responses s' = s_bp_responses s \<Longrightarrow> known_kinds s' = known_kinds s"
  by (simp add: known_kinds_def breakpoint_info_of_def)

lemma set_breakpoint_tells:
  assumes inv: "tells_server sv w" and run: "handle_set_breakpoint ops a sv w = (out, sv', w')"
  shows "tells_server sv' w'"
proof -
  have taken: "tells (add_breakpoint_response i (snd (add_source_breakpoint fl line c s))) w'"
    if "b_set_source_breakpoints ops h fl (source_breakpoints_for_file fl s @ [\<lparr>sb_line = line, sb_condition = c\<rparr>]) w = (Inr results, w')"
      "tells s w" for h fl line c results s i
    by (rule tells_source [OF that]) (simp_all add: source_breakpoints_for_file_def)
  have unmatched: "tells s w'"
    if "b_set_source_breakpoints ops h fl (bps @ [bp]) w = (Inr results, w')" "match_breakpoint line results = None" for h fl bps bp results line s
    using take_source [OF that(1)] that(2) by (auto simp: match_breakpoint_def told_session_def split: option.splits if_splits)
  have kinds: "known_kinds (snd (add_source_breakpoint fl line c s)) = known_kinds s"
    "known_kinds (add_pending_source_breakpoint fl line c s) = known_kinds s" for fl line c s
    by (rule kinds_responses; simp add: add_source_breakpoint_def add_pending_source_breakpoint_def Let_def)+
  show ?thesis
    using run inv
    by (auto simp: handle_set_breakpoint_def told_server_def Let_def kinds intro!: kinds_recorded
        intro: taken unmatched tells_failed tells_pending split: tool_splits)
qed

lemma set_function_tells:
  assumes inv: "tells_server sv w" and run: "handle_set_function_breakpoint ops a sv w = (out, sv', w')"
  shows "tells_server sv' w'"
proof -
  have taken: "tells s' w'"
    if "b_set_function_breakpoints ops h (s_function_bps s @ [\<lparr>fb_name = n, fb_condition = c\<rparr>]) w = (Inr results, w')"
      "tells s w" "s_function_bps s' = s_function_bps s @ [\<lparr>fb_name = n, fb_condition = c\<rparr>]" "s_source_bps s' = s_source_bps s"
    for h n c results s s'
    by (rule tells_functions [OF that(1-3)]) (simp add: source_breakpoints_for_file_def that(4))
  have accepted: "\<not> br_rejected (last results)"
    if "b_set_function_breakpoints ops h fbs w = (Inr results, w')" "results \<noteq> []" for h fbs results
    using take_functions [OF that(1)] that(2) by simp
  have kinds: "known_kinds (snd (add_function_breakpoint n c s)) = known_kinds s"
    "known_kinds (add_pending_function_breakpoint n c s) = known_kinds s" for n c s
    by (rule kinds_responses; simp add: add_function_breakpoint_def add_pending_function_breakpoint_def Let_def)+
  show ?thesis
    using run inv
    by (auto simp: handle_set_function_breakpoint_def told_server_def Let_def kinds dest: accepted intro!: kinds_recorded
        intro: taken tells_failed tells_pending split: tool_splits)
qed

lemma remove_tells:
  assumes inv: "tells_server sv w" and run: "handle_remove_breakpoint ops a sv w = (out, sv', w')"
  shows "tells_server sv' w'"
  using run
proof (cases rule: remove_cases)
  case (failed h info e)
  then show ?thesis
    using inv by (auto simp: told_server_def send_remaining_def intro: tells_failed split: if_splits prod.splits sum.splits)
next
  case (removed h i info)
  let ?s = "sv_session sv" and ?s' = "snd (remove_breakpoint_by_id i (sv_session sv))"
  have kind: "bi_ty info = ''source'' \<or> bi_ty info = ''function''"
    using inv removed(3) by (simp add: told_server_def known_kinds_def)
  have before: "tells ?s w" using inv removed(2) by (simp add: told_server_def)
  have "tells ?s' w'"
  proof (cases "bi_ty info = ''function''")
    case True
    then obtain results where "b_set_function_breakpoints ops h (remaining_function_breakpoints (s_function_bps ?s) info) w = (Inr results, w')"
      using removed(4) by (auto simp: send_remaining_def split: prod.splits sum.splits)
    then show ?thesis
      by (rule tells_functions [OF _ before])
        (use True removed(3) in \<open>auto simp: remove_breakpoint_by_id_def breakpoint_info_of_def remaining_function_breakpoints_def
           source_breakpoints_for_file_def Let_def\<close>)
  next
    case False
    then obtain results where "b_set_source_breakpoints ops h (bi_file info)
        (remaining_source_breakpoints (source_breakpoints_for_file (bi_file info) ?s) info) w = (Inr results, w')"
      using removed(4) by (auto simp: send_remaining_def split: prod.splits sum.splits)
    then show ?thesis
      by (rule tells_source [OF _ before])
        (use False kind removed(3) in \<open>auto simp: remove_breakpoint_by_id_def breakpoint_info_of_def remaining_source_breakpoints_def
           source_breakpoints_for_file_def hm_list_def remove_position_eq Let_def split: option.splits\<close>)
  qed
  then show ?thesis
    using inv removed(1,2,5) kinds_removed [of ?s i] by (simp add: told_server_def)
qed (use inv in simp)

lemma tells_same:
  assumes "tells_server sv w" and "same_breakpoints sv sv'" and "tells (sv_session sv) w \<Longrightarrow> tells (sv_session sv) w'"
  shows "tells_server sv' w'"
proof -
  have lists: "s_source_bps (sv_session sv') = s_source_bps (sv_session sv)" "s_function_bps (sv_session sv') = s_function_bps (sv_session sv)"
      "s_bp_responses (sv_session sv') = s_bp_responses (sv_session sv)" "sv_backend sv' = sv_backend sv"
      "s_state (sv_session sv') = Idle \<longleftrightarrow> s_state (sv_session sv) = Idle"
    using assms(2) by (auto simp: same_breakpoints_def bp_lists_def)
  then show ?thesis
    using assms(1,3) kinds_responses [OF lists(3)] tells_lists [of "sv_session sv" w' "sv_session sv'"]
    by (auto simp: told_server_def source_breakpoints_for_file_def)
qed

lemma quiet_tells:
  assumes "tells_server sv w" and name: "name \<in> quiet_tools" and run: "dispatch ho ops None name a sv w = (out, sv', w')"
  shows "tells_server sv' w'"
proof (rule tells_same [OF assms(1) quiet_breakpoints [OF name run]])
  show "tells (sv_session sv) w'" if "tells (sv_session sv) w"
    using that steady_world.quiet_keeps [OF steady_source name run] steady_world.quiet_keeps [OF steady_functions name run]
    unfolding told_session_def by blast
qed

lemma run_command_tells:
  assumes "tells_server sv w" and run: "handle_run_command ops a sv w = (out, sv', w')"
  shows "tells_server sv' w'"
proof (rule tells_same [OF assms(1) run_command_tool.reads_breakpoints [OF run]])
  show "tells (sv_session sv) w'" if "tells (sv_session sv) w"
    using that run unfolding told_session_def
    by (auto simp: handle_run_command_def dest: repl split: tool_splits)
qed

text \<open>A connect point that ends without a debugger, or with one that was told what the session lists.\<close>

lemma kinds_reset [simp]: "known_kinds (reset s)"
  by (simp add: known_kinds_def breakpoint_info_of_def reset_def reset_inner_def drain_output_def Let_def split: prod.split)

lemma ended_tells [simp]: "tells_server (abort_connect sv) w" "tells_server (cleanup_after_cancel sv) w"
  by (simp_all add: told_server_def)

lemma connect_point_tells:
  assumes factories: "connects_untold told told_functions (sv_registry sv)"
    and run: "connect_point (r0, sv1) request finish w = (out, sv', w')"
    and begun: "case r0 of Inl _ \<Rightarrow> tells_server sv1 w | Inr (_, f) \<Rightarrow> f \<in> snd ` set (reg_factories (sv_registry sv))"
    and made: "\<And>p f h w1 q sv2. r0 = Inr (p, f) \<Longrightarrow> untold told told_functions w1 \<Longrightarrow> request p h w1 = (q, w') \<Longrightarrow>
      sv_backend sv2 = Some h \<Longrightarrow> sv_session sv2 = sv_session sv1 \<Longrightarrow> finish p f h w' (Some q) sv2 = (out, sv') \<Longrightarrow>
      tells_server sv' w'"
  shows "tells_server sv' w'"
proof (cases r0)
  case (Inl o1)
  then show ?thesis using run begun by (simp add: connect_point_def)
next
  case (Inr pf)
  obtain p f where pf: "pf = (p, f)" by (rule prod.exhaust)
  obtain c w1 where c: "fac_connect f w = (c, w1)" by (rule prod.exhaust)
  obtain r sv2 where r: "connect_stage f c sv1 = (r, sv2)" by (rule prod.exhaust)
  from r show ?thesis
  proof (cases rule: connect_stage_cases)
    case (failed e o1)
    then have "sv' = abort_connect sv1" using run Inr pf c r by (simp add: connect_point_def)
    then show ?thesis by simp
  next
    case (connected h)
    have fresh: "untold told told_functions w1"
      using factories begun c connected(1) Inr pf unfolding connects_untold_def by auto
    obtain q w2 where q: "request p h w1 = (q, w2)" by (rule prod.exhaust)
    obtain o2 sv3 where fin: "finish p f h w2 (Some q) sv2 = (o2, sv3)" by (rule prod.exhaust)
    have "out = o2" "sv' = sv3" "w' = w2"
      using run Inr pf c r connected q fin by (auto simp: connect_point_def select_call_def)
    then show ?thesis using made [OF _ fresh, of p f h q sv2] Inr pf q connected fin by simp
  qed
qed

lemma selected_registered:
  "select_backend ho r sv = Inr f \<Longrightarrow> f \<in> snd ` set (reg_factories (sv_registry sv))"
  by (auto simp: select_backend_def select_with_env_def hm_get_def Let_def split: option.splits if_splits
      dest!: map_of_SomeD intro!: rev_image_eqI)

lemma tells_untold:
  "untold told told_functions w \<Longrightarrow> s_source_bps s = [] \<Longrightarrow> s_function_bps s = [] \<Longrightarrow> tells s w"
  by (simp add: untold_def told_session_def source_breakpoints_for_file_def)

lemma begin_tells:
  assumes "tells_server sv w"
  shows "launch_begin ho a sv = (r1, sv1) \<Longrightarrow>
      (case r1 of Inl _ \<Rightarrow> tells_server sv1 w | Inr (_, f) \<Rightarrow> f \<in> snd ` set (reg_factories (sv_registry sv)))"
    "attach_begin ho a sv = (r2, sv1) \<Longrightarrow>
      (case r2 of Inl _ \<Rightarrow> tells_server sv1 w | Inr (_, f) \<Rightarrow> f \<in> snd ` set (reg_factories (sv_registry sv)))"
    "dump_begin ho a sv = (r3, sv1) \<Longrightarrow>
      (case r3 of Inl _ \<Rightarrow> tells_server sv1 w | Inr (_, f) \<Rightarrow> f \<in> snd ` set (reg_factories (sv_registry sv)))"
    "kernel_begin ho a sv = (r3, sv1) \<Longrightarrow>
      (case r3 of Inl _ \<Rightarrow> tells_server sv1 w | Inr (_, f) \<Rightarrow> f \<in> snd ` set (reg_factories (sv_registry sv)))"
  using assms
  by (auto simp: launch_begin_def attach_begin_def dump_begin_def kernel_begin_def Let_def
      dest: selected_registered split: tool_splits)

lemma finished_tells:
  assumes inv: "tells_server sv w" and idle: "s_state (sv_session sv) = Idle \<and> bp_lists (sv_session sv1) = bp_lists (sv_session sv)"
    and sv2: "sv_session sv2 = sv_session sv1" and fresh: "untold told told_functions w'"
    and fin: "sv' = cleanup_after_cancel sv2 \<or> s_state (sv_session sv') \<noteq> Idle \<and> bp_lists (sv_session sv') = bp_lists (sv_session sv2)"
  shows "tells_server sv' w'"
  using fin
proof
  assume after: "s_state (sv_session sv') \<noteq> Idle \<and> bp_lists (sv_session sv') = bp_lists (sv_session sv2)"
  then have lists: "s_source_bps (sv_session sv') = []" "s_function_bps (sv_session sv') = []"
      "s_bp_responses (sv_session sv') = s_bp_responses (sv_session sv)"
    using inv idle sv2 by (auto simp: told_server_def bp_lists_def)
  then show ?thesis
    using after inv tells_untold [OF fresh] kinds_responses [OF lists(3)] by (simp add: told_server_def)
qed simp

lemma attach_tools_tell:
  assumes factories: "connects_untold told told_functions (sv_registry sv)" and inv: "tells_server sv w"
  shows "handle_attach ho ops None a sv w = (out, sv', w') \<Longrightarrow> tells_server sv' w'"
    and "handle_open_crash_dump ho ops None a sv w = (out, sv', w') \<Longrightarrow> tells_server sv' w'"
    and "handle_attach_kernel ho ops None a sv w = (out, sv', w') \<Longrightarrow> tells_server sv' w'"
proof -
  obtain r1 r2 r3 sv1 sv2 sv3 where r: "attach_begin ho a sv = (r1, sv1)" "dump_begin ho a sv = (r2, sv2)" "kernel_begin ho a sv = (r3, sv3)"
    by (metis prod.exhaust)
  note begins = begin_tells(2) [OF inv r(1)] begin_tells(3) [OF inv r(2)] begin_tells(4) [OF inv r(3)]
  show "tells_server sv' w'" if run: "handle_attach ho ops None a sv w = (out, sv', w')"
  proof (rule connect_point_tells [OF factories run [unfolded connect_points r] begins(1)])
    fix p f h w1 q sv4
    assume *: "r1 = Inr (p, f)" "untold told told_functions w1" "b_attach ops h (ap_spec p) w1 = (q, w')"
      "sv_session sv4 = sv_session sv1" "attach_finish p (b_debugger_pid ops h w') (Some q) sv4 = (out, sv')"
    show "tells_server sv' w'"
      by (rule finished_tells [OF inv begin_lists(1) [OF r(1) [unfolded *(1)]] *(4) keep_attach [OF *(3,2)] finish_lists(2) [OF *(5)]])
  qed
  show "tells_server sv' w'" if run: "handle_open_crash_dump ho ops None a sv w = (out, sv', w')"
  proof (rule connect_point_tells [OF factories run [unfolded connect_points r] begins(2)])
    fix p f h w1 q sv4
    assume *: "r2 = Inr (p, f)" "untold told told_functions w1" "b_open_dump ops h p w1 = (q, w')"
      "sv_session sv4 = sv_session sv2" "dump_finish p (fac_name f) (Some q) sv4 = (out, sv')"
    show "tells_server sv' w'"
      by (rule finished_tells [OF inv begin_lists(2) [OF r(2) [unfolded *(1)]] *(4) keep_dump [OF *(3,2)] finish_lists(3) [OF *(5)]])
  qed
  show "tells_server sv' w'" if run: "handle_attach_kernel ho ops None a sv w = (out, sv', w')"
  proof (rule connect_point_tells [OF factories run [unfolded connect_points r] begins(3)])
    fix p f h w1 q sv4
    assume *: "r3 = Inr (p, f)" "untold told told_functions w1" "b_attach_kernel ops h p w1 = (q, w')"
      "sv_session sv4 = sv_session sv3" "kernel_finish p (fac_name f) (Some q) sv4 = (out, sv')"
    show "tells_server sv' w'"
      by (rule finished_tells [OF inv begin_lists(3) [OF r(3) [unfolded *(1)]] *(4) keep_kernel [OF *(3,2)] finish_lists(4) [OF *(5)]])
  qed
qed

lemma launch_tells:
  assumes factories: "connects_untold told told_functions (sv_registry sv)" and inv: "tells_server sv w"
    and session: "session_inv (sv_session sv)" and run: "handle_launch ho ops None a sv w = (out, sv', w')"
  shows "tells_server sv' w'"
proof -
  obtain r0 sv1 where r0: "launch_begin ho a sv = (r0, sv1)" by (rule prod.exhaust)
  show ?thesis
  proof (rule connect_point_tells [OF factories run [unfolded connect_points r0] begin_tells(1) [OF inv r0]])
    fix p f h w1 q sv2
    assume begun: "r0 = Inr (p, f)" and fresh: "untold told told_functions w1" and call: "b_launch ops h (lp_spec p) w1 = (q, w')"
      and sv2: "sv_session sv2 = sv_session sv1" and fin: "launch_finish p (b_debugger_pid ops h w') (Some q) sv2 = (out, sv')"
    note plan = launch_begin_lists [OF r0 [unfolded begun] session]
    show "tells_server sv' w'"
    proof (cases q)
      case (Inl e)
      then have "sv' = cleanup_after_cancel sv2" using fin by (simp add: launch_finish_def)
      then show ?thesis by simp
    next
      case (Inr lo)
      from finish_lists(1) [OF fin] show ?thesis
      proof
        assume after: "s_state (sv_session sv') \<noteq> Idle \<and> bp_lists (sv_session sv') = bp_lists (sv_session sv2) \<and> Some q \<noteq> None"
        then have lists: "s_source_bps (sv_session sv') = s_source_bps (sv_session sv1)"
            "s_function_bps (sv_session sv') = s_function_bps (sv_session sv1)"
            "s_bp_responses (sv_session sv') = s_bp_responses (sv_session sv)"
          using sv2 plan(5) by (simp_all add: bp_lists_def)
        have empty: "s_source_bps (sv_session sv) = []" "s_function_bps (sv_session sv) = []"
          using inv plan(4) by (simp_all add: told_server_def)
        have "source_breakpoints_for_file g (sv_session sv') = hm_list (ls_source_breakpoints (lp_spec p)) g" for g
          using plan(6) [of g] lists(1) empty(1) by (simp add: plan(1) source_breakpoints_for_file_def)
        moreover have "s_function_bps (sv_session sv') = ls_function_breakpoints (lp_spec p)"
          using plan(7) lists(2) empty(2) by (simp add: plan(2))
        ultimately have "tells (sv_session sv') w'"
          using take_launch [OF call [unfolded Inr] _ fresh] plan(3) by (simp add: told_session_def plan(1))
        then show ?thesis using after inv kinds_responses [OF lists(3)] by (simp add: told_server_def)
      qed simp
    qed
  qed
qed

lemma disconnect_tells: "handle_disconnect ops a sv w = (out, sv', w') \<Longrightarrow> tells_server sv w \<Longrightarrow> tells_server sv' w'"
  by (auto simp: handle_disconnect_def disconnect_begin_def disconnect_finish_def drop_backend_bounded_def told_server_def Let_def
      split: tool_splits)

section \<open>Runs\<close>

lemma call_tells:
  assumes factories: "connects_untold told told_functions (sv_registry sv)" and inv: "tells_server sv w"
    and session: "session_inv (sv_session sv)" and run: "dispatch ho ops None name a sv w = (out, sv', w')"
  shows "tells_server sv' w'"
proof (cases "name \<in> quiet_tools")
  case True
  then show ?thesis by (rule quiet_tells [OF inv _ run])
next
  case False
  note tools = launch_tells [OF factories inv session] attach_tools_tell [OF factories inv] disconnect_tells [OF _ inv]
    set_breakpoint_tells [OF inv] set_function_tells [OF inv] remove_tells [OF inv] run_command_tells [OF inv]
  consider "name = ''launch''" | "name = ''attach''" | "name = ''disconnect''" | "name = ''set_breakpoint''"
    | "name = ''set_function_breakpoint''" | "name = ''remove_breakpoint''" | "name = ''open_crash_dump''"
    | "name = ''attach_kernel''" | "name = ''run_command''" | "sv' = sv" "w' = w"
    using run False unfolding quiet_tools_def dispatch_def by (auto split: if_splits)
  then show ?thesis
  proof cases
    case 10
    then show ?thesis using inv by simp
  qed (use run in \<open>simp_all add: dispatch_def tools\<close>)
qed

lemma told_run_tells:
  assumes "registry_inv reg" and "connects_untold told told_functions reg"
  shows "told_run ho ops reg sv w \<Longrightarrow> server_inv sv \<and> sv_registry sv = reg \<and> tells_server sv w"
proof (induction rule: told_run.induct)
  case (told_start w)
  have "server_inv (server_new session_new reg)" by (rule server_new_inv [OF assms(1)])
  then show ?case by (simp add: server_new_def told_server_def session_new_def known_kinds_def breakpoint_info_of_def)
next
  case (told_call sv w name a out sv' w')
  note run = told_call.hyps(2)
  have "server_inv sv'" "sv_registry sv' = reg"
    using dispatched.keeps_inv [OF run] dispatched.keeps_registry [OF run] told_call.IH by simp_all
  moreover have "tells_server sv' w'"
    using call_tells [OF _ _ server_inv_session run] told_call.IH assms(2) by simp
  ultimately show ?case by simp
next
  case (told_pump sv w h g e)
  let ?s = "sv_session sv" and ?s' = "pump_event g e (sv_session sv)"
  have lists: "bp_lists ?s' = bp_lists ?s" "s_state ?s' = Idle \<longrightarrow> s_state ?s = Idle"
    by (cases e; auto simp: bp_lists_def append_session_output_def terminate_if_generation_def split: option.split)+
  then have same: "s_source_bps ?s' = s_source_bps ?s" "s_function_bps ?s' = s_function_bps ?s"
      "s_bp_responses ?s' = s_bp_responses ?s"
    by (simp_all add: bp_lists_def)
  have "tells_server (on_session (pump_event g e) sv) w"
    using told_pump.IH lists(2) same(1,2) kinds_responses [OF same(3)] tells_lists [of ?s w ?s']
    by (auto simp: told_server_def source_breakpoints_for_file_def)
  moreover have "server_inv (on_session (pump_event g e) sv)"
    using told_pump.IH server_inv_ops(1) [of sv "pump_event g e"] pump_event_inv by simp
  ultimately show ?case using told_pump.IH by simp
qed

end

end
