(* ===== verification/Lldb_Server.thy ===== *)
theory Lldb_Server
  imports Told_Server Lldb_Facts
begin

text \<open>
  The tool server on the LLDB backend.  The world of the server is that of the backend, with the breakpoint
  requests the adapter took since it was started, and a mark for the runs on which that is no longer known: a
  call never returned, or the adapter took a list and answered it with something else than its breakpoints.
\<close>

section \<open>The requests the adapter takes\<close>

definition breakpoint_request :: "request \<Rightarrow> bool" where
  "breakpoint_request r \<longleftrightarrow> rq_command r = ''setBreakpoints'' \<or> rq_command r = ''setFunctionBreakpoints''"

fun succeeds :: "(backend_error + dap_message) option \<Rightarrow> bool" where
  "succeeds (Some (Inr (DapResponse r))) = rs_success r"
| "succeeds _ = False"

definition accepting :: "'w lldb_env \<Rightarrow> ('w \<times> request list) lldb_env" where
  "accepting env =
     \<lparr>le_send = (\<lambda>r wl. let (x, w') = le_send env r (fst wl)
        in (x, (w', if breakpoint_request r \<and> succeeds x then snd wl @ [r] else snd wl))),
      le_send_async = (\<lambda>r. unrecorded (le_send_async env r)),
      le_reply = (\<lambda>sd. unrecorded (le_reply env sd)),
      le_wait_initialized = unrecorded (le_wait_initialized env),
      le_register_stop = (\<lambda>wl. let (c, w') = le_register_stop env (fst wl) in (c, (w', snd wl))),
      le_await_stop = (\<lambda>c. unrecorded (le_await_stop env c)),
      le_stderr = (\<lambda>wl. le_stderr env (fst wl)),
      le_take_child = (\<lambda>wl. let (c, w') = le_take_child env (fst wl) in (c, (w', snd wl))),
      le_kill_and_wait = unrecorded (le_kill_and_wait env)\<rparr>"

text \<open>Every operation but the two that set breakpoints, and launch, takes nothing.\<close>

lemma silent_unrecorded: "silent m (unrecorded m)"
  by (simp add: silent_def unrecorded_def case_prod_unfold Let_def)

lemma silent_send: "\<not> breakpoint_request r \<Longrightarrow> silent (le_send env r) (le_send (accepting env) r)"
  by (simp add: silent_def accepting_def case_prod_unfold Let_def)

lemma silent_accepting:
  "silent (le_send_async env r) (le_send_async (accepting env) r)"
  "silent (le_reply env sd) (le_reply (accepting env) sd)"
  "silent (le_wait_initialized env) (le_wait_initialized (accepting env))"
  "silent (le_await_stop env c) (le_await_stop (accepting env) c)"
  "silent (le_kill_and_wait env) (le_kill_and_wait (accepting env))"
  by (simp_all add: accepting_def silent_unrecorded)

lemma silent_check: "silent (check_response env op failed_op msg) (check_response (accepting env) op failed_op msg)"
  by (auto simp: silent_def accepting_def ready_def check_response_def diagnostic_def stderr_snapshot_def
      split: dap_message.split option.split)

lemma silent_register: "silent (register_if env b) (register_if (accepting env) b)"
  by (auto simp: silent_def register_if_def accepting_def case_prod_unfold Let_def)

lemma silent_with_err: "silent m n \<Longrightarrow> silent (with_err f m) (with_err f n)"
  by (simp add: silent_def with_err_run)

lemmas silent_intros = silent_try silent_with_err silent_awaiting silent_accepting silent_check silent_rules(5)

lemma silent_requests:
  assumes "\<not> breakpoint_request r"
  shows "silent (send_checked env op r) (send_checked (accepting env) op r)"
    "silent (send_only env what r) (send_only (accepting env) what r)"
    "silent (send_decoded env op r dec) (send_decoded (accepting env) op r dec)"
  using silent_send [OF assms] unfolding send_decoded_def send_checked_def send_only_def
  by (intro silent_intros; assumption?)+

lemma silent_resume:
  assumes "\<not> breakpoint_request r" shows "silent (resume_and_wait env r) (resume_and_wait (accepting env) r)"
proof -
  have "silent (try_await (with_err e (le_send env r)) (\<lambda>_. awaiting (le_await_stop env rx) (\<lambda>s. ready (f s))))
      (try_await (with_err e (le_send (accepting env) r)) (\<lambda>_. awaiting (le_await_stop (accepting env) rx) (\<lambda>s. ready (f s))))"
    for e :: "backend_error \<Rightarrow> backend_error" and rx and f :: "stop_outcome option \<Rightarrow> backend_error + stop_outcome"
    by (intro silent_intros silent_send assms)
  then show ?thesis
    by (simp add: silent_def resume_and_wait_def accepting_def case_prod_unfold Let_def)
qed

lemma silent_initialize: "silent (lb_initialize env) (lb_initialize (accepting env))"
  unfolding lb_initialize_def
  by (intro silent_intros silent_send) (simp add: breakpoint_request_def rq_initialize_def request_new_def)

lemma silent_reply: "silent (deferred_reply env what rx) (deferred_reply (accepting env) what rx)"
  unfolding deferred_reply_def by (intro silent_intros)

lemmas request_defs = breakpoint_request_def request_new_def rq_initialize_def rq_launch_def rq_attach_def
  rq_set_exception_breakpoints_def rq_configuration_done_def rq_cont_def rq_step_def rq_pause_def rq_threads_def
  rq_stack_trace_def rq_scopes_def rq_variables_def rq_evaluate_def rq_read_memory_def rq_disassemble_def
  rq_disconnect_def

lemma plain_requests [simp]:
  "\<not> breakpoint_request rq_set_exception_breakpoints" "\<not> breakpoint_request rq_configuration_done"
  "\<not> breakpoint_request (rq_cont i)" "\<not> breakpoint_request (rq_step (step_command k) i g)" "\<not> breakpoint_request rq_pause"
  "\<not> breakpoint_request rq_threads" "\<not> breakpoint_request (rq_stack_trace i st lv)" "\<not> breakpoint_request (rq_scopes i)"
  "\<not> breakpoint_request (rq_variables i)" "\<not> breakpoint_request (evaluate_request d x fr m)"
  "\<not> breakpoint_request (rq_read_memory ad i)" "\<not> breakpoint_request (rq_disassemble ad i)"
  "\<not> breakpoint_request (rq_disconnect t)"
  by (simp_all add: request_defs step_command_def evaluate_request_def split: step_kind.split eval_mode.split)

text \<open>The two setters, and the flush of a launch.\<close>

lemma map_sum_Inr [simp]: "map_sum f id x = Inr y \<longleftrightarrow> x = Inr y"
  by (cases x) simp_all

lemma taken_list:
  assumes "breakpoint_request r" and "send_decoded (accepting env) op r dec (w, l) = (x, (w', l'))"
  shows "l' = l \<or> l' = l @ [r]" "x = Some (Inr y) \<Longrightarrow> l' = l @ [r] \<and> (\<exists>body. dec body = Inr y)"
  using assms
  by (auto simp: send_decoded_def send_checked_def try_await_def awaiting_def with_err_def ready_def accepting_def
      check_response_def Let_def split: prod.splits option.splits sum.splits dap_message.splits if_splits)

lemma breakpoint_requests [simp]:
  "breakpoint_request (rq_set_breakpoints f bps)" "breakpoint_request (rq_set_function_breakpoints fbs)"
  by (simp_all add: breakpoint_request_def rq_set_breakpoints_def rq_set_function_breakpoints_def request_new_def)

lemma takes_file: "speaks (send_checked_breakpoints_for_file env f bps) (send_checked_breakpoints_for_file (accepting env) f bps)
    [rq_set_breakpoints f bps]"
  unfolding speaks_for_def
proof (intro allI)
  fix w sent
  obtain x w' where x: "le_send env (rq_set_breakpoints f bps) w = (x, w')" by (rule prod.exhaust)
  show "\<exists>said rest. send_checked_breakpoints_for_file (accepting env) f bps (w, sent) =
      (fst (send_checked_breakpoints_for_file env f bps w), (snd (send_checked_breakpoints_for_file env f bps w), sent @ said)) \<and>
      [rq_set_breakpoints f bps] = map id said @ rest \<and> list_all (\<lambda>_. True) (butlast said) \<and>
      (succeeded (fst (send_checked_breakpoints_for_file env f bps w)) \<longrightarrow> rest = [] \<and> list_all (\<lambda>_. True) said)"
    by (cases "succeeds x"; cases x rule: succeeds.cases;
        simp add: send_checked_breakpoints_for_file_def try_await_def awaiting_def with_err_def ready_def accepting_def x Let_def
          diagnostic_def stderr_snapshot_def list.pred_True)
qed

lemma takes_flush: "speaks (flush_functions_request env fbs) (flush_functions_request (accepting env) fbs)
    (if fbs = [] then [] else [rq_set_function_breakpoints fbs])"
proof (cases "fbs = []")
  case True
  then show ?thesis by (simp add: flush_functions_request_def speaks_silent silent_rules(5))
next
  case False
  show ?thesis
    unfolding speaks_for_def
  proof (intro allI)
    fix w sent
    obtain x w' where x: "le_send env (rq_set_function_breakpoints fbs) w = (x, w')" by (rule prod.exhaust)
    show "\<exists>said rest. flush_functions_request (accepting env) fbs (w, sent) =
        (fst (flush_functions_request env fbs w), (snd (flush_functions_request env fbs w), sent @ said)) \<and>
        (if fbs = [] then [] else [rq_set_function_breakpoints fbs]) = map id said @ rest \<and>
        list_all (\<lambda>_. True) (butlast said) \<and>
        (succeeded (fst (flush_functions_request env fbs w)) \<longrightarrow> rest = [] \<and> list_all (\<lambda>_. True) said)"
      using False
      by (cases "succeeds x"; cases x rule: succeeds.cases;
          simp add: flush_functions_request_def try_await_def awaiting_def with_err_def ready_def accepting_def x Let_def
            check_response_def diagnostic_def stderr_snapshot_def list.pred_True)
  qed
qed

definition flush_script :: "launch_spec \<Rightarrow> request list" where
  "flush_script spec =
     concat (map (\<lambda>(f, bps). [rq_set_breakpoints f bps]) (ls_source_breakpoints spec)) @
     (if ls_function_breakpoints spec = [] then [] else [rq_set_function_breakpoints (ls_function_breakpoints spec)])"

lemma launch_takes: "speaks (run_launch env spec) (run_launch (accepting env) spec) (flush_script spec)"
proof -
  have last: "silent (case waiter of Some rx \<Rightarrow> awaiting (le_await_stop env rx) (\<lambda>s. ready (Inr (launch_stop s)))
                | None \<Rightarrow> ready (Inr LO_Running))
       (case waiter of Some rx \<Rightarrow> awaiting (le_await_stop (accepting env) rx) (\<lambda>s. ready (Inr (launch_stop s)))
                | None \<Rightarrow> ready (Inr LO_Running))" for waiter
    by (cases waiter) (auto intro: silent_intros)
  have files: "speaks (case fb of (file, bps) \<Rightarrow> send_checked_breakpoints_for_file env file bps)
      (case fb of (file, bps) \<Rightarrow> send_checked_breakpoints_for_file (accepting env) file bps)
      (case fb of (file, bps) \<Rightarrow> [rq_set_breakpoints file bps])" for fb
    by (cases fb) (simp add: takes_file)
  have quiet: "speaks m n [] \<Longrightarrow> (\<And>a. speaks (f a) (g a) ys) \<Longrightarrow> speaks (try_await m f) (try_await n g) ys"
    for m :: "('a, 'e + 'b) await" and n and f :: "'b \<Rightarrow> ('a, 'e + 'c) await" and g ys
    using speaks_try [of id "\<lambda>_. True" m n "[]" f g ys] by simp
  show ?thesis
    unfolding run_launch_def flush_script_def
    by (rule quiet [OF speaks_silent [OF silent_initialize]],
        rule quiet [OF speaks_silent [OF silent_with_err [OF silent_accepting(1)]]],
        rule speaks_awaiting [OF silent_accepting(3)], rule speaks_try [OF speaks_each [OF files]],
        rule speaks_end [OF takes_flush], intro silent_intros silent_requests silent_register silent_reply last, simp_all)
qed

section \<open>The backend as the server's debugger\<close>

record 'w lldb_world =
  lw_world :: 'w
  lw_taken :: "request list"
  lw_lost :: bool

definition complete :: "('w \<times> request list, backend_error + 'a) await \<Rightarrow> ('w lldb_world, 'a) call" where
  "complete m lw =
     (case m (lw_world lw, lw_taken lw) of
        (Some r, (w, l)) \<Rightarrow> (r, lw\<lparr>lw_world := w, lw_taken := l\<rparr>)
      | (None, (w, l)) \<Rightarrow> (Inl Closed, lw\<lparr>lw_world := w, lw_taken := l, lw_lost := True\<rparr>))"

text \<open>A setter: losing track when a list that was taken is not answered with its breakpoints.\<close>

definition set_list :: "bool \<Rightarrow> ('w \<times> request list, backend_error + breakpoint_result list) await \<Rightarrow>
    ('w lldb_world, breakpoint_result list) call" where
  "set_list asked m lw =
     (let (r, lw') = complete m lw;
          odd = (lw_taken lw' \<noteq> lw_taken lw \<and> (case r of Inl _ \<Rightarrow> True | Inr results \<Rightarrow> asked \<and> results = []))
      in (r, lw'\<lparr>lw_lost := lw_lost lw' \<or> odd\<rparr>))"

text \<open>The handle says whether the adapter is \<open>lldb-dap\<close>; \<open>pid\<close> is the process id of the adapter.\<close>

definition lldb_ops :: "'w lldb_env \<Rightarrow> (json \<Rightarrow> string) \<Rightarrow> (string \<Rightarrow> string + 8 word list) \<Rightarrow> ('w \<Rightarrow> i64 option) \<Rightarrow>
    (bool, 'w lldb_world) backend_ops" where
  "lldb_ops env wording b64 pid =
     (let e = accepting env
      in \<lparr>b_launch = \<lambda>_ spec. complete (run_launch e spec), b_attach = \<lambda>_ spec. complete (run_attach e spec),
          b_disconnect = \<lambda>_ terminate lw. snd (complete (awaiting (lb_disconnect e terminate) (\<lambda>_. ready (Inr ()))) lw),
          b_set_source_breakpoints = \<lambda>_ f bps. set_list (bps \<noteq> []) (lb_set_source_breakpoints e wording f bps),
          b_set_function_breakpoints = \<lambda>_ fbs. set_list (fbs \<noteq> []) (lb_set_function_breakpoints e wording fbs),
          b_cont = \<lambda>_ tid. complete (lb_cont e tid), b_step = \<lambda>_ kind tid g. complete (lb_step e kind tid g),
          b_pause = \<lambda>_. complete (lb_pause e), b_threads = \<lambda>_. complete (lb_threads e wording),
          b_stack_trace = \<lambda>_ tid start levels. complete (lb_stack_trace e wording tid start levels),
          b_scopes = \<lambda>_ fid. complete (lb_scopes e wording fid),
          b_variables = \<lambda>_ reference. complete (lb_variables e wording reference),
          b_evaluate = \<lambda>d expr fid mode. complete (lb_evaluate e wording d expr fid mode),
          b_read_memory = \<lambda>_ address i. complete (lb_read_memory e wording b64 address i),
          b_disassemble = \<lambda>_ address i. complete (lb_disassemble e wording address i),
          b_supports_command_repl_mode = \<lambda>d. d,
          b_debugger_pid = \<lambda>_ lw. pid (lw_world lw),
          b_open_dump = default_open_dump, b_attach_kernel = default_attach_kernel,
          b_analyze = default_analyze, b_modules = default_modules\<rparr>)"

text \<open>\<open>start\<close> finds and starts the adapter; a new one has taken nothing.\<close>

definition lldb_world_connect :: "('w \<Rightarrow> (backend_error + bool) \<times> 'w) \<Rightarrow> ('w lldb_world, bool) call" where
  "lldb_world_connect start lw =
     (case start (lw_world lw) of
        (Inl e, w) \<Rightarrow> (Inl e, lw\<lparr>lw_world := w\<rparr>)
      | (Inr d, w) \<Rightarrow> (Inr d, lw\<lparr>lw_world := w, lw_taken := []\<rparr>))"

section \<open>What the adapter was told\<close>

definition for_file :: "string \<Rightarrow> request \<Rightarrow> bool" where
  "for_file f r \<longleftrightarrow> rq_command r = ''setBreakpoints'' \<and>
     Option.bind (Option.bind (rq_arguments r) (\<lambda>a. jget a ''source'')) (\<lambda>s. jget s ''path'') = Some (JStr f)"

definition for_functions :: "request \<Rightarrow> bool" where
  "for_functions r \<longleftrightarrow> rq_command r = ''setFunctionBreakpoints''"

lemma for_requests [simp]:
  "for_file f (rq_set_breakpoints g bps) \<longleftrightarrow> f = g" "\<not> for_file f (rq_set_function_breakpoints fbs)"
  "for_functions (rq_set_function_breakpoints fbs)" "\<not> for_functions (rq_set_breakpoints g bps)"
  by (auto simp: for_file_def for_functions_def rq_set_breakpoints_def rq_set_function_breakpoints_def request_new_def json_map_get)

text \<open>The last request of a kind is the one expected; where there was none, nothing was to be asked.\<close>

definition last_is :: "(request \<Rightarrow> bool) \<Rightarrow> request list \<Rightarrow> request \<Rightarrow> bool \<Rightarrow> bool" where
  "last_is P l r none \<longleftrightarrow> (if filter P l = [] then none else last (filter P l) = r)"

definition adapter_told :: "'w lldb_world \<Rightarrow> string \<Rightarrow> source_bp list \<Rightarrow> bool" where
  "adapter_told lw f bps \<longleftrightarrow> lw_lost lw \<or> last_is (for_file f) (lw_taken lw) (rq_set_breakpoints f bps) (bps = [])"

definition adapter_told_functions :: "'w lldb_world \<Rightarrow> function_bp list \<Rightarrow> bool" where
  "adapter_told_functions lw fbs \<longleftrightarrow>
     lw_lost lw \<or> last_is for_functions (lw_taken lw) (rq_set_function_breakpoints fbs) (fbs = [])"

lemma last_is_snoc: "last_is P (l @ [q]) r e \<longleftrightarrow> (if P q then q = r else last_is P l r e)"
  by (auto simp: last_is_def)

lemma last_is_other: "filter P l' = [] \<Longrightarrow> last_is P (l @ l') r e \<longleftrightarrow> last_is P l r e"
  by (simp add: last_is_def)

lemma complete_silent:
  assumes "silent m n"
  shows "complete n lw = (r, lw') \<Longrightarrow> lw_taken lw' = lw_taken lw \<and> (lw_lost lw \<longrightarrow> lw_lost lw')"
  using assms by (auto simp: complete_def silent_def split: prod.splits option.splits)

lemma complete_silent_keeps: "silent m n \<Longrightarrow> keeps_world (\<lambda>lw. adapter_told lw f l) (complete n)"
  "silent m n \<Longrightarrow> keeps_world (\<lambda>lw. adapter_told_functions lw fl) (complete n)"
  by (auto simp: adapter_told_def adapter_told_functions_def intro!: keeps_worldI dest!: complete_silent)

lemma lldb_silent:
  "silent (lb_cont env tid) (lb_cont (accepting env) tid)" "silent (lb_step env kind tid g) (lb_step (accepting env) kind tid g)"
  "silent (lb_pause env) (lb_pause (accepting env))" "silent (lb_threads env wording) (lb_threads (accepting env) wording)"
  "silent (lb_stack_trace env wording tid start levels) (lb_stack_trace (accepting env) wording tid start levels)"
  "silent (lb_scopes env wording fid) (lb_scopes (accepting env) wording fid)"
  "silent (lb_variables env wording reference) (lb_variables (accepting env) wording reference)"
  "silent (lb_evaluate env wording d x fr m) (lb_evaluate (accepting env) wording d x fr m)"
  "silent (lb_read_memory env wording b64 ad i) (lb_read_memory (accepting env) wording b64 ad i)"
  "silent (lb_disassemble env wording ad i) (lb_disassemble (accepting env) wording ad i)"
  unfolding lb_cont_def lb_step_def lb_pause_def lb_threads_def lb_stack_trace_def lb_scopes_def lb_variables_def lb_evaluate_def
    lb_read_memory_def lb_disassemble_def
  by (intro silent_resume silent_requests silent_intros; simp)+

lemma attach_silent: "silent (run_attach env spec) (run_attach (accepting env) spec)"
proof -
  have "silent (\<lambda>w. case le_register_stop env w of (rx, w') \<Rightarrow>
          awaiting (le_await_stop env rx) (\<lambda>s. ready (Inr (attach_stop s))) w')
       (\<lambda>w. case le_register_stop (accepting env) w of (rx, w') \<Rightarrow>
          awaiting (le_await_stop (accepting env) rx) (\<lambda>s. ready (Inr (attach_stop s))) w')"
    by (auto simp: silent_def accepting_def unrecorded_def awaiting_def ready_def case_prod_unfold Let_def split: option.split)
  then show ?thesis
    unfolding run_attach_def
    by (intro silent_initialize silent_intros silent_requests silent_reply; simp)
qed

lemma default_keeps: "keeps_world P (default_analyze h)" "keeps_world P (default_modules h)"
  by (simp_all add: keeps_world_def default_analyze_def default_modules_def)

lemma lldb_steady:
  "steady_world (lldb_ops env wording b64 pid) (\<lambda>lw. adapter_told lw f l)"
  "steady_world (lldb_ops env wording b64 pid) (\<lambda>lw. adapter_told_functions lw fl)"
  by (unfold_locales; simp add: lldb_ops_def Let_def; rule default_keeps complete_silent_keeps [OF lldb_silent(1)]
      complete_silent_keeps [OF lldb_silent(2)] complete_silent_keeps [OF lldb_silent(3)] complete_silent_keeps [OF lldb_silent(4)]
      complete_silent_keeps [OF lldb_silent(5)] complete_silent_keeps [OF lldb_silent(6)] complete_silent_keeps [OF lldb_silent(7)]
      complete_silent_keeps [OF lldb_silent(8)] complete_silent_keeps [OF lldb_silent(9)] complete_silent_keeps [OF lldb_silent(10)])+

text \<open>A setter in full.\<close>

lemma set_list_cases:
  assumes r: "breakpoint_request r" and run: "set_list asked (send_decoded (accepting env) op r dec) lw = (x, lw')"
  shows "lw_lost lw \<Longrightarrow> lw_lost lw'"
    and "lw_taken lw' = lw_taken lw \<or> lw_taken lw' = lw_taken lw @ [r]"
    and "x = Inr results \<Longrightarrow> lw_taken lw' = lw_taken lw @ [r] \<and> (\<exists>body. dec body = Inr results) \<and> (asked \<longrightarrow> results \<noteq> [] \<or> lw_lost lw')"
    and "x = Inl e \<Longrightarrow> lw_lost lw' \<or> lw_taken lw' = lw_taken lw"
proof -
  obtain y w l where y: "send_decoded (accepting env) op r dec (lw_world lw, lw_taken lw) = (y, (w, l))" by (metis prod.exhaust)
  note taken = taken_list [OF r y]
  show "lw_lost lw \<Longrightarrow> lw_lost lw'" "lw_taken lw' = lw_taken lw \<or> lw_taken lw' = lw_taken lw @ [r]"
    "x = Inl e \<Longrightarrow> lw_lost lw' \<or> lw_taken lw' = lw_taken lw"
    using run taken(1) by (auto simp: set_list_def complete_def y Let_def split: option.splits)
  show "x = Inr results \<Longrightarrow> lw_taken lw' = lw_taken lw @ [r] \<and> (\<exists>body. dec body = Inr results) \<and> (asked \<longrightarrow> results \<noteq> [] \<or> lw_lost lw')"
    using run taken(2) by (auto simp: set_list_def complete_def y Let_def split: option.splits)
qed

lemma never_rejected: "body_breakpoints wording body = Inr results \<Longrightarrow> b \<in> set results \<Longrightarrow> \<not> br_rejected b"
proof -
  have one: "dec_breakpoint j = Some b \<Longrightarrow> \<not> br_rejected b" for j b
    by (cases "as_fields [''id'', ''verified'', ''line'', ''message''] j") (auto simp: dec_breakpoint_def split: option.splits)
  have those: "those (map dec_breakpoint js) = Some bs \<Longrightarrow> b \<in> set bs \<Longrightarrow> \<not> br_rejected b" for js bs b
    by (induction js arbitrary: bs) (auto dest: one split: option.splits)
  have list: "json_list dec_breakpoint j = Some bs \<Longrightarrow> b \<in> set bs \<Longrightarrow> \<not> br_rejected b" for j bs b
    by (cases j) (auto dest: those)
  show "body_breakpoints wording body = Inr results \<Longrightarrow> b \<in> set results \<Longrightarrow> \<not> br_rejected b"
    by (auto simp: body_breakpoints_def decode_body_def dec_collection_def field_or_def bind_eq_Some_conv Let_def
        dest: list split: option.splits)
qed

lemma flush_for_file:
  "hm_ok m \<Longrightarrow> filter (for_file f) (concat (map (\<lambda>(f, bps). [rq_set_breakpoints f bps]) m)) =
     (case hm_get m f of None \<Rightarrow> [] | Some bps \<Rightarrow> [rq_set_breakpoints f bps])"
proof (induction m)
  case (Cons a m)
  then have "f = fst a \<longrightarrow> hm_get m f = None" by (auto simp: hm_ok_def hm_get_def map_of_eq_None_iff)
  with Cons show ?case by (cases a) (auto simp: hm_ok_def hm_get_def)
qed (simp add: hm_get_def)

lemma no_function_in_files:
  "filter for_functions (concat (map (\<lambda>(f, bps). [rq_set_breakpoints f bps]) m)) = []"
  by (induction m) auto

lemma launch_told:
  assumes run: "complete (run_launch (accepting env) spec) lw = (Inr lo, lw')" and ok: "hm_ok (ls_source_breakpoints spec)"
    and fresh: "untold adapter_told adapter_told_functions lw"
  shows "adapter_told lw' f (hm_list (ls_source_breakpoints spec) f) \<and> adapter_told_functions lw' (ls_function_breakpoints spec)"
proof -
  obtain said rest where s: "run_launch (accepting env) spec (lw_world lw, lw_taken lw) =
      (fst (run_launch env spec (lw_world lw)), (snd (run_launch env spec (lw_world lw)), lw_taken lw @ said))"
      "flush_script spec = map id said @ rest" "list_all (\<lambda>_. True) (butlast said)"
      "succeeded (fst (run_launch env spec (lw_world lw))) \<longrightarrow> rest = [] \<and> list_all (\<lambda>_. True) said"
    using launch_takes by (rule speaksE [where w = "lw_world lw" and sent = "lw_taken lw"])
  have finished: "fst (run_launch env spec (lw_world lw)) = Some (Inr lo)"
    using run s(1) by (auto simp: complete_def split: option.splits)
  then have taken: "lw_taken lw' = lw_taken lw @ flush_script spec" "lw_lost lw' = lw_lost lw"
    using run s by (auto simp: complete_def)
  have "adapter_told lw' f (hm_list (ls_source_breakpoints spec) f)"
    using fresh unfolding untold_def adapter_told_def taken
    by (auto simp: last_is_def flush_script_def flush_for_file [OF ok] hm_list_def split: option.split)
  moreover have "adapter_told_functions lw' (ls_function_breakpoints spec)"
    using fresh unfolding untold_def adapter_told_functions_def taken
    by (auto simp: last_is_def flush_script_def no_function_in_files)
  ultimately show ?thesis by blast
qed

interpretation lldb: telling_backend "lldb_ops env wording b64 pid" adapter_told adapter_told_functions for env wording b64 pid
proof (rule telling_backend.intro)
  fix f l fl h x fr re w w' bps results rs g fbs spec lo aspec ra path rd conn
  let ?ops = "lldb_ops env wording b64 pid"
  note ops = lldb_ops_def Let_def
  show "steady_world ?ops (\<lambda>w. adapter_told w f l)" "steady_world ?ops (\<lambda>w. adapter_told_functions w fl)" by (rule lldb_steady)+
  show "b_evaluate ?ops h x fr EvalRepl w = (re, w') \<Longrightarrow>
      (adapter_told w f l \<longrightarrow> adapter_told w' f l) \<and> (adapter_told_functions w fl \<longrightarrow> adapter_told_functions w' fl)"
    by (auto simp: ops dest: keeps_worldD [OF complete_silent_keeps(1) [OF lldb_silent(8)]]
        keeps_worldD [OF complete_silent_keeps(2) [OF lldb_silent(8)]])
  show "b_set_source_breakpoints ?ops h f bps w = (Inr results, w') \<Longrightarrow>
      adapter_told w' f bps \<and> (bps \<noteq> [] \<longrightarrow> results \<noteq> [] \<or> (\<forall>f l fl. adapter_told w' f l \<and> adapter_told_functions w' fl))"
    by (auto simp: ops lb_set_source_breakpoints_def adapter_told_def adapter_told_functions_def last_is_snoc dest!: set_list_cases(3) [OF breakpoint_requests(1) _ refl])
  show "b_set_source_breakpoints ?ops h f bps w = (rs, w') \<Longrightarrow>
      (g \<noteq> f \<or> (\<exists>e. rs = Inl e) \<longrightarrow> adapter_told w g l \<longrightarrow> adapter_told w' g l) \<and>
      (adapter_told_functions w fl \<longrightarrow> adapter_told_functions w' fl)"
    using set_list_cases(1,2,4) [OF breakpoint_requests(1)]
    by (fastforce simp: ops lb_set_source_breakpoints_def adapter_told_def adapter_told_functions_def last_is_snoc)
  show "b_set_function_breakpoints ?ops h fbs w = (Inr results, w') \<Longrightarrow>
      adapter_told_functions w' fbs \<and> (\<forall>b \<in> set results. \<not> br_rejected b)"
    using never_rejected
    by (auto simp: ops lb_set_function_breakpoints_def adapter_told_functions_def last_is_snoc dest!: set_list_cases(3) [OF breakpoint_requests(2) _ refl])
  show "b_set_function_breakpoints ?ops h fbs w = (rs, w') \<Longrightarrow>
      (adapter_told w f l \<longrightarrow> adapter_told w' f l) \<and> ((\<exists>e. rs = Inl e) \<longrightarrow> adapter_told_functions w fl \<longrightarrow> adapter_told_functions w' fl)"
    using set_list_cases(1,2,4) [OF breakpoint_requests(2)]
    by (fastforce simp: ops lb_set_function_breakpoints_def adapter_told_def adapter_told_functions_def last_is_snoc)
  show "b_launch ?ops h spec w = (Inr lo, w') \<Longrightarrow> hm_ok (ls_source_breakpoints spec) \<Longrightarrow>
      untold adapter_told adapter_told_functions w \<Longrightarrow>
      adapter_told w' f (hm_list (ls_source_breakpoints spec) f) \<and> adapter_told_functions w' (ls_function_breakpoints spec)"
    by (simp add: ops launch_told)
  show "b_attach ?ops h aspec w = (ra, w') \<Longrightarrow> untold adapter_told adapter_told_functions w \<Longrightarrow> untold adapter_told adapter_told_functions w'"
    by (auto simp: ops untold_def dest: keeps_worldD [OF complete_silent_keeps(1) [OF attach_silent]]
        keeps_worldD [OF complete_silent_keeps(2) [OF attach_silent]])
  show "b_open_dump ?ops h path w = (rd, w') \<Longrightarrow> untold adapter_told adapter_told_functions w \<Longrightarrow> untold adapter_told adapter_told_functions w'"
    by (simp add: ops default_open_dump_def)
  show "b_attach_kernel ?ops h conn w = (ra, w') \<Longrightarrow> untold adapter_told adapter_told_functions w \<Longrightarrow> untold adapter_told adapter_told_functions w'"
    by (simp add: ops default_attach_kernel_def)
qed

end
