(* ===== verification/Unix_Properties.thy ===== *)
theory Unix_Properties
  imports Lldb_Server Breakpoint_Properties
begin

text \<open>What holds from the tools to the adapter: the server of the Unix binary on the LLDB backend.\<close>

section \<open>What the adapter was told\<close>

















end
