(* ===== verification/Stdio_Client.thy ===== *)
theory Stdio_Client
  imports Wire Lldb_Detect
begin

text \<open>
  The client that drives a server binary over its standard input and output,
  \<open>integration-tests/src/stdio.rs\<close>: one JSON-RPC message per line, one request at a time.

  The child process with its pipes is a state of type \<open>'p\<close> and a record of the operations on it.  A read
  that blocks for ever is \<open>None\<close>, and so is a call that makes one.  \<open>serde_json\<close>'s parser and printer are
  the parameters \<open>parse\<close> and \<open>to_string\<close>.
\<close>

section \<open>The client\<close>

record 'p child_ops =
  ch_start :: "string \<Rightarrow> (string \<times> string) list \<Rightarrow> 'p \<Rightarrow> (string + unit) \<times> 'p"
  ch_write_all :: "string \<Rightarrow> 'p \<Rightarrow> (string + unit) \<times> 'p"
  ch_flush :: "'p \<Rightarrow> (string + unit) \<times> 'p"
  ch_read_line :: "'p \<Rightarrow> ((string + string) \<times> 'p) option"
  ch_kill :: "'p \<Rightarrow> 'p"
  ch_wait :: "'p \<Rightarrow> 'p"

record 'p stdio_mcp =
  mcp_child :: 'p
  mcp_next_id :: i64

record tool_call_result =
  tc_is_error :: bool
  tc_text :: string
  tc_json :: "json option"

type_synonym ('p, 'a) client_call = "'p stdio_mcp \<Rightarrow> ((string + 'a) \<times> 'p stdio_mcp) option"

text \<open>The question mark operator, and an operation on the child.\<close>

definition and_then :: "('p, 'a) client_call \<Rightarrow> ('a \<Rightarrow> ('p, 'b) client_call) \<Rightarrow> ('p, 'b) client_call" where
  "and_then m f s = Option.bind (m s) (\<lambda>(r, s'). case r of Inl e \<Rightarrow> Some (Inl e, s') | Inr a \<Rightarrow> f a s')"

definition returning :: "'a \<Rightarrow> ('p, 'a) client_call" where
  "returning a s = Some (Inr a, s)"

definition on_child :: "('p \<Rightarrow> (string + 'a) \<times> 'p) \<Rightarrow> ('p, 'a) client_call" where
  "on_child f s = (case f (mcp_child s) of (r, p) \<Rightarrow> Some (r, s\<lparr>mcp_child := p\<rparr>))"

text \<open>The counter is an \<open>i64\<close> whose overflow panics, which ends the call like a read that never returns.\<close>

definition alloc_id :: "('p, i64) client_call" where
  "alloc_id s = (if mcp_next_id s = i64_max then None else Some (Inr (mcp_next_id s), s\<lparr>mcp_next_id := mcp_next_id s + 1\<rparr>))"

definition newline :: string where
  "newline = [CHR 0x0A]"

definition send_message :: "(json \<Rightarrow> string) \<Rightarrow> 'p child_ops \<Rightarrow> json \<Rightarrow> ('p, unit) client_call" where
  "send_message to_string ops message =
     and_then (on_child (ch_write_all ops (to_string message))) (\<lambda>_.
     and_then (on_child (ch_write_all ops newline)) (\<lambda>_. on_child (ch_flush ops)))"

text \<open>The answer to request \<open>i\<close> that a line carries, if it does.\<close>

definition answer_in :: "(string \<Rightarrow> json option) \<Rightarrow> i64 \<Rightarrow> string \<Rightarrow> json option" where
  "answer_in parse i line =
     (let trimmed = trim line
      in if trimmed = [] then None
         else case parse trimmed of
                None \<Rightarrow> None
              | Some v \<Rightarrow> (if Option.bind (jget v ''id'') json_i64 = Some i then Some v else None))"

definition closed_stdout :: "i64 \<Rightarrow> string" where
  "closed_stdout i = ''server closed stdout before responding to id '' @ show_int i"

partial_function (option) read_response :: "(string \<Rightarrow> json option) \<Rightarrow> 'p child_ops \<Rightarrow> i64 \<Rightarrow> ('p, json) client_call" where
  "read_response parse ops i s =
     Option.bind (ch_read_line ops (mcp_child s)) (\<lambda>(r, p).
       let s' = s\<lparr>mcp_child := p\<rparr>
       in case r of
            Inl e \<Rightarrow> Some (Inl e, s')
          | Inr line \<Rightarrow>
              (if line = [] then Some (Inl (closed_stdout i), s')
               else (case answer_in parse i line of
                       Some v \<Rightarrow> Some (Inr v, s')
                     | None \<Rightarrow> read_response parse ops i s')))"

text \<open>\<open>serde_json::json!\<close> with an object.\<close>

definition json_object :: "(string \<times> json) list \<Rightarrow> json" where
  "json_object kvs = JObj (rb_sets kvs rb_new)"

definition rpc_request :: "i64 \<Rightarrow> string \<Rightarrow> json \<Rightarrow> json" where
  "rpc_request i method params =
     json_object [(''jsonrpc'', JStr ''2.0''), (''id'', json_int i), (''method'', JStr method), (''params'', params)]"

definition initialize_request :: "i64 \<Rightarrow> json" where
  "initialize_request i = rpc_request i ''initialize'' (json_object
     [(''protocolVersion'', JStr ''2024-11-05''), (''capabilities'', json_object []),
      (''clientInfo'', json_object [(''name'', JStr ''parity-harness''), (''version'', JStr ''1.0.0'')])])"

definition stdio_initialize :: "(string \<Rightarrow> json option) \<Rightarrow> (json \<Rightarrow> string) \<Rightarrow> 'p child_ops \<Rightarrow> ('p, unit) client_call" where
  "stdio_initialize parse to_string ops =
     and_then alloc_id (\<lambda>i.
     and_then (send_message to_string ops (initialize_request i)) (\<lambda>_.
     and_then (read_response parse ops i) (\<lambda>_.
     send_message to_string ops
       (json_object [(''jsonrpc'', JStr ''2.0''), (''method'', JStr ''notifications/initialized'')]))))"

text \<open>Shutting down, which the drop of the client does too.\<close>

definition shutdown :: "'p child_ops \<Rightarrow> 'p stdio_mcp \<Rightarrow> 'p stdio_mcp" where
  "shutdown ops s = s\<lparr>mcp_child := ch_wait ops (ch_kill ops (mcp_child s))\<rparr>"

definition stdio_spawn :: "(string \<Rightarrow> json option) \<Rightarrow> (json \<Rightarrow> string) \<Rightarrow> 'p child_ops \<Rightarrow> string \<Rightarrow> (string \<times> string) list \<Rightarrow>
    'p \<Rightarrow> ((string + 'p stdio_mcp) \<times> 'p) option" where
  "stdio_spawn parse to_string ops program env p =
     (case ch_start ops program env p of
        (Inl e, p') \<Rightarrow> Some (Inl e, p')
      | (Inr _, p') \<Rightarrow>
          Option.bind (stdio_initialize parse to_string ops \<lparr>mcp_child = p', mcp_next_id = 1\<rparr>) (\<lambda>(r, client).
            Some (case r of
                    Inl e \<Rightarrow> (Inl e, mcp_child (shutdown ops client))
                  | Inr _ \<Rightarrow> (Inr client, mcp_child client))))"

definition advertised_info :: "json \<Rightarrow> json" where
  "advertised_info answer = (case Option.bind (jget answer ''result'') (\<lambda>r. jget r ''serverInfo'') of Some v \<Rightarrow> v | None \<Rightarrow> JNull)"

definition server_info_of :: "(string \<Rightarrow> json option) \<Rightarrow> (json \<Rightarrow> string) \<Rightarrow> 'p child_ops \<Rightarrow> string \<Rightarrow> (string \<times> string) list \<Rightarrow>
    'p \<Rightarrow> ((string + json) \<times> 'p) option" where
  "server_info_of parse to_string ops program env p =
     (case ch_start ops program env p of
        (Inl e, p') \<Rightarrow> Some (Inl e, p')
      | (Inr _, p') \<Rightarrow>
          Option.bind
            (and_then alloc_id (\<lambda>i. and_then (send_message to_string ops (initialize_request i)) (\<lambda>_. read_response parse ops i))
               \<lparr>mcp_child = p', mcp_next_id = 1\<rparr>) (\<lambda>(r, client).
            Some (case r of
                    Inl e \<Rightarrow> (Inl e, mcp_child (shutdown ops client))
                  | Inr answer \<Rightarrow> (Inr (advertised_info answer), mcp_child (shutdown ops (shutdown ops client))))))"

fun as_array :: "json \<Rightarrow> json list option" where
  "as_array (JArr js) = Some js"
| "as_array _ = None"

definition listed_tools :: "json \<Rightarrow> json list" where
  "listed_tools answer =
     (case Option.bind (Option.bind (jget answer ''result'') (\<lambda>r. jget r ''tools'')) as_array of Some ts \<Rightarrow> ts | None \<Rightarrow> [])"

definition list_tools_over_stdio :: "(string \<Rightarrow> json option) \<Rightarrow> (json \<Rightarrow> string) \<Rightarrow> 'p child_ops \<Rightarrow> ('p, json list) client_call" where
  "list_tools_over_stdio parse to_string ops =
     and_then alloc_id (\<lambda>i.
     and_then (send_message to_string ops (rpc_request i ''tools/list'' (json_object []))) (\<lambda>_.
     and_then (read_response parse ops i) (\<lambda>answer. returning (listed_tools answer))))"

fun first_text :: "json list \<Rightarrow> string option" where
  "first_text [] = None"
| "first_text (c # cs) = Option.bind (jget c ''text'') as_str"

definition tool_call_result_of :: "(string \<Rightarrow> json option) \<Rightarrow> json \<Rightarrow> tool_call_result" where
  "tool_call_result_of parse answer =
     (let result = (case jget answer ''result'' of Some v \<Rightarrow> v | None \<Rightarrow> JNull);
          failed = (case Option.bind (jget result ''isError'') json_bool of Some b \<Rightarrow> b | None \<Rightarrow> False);
          text = (case Option.bind (Option.bind (jget result ''content'') as_array) first_text of Some t \<Rightarrow> t | None \<Rightarrow> [])
      in \<lparr>tc_is_error = failed, tc_text = text, tc_json = parse text\<rparr>)"

definition call_request :: "string \<Rightarrow> json \<Rightarrow> i64 \<Rightarrow> json" where
  "call_request name arguments i =
     rpc_request i ''tools/call'' (json_object [(''name'', JStr name), (''arguments'', arguments)])"

definition call_tool_over_stdio :: "(string \<Rightarrow> json option) \<Rightarrow> (json \<Rightarrow> string) \<Rightarrow> 'p child_ops \<Rightarrow> string \<Rightarrow> json \<Rightarrow>
    ('p, tool_call_result) client_call" where
  "call_tool_over_stdio parse to_string ops name arguments =
     and_then alloc_id (\<lambda>i.
     and_then (send_message to_string ops (call_request name arguments i)) (\<lambda>_.
     and_then (read_response parse ops i) (\<lambda>answer. returning (tool_call_result_of parse answer))))"

section \<open>Finding the binaries\<close>

definition path_exists :: "os_env \<Rightarrow> string \<Rightarrow> bool" where
  "path_exists os path \<longleftrightarrow> os_metadata os path \<noteq> None"

definition is_file :: "os_env \<Rightarrow> string \<Rightarrow> bool" where
  "is_file os path \<longleftrightarrow> (case os_metadata os path of Some (regular, _) \<Rightarrow> regular | None \<Rightarrow> False)"

definition which :: "os_env \<Rightarrow> string \<Rightarrow> string option" where
  "which os name =
     Option.bind (os_var os ''PATH'') (\<lambda>path.
       find (is_file os) (map (\<lambda>dir. if dir = [] then name else path_join dir name) (split_on (CHR '':'') path)))"

definition named_binary :: "os_env \<Rightarrow> string \<Rightarrow> string option" where
  "named_binary os var = Option.bind (os_var os var) (\<lambda>path. if path \<noteq> [] \<and> path_exists os path then Some path else None)"

definition go_reference_binary :: "os_env \<Rightarrow> string option" where
  "go_reference_binary os = (case named_binary os ''GO_DEBUG_MCP_BIN'' of Some path \<Rightarrow> Some path | None \<Rightarrow> which os ''lldb-debug-mcp'')"

definition rust_binary :: "os_env \<Rightarrow> string option" where
  "rust_binary os =
     (case named_binary os ''DEBUG_MCP_BIN'' of
        Some path \<Rightarrow> Some path
      | None \<Rightarrow>
          (case Option.bind (os_var os ''CARGO_TARGET_DIR'') (\<lambda>dir.
                  let candidate = dir @ ''/debug/debug-mcp'' in if path_exists os candidate then Some candidate else None) of
             Some path \<Rightarrow> Some path
           | None \<Rightarrow> which os ''debug-mcp''))"

section \<open>What the client reads\<close>

lemma and_then_SomeE:
  assumes "and_then m f s = Some (Inr b, s')"
  obtains a s1 where "m s = Some (Inr a, s1)" "f a s1 = Some (Inr b, s')"
proof -
  obtain r s1 where m: "m s = Some (r, s1)" using assms by (auto simp: and_then_def bind_eq_Some_conv)
  with assms that show thesis by (cases r) (auto simp: and_then_def)
qed

lemma and_then_Inr [simp]: "m s = Some (Inr a, s1) \<Longrightarrow> and_then m f s = f a s1"
  by (simp add: and_then_def)

lemma read_response_unfold:
  "read_response parse ops i s =
     (case ch_read_line ops (mcp_child s) of
        None \<Rightarrow> None
      | Some (Inl e, p) \<Rightarrow> Some (Inl e, s\<lparr>mcp_child := p\<rparr>)
      | Some (Inr line, p) \<Rightarrow>
          (if line = [] then Some (Inl (closed_stdout i), s\<lparr>mcp_child := p\<rparr>)
           else (case answer_in parse i line of
                   Some v \<Rightarrow> Some (Inr v, s\<lparr>mcp_child := p\<rparr>)
                 | None \<Rightarrow> read_response parse ops i (s\<lparr>mcp_child := p\<rparr>))))"
  by (subst read_response.simps) (auto simp: Let_def split: option.split sum.split)

text \<open>Lines read one after the other.\<close>

inductive lines_read :: "'p child_ops \<Rightarrow> string list \<Rightarrow> 'p stdio_mcp \<Rightarrow> 'p stdio_mcp \<Rightarrow> bool" for ops where
  read_none: "lines_read ops [] s s"
| read_one: "ch_read_line ops (mcp_child s) = Some (Inr line, p) \<Longrightarrow> lines_read ops ls (s\<lparr>mcp_child := p\<rparr>) t \<Longrightarrow>
    lines_read ops (line # ls) s t"

inductive_cases lines_read_ConsE: "lines_read ops (line # ls) s t"

lemma lines_read_keeps_id: "lines_read ops ls s t \<Longrightarrow> mcp_next_id t = mcp_next_id s"
  by (induction rule: lines_read.induct) simp_all

definition skipped :: "(string \<Rightarrow> json option) \<Rightarrow> i64 \<Rightarrow> string \<Rightarrow> bool" where
  "skipped parse i line \<longleftrightarrow> line \<noteq> [] \<and> answer_in parse i line = None"

text \<open>A response is read exactly when it is the first line, among those not skipped, that carries it.\<close>

definition first_answer :: "(string \<Rightarrow> json option) \<Rightarrow> 'p child_ops \<Rightarrow> i64 \<Rightarrow> json \<Rightarrow> 'p stdio_mcp \<Rightarrow> 'p stdio_mcp \<Rightarrow> bool" where
  "first_answer parse ops i v s t \<longleftrightarrow>
     (\<exists>ls line. lines_read ops (ls @ [line]) s t \<and> list_all (skipped parse i) ls \<and> line \<noteq> [] \<and> answer_in parse i line = Some v)"

lemma read_response_finds:
  assumes "lines_read ops ls s t" and "list_all (skipped parse i) ls0" and "ls = ls0 @ [line]" and "line \<noteq> []"
    and "answer_in parse i line = Some v"
  shows "read_response parse ops i s = Some (Inr v, t)"
  using assms
proof (induction arbitrary: ls0 rule: lines_read.induct)
  case (read_one s l p ls t)
  show ?case
  proof (cases ls0)
    case Nil
    then have "l = line" "t = s\<lparr>mcp_child := p\<rparr>" using read_one by (auto elim: lines_read.cases)
    then show ?thesis using read_one by (subst read_response_unfold) simp
  next
    case (Cons a ls1)
    then have "read_response parse ops i (s\<lparr>mcp_child := p\<rparr>) = Some (Inr v, t)" "skipped parse i l"
      using read_one.IH [of ls1] read_one.prems by simp_all
    then show ?thesis using read_one.hyps by (subst read_response_unfold) (simp add: skipped_def)
  qed
qed simp

lemma first_answer_here:
  "ch_read_line ops (mcp_child s) = Some (Inr line, p) \<Longrightarrow> line \<noteq> [] \<Longrightarrow> answer_in parse i line = Some v \<Longrightarrow>
    first_answer parse ops i v s (s\<lparr>mcp_child := p\<rparr>)"
  unfolding first_answer_def by (intro exI [of _ "[]"] exI [of _ line]) (auto intro: lines_read.intros)

lemma first_answer_later:
  assumes "ch_read_line ops (mcp_child s) = Some (Inr line, p)" and "skipped parse i line"
    and "first_answer parse ops i v (s\<lparr>mcp_child := p\<rparr>) t"
  shows "first_answer parse ops i v s t"
proof -
  obtain ls l where "lines_read ops (ls @ [l]) (s\<lparr>mcp_child := p\<rparr>) t" "list_all (skipped parse i) ls" "l \<noteq> []"
      "answer_in parse i l = Some v"
    using assms(3) unfolding first_answer_def by blast
  then show ?thesis
    unfolding first_answer_def using assms(1,2) by (intro exI [of _ "line # ls"] exI [of _ l]) (auto intro: read_one)
qed


lemma read_response_found:
  fixes ops :: "'p child_ops"
  assumes "read_response parse ops i s = Some (Inr v, t)"
  shows "first_answer parse ops i v s t"
proof -
  let ?P = "\<lambda>parse (ops :: 'p child_ops) i s (y :: (string + json) \<times> 'p stdio_mcp). \<forall>v. fst y = Inr v \<longrightarrow> first_answer parse ops i v s (snd y)"
  have step: "?P parse ops i s y" if
    IH: "\<And>parse ops i s y. rr parse ops i s = Some y \<Longrightarrow> ?P parse ops i s y" and
    run: "Option.bind (ch_read_line ops (mcp_child s)) (\<lambda>(r, p).
        let s' = s\<lparr>mcp_child := p\<rparr>
        in case r of
             Inl e \<Rightarrow> Some (Inl e, s')
           | Inr line \<Rightarrow>
               if line = [] then Some (Inl (closed_stdout i), s')
               else case answer_in parse i line of
                      Some v \<Rightarrow> Some (Inr v, s')
                    | None \<Rightarrow> rr parse ops i s') = Some y" for rr parse ops i s y
  proof -
    obtain r p where read: "ch_read_line ops (mcp_child s) = Some (r, p)" using run by (auto simp: bind_eq_Some_conv)
    show "?P parse ops i s y"
    proof (cases r)
      case (Inl e)
      then show ?thesis using run read by auto
    next
      case (Inr line)
      show ?thesis
      proof (cases "line = [] \<or> answer_in parse i line \<noteq> None")
        case True
        then show ?thesis using run read Inr first_answer_here [of ops s line p parse i] by (auto simp: Let_def split: if_splits)
      next
        case False
        then have "rr parse ops i (s\<lparr>mcp_child := p\<rparr>) = Some y" using run read Inr by simp
        then show ?thesis
          using IH first_answer_later [of ops s line p parse i] read Inr False by (auto simp: skipped_def)
      qed
    qed
  qed
  have "?P parse ops i s (Inr v, t)"
  proof (rule read_response.raw_induct [where P = ?P, OF _ assms], goal_cases)
    case (1 rr parse ops i s y)
    then show ?case by (rule step)
  qed
  then show ?thesis by simp
qed

lemma read_response_iff: "read_response parse ops i s = Some (Inr v, t) \<longleftrightarrow> first_answer parse ops i v s t"
  using read_response_found read_response_finds unfolding first_answer_def by blast

lemma first_answer_unique: "first_answer parse ops i v s t \<Longrightarrow> first_answer parse ops i w s u \<Longrightarrow> v = w \<and> t = u"
  by (simp flip: read_response_iff)

text \<open>The line a call writes, flushed.\<close>

definition request_sent :: "(json \<Rightarrow> string) \<Rightarrow> 'p child_ops \<Rightarrow> json \<Rightarrow> 'p stdio_mcp \<Rightarrow> 'p stdio_mcp \<Rightarrow> bool" where
  "request_sent to_string ops message s t \<longleftrightarrow>
     (\<exists>p1 p2 p3. ch_write_all ops (to_string message) (mcp_child s) = (Inr (), p1) \<and> ch_write_all ops newline p1 = (Inr (), p2) \<and>
        ch_flush ops p2 = (Inr (), p3) \<and> t = s\<lparr>mcp_child := p3\<rparr>)"

lemma send_message_iff: "send_message to_string ops message s = Some (Inr (), t) \<longleftrightarrow> request_sent to_string ops message s t"
  by (auto simp: send_message_def and_then_def on_child_def request_sent_def split: prod.splits sum.splits)

text \<open>A call: its request goes out with the next id, and what comes back is the first answer with that id.\<close>

definition answered_call :: "(string \<Rightarrow> json option) \<Rightarrow> (json \<Rightarrow> string) \<Rightarrow> 'p child_ops \<Rightarrow> (i64 \<Rightarrow> json) \<Rightarrow> json \<Rightarrow>
    'p stdio_mcp \<Rightarrow> 'p stdio_mcp \<Rightarrow> bool" where
  "answered_call parse to_string ops request v s t \<longleftrightarrow>
     mcp_next_id s \<noteq> i64_max \<and>
     (\<exists>s1. request_sent to_string ops (request (mcp_next_id s)) (s\<lparr>mcp_next_id := mcp_next_id s + 1\<rparr>) s1 \<and>
        first_answer parse ops (mcp_next_id s) v s1 t)"

lemma answered_call_iff:
  "and_then alloc_id (\<lambda>i. and_then (send_message to_string ops (request i)) (\<lambda>_. read_response parse ops i)) s = Some (Inr v, t) \<longleftrightarrow>
   answered_call parse to_string ops request v s t"
proof
  assume "and_then alloc_id (\<lambda>i. and_then (send_message to_string ops (request i)) (\<lambda>_. read_response parse ops i)) s = Some (Inr v, t)"
  then obtain i s1 where i: "alloc_id s = Some (Inr i, s1)"
      and rest: "and_then (send_message to_string ops (request i)) (\<lambda>_. read_response parse ops i) s1 = Some (Inr v, t)"
    by (rule and_then_SomeE)
  from rest obtain u s2 where "send_message to_string ops (request i) s1 = Some (Inr u, s2)" "read_response parse ops i s2 = Some (Inr v, t)"
    by (rule and_then_SomeE)
  with i show "answered_call parse to_string ops request v s t"
    unfolding answered_call_def
    by (auto simp: alloc_id_def read_response_iff send_message_iff [symmetric] split: if_splits)
next
  assume "answered_call parse to_string ops request v s t"
  then obtain s1 where "mcp_next_id s \<noteq> i64_max" "send_message to_string ops (request (mcp_next_id s)) (s\<lparr>mcp_next_id := mcp_next_id s + 1\<rparr>) = Some (Inr (), s1)"
      "read_response parse ops (mcp_next_id s) s1 = Some (Inr v, t)"
    by (auto simp: answered_call_def send_message_iff read_response_iff)
  then show "and_then alloc_id (\<lambda>i. and_then (send_message to_string ops (request i)) (\<lambda>_. read_response parse ops i)) s = Some (Inr v, t)"
    by (simp add: and_then_def alloc_id_def)
qed

lemma and_then_assoc: "and_then (and_then m f) g = and_then m (\<lambda>a. and_then (f a) g)"
proof
  fix s
  show "and_then (and_then m f) g s = and_then m (\<lambda>a. and_then (f a) g) s"
  proof (cases "m s")
    case (Some x)
    then show ?thesis by (cases x; cases "fst x") (auto simp: and_then_def)
  qed (simp add: and_then_def)
qed

lemma and_then_returning: "and_then m (\<lambda>a. returning (f a)) s = Some (Inr b, t) \<longleftrightarrow> (\<exists>a. m s = Some (Inr a, t) \<and> b = f a)"
proof (cases "m s")
  case (Some x)
  then show ?thesis by (cases x; cases "fst x") (auto simp: and_then_def returning_def)
qed (simp add: and_then_def)

lemma call_tool_over_stdio_iff:
  "call_tool_over_stdio parse to_string ops name arguments s = Some (Inr r, t) \<longleftrightarrow>
   (\<exists>v. answered_call parse to_string ops (call_request name arguments) v s t \<and> r = tool_call_result_of parse v)"
  unfolding call_tool_over_stdio_def answered_call_iff [symmetric] and_then_assoc [symmetric] and_then_returning ..

end
