(* ===== verification/Test_Harness.thy ===== *)
theory Test_Harness
  imports Debug_Mcp Stdio_Client
begin

text \<open>
  The harness of the integration tests, \<open>integration-tests/src/harness.rs\<close>: the real server called in the
  process, with a bound on every call and the assertions the tests make on an outcome; and the agreement of
  what it sees with what the client over standard input and output sees of the same call.
\<close>

section \<open>The server in the process\<close>

definition server_call :: "host \<Rightarrow> ('h, 'w) backend_ops \<Rightarrow> 'w cancel \<Rightarrow> string \<Rightarrow> ('h, 'w) handler" where
  "server_call ho ops ct name a sv w = dispatch ho ops ct name a sv w"

definition DEFAULT_CALL_TIMEOUT :: nat where
  "DEFAULT_CALL_TIMEOUT = 30"

text \<open>The token of the harness is never cancelled: its calls are made with \<open>None\<close>.\<close>

definition harness_new :: "('w, 'h) call \<Rightarrow> ('h, 'w) server" where
  "harness_new lldb = server_new session_new (register (lldb_factory lldb) (registry_new ''lldb''))"

definition harness_new_windbg :: "('w, 'h) call \<Rightarrow> ('h, 'w) server" where
  "harness_new_windbg windbg = server_new session_new (register (windbg_factory windbg) (registry_new ''windbg''))"

definition harness_state :: "('h, 'w) server \<Rightarrow> state" where
  "harness_state sv = s_state (sv_session sv)"

definition harness_pid :: "('h, 'w) server \<Rightarrow> i64" where
  "harness_pid sv = s_pid (sv_session sv)"

text \<open>The failures of a test, each with what its message is made of.\<close>

datatype test_failure =
    Handler_Hung string nat
  | Not_An_Object string json
  | Plain_Text string string
  | Tool_Error string string
  | Not_An_Error string tool_outcome

text \<open>
  A call under its bound, in seconds.  \<open>late\<close>: the handler had not returned by then, and is dropped where it
  had left the server and the debugger.
\<close>

type_synonym ('h, 'w, 'a) tested = "('h, 'w) server \<Rightarrow> 'w \<Rightarrow> (test_failure + 'a) \<times> ('h, 'w) server \<times> 'w"

definition harness_call :: "host \<Rightarrow> ('h, 'w) backend_ops \<Rightarrow> (('h, 'w) server \<times> 'w) option \<Rightarrow> string \<Rightarrow> args \<Rightarrow> nat \<Rightarrow>
    ('h, 'w, tool_outcome) tested" where
  "harness_call ho ops late name a timeout sv w =
     (case late of
        Some (sv', w') \<Rightarrow> (Inl (Handler_Hung name timeout), sv', w')
      | None \<Rightarrow> (let (out, sv', w') = server_call ho ops None name a sv w in (Inr out, sv', w')))"

definition call_default :: "host \<Rightarrow> ('h, 'w) backend_ops \<Rightarrow> (('h, 'w) server \<times> 'w) option \<Rightarrow> string \<Rightarrow> args \<Rightarrow>
    ('h, 'w, tool_outcome) tested" where
  "call_default ho ops late name a = harness_call ho ops late name a DEFAULT_CALL_TIMEOUT"

definition obj :: "(string \<times> json) list \<Rightarrow> args" where
  "obj pairs = fold (\<lambda>(k, v). obj_insert k v) pairs []"

fun expect_json_obj :: "string \<Rightarrow> tool_outcome \<Rightarrow> test_failure + args" where
  "expect_json_obj label (Json (JObj m)) = Inr m"
| "expect_json_obj label (Json other) = Inl (Not_An_Object label other)"
| "expect_json_obj label (Text t) = Inl (Plain_Text label t)"
| "expect_json_obj label (Error e) = Inl (Tool_Error label e)"

fun expect_error :: "string \<Rightarrow> tool_outcome \<Rightarrow> test_failure + string" where
  "expect_error label (Error m) = Inr m"
| "expect_error label other = Inl (Not_An_Error label other)"

definition expecting :: "(tool_outcome \<Rightarrow> test_failure + 'a) \<Rightarrow> ('h, 'w, tool_outcome) tested \<Rightarrow> ('h, 'w, 'a) tested" where
  "expecting expect m sv w = (case m sv w of (r, sv', w') \<Rightarrow> (case r of Inl e \<Rightarrow> Inl e | Inr out \<Rightarrow> expect out, sv', w'))"

definition launch_fixture :: "host \<Rightarrow> ('h, 'w) backend_ops \<Rightarrow> (('h, 'w) server \<times> 'w) option \<Rightarrow> string \<Rightarrow> ('h, 'w, args) tested" where
  "launch_fixture ho ops late fixture =
     expecting (expect_json_obj ''launch'')
       (harness_call ho ops late ''launch'' (obj [(''program'', JStr fixture), (''stop_on_entry'', JBool True)]) 30)"

definition launch_windbg :: "(json \<Rightarrow> string) \<Rightarrow> host \<Rightarrow> ('h, 'w) backend_ops \<Rightarrow> (('h, 'w) server \<times> 'w) option \<Rightarrow> string \<Rightarrow>
    string \<Rightarrow> ('h, 'w, args) tested" where
  "launch_windbg to_string ho ops late fixture mode =
     (let args_json = to_string (JArr [JStr mode])
      in expecting (expect_json_obj ''launch'')
           (harness_call ho ops late ''launch'' (obj [(''program'', JStr fixture), (''args'', JStr args_json)]) 30))"

definition continue_fixture :: "host \<Rightarrow> ('h, 'w) backend_ops \<Rightarrow> (('h, 'w) server \<times> 'w) option \<Rightarrow> ('h, 'w, args) tested" where
  "continue_fixture ho ops late = expecting (expect_json_obj ''continue'') (harness_call ho ops late ''continue'' [] 30)"

definition disconnect_cleanup :: "host \<Rightarrow> ('h, 'w) backend_ops \<Rightarrow> (('h, 'w) server \<times> 'w) option \<Rightarrow>
    ('h, 'w) server \<Rightarrow> 'w \<Rightarrow> (test_failure + unit) \<times> ('h, 'w) server \<times> 'w" where
  "disconnect_cleanup ho ops late =
     expecting (\<lambda>_. Inr ()) (harness_call ho ops late ''disconnect'' (obj [(''terminate'', JBool True)]) 10)"

section \<open>When a test is skipped\<close>

text \<open>
  \<open>workspace\<close> is the directory of the repository, which the build fixes; \<open>debug_path\<close> is the rendering of a path
  between quotation marks.  A skipped test logs one line.
\<close>

definition fixture_path :: "string \<Rightarrow> string \<Rightarrow> string" where
  "fixture_path workspace name = path_join (path_join workspace ''testdata'') name"

definition lldb_dap_available :: "os_env \<Rightarrow> bool" where
  "lldb_dap_available os \<longleftrightarrow> (case find_lldb_dap os of Inr _ \<Rightarrow> True | Inl _ \<Rightarrow> False)"

definition windbg_fixture_path :: "string \<Rightarrow> string" where
  "windbg_fixture_path workspace = path_join (path_join (path_join workspace ''testdata'') ''win'') ''test_target.exe''"

definition should_skip_windbg :: "os_env \<Rightarrow> string \<Rightarrow> string \<Rightarrow> bool \<times> string" where
  "should_skip_windbg os workspace test_name =
     (let p = windbg_fixture_path workspace
      in if path_exists os p then (False, [])
         else (True, ''SKIP '' @ test_name @ '': fixture '' @ p @
                 '' not built (run testdata/win/build.bat from a VS x64 Native Tools prompt)''))"

definition fixture_missing :: "(string \<Rightarrow> string) \<Rightarrow> string \<Rightarrow> string" where
  "fixture_missing debug_path p =
     ''fixture '' @ debug_path p @ '' missing '' @ [CHR 0xE2, CHR 0x80, CHR 0x94] @
     '' run `make -C testdata` to build the C fixtures''"

definition live_prereqs :: "(string \<Rightarrow> string) \<Rightarrow> os_env \<Rightarrow> string \<Rightarrow> string list \<Rightarrow> string + unit" where
  "live_prereqs debug_path os workspace fixtures =
     (if \<not> lldb_dap_available os then Inl ''lldb-dap not found (set LLDB_DAP_PATH or install lldb-dap)''
      else case find (\<lambda>p. \<not> path_exists os p) (map (fixture_path workspace) fixtures) of
             Some p \<Rightarrow> Inl (fixture_missing debug_path p)
           | None \<Rightarrow> Inr ())"

definition should_skip :: "(string \<Rightarrow> string) \<Rightarrow> os_env \<Rightarrow> string \<Rightarrow> string \<Rightarrow> string list \<Rightarrow> bool \<times> string" where
  "should_skip debug_path os workspace test_name fixtures =
     (case live_prereqs debug_path os workspace fixtures of
        Inr _ \<Rightarrow> (False, [])
      | Inl reason \<Rightarrow> (True, ''SKIP '' @ test_name @ '': '' @ reason))"

section \<open>The harness drives the server of the binary\<close>

lemma harness_serves_the_same:
  "harness_new lldb = server_new session_new (native_registry False lldb windbg)"
  "harness_new_windbg windbg = server_new session_new (native_registry True lldb windbg)"
  by (simp_all add: harness_new_def harness_new_windbg_def native_registry_def default_backend_for_os_def)

text \<open>The mode of the Windows fixture reaches the debugger as the one argument of its program.\<close>

lemma should_skip_iff:
  "fst (should_skip debug_path os workspace test_name fixtures) \<longleftrightarrow>
     \<not> lldb_dap_available os \<or> (\<exists>name \<in> set fixtures. \<not> path_exists os (fixture_path workspace name))"
  by (auto simp: should_skip_def live_prereqs_def find_None_iff split: option.splits dest!: find_SomeD)

section \<open>What both clients see\<close>

text \<open>What MCP documents of the response to a tool call: its result carries the text of its first content, and whether
  it is an error.\<close>

definition carries_result :: "json \<Rightarrow> call_result \<Rightarrow> bool" where
  "carries_result v res \<longleftrightarrow>
     (\<exists>result c rest. jget v ''result'' = Some result \<and> jget result ''isError'' = Some (JBool (cr_is_error res)) \<and>
        jget result ''content'' = Some (JArr (c # rest)) \<and> jget c ''text'' = Some (JStr (cr_text res)))"

lemma carried_result: "carries_result v res \<Longrightarrow> tool_call_result_of parse v =
    \<lparr>tc_is_error = cr_is_error res, tc_text = cr_text res, tc_json = parse (cr_text res)\<rparr>"
  by (auto simp: carries_result_def tool_call_result_of_def Let_def)

lemma expect_json_objE:
  assumes "expect_json_obj label out = Inr m" obtains "out = Json (JObj m)"
  using assms by (cases "(label, out)" rule: expect_json_obj.cases) simp_all

lemma expect_error_iff: "expect_error label out = Inr e \<longleftrightarrow> out = Error e"
  by (cases out) simp_all

text \<open>C27: The client over standard input and output and the harness in the process see the same of a call.  The
  lines of logs, notifications and answers to other requests that come first are skipped; then, if the server
  answers with what MCP documents for the result of the tool, the client gives the error exactly when the harness
  sees one, with the same message, and the same object whenever the harness sees an object; and the next
  request has the next id.\<close>

theorem both_harnesses_agree:
  assumes sent: "request_sent to_string ops (call_request name (JObj a) (mcp_next_id s))
      (s\<lparr>mcp_next_id := mcp_next_id s + 1\<rparr>) s1" and "mcp_next_id s < i64_max"
    and "lines_read ops (ls @ [line]) s1 t" and "list_all (skipped parse (mcp_next_id s)) ls"
    and "line \<noteq> []" and "answer_in parse (mcp_next_id s) line = Some v"
    and "carries_result v (fst (call_tool to_string ho bops None name (Some a) sv w))"
    and "harness_call ho bops None name a timeout sv w = (Inr out, sv', w')"
    and serde: "\<And>m. out = Json (JObj m) \<Longrightarrow> parse (to_string (JObj m)) = Some (JObj m)"
  shows "\<exists>r. call_tool_over_stdio parse to_string ops name (JObj a) s = Some (Inr r, t) \<and>
    (tc_is_error r \<longleftrightarrow> is_error out) \<and>
    (\<forall>e. expect_error label out = Inr e \<longleftrightarrow> tc_is_error r \<and> tc_text r = e) \<and>
    (\<forall>m. expect_json_obj label out = Inr m \<longrightarrow> tc_json r = Some (JObj m)) \<and>
    mcp_next_id t = mcp_next_id s + 1"
proof -
  have "first_answer parse ops (mcp_next_id s) v s1 t"
    unfolding first_answer_def using assms(3-6) by blast
  then have call: "call_tool_over_stdio parse to_string ops name (JObj a) s = Some (Inr (tool_call_result_of parse v), t)"
    using sent assms(2) by (auto simp: call_tool_over_stdio_iff answered_call_def)
  have "fst (call_tool to_string ho bops None name (Some a) sv w) = outcome_to_result to_string out"
    using assms(8) by (auto simp: harness_call_def server_call_def call_tool_def split: prod.splits)
  then have r: "tool_call_result_of parse v = \<lparr>tc_is_error = cr_is_error (outcome_to_result to_string out),
      tc_text = cr_text (outcome_to_result to_string out), tc_json = parse (cr_text (outcome_to_result to_string out))\<rparr>"
    using carried_result [OF assms(7)] by simp
  have "mcp_next_id t = mcp_next_id s + 1"
    using lines_read_keeps_id [OF assms(3)] sent by (auto simp: request_sent_def)
  then show ?thesis
    unfolding call using serde by (cases out) (auto simp: r expect_error_iff elim: expect_json_objE)
qed

text \<open>A child that has a log line and the answer to \<open>status\<close> to give.\<close>

definition lines_child :: "string list child_ops" where
  "lines_child = \<lparr>ch_start = \<lambda>_ _ p. (Inr (), p), ch_write_all = \<lambda>_ p. (Inr (), p), ch_flush = \<lambda>p. (Inr (), p),
     ch_read_line = \<lambda>p. Some (case p of [] \<Rightarrow> (Inr [], []) | l # ls \<Rightarrow> (Inr l, ls)), ch_kill = id, ch_wait = id\<rparr>"

definition status_reply :: json where
  "status_reply = JObj [(''id'', JNum (PosInt 1)), (''jsonrpc'', JStr ''2.0''),
     (''result'', JObj [(''content'', JArr [JObj [(''text'', JStr ''text''), (''type'', JStr ''text'')]]), (''isError'', JBool False)])]"

definition demo_parse :: "json \<Rightarrow> string \<Rightarrow> json option" where
  "demo_parse status l = (if l = ''reply'' then Some status_reply else if l = ''text'' then Some status else None)"

lemma ascii_trim: "trim ''log'' = ''log''" "trim ''reply'' = ''reply''"
  by code_simp+

theorem both_harnesses_agree_witness:
  "\<exists>m r t. call_tool_over_stdio (demo_parse (JObj m)) (\<lambda>_. ''text'') lines_child ''status'' (JObj [])
      \<lparr>mcp_child = [''log'', ''reply''], mcp_next_id = 1\<rparr> = Some (Inr r, t) \<and>
     \<not> tc_is_error r \<and> tc_json r = Some (JObj m) \<and> mcp_next_id t = 2"
proof -
  let ?s = "\<lparr>mcp_child = [''log'', ''reply''], mcp_next_id = 1\<rparr> :: string list stdio_mcp"
  let ?s1 = "?s\<lparr>mcp_next_id := 2\<rparr>"
  let ?t = "\<lparr>mcp_child = [], mcp_next_id = 2\<rparr> :: string list stdio_mcp"
  define sv :: "(unit, nat) server" where "sv = harness_new_windbg (\<lambda>w. (Inl Closed, w))"
  obtain m where m: "handle_status [] sv (0 :: nat) = (Json (JObj m), sv, 0)"
    by (simp add: handle_status_def rb_into_outcome_def rb_build_def Let_def)
  let ?bops = "undefined :: (unit, nat) backend_ops"
  let ?ho = "undefined :: host"
  let ?parse = "demo_parse (JObj m)"
  have dispatched: "dispatch ?ho ?bops None ''status'' [] sv 0 = (Json (JObj m), sv, 0)" by (simp add: dispatch_def m)
  have "request_sent (\<lambda>_. ''text'') lines_child (call_request ''status'' (JObj []) (mcp_next_id ?s)) (?s\<lparr>mcp_next_id := mcp_next_id ?s + 1\<rparr>) ?s1"
    by (simp add: request_sent_def lines_child_def)
  moreover have "lines_read lines_child ([''log''] @ [''reply'']) ?s1 ?t"
    by (auto simp: lines_child_def intro!: lines_read.intros)
  moreover have "list_all (skipped ?parse (mcp_next_id ?s)) [''log'']"
    by (simp add: skipped_def answer_in_def ascii_trim demo_parse_def)
  moreover have "answer_in ?parse (mcp_next_id ?s) ''reply'' = Some status_reply"
    by (simp add: answer_in_def ascii_trim demo_parse_def status_reply_def i64_max_def)
  moreover have "carries_result status_reply (fst (call_tool (\<lambda>_. ''text'') ?ho ?bops None ''status'' (Some []) sv 0))"
    by (simp add: call_tool_def dispatched carries_result_def status_reply_def)
  moreover have "harness_call ?ho ?bops None ''status'' [] 30 sv 0 = (Inr (Json (JObj m)), sv, 0)"
    by (simp add: harness_call_def server_call_def dispatched)
  moreover have "?parse ''text'' = Some (JObj m)" by (simp add: demo_parse_def)
  ultimately obtain r where "call_tool_over_stdio ?parse (\<lambda>_. ''text'') lines_child ''status'' (JObj []) ?s = Some (Inr r, ?t)"
      "\<not> tc_is_error r" "tc_json r = Some (JObj m)"
    using both_harnesses_agree [of "\<lambda>_. ''text''" lines_child "''status''" "[]" ?s ?s1 "[''log'']" "''reply''" ?t ?parse status_reply
        ?ho ?bops sv 0 30 "Json (JObj m)" sv 0 "''status''"]
    by (auto simp: i64_max_def)
  then show ?thesis by (intro exI [of _ m] exI [of _ r] exI [of _ ?t]) simp
qed

end
