(* ===== verification/Spec2Isabelle.thy ===== *)
theory Spec2Isabelle
  imports Session_Properties Server_Properties Tool_Properties Breakpoint_Properties Inspection_Properties
    Transport_Properties Windbg_Properties Lldb_Properties Pipeline_Properties Dbgeng_System Engine_Commands
    Windows_Properties Unix_Properties Test_Harness
begin

text \<open>
  A verification of \<open>debug-mcp\<close>, a server that gives a debugger to a client of the Model Context Protocol.
  The program is the Rust workspace under \<open>src/crates\<close>; names below are those of its crates and files.

  \<^bold>\<open>The program.\<close>  A client calls one of 25 tools.  The tool server (\<open>mcp-tools\<close>) checks the state of the
  session (\<open>mcp-session\<close>: a machine of five states, a generation that counts the sessions, the breakpoints,
  the captured output), reads the arguments, asks the connected debugger through the trait
  \<open>DebuggerBackend\<close> (\<open>debugger-core\<close>) and renders the answer.  There are two debuggers.  \<open>lldb-backend\<close> starts
  \<open>lldb-dap\<close> and speaks the Debug Adapter Protocol with it over \<open>dap-client\<close>: a framing, a table of pending
  requests, a task that reads.  \<open>windbg-backend\<close> sends commands to one thread that owns the engine handle of
  \<open>dbgeng-sys\<close>, which calls the COM interfaces of Windows' debugger engine, DbgEng.  Either gives a stream of
  events that a task of the session, the event pump, drains.  Calls may overlap: a \<open>continue\<close> is cut at its
  wait, and a \<open>disconnect\<close> may overtake it.

  \<^bold>\<open>Theories and sources.\<close>

  \<^item> \<open>Prelude\<close>, \<open>Text\<close>, \<open>Json\<close>: what the sources use of the standard library and of \<open>serde_json\<close>'s values: strings
    as lists of UTF-8 bytes, \<open>HashMap\<close> as an association list in an arbitrary order, integer parsing, trimming,
    lossy decoding, JSON values with their coercions.  \<open>Core_Types\<close>: \<open>debugger-core\<close>; the trait is the record
    \<open>backend_ops\<close> of operations on a handle and on a world that stands for the debugger outside.
  \<^item> \<open>Output_Buffer\<close>, \<open>Session\<close>, \<open>Session_Facts\<close>, \<open>Event_Pump\<close>, \<open>Session_Properties\<close>: \<open>mcp-session\<close>.  A method is one
    function on the record \<open>session\<close>, because it holds one lock.
  \<^item> \<open>Tool_Args\<close>, \<open>Tool_Errors\<close>, \<open>Registry\<close>, \<open>Formatting\<close>, \<open>Flatten\<close>, \<open>Schema\<close>: the parts of \<open>mcp-tools\<close> of the same
    names.  \<open>Server\<close>: the state of the tool server and frame resolution; \<open>Tool_Contract\<close>: the locales every handler
    is an instance of; \<open>Handlers_Lifecycle\<close>, \<open>Handlers_Execution\<close>, \<open>Handlers_Breakpoints\<close>, \<open>Handlers_Inspection\<close>: the
    handlers; \<open>Dispatch\<close>: the dispatch by name.  \<open>Server_Steps\<close>: runs of the server, whole calls or calls cut at
    their waits, interleaved with the pumps.  \<open>Examples\<close>: a small debugger for concrete runs.
    \<open>Server_Properties\<close>, \<open>Tool_Properties\<close>, \<open>Breakpoint_Properties\<close>, \<open>Inspection_Properties\<close>: what is proved of them.
  \<^item> \<open>Oneshot\<close>, \<open>Wire\<close>, \<open>Dap_Client\<close>, \<open>Read_Loop\<close>, \<open>Transport_Properties\<close>: \<open>dap-client\<close>.  A one-shot channel is a cell
    of a list; a run is any sequence of the critical sections of senders, waiters and of the reading task.
  \<^item> \<open>Lldb_Requests\<close>, \<open>Lldb_Body\<close>, \<open>Lldb_Backend\<close>, \<open>Lldb_Detect\<close>, \<open>Lldb_Link\<close>, \<open>Lldb_Facts\<close>, \<open>Lldb_Properties\<close>: \<open>lldb-backend\<close>,
    first over a record of what it uses of its surroundings, then (\<open>Lldb_Link\<close>) on the transport.
    \<open>Pipeline_Properties\<close>: from the adapter's bytes to the session.
  \<^item> \<open>Engine_Thread\<close>, \<open>Windbg_Backend\<close>, \<open>Windbg_Factory\<close>, \<open>Windbg_Facts\<close>, \<open>Windbg_Properties\<close>: \<open>windbg-backend\<close>.
  \<^item> \<open>Dbgeng_Callbacks\<close>, \<open>Dbgeng_Text\<close>, \<open>Dbgeng_Com\<close>, \<open>Dbgeng_Engine\<close>, \<open>Dbgeng_Execution\<close>, \<open>Dbgeng_System\<close>, \<open>Dbgeng_Facts\<close>,
    \<open>Dbgeng_Properties\<close>: \<open>dbgeng-sys\<close>.  \<open>Windbg_Engine\<close>: the backend's operations on the engine handle.
    \<open>Engine_Commands\<close>: the commands as data and the bounded channel that the calls share with the thread (\<open>thread.rs\<close>).
  \<^item> \<open>Debug_Mcp\<close>: the binary.
  \<^item> \<open>Steady_World\<close>, \<open>Tool_Shapes\<close>, \<open>Told_Server\<close>: what the tools make of any debugger that keeps a property, tool by tool.
    \<open>Windbg_Server\<close>, \<open>Windows_Properties\<close>: the tool server of the Windows binary on the WinDbg backend.  \<open>Lldb_Server\<close>,
    \<open>Unix_Properties\<close>: that of the Unix binary on the LLDB backend.
  \<^item> \<open>Stdio_Client\<close>, \<open>Test_Harness\<close>: \<open>integration-tests\<close>, the two ways in which the live tests drive a server.

  \<^bold>\<open>What is shown.\<close>  \<^emph>\<open>Session and server\<close>: calls one after the other keep the invariant that a debugger is connected
  exactly when the session is not idle, and the generation of its pump is the session's; overlapping calls keep
  the weaker invariant; what an overtaken answer changes of the new session; the guards of every tool; that
  a connection that fails leaves a fresh session unless it was refused before it began, that a crash-dump session is static, that reading tools change
  nothing but the frame map, that a refused breakpoint changes nothing.  \<^emph>\<open>Parts\<close>: the output buffer keeps the longest
  suffix that fits; the flattener equals a prefix of the preorder of the cut tree and respects its bounds.
  \<^emph>\<open>Transport\<close>: framing is a round trip; answers reach the sender of their request and nobody else whatever is interleaved; the
  reading task ends on every input, dispatches every whole frame in order, and releases whoever waits.
  \<^emph>\<open>LLDB\<close>: the handshakes follow a fixed script for every adapter and send nothing after a failure; which stops are never
  missed and which are; what makes a launch hang; detection is the documented chain.  \<^emph>\<open>WinDbg\<close>: reconciliation refines the replacement of a set of
  locations, the launch flush is exact; after the death of the engine's thread every command answers that it is closed; the event
  stream is ordered and ends.  \<^emph>\<open>DbgEng\<close>: conditional breakpoints filter the stops; a run returns, and when it says that the target
  is running it is after the timeout and without an interrupt; the attach points clear the initial break; a
  command's output is its own; a report is cut on a character boundary; its breakpoints are the pool that the backend's
  theorems suppose, so that the backend's table agrees with DbgEng itself, for the ids above 0.  \<^emph>\<open>Command channel\<close>: however calls and
  interrupts interleave, commands run in their order, an answer is that of its own command, and nobody waits on a dead thread.
  \<^emph>\<open>From end to end\<close>: on Windows, over whole runs of the tools, the engine's breakpoints with an id above 0 are exactly those of the
  backend's table and each of them is in the session's list; one huge \<open>disassemble\<close> ends a session.  On Unix, the last list of a
  file's breakpoints that the adapter took is the session's, as long as every call returned and every list taken was
  answered with its breakpoints.  \<^emph>\<open>Tests\<close>: the client over
  standard input and output and the harness in the process see the same of a call.
  The theorems that state a defect (a stale session overwritten, a breakpoint leaked, a stop missed, a run starved) are
  proved of the same definitions.

  \<^bold>\<open>Parameters and conventions.\<close>  Code outside the repository is an argument: parsing and printing JSON texts, base64,
  \<open>to_lowercase\<close>, the wording of serde's and of the system's errors, the environment and the file system, the
  debugger behind \<open>backend_ops\<close>, the adapter (the bytes it delivers), DbgEng (records of functions over a state \<open>'d\<close> that stands for
  the debugger, the target and the clock; a call also says which callbacks came on other threads meanwhile).
  What a theorem supposes of them is a named hypothesis (\<open>pool_engine\<close>, \<open>prompt\<close>, \<open>breaks_at\<close> and others), and its
  witness gives a concrete instance.  The methods of one mutex are atomic; an \<open>await\<close> splits a function in two.
  A call that never returns is the value \<open>None\<close> of an option; loops that may not end are \<open>partial_function\<close>, the reading task
  is a recursion on the bytes that are left, the flattener has its own depth bound.  There is no fuel: every other
  recursion is structural or has a measure.  The generation is a 64-bit word and wraps: what depends on it is stated for fewer than \<open>2^64\<close> resets.
  Integers have the range of their Rust type (\<open>word\<close> where they wrap, \<open>int\<close> with saturation or a range check where the source
  checks).  Memory is not exhausted, but reserving more than \<open>isize::MAX\<close> bytes panics, as it does in Rust; an
  instruction takes 128 bytes.

  \<^bold>\<open>Not modelled.\<close>  The transport of the \<open>rmcp\<close> library, starting and killing the adapter's process, logging to standard
  error, and the registration of callback objects with COM, which are calls into libraries without logic of their own.
  In the harness the repository's root, the wording of Rust's debug format and what the operating system does with a child
  are parameters.  The unit and live tests themselves are not the program.  The runs of the two servers leave out cancelled
  calls, those of Windows also \<open>run_command\<close>, which may do anything to the engine, and requests that would list a location
  twice (the second is leaked by a launch, as the findings say); on Unix a call that never returns, or a list that is taken but not answered with its
  breakpoints, ends what is claimed.  DbgEng gives the id 0 first, which the backend reads as no breakpoint: what is said of
  table and engine counts the ids above 0 (\<open>pool_engine_on\<close>, \<open>table_exact_on\<close>), and the leak of the breakpoint 0 is a
  theorem of its own.
  An interrupt that comes while an engine operation runs is part of that operation's answer.  What Windows' scheduler does
  between the engine's thread and its callbacks is seen only through the callbacks that a call reports.
\<close>

end
